(* ===== verification/Prelude.thy ===== *)
theory Prelude
  imports Main "HOL-Library.Sublist"
begin

text \<open>
  What every component of the development shares: character classes, the text
  operations that the browser script and the server both use (collapsing runs of
  characters, trimming, splitting, joining, decimal numerals), and the lemmas about
  them. A JavaScript string is a list of code units in the range 0 to 255, a Go string a
  list of bytes; both are the type \<open>string\<close>.
\<close>

named_theorems eval_simps \<open>definitions the simplifier unfolds to evaluate closed terms\<close>
named_theorems text_simps \<open>facts about collapsing, trimming, splitting and joining text\<close>

section \<open>Steps that may fail\<close>

text \<open>\<open>then_try r f\<close> goes on with \<open>f\<close> unless \<open>r\<close> is an error, which skips the rest.\<close>

definition then_try :: "'e + 'a \<Rightarrow> ('a \<Rightarrow> 'e + 'b) \<Rightarrow> 'e + 'b" where
  "then_try r f = (case r of Inl e \<Rightarrow> Inl e | Inr x \<Rightarrow> f x)"

lemma then_try_simps [simp]: "then_try (Inl e) f = Inl e" "then_try (Inr x) f = f x"
  by (simp_all add: then_try_def)

lemma then_try_Inr: "then_try r f = Inr y \<longleftrightarrow> (\<exists>x. r = Inr x \<and> f x = Inr y)"
  by (cases r) simp_all

section \<open>Character classes\<close>

abbreviation code :: "char \<Rightarrow> nat" where
  "code c \<equiv> of_char c"

definition is_lower :: "char \<Rightarrow> bool" where
  "is_lower c \<longleftrightarrow> 97 \<le> code c \<and> code c \<le> 122"

definition is_upper :: "char \<Rightarrow> bool" where
  "is_upper c \<longleftrightarrow> 65 \<le> code c \<and> code c \<le> 90"

definition is_digit :: "char \<Rightarrow> bool" where
  "is_digit c \<longleftrightarrow> 48 \<le> code c \<and> code c \<le> 57"

text \<open>The class \<open>[a-z0-9]\<close> of the regular expressions on both sides.\<close>

definition is_slug_char :: "char \<Rightarrow> bool" where
  "is_slug_char c \<longleftrightarrow> is_lower c \<or> is_digit c"

abbreviation hyphen :: char where
  "hyphen \<equiv> CHR ''-''"

definition is_ascii :: "char \<Rightarrow> bool" where
  "is_ascii c \<longleftrightarrow> code c < 128"

declare is_lower_def [eval_simps] is_upper_def [eval_simps] is_digit_def [eval_simps]
  is_slug_char_def [eval_simps] is_ascii_def [eval_simps]

lemma hyphen_not_slug_char [simp]: "\<not> is_slug_char hyphen"
  by (simp add: is_slug_char_def is_lower_def is_digit_def)

lemma char_of_eq [eval_simps]: "char_of (n :: nat) = c \<longleftrightarrow> n mod 256 = code c"
  by (metis char_of_char of_char_of)

section \<open>Collapsing runs and trimming\<close>

text \<open>
  \<open>replace_runs p r s\<close> replaces every maximal run of characters satisfying \<open>p\<close>
  by \<open>r\<close>: what a global replacement of the regular expression \<open>[...]+\<close> does, in
  JavaScript (\<open>replace\<close> with the flag g) and in Go (\<open>ReplaceAllString\<close>).
\<close>

function replace_runs :: "('a \<Rightarrow> bool) \<Rightarrow> 'a list \<Rightarrow> 'a list \<Rightarrow> 'a list" where
  "replace_runs p r [] = []"
| "replace_runs p r (c # cs) =
     (if p c then r @ replace_runs p r (dropWhile p cs) else c # replace_runs p r cs)"
  by pat_completeness auto
termination
  by (relation "measure (\<lambda>(p, r, s). length s)") (auto simp: le_imp_less_Suc length_dropWhile_le)

text \<open>\<open>strip p s\<close> removes the characters satisfying \<open>p\<close> at both ends.\<close>

definition strip :: "('a \<Rightarrow> bool) \<Rightarrow> 'a list \<Rightarrow> 'a list" where
  "strip p s = rev (dropWhile p (rev (dropWhile p s)))"

abbreviation no_double :: "'a \<Rightarrow> 'a list \<Rightarrow> bool" where
  "no_double h s \<equiv> successively (\<lambda>x y. \<not> (x = h \<and> y = h)) s"

declare strip_def [eval_simps]

lemma set_replace_runs: "set (replace_runs p r s) \<subseteq> {c \<in> set s. \<not> p c} \<union> set r"
  by (induction p r s rule: replace_runs.induct) (auto dest: set_dropWhileD)

lemma dropWhile_stop: "\<not> p x \<Longrightarrow> dropWhile p (us @ x # vs) = dropWhile p us @ x # vs"
  by (induction us) auto

lemma rev_dropWhile_rev:
  assumes "\<not> p x"
  shows "rev (dropWhile p (rev (us @ x # vs))) = us @ x # rev (dropWhile p (rev vs))"
proof -
  have "dropWhile p (rev vs @ x # rev us) = dropWhile p (rev vs) @ x # rev us"
    using assms by (rule dropWhile_stop)
  then show ?thesis by simp
qed

lemma set_dropWhile_subset: "set (dropWhile p s) \<subseteq> set s"
  by (auto dest: set_dropWhileD)

lemma set_strip: "set (strip p s) \<subseteq> set s"
proof -
  have "set (dropWhile p (rev (dropWhile p s))) \<subseteq> set (rev (dropWhile p s))"
    by (rule set_dropWhile_subset)
  also have "\<dots> \<subseteq> set s" by (simp add: set_dropWhile_subset)
  finally show ?thesis by (simp add: strip_def)
qed

lemma strip_hd: "strip p s \<noteq> [] \<Longrightarrow> \<not> p (hd (strip p s))"
proof -
  let ?t = "dropWhile p s"
  assume ne: "strip p s \<noteq> []"
  obtain us where "rev ?t = us @ dropWhile p (rev ?t)"
    by (metis takeWhile_dropWhile_id)
  then have split: "?t = strip p s @ rev us"
    by (metis strip_def rev_append rev_rev_ident)
  with ne have "?t \<noteq> []" and "hd ?t = hd (strip p s)" by simp_all
  then show ?thesis by (metis hd_dropWhile)
qed

lemma strip_last: "strip p s \<noteq> [] \<Longrightarrow> \<not> p (last (strip p s))"
  unfolding strip_def by (metis hd_dropWhile last_rev rev_is_Nil_conv)

lemma strip_append: "\<exists>us vs. s = us @ strip p s @ vs \<and> (\<forall>c \<in> set us. p c) \<and> (\<forall>c \<in> set vs. p c)"
proof -
  let ?t = "dropWhile p s"
  have 1: "s = takeWhile p s @ ?t" by simp
  have "rev ?t = takeWhile p (rev ?t) @ dropWhile p (rev ?t)" by simp
  then have 2: "?t = strip p s @ rev (takeWhile p (rev ?t))"
    by (metis strip_def rev_append rev_rev_ident)
  have "\<forall>c \<in> set (takeWhile p s). p c" by (auto dest: set_takeWhileD)
  moreover have "\<forall>c \<in> set (rev (takeWhile p (rev ?t))). p c" by (auto dest: set_takeWhileD)
  ultimately show ?thesis using 1 2 by metis
qed

lemma strip_id:
  assumes "s \<noteq> [] \<Longrightarrow> \<not> p (hd s)" and "s \<noteq> [] \<Longrightarrow> \<not> p (last s)"
  shows "strip p s = s"
proof (cases "s = []")
  case False
  then have "dropWhile p s = s" using assms(1) by (cases s) auto
  moreover have "dropWhile p (rev s) = rev s"
    using False assms(2) by (cases s rule: rev_cases) auto
  ultimately show ?thesis by (simp add: strip_def)
qed (simp add: strip_def)

lemma strip_none: "(\<And>c. c \<in> set s \<Longrightarrow> \<not> p c) \<Longrightarrow> strip p s = s"
  by (rule strip_id) (simp_all add: list.set_sel last_in_set)

lemma length_strip: "length (strip p s) \<le> length s"
proof -
  have "length (dropWhile p (rev (dropWhile p s))) \<le> length (rev (dropWhile p s))"
    by (rule length_dropWhile_le)
  also have "\<dots> \<le> length s" by (simp add: length_dropWhile_le)
  finally show ?thesis by (simp add: strip_def)
qed

section \<open>No two separators in a row\<close>

lemma no_double_append:
  "no_double h (xs @ ys) \<Longrightarrow> no_double h xs \<and> no_double h ys"
  by (simp add: successively_append_iff)

lemma no_double_strip:
  assumes "no_double h s"
  shows "no_double h (strip p s)"
proof -
  obtain us vs where "s = us @ strip p s @ vs" using strip_append [of s p] by blast
  with assms have "no_double h (us @ strip p s @ vs)" by metis
  then show ?thesis using no_double_append by metis
qed

lemma no_double_take: "no_double h s \<Longrightarrow> no_double h (take n s)"
  by (metis append_take_drop_id no_double_append)

lemma sublist_double_iff: "sublist [h, h] s \<longleftrightarrow> \<not> no_double h s"
proof (induction s)
  case (Cons x xs)
  show ?case by (cases xs) (use Cons in \<open>auto simp: sublist_Cons_right\<close>)
qed simp

lemma hd_replace_runs_dropWhile:
  "replace_runs p r (dropWhile p cs) \<noteq> [] \<Longrightarrow> \<not> p (hd (replace_runs p r (dropWhile p cs)))"
proof (cases "dropWhile p cs")
  case (Cons d ds)
  then have "\<not> p d" by (metis hd_dropWhile list.discI list.sel(1))
  with Cons show ?thesis by simp
qed simp

lemma replace_runs_no_double: "p h \<Longrightarrow> no_double h (replace_runs p [h] s)"
proof (induction s rule: length_induct)
  case (1 s)
  show ?case
  proof (cases s)
    case (Cons c cs)
    have len: "length (dropWhile p cs) < length s"
      by (simp add: Cons le_imp_less_Suc length_dropWhile_le)
    show ?thesis
    proof (cases "p c")
      case True
      let ?rest = "replace_runs p [h] (dropWhile p cs)"
      have rec: "no_double h ?rest" using 1 len by blast
      have "?rest = [] \<or> hd ?rest \<noteq> h"
        using hd_replace_runs_dropWhile [of p "[h]" cs] "1.prems" by metis
      with rec show ?thesis using Cons True by (auto simp: successively_Cons)
    next
      case False
      have "no_double h (replace_runs p [h] cs)" using 1 Cons by simp
      then show ?thesis using Cons False "1.prems" by (auto simp: successively_Cons)
    qed
  qed simp
qed

lemma replace_runs_idem: "no_double h s \<Longrightarrow> replace_runs (\<lambda>c. c = h) [h] s = s"
proof (induction s)
  case (Cons x xs)
  then have xs: "replace_runs (\<lambda>c. c = h) [h] xs = xs"
    by (cases xs) (auto simp: successively_Cons)
  have "x = h \<Longrightarrow> dropWhile (\<lambda>c. c = h) xs = xs"
    using Cons.prems by (cases xs) (auto simp: successively_Cons)
  then show ?case using xs by simp
qed simp

section \<open>Splitting and joining\<close>

fun split_on :: "'a \<Rightarrow> 'a list \<Rightarrow> 'a list list" where
  "split_on d [] = [[]]"
| "split_on d (c # cs) =
     (if c = d then [] # split_on d cs
      else (case split_on d cs of [] \<Rightarrow> [[c]] | w # ws \<Rightarrow> (c # w) # ws))"

fun join_with :: "'a list \<Rightarrow> 'a list list \<Rightarrow> 'a list" where
  "join_with sep [] = []"
| "join_with sep [x] = x"
| "join_with sep (x # y # zs) = x @ sep @ join_with sep (y # zs)"

lemma join_with_Cons: "join_with sep (x # ys) = x @ concat (map (\<lambda>y. sep @ y) ys)"
  by (induction ys arbitrary: x) auto

lemma split_on_not_Nil [simp]: "split_on d s \<noteq> []"
  by (induction s) (auto split: list.splits)

lemma split_on_no_sep: "d \<notin> set w \<Longrightarrow> split_on d w = [w]"
  by (induction w) auto

lemma split_on_append: "d \<notin> set w \<Longrightarrow> split_on d (w @ d # s) = w # split_on d s"
  by (induction w) auto

lemma split_join:
  assumes "xs \<noteq> []" and "\<And>x. x \<in> set xs \<Longrightarrow> d \<notin> set x"
  shows "split_on d (join_with [d] xs) = xs"
  using assms
proof (induction "[d]" xs rule: join_with.induct)
  case (3 x y zs)
  then show ?case by (simp add: split_on_append)
qed (simp_all add: split_on_no_sep)

lemma set_split_on: "w \<in> set (split_on d s) \<Longrightarrow> set w \<subseteq> set s - {d}"
proof (induction s arbitrary: w)
  case (Cons c cs)
  obtain v vs where v: "split_on d cs = v # vs" by (cases "split_on d cs") auto
  show ?case
    using Cons.prems Cons.IH [of w] Cons.IH [of v] v by (auto split: if_splits)
qed simp

section \<open>Decimal numerals\<close>

fun show_nat :: "nat \<Rightarrow> string" where
  "show_nat n = (if n < 10 then [char_of (48 + n)] else show_nat (n div 10) @ [char_of (48 + n mod 10)])"

declare show_nat.simps [simp del]

text \<open>The value of a list of digits, and of the digits in front of a text.\<close>

definition digits_value :: "string \<Rightarrow> nat" where
  "digits_value ds = foldl (\<lambda>v c. 10 * v + (code c - 48)) 0 ds"

declare digits_value_def [eval_simps]

lemma code_digit_char [simp]: "(d::nat) < 10 \<Longrightarrow> code (char_of (48 + d)) = 48 + d"
  by (simp add: of_char_of)

lemma is_digit_char [simp]: "(d::nat) < 10 \<Longrightarrow> is_digit (char_of (48 + d))"
  by (simp add: is_digit_def)

lemma show_nat_digits: "c \<in> set (show_nat n) \<Longrightarrow> is_digit c"
proof (induction n rule: show_nat.induct)
  case (1 n)
  show ?case
  proof (cases "n < 10")
    case True
    then show ?thesis using "1.prems" by (simp add: show_nat.simps [of n])
  next
    case False
    then show ?thesis using 1 by (auto simp: show_nat.simps [of n])
  qed
qed

lemma show_nat_not_Nil [simp]: "show_nat n \<noteq> []"
  by (subst show_nat.simps) simp

lemma digits_value_show_nat [simp]: "digits_value (show_nat n) = n"
proof (induction n rule: show_nat.induct)
  case (1 n)
  show ?case
  proof (cases "n < 10")
    case True
    then show ?thesis by (simp add: show_nat.simps [of n] digits_value_def)
  next
    case False
    with 1 have "digits_value (show_nat (n div 10)) = n div 10" by simp
    then show ?thesis using False by (simp add: show_nat.simps [of n] digits_value_def)
  qed
qed

lemmas [text_simps] = no_double_strip no_double_take replace_runs_no_double replace_runs_idem

end
