(* ===== verification/KeyStore.thy ===== *)
theory KeyStore
  imports Prelude "HOL-Library.AList"
begin

text \<open>
  Stores of values under keys: the contract that the browser's cookies, its local storage and
  the service worker's caches share. What the programs rely on is that the last write of a
  key is what a read returns. Association lists are one such store.
\<close>

section \<open>The interface: last write wins\<close>

locale key_store =
  fixes get :: "'s \<Rightarrow> 'k \<Rightarrow> 'v option"
    and put :: "'k \<Rightarrow> 'v \<Rightarrow> 's \<Rightarrow> 's"
    and del :: "'k \<Rightarrow> 's \<Rightarrow> 's"
  assumes get_put: "get (put k v s) k' = (if k' = k then Some v else get s k')"
    and get_del: "get (del k s) k' = (if k' = k then None else get s k')"
begin

fun write_all :: "('k \<times> 'v option) list \<Rightarrow> 's \<Rightarrow> 's" where
  "write_all [] s = s"
| "write_all ((k, Some v) # ws) s = write_all ws (put k v s)"
| "write_all ((k, None) # ws) s = write_all ws (del k s)"

lemma get_write_all:
  "get (write_all ws s) k = (case map_of (rev ws) k of Some w \<Rightarrow> w | None \<Rightarrow> get s k)"
  by (induction ws s rule: write_all.induct)
    (auto simp: get_put get_del map_add_def split: option.splits)

lemma get_write_all_other: "k \<notin> fst ` set ws \<Longrightarrow> get (write_all ws s) k = get s k"
  by (induction ws s rule: write_all.induct) (auto simp: get_put get_del)

end

interpretation assoc_list: key_store map_of AList.update AList.delete
  by unfold_locales (simp_all add: update_conv' delete_conv')

end
