(* ===== verification/Codec.thy ===== *)
theory Codec
  imports Prelude
begin

text \<open>
  What every encoding of the program promises: decoding gives back what was encoded. The
  clients need no more than that: an encoder loses nothing, and two codecs compose.
\<close>

locale codec =
  fixes enc :: "'a \<Rightarrow> 'b"
    and dec :: "'b \<Rightarrow> 'a option"
  assumes dec_enc: "dec (enc x) = Some x"
begin

lemma enc_inject: "enc x = enc y \<longleftrightarrow> x = y"
  by (metis dec_enc option.inject)

lemma those_dec_enc: "those (map (\<lambda>x. dec (enc x)) xs) = Some xs"
  by (induction xs) (simp_all add: dec_enc)

end

locale codec_chain = outer: codec enc1 dec1 + inner: codec enc2 dec2
  for enc1 :: "'b \<Rightarrow> 'c" and dec1 :: "'c \<Rightarrow> 'b option"
    and enc2 :: "'a \<Rightarrow> 'b" and dec2 :: "'b \<Rightarrow> 'a option"

sublocale codec_chain \<subseteq> chain: codec "\<lambda>x. enc1 (enc2 x)" "\<lambda>y. Option.bind (dec1 y) dec2"
  by unfold_locales (simp add: outer.dec_enc inner.dec_enc)

end
