(* ===== verification/JSStrings.thy ===== *)
theory JSStrings
  imports Prelude
begin

text \<open>
  The string operations of the JavaScript standard library that
  \<^verbatim>\<open>src/server/tmpl/static/js/app.js\<close> calls, on strings whose code units are at
  most 0xFF: case conversion, \<open>trim\<close>, the \<open>||\<close> default, \<open>parseInt\<close> with radix 10,
  \<open>encodeURIComponent\<close> and \<open>decodeURIComponent\<close>. Inside that range the case
  conversions are those of Unicode, except that the capitals of U+00B5, U+00DF and U+00FF,
  which are outside it or two units long, are left alone (no comparison of the script can
  tell).
\<close>

section \<open>Case conversion, trimming, defaults\<close>

definition js_lower :: "char \<Rightarrow> char" where
  "js_lower c =
     (if is_upper c \<or> (192 \<le> code c \<and> code c \<le> 222 \<and> code c \<noteq> 215)
      then char_of (code c + 32) else c)"

definition toLowerCase :: "string \<Rightarrow> string" where
  "toLowerCase s = map js_lower s"

definition js_upper :: "char \<Rightarrow> char" where
  "js_upper c =
     (if is_lower c \<or> (224 \<le> code c \<and> code c \<le> 254 \<and> code c \<noteq> 247)
      then char_of (code c - 32) else c)"

definition toUpperCase :: "string \<Rightarrow> string" where
  "toUpperCase s = map js_upper s"

definition js_space :: "char \<Rightarrow> bool" where
  "js_space c \<longleftrightarrow> code c \<in> {9, 10, 11, 12, 13, 32, 160}"

definition js_trim :: "string \<Rightarrow> string" where
  "js_trim s = strip js_space s"

text \<open>\<open>a || b\<close> where \<open>a\<close> is a string or null: null and the empty string are falsy.\<close>

definition js_or :: "string option \<Rightarrow> string \<Rightarrow> string" where
  "js_or a b = (case a of None \<Rightarrow> b | Some s \<Rightarrow> if s = [] then b else s)"

declare js_lower_def [eval_simps] toLowerCase_def [eval_simps] js_upper_def [eval_simps]
  toUpperCase_def [eval_simps] js_space_def [eval_simps] js_trim_def [eval_simps]

lemma js_or_simps [simp]:
  "js_or None b = b" "js_or (Some []) b = b" "s \<noteq> [] \<Longrightarrow> js_or (Some s) b = s"
  by (simp_all add: js_or_def)

section \<open>parseInt(s, 10)\<close>

text \<open>\<open>None\<close> is NaN.\<close>

definition parse_int10 :: "string \<Rightarrow> int option" where
  "parse_int10 s =
     (let t = dropWhile js_space s;
          neg = (case t of c # _ \<Rightarrow> c = CHR ''-'' | [] \<Rightarrow> False);
          u = (case t of c # cs \<Rightarrow> if c = CHR ''-'' \<or> c = CHR ''+'' then cs else t | [] \<Rightarrow> []);
          ds = takeWhile is_digit u
      in if ds = [] then None
         else Some (if neg then - int (digits_value ds) else int (digits_value ds)))"

declare parse_int10_def [eval_simps]

lemma digit_not_space: "is_digit c \<Longrightarrow> \<not> js_space c"
  by (auto simp: is_digit_def js_space_def)

lemma digit_not_sign: "is_digit c \<Longrightarrow> c \<noteq> CHR ''-'' \<and> c \<noteq> CHR ''+''"
  by (auto simp: is_digit_def)

lemma parse_int10_show_nat: "parse_int10 (show_nat n) = Some (int n)"
proof -
  obtain c cs where s: "show_nat n = c # cs" by (metis list.exhaust show_nat_not_Nil)
  then have c: "is_digit c" by (metis list.set_intros(1) show_nat_digits)
  have ds: "takeWhile is_digit (show_nat n) = show_nat n"
    by (simp add: takeWhile_eq_all_conv show_nat_digits)
  have "dropWhile js_space (show_nat n) = show_nat n"
    using c s digit_not_space by simp
  then show ?thesis
    using digit_not_sign [OF c] ds s
    by (simp add: parse_int10_def Let_def) (metis digits_value_show_nat)
qed

section \<open>Percent encoding\<close>

definition hex_digit :: "nat \<Rightarrow> char" where
  "hex_digit n = (if n < 10 then char_of (48 + n) else char_of (55 + n))"

definition hex_value :: "char \<Rightarrow> nat option" where
  "hex_value c =
     (if is_digit c then Some (code c - 48)
      else if 65 \<le> code c \<and> code c \<le> 70 then Some (code c - 55)
      else if 97 \<le> code c \<and> code c \<le> 102 then Some (code c - 87)
      else None)"

definition percent :: "nat \<Rightarrow> string" where
  "percent n = [CHR ''%'', hex_digit (n div 16), hex_digit (n mod 16)]"

text \<open>The characters \<open>encodeURIComponent\<close> leaves alone.\<close>

definition uri_unescaped :: "char \<Rightarrow> bool" where
  "uri_unescaped c \<longleftrightarrow> is_lower c \<or> is_upper c \<or> is_digit c \<or>
     code c \<in> {45, 95, 46, 33, 126, 42, 39, 40, 41}"

definition encodeURIComponent :: "string \<Rightarrow> string" where
  "encodeURIComponent s =
     concat (map (\<lambda>c. if uri_unescaped c then [c]
                      else if code c < 128 then percent (code c)
                      else percent (192 + code c div 64) @ percent (128 + code c mod 64)) s)"

text \<open>
  \<open>decodeURIComponent\<close> throws a URIError on a malformed escape. An escape of a code
  point above 0xFF is outside the strings modelled here and gives \<open>Wide\<close>.
\<close>

datatype decoded = Decoded string | URI_Error | Wide

fun decoded_cons :: "char \<Rightarrow> decoded \<Rightarrow> decoded" where
  "decoded_cons c (Decoded s) = Decoded (c # s)"
| "decoded_cons c URI_Error = URI_Error"
| "decoded_cons c Wide = Wide"

fun decoded_wide :: "decoded \<Rightarrow> decoded" where
  "decoded_wide URI_Error = URI_Error"
| "decoded_wide _ = Wide"

text \<open>One escape \<open>%XY\<close> at the front: its byte and what follows.\<close>

fun percent_byte :: "string \<Rightarrow> (nat \<times> string) option" where
  "percent_byte (p # a # b # rest) =
     (if p = CHR ''%'' then
        (case (hex_value a, hex_value b) of
           (Some x, Some y) \<Rightarrow> Some (16 * x + y, rest)
         | _ \<Rightarrow> None)
      else None)"
| "percent_byte _ = None"

text \<open>\<open>k\<close> continuation bytes, folded into the value read so far.\<close>

fun continuation :: "nat \<Rightarrow> nat \<Rightarrow> string \<Rightarrow> (nat \<times> string) option" where
  "continuation 0 v s = Some (v, s)"
| "continuation (Suc k) v s =
     (case percent_byte s of
        None \<Rightarrow> None
      | Some (b, rest) \<Rightarrow>
          if 128 \<le> b \<and> b < 192 then continuation k (64 * v + (b - 128)) rest else None)"

text \<open>A whole escaped code point: the length of its UTF-8 form is in the first byte.\<close>

definition escaped_point :: "string \<Rightarrow> (nat \<times> string) option" where
  "escaped_point s =
     (case percent_byte s of
        None \<Rightarrow> None
      | Some (b, rest) \<Rightarrow>
          if b < 128 then Some (b, rest)
          else if 192 \<le> b \<and> b < 224 then
            (case continuation 1 (b - 192) rest of
               Some (v, r) \<Rightarrow> if 128 \<le> v then Some (v, r) else None
             | None \<Rightarrow> None)
          else if 224 \<le> b \<and> b < 240 then
            (case continuation 2 (b - 224) rest of
               Some (v, r) \<Rightarrow>
                 if 2048 \<le> v \<and> \<not> (55296 \<le> v \<and> v < 57344) then Some (v, r) else None
             | None \<Rightarrow> None)
          else if 240 \<le> b \<and> b < 248 then
            (case continuation 3 (b - 240) rest of
               Some (v, r) \<Rightarrow> if 65536 \<le> v \<and> v < 1114112 then Some (v, r) else None
             | None \<Rightarrow> None)
          else None)"

declare hex_digit_def [eval_simps] hex_value_def [eval_simps] percent_def [eval_simps]
  uri_unescaped_def [eval_simps] encodeURIComponent_def [eval_simps] escaped_point_def [eval_simps]

lemma percent_byte_length: "percent_byte s = Some (b, r) \<Longrightarrow> length r < length s"
  by (cases s rule: percent_byte.cases) (auto split: if_splits option.splits)

lemma continuation_length: "continuation k v s = Some (w, r) \<Longrightarrow> length r \<le> length s"
proof (induction k arbitrary: v s)
  case (Suc k)
  then show ?case by (fastforce split: option.splits if_splits dest: percent_byte_length)
qed simp

lemma escaped_point_length: "escaped_point s = Some (v, r) \<Longrightarrow> length r < length s"
  by (fastforce simp: escaped_point_def split: option.splits if_splits
      dest: percent_byte_length continuation_length)

function decodeURIComponent :: "string \<Rightarrow> decoded" where
  "decodeURIComponent [] = Decoded []"
| "decodeURIComponent (c # cs) =
     (if c = CHR ''%'' then
        (case escaped_point (c # cs) of
           None \<Rightarrow> URI_Error
         | Some (v, rest) \<Rightarrow>
             if v < 256 then decoded_cons (char_of v) (decodeURIComponent rest)
             else decoded_wide (decodeURIComponent rest))
      else decoded_cons c (decodeURIComponent cs))"
  by pat_completeness auto
termination
  by (relation "measure length") (auto dest: escaped_point_length)

lemma hex_value_hex_digit [simp]: "n < 16 \<Longrightarrow> hex_value (hex_digit n) = Some n"
  by (auto simp: hex_value_def hex_digit_def is_digit_def of_char_of)

lemma percent_byte_percent [simp]: "n < 256 \<Longrightarrow> percent_byte (percent n @ s) = Some (n, s)"
  by (simp add: percent_def)

lemma code_less_256 [simp]: "code c < (256::nat)"
  using nat_of_char_less_256 by simp

lemma unescaped_not_percent: "uri_unescaped c \<Longrightarrow> c \<noteq> CHR ''%''"
  by (auto simp: uri_unescaped_def is_lower_def is_upper_def is_digit_def)

lemma percent_Cons: "\<exists>s. percent n = CHR ''%'' # s"
  by (simp add: percent_def)

lemma decode_unescaped:
  "c \<noteq> CHR ''%'' \<Longrightarrow> decodeURIComponent (c # s) = decoded_cons c (decodeURIComponent s)"
  by simp

lemma decode_escaped:
  assumes "escaped_point (percent n @ s) = Some (v, r)" and "v < 256"
  shows "decodeURIComponent (percent n @ s) = decoded_cons (char_of v) (decodeURIComponent r)"
proof -
  have p: "percent n @ s = CHR ''%'' # tl (percent n @ s)" by (simp add: percent_def)
  then show ?thesis
    by (subst p, subst decodeURIComponent.simps) (use assms p in simp)
qed

lemma escaped_point_ascii: "n < 128 \<Longrightarrow> escaped_point (percent n @ s) = Some (n, s)"
  by (simp add: escaped_point_def)

lemma escaped_point_latin1:
  assumes "128 \<le> n" and "n < 256"
  shows "escaped_point (percent (192 + n div 64) @ percent (128 + n mod 64) @ s) = Some (n, s)"
proof -
  have hi: "192 + n div 64 < 256" "192 + n div 64 < 224" using assms by auto
  have lo: "128 + n mod 64 < 256" by simp
  have "64 * (n div 64) + n mod 64 = n" by simp
  then show ?thesis using assms hi lo by (simp add: escaped_point_def eval_nat_numeral(3))
qed

theorem decode_encode [simp]: "decodeURIComponent (encodeURIComponent s) = Decoded s"
proof (induction s)
  case Nil
  show ?case by (simp add: encodeURIComponent_def)
next
  case (Cons c cs)
  let ?e = "encodeURIComponent cs"
  consider (plain) "uri_unescaped c" | (ascii) "\<not> uri_unescaped c" "code c < (128::nat)"
    | (wide) "\<not> uri_unescaped c" "128 \<le> (code c :: nat)" by linarith
  then show ?case
  proof cases
    case plain
    then have "encodeURIComponent (c # cs) = c # ?e" by (simp add: encodeURIComponent_def)
    then show ?thesis using Cons plain unescaped_not_percent by simp
  next
    case ascii
    then have "encodeURIComponent (c # cs) = percent (code c) @ ?e"
      by (simp add: encodeURIComponent_def)
    then show ?thesis
      using Cons decode_escaped [OF escaped_point_ascii [OF ascii(2)]] by simp
  next
    case wide
    then have "encodeURIComponent (c # cs)
        = percent (192 + code c div 64) @ percent (128 + code c mod 64) @ ?e"
      by (simp add: encodeURIComponent_def)
    then show ?thesis
      using Cons decode_escaped [OF escaped_point_latin1 [OF wide(2) code_less_256]] by simp
  qed
qed

lemma decode_no_percent: "CHR ''%'' \<notin> set s \<Longrightarrow> decodeURIComponent s = Decoded s"
  by (induction s) auto

end
