(* ===== verification/GoStrings.thy ===== *)
theory GoStrings
  imports Prelude
begin

text \<open>
  The functions of Go's \<open>strings\<close>, \<open>net/textproto\<close> and \<open>net/http\<close> packages that the
  server code uses, on byte strings. \<open>ToLower\<close>, \<open>ToUpper\<close>, \<open>EqualFold\<close> and
  \<open>TrimSpace\<close> are exact on ASCII text; bytes from 128 on, whose case and space rules come
  from the Unicode tables, are left alone.
\<close>

section \<open>Package strings\<close>

definition ToLower :: "string \<Rightarrow> string" where
  "ToLower s = map (\<lambda>c. if is_upper c then char_of (code c + 32) else c) s"

definition ToUpper :: "string \<Rightarrow> string" where
  "ToUpper s = map (\<lambda>c. if is_lower c then char_of (code c - 32) else c) s"

definition EqualFold :: "string \<Rightarrow> string \<Rightarrow> bool" where
  "EqualFold s t \<longleftrightarrow> ToLower s = ToLower t"

definition go_space :: "char \<Rightarrow> bool" where
  "go_space c \<longleftrightarrow> code c \<in> {9, 10, 11, 12, 13, 32}"

definition TrimSpace :: "string \<Rightarrow> string" where
  "TrimSpace s = strip go_space s"

definition HasPrefix :: "string \<Rightarrow> string \<Rightarrow> bool" where
  "HasPrefix s p \<longleftrightarrow> prefix p s"

definition HasSuffix :: "string \<Rightarrow> string \<Rightarrow> bool" where
  "HasSuffix s p \<longleftrightarrow> suffix p s"

definition Contains :: "string \<Rightarrow> string \<Rightarrow> bool" where
  "Contains s t \<longleftrightarrow> sublist t s"

text \<open>\<open>strings.LastIndex(s, c)\<close>, \<open>None\<close> for -1.\<close>

definition LastIndex :: "string \<Rightarrow> char \<Rightarrow> nat option" where
  "LastIndex s c =
     (if c \<in> set s then Some (length s - 1 - length (takeWhile (\<lambda>x. x \<noteq> c) (rev s))) else None)"

text \<open>\<open>strings.Fields\<close>: the maximal runs without white space.\<close>

function Fields :: "string \<Rightarrow> string list" where
  "Fields s =
     (let r = dropWhile go_space s
      in if r = [] then [] else takeWhile (\<lambda>c. \<not> go_space c) r # Fields (dropWhile (\<lambda>c. \<not> go_space c) r))"
  by pat_completeness auto
termination
proof (relation "measure length")
  fix s r :: string
  assume r: "r = dropWhile go_space s" "r \<noteq> []"
  then have "\<not> go_space (hd r)" using hd_dropWhile by blast
  then have "length (dropWhile (\<lambda>c. \<not> go_space c) r) < length r"
    using r(2) by (cases r) (simp_all add: le_imp_less_Suc length_dropWhile_le)
  also have "\<dots> \<le> length s" unfolding r(1) by (rule length_dropWhile_le)
  finally show "(dropWhile (\<lambda>c. \<not> go_space c) r, s) \<in> measure length" by simp
qed simp

declare Fields.simps [simp del] Fields.simps [eval_simps]

declare ToLower_def [eval_simps] ToUpper_def [eval_simps] EqualFold_def [eval_simps]
  go_space_def [eval_simps] TrimSpace_def [eval_simps] HasPrefix_def [eval_simps]
  HasSuffix_def [eval_simps] suffix_to_prefix [eval_simps] Contains_def [eval_simps]
  sublist_code [eval_simps] LastIndex_def [eval_simps]

lemma length_ToLower [simp]: "length (ToLower s) = length s"
  by (simp add: ToLower_def)

lemma is_upper_not_lower: "is_upper c \<Longrightarrow> \<not> is_lower c"
  by (auto simp: is_upper_def is_lower_def)

lemma lower_upper: "is_upper c \<Longrightarrow> is_lower (char_of (code c + 32))"
  by (auto simp: is_upper_def is_lower_def of_char_of)

lemma ToLower_no_upper: "c \<in> set (ToLower s) \<Longrightarrow> \<not> is_upper c"
  using lower_upper is_upper_not_lower by (auto simp: ToLower_def split: if_splits)

lemma ToLower_id: "(\<And>c. c \<in> set s \<Longrightarrow> \<not> is_upper c) \<Longrightarrow> ToLower s = s"
  by (simp add: ToLower_def map_idI)

lemma ToLower_idem [simp]: "ToLower (ToLower s) = ToLower s"
  by (rule ToLower_id) (simp add: ToLower_no_upper)

lemma TrimSpace_id: "(\<And>c. c \<in> set s \<Longrightarrow> \<not> go_space c) \<Longrightarrow> TrimSpace s = s"
  unfolding TrimSpace_def by (rule strip_none)

lemma slug_char_not_upper: "is_slug_char c \<Longrightarrow> \<not> is_upper c"
  by (auto simp: is_slug_char_def is_lower_def is_digit_def is_upper_def)

lemma slug_char_not_space: "is_slug_char c \<Longrightarrow> \<not> go_space c"
  by (auto simp: is_slug_char_def is_lower_def is_digit_def go_space_def)

section \<open>Cookies of package net/http\<close>

text \<open>\<open>readCookies\<close>: the pairs of a Cookie header that are well formed, in order.\<close>

definition text_space :: "char \<Rightarrow> bool" where
  "text_space c \<longleftrightarrow> code c \<in> {9, 10, 13, 32}"

definition token_char :: "char \<Rightarrow> bool" where
  "token_char c \<longleftrightarrow> is_lower c \<or> is_upper c \<or> is_digit c \<or>
     code c \<in> {33, 35, 36, 37, 38, 39, 42, 43, 45, 46, 94, 95, 96, 124, 126}"

definition cookie_value_byte :: "char \<Rightarrow> bool" where
  "cookie_value_byte c \<longleftrightarrow> 32 \<le> code c \<and> code c < 127 \<and> code c \<notin> {34, 59, 92}"

definition unquote :: "string \<Rightarrow> string" where
  "unquote v = (if length v > 1 \<and> hd v = CHR 0x22 \<and> last v = CHR 0x22 then butlast (tl v) else v)"

text \<open>\<open>strings.Cut\<close>: text before and after the first separator.\<close>

definition Cut :: "string \<Rightarrow> char \<Rightarrow> string \<times> string" where
  "Cut s c = (takeWhile (\<lambda>x. x \<noteq> c) s, tl (dropWhile (\<lambda>x. x \<noteq> c) s))"

definition read_cookie_part :: "string \<Rightarrow> (string \<times> string) option" where
  "read_cookie_part part =
     (let p = strip text_space part; (n, v) = Cut p (CHR ''=''); name = strip text_space n;
          val = unquote v
      in if p = [] \<or> name = [] \<or> \<not> list_all token_char name \<or> \<not> list_all cookie_value_byte val
         then None else Some (name, val))"

definition read_cookies :: "string \<Rightarrow> (string \<times> string) list" where
  "read_cookies header = List.map_filter read_cookie_part (split_on (CHR '';'') header)"

text \<open>\<open>r.Cookie(name)\<close>: the first pair with that name; \<open>None\<close> is ErrNoCookie.\<close>

definition request_cookie :: "string \<Rightarrow> string \<Rightarrow> string option" where
  "request_cookie header name = map_of (read_cookies header) name"

declare text_space_def [eval_simps] token_char_def [eval_simps] cookie_value_byte_def [eval_simps]
  unquote_def [eval_simps] Cut_def [eval_simps] read_cookie_part_def [eval_simps]
  read_cookies_def [eval_simps] request_cookie_def [eval_simps] List.map_filter_def [eval_simps]

lemma Cut_append [simp]: "c \<notin> set s \<Longrightarrow> Cut (s @ c # t) c = (s, t)"
  by (simp add: Cut_def takeWhile_append dropWhile_append)

section \<open>Hexadecimal text of package encoding/hex\<close>

definition hex_nibble :: "nat \<Rightarrow> char" where
  "hex_nibble n = (if n < 10 then char_of (48 + n) else char_of (87 + n))"

definition EncodeToString :: "nat list \<Rightarrow> string" where
  "EncodeToString bs = concat (map (\<lambda>b. [hex_nibble (b div 16 mod 16), hex_nibble (b mod 16)]) bs)"

lemma hex_nibble_slug_char: "n < 16 \<Longrightarrow> is_slug_char (hex_nibble n)"
  by (auto simp: hex_nibble_def is_slug_char_def is_lower_def is_digit_def of_char_of)

lemma EncodeToString_chars: "c \<in> set (EncodeToString bs) \<Longrightarrow> is_slug_char c"
  by (auto simp: EncodeToString_def hex_nibble_slug_char)

lemma EncodeToString_Nil_iff [simp]: "EncodeToString bs = [] \<longleftrightarrow> bs = []"
  by (cases bs) (auto simp: EncodeToString_def)

end
