(* ===== verification/FormEncoding.thy ===== *)
theory FormEncoding
  imports Codec JSStrings GoStrings
begin

text \<open>
  The \<^verbatim>\<open>application/x-www-form-urlencoded\<close> format on both sides: \<open>URLSearchParams\<close> of the
  browser, and \<open>QueryEscape\<close>, \<open>QueryUnescape\<close> and \<open>ParseQuery\<close> of Go's \<open>net/url\<close>. The browser
  writes a code unit from 128 on as the two bytes of its UTF-8 form; Go reads bytes.
\<close>

section \<open>Escaping\<close>

definition is_alnum :: "char \<Rightarrow> bool" where
  "is_alnum c \<longleftrightarrow> is_lower c \<or> is_upper c \<or> is_digit c"

definition utf8 :: "string \<Rightarrow> string" where
  "utf8 s = concat (map (\<lambda>c. if code c < (128::nat) then [c]
     else [char_of (192 + code c div 64 :: nat), char_of (128 + code c mod 64 :: nat)]) s)"

definition escape_byte :: "string \<Rightarrow> char \<Rightarrow> string" where
  "escape_byte plain c =
     (if is_alnum c \<or> c \<in> set plain then [c]
      else if c = CHR '' '' then ''+''
      else percent (code c))"

text \<open>The serializer of \<open>URLSearchParams\<close>.\<close>

definition www_form_encode :: "string \<Rightarrow> string" where
  "www_form_encode s = concat (map (escape_byte ''*-._'') (utf8 s))"

definition url_search_params :: "(string \<times> string) list \<Rightarrow> string" where
  "url_search_params kvs = join_with ''&'' (map (\<lambda>(k, v). www_form_encode k @ CHR ''='' # www_form_encode v) kvs)"

text \<open>Go's \<open>url.QueryEscape\<close>.\<close>

definition QueryEscape :: "string \<Rightarrow> string" where
  "QueryEscape s = concat (map (escape_byte ''-_.~'') s)"

section \<open>Unescaping\<close>

text \<open>\<open>None\<close> is the error for a malformed escape.\<close>

fun QueryUnescape :: "string \<Rightarrow> string option" where
  "QueryUnescape [] = Some []"
| "QueryUnescape (c # cs) =
     (if c = CHR ''%'' then
        (case cs of
           a # b # rest \<Rightarrow>
             (case (hex_value a, hex_value b) of
                (Some x, Some y) \<Rightarrow> map_option (Cons (char_of (16 * x + y))) (QueryUnescape rest)
              | _ \<Rightarrow> None)
         | _ \<Rightarrow> None)
      else map_option (Cons (if c = CHR ''+'' then CHR '' '' else c)) (QueryUnescape cs))"

text \<open>\<open>url.ParseQuery\<close>: the pairs in order, or an error if any part is malformed.\<close>

fun parse_query_part :: "string \<Rightarrow> (string \<times> string) option" where
  "parse_query_part part =
     (if CHR '';'' \<in> set part then None
      else let (k, v) = Cut part (CHR ''='')
           in (case (QueryUnescape k, QueryUnescape v) of
                 (Some k', Some v') \<Rightarrow> Some (k', v')
               | _ \<Rightarrow> None))"

definition ParseQuery :: "string \<Rightarrow> (string \<times> string) list option" where
  "ParseQuery query = those (map parse_query_part (filter (\<lambda>p. p \<noteq> []) (split_on (CHR ''&'') query)))"

text \<open>\<open>FormValue\<close>: the first value of the key, empty when there is none.\<close>

definition form_value :: "(string \<times> string) list \<Rightarrow> string \<Rightarrow> string" where
  "form_value kvs k = (case map_of kvs k of None \<Rightarrow> [] | Some v \<Rightarrow> v)"

declare is_alnum_def [eval_simps] utf8_def [eval_simps] escape_byte_def [eval_simps]
  www_form_encode_def [eval_simps] url_search_params_def [eval_simps] QueryEscape_def [eval_simps]
  ParseQuery_def [eval_simps] form_value_def [eval_simps]

section \<open>Unescaping what was escaped\<close>

lemma QueryUnescape_percent:
  "n < 256 \<Longrightarrow> QueryUnescape (percent n @ s) = map_option (Cons (char_of n)) (QueryUnescape s)"
  by (simp add: percent_def)

lemma QueryUnescape_byte:
  assumes "CHR ''%'' \<notin> set plain" and "CHR ''+'' \<notin> set plain"
  shows "QueryUnescape (escape_byte plain c @ s) = map_option (Cons c) (QueryUnescape s)"
proof -
  have "c \<noteq> CHR ''%'' \<and> c \<noteq> CHR ''+''" if "is_alnum c"
    using that by (auto simp: is_alnum_def is_lower_def is_upper_def is_digit_def)
  then consider (plain) "escape_byte plain c = [c]" "c \<noteq> CHR ''%''" "c \<noteq> CHR ''+''"
    | (space) "escape_byte plain c = ''+''" "c = CHR '' ''"
    | (escaped) "escape_byte plain c = percent (code c)"
    unfolding escape_byte_def using assms by metis
  then show ?thesis by cases (simp_all add: QueryUnescape_percent [OF code_less_256])
qed

lemma QueryUnescape_bytes:
  assumes "CHR ''%'' \<notin> set plain" and "CHR ''+'' \<notin> set plain"
  shows "QueryUnescape (concat (map (escape_byte plain) s)) = Some s"
  by (induction s) (simp_all add: QueryUnescape_byte [OF assms])

interpretation query_component: codec QueryEscape QueryUnescape
  by unfold_locales (simp add: QueryEscape_def QueryUnescape_bytes)

lemma QueryUnescape_form: "QueryUnescape (www_form_encode s) = Some (utf8 s)"
  by (simp add: www_form_encode_def QueryUnescape_bytes)

lemma utf8_ascii: "list_all is_ascii s \<Longrightarrow> utf8 s = s"
  by (induction s) (auto simp: utf8_def is_ascii_def)

lemma hex_digit_alnum: "n < 16 \<Longrightarrow> is_alnum (hex_digit n)"
  by (auto simp: hex_digit_def is_alnum_def is_digit_def is_upper_def of_char_of)

lemma escape_byte_chars:
  "x \<in> set (escape_byte plain c) \<Longrightarrow> is_alnum x \<or> x \<in> set plain \<or> x = CHR ''+'' \<or> x = CHR ''%''"
proof -
  have "code c div 16 < (16::nat)" by (simp add: less_mult_imp_div_less)
  then show "x \<in> set (escape_byte plain c) \<Longrightarrow> is_alnum x \<or> x \<in> set plain \<or> x = CHR ''+'' \<or> x = CHR ''%''"
    using hex_digit_alnum by (auto simp: escape_byte_def percent_def split: if_splits)
qed

lemma www_form_encode_chars:
  "x \<in> set (www_form_encode s) \<Longrightarrow> is_alnum x \<or> x \<in> set ''*-._+%''"
  unfolding www_form_encode_def using escape_byte_chars [of x "''*-._''"] by fastforce

lemma www_form_encode_no:
  "CHR ''&'' \<notin> set (www_form_encode s)" "CHR ''='' \<notin> set (www_form_encode s)" "CHR '';'' \<notin> set (www_form_encode s)"
  using www_form_encode_chars [of "CHR ''&''" s] www_form_encode_chars [of "CHR ''=''" s]
    www_form_encode_chars [of "CHR '';''" s]
  by (auto simp: is_alnum_def is_lower_def is_upper_def is_digit_def)

lemma ParseQuery_params:
  assumes "kvs \<noteq> []"
  shows "ParseQuery (url_search_params kvs) = Some (map (\<lambda>(k, v). (utf8 k, utf8 v)) kvs)"
proof -
  let ?part = "\<lambda>(k, v). www_form_encode k @ CHR ''='' # www_form_encode v"
  have split: "split_on (CHR ''&'') (url_search_params kvs) = map ?part kvs"
    unfolding url_search_params_def using assms www_form_encode_no(1)
    by (intro split_join) (auto split: prod.splits)
  have all: "filter (\<lambda>p. p \<noteq> []) (map ?part kvs) = map ?part kvs"
    by (intro filter_True) (auto split: prod.splits)
  have one: "parse_query_part (?part kv) = Some ((\<lambda>(k, v). (utf8 k, utf8 v)) kv)" for kv
    using www_form_encode_no by (cases kv) (simp add: QueryUnescape_form)
  have "those (map (\<lambda>x. parse_query_part (?part x)) kvs) = Some (map (\<lambda>(k, v). (utf8 k, utf8 v)) kvs)"
    by (induction kvs) (simp_all only: list.map those.simps one option.case option.map)
  then show ?thesis unfolding ParseQuery_def split all map_map o_def .
qed

end
