(* ===== verification/GoURL.thy ===== *)
theory GoURL
  imports FormEncoding
begin

text \<open>
  Parsing of URLs by Go's \<open>net/url\<close>, as \<^verbatim>\<open>src/server/service/url.go\<close> and
  \<^verbatim>\<open>src/server/handler/pages.go\<close> use it: \<open>Parse\<close>, \<open>ParseRequestURI\<close>, \<open>EscapedPath\<close>,
  \<open>RequestURI\<close> and \<open>String\<close>, on byte strings.
\<close>

section \<open>Parsed URLs\<close>

record go_url =
  Scheme :: string
  Opaque :: string
  User :: "(string \<times> string option) option"
  Host :: string
  Path :: string
  RawPath :: string
  ForceQuery :: bool
  RawQuery :: string
  OmitHost :: bool
  Fragment :: string
  RawFragment :: string

definition no_url :: go_url where
  "no_url = \<lparr>Scheme = [], Opaque = [], User = None, Host = [], Path = [], RawPath = [], ForceQuery = False,
     RawQuery = [], OmitHost = False, Fragment = [], RawFragment = []\<rparr>"

section \<open>Escapes by component\<close>

text \<open>The bytes a host may contain unescaped (from 128 on they are not checked).\<close>

definition host_plain :: "char \<Rightarrow> bool" where
  "host_plain c \<longleftrightarrow> is_alnum c \<or> c \<in> set ''!$&'' \<or> code c \<in> {34, 39} \<or> c \<in> set ''()*+,;=:[]<>-_.~''"

definition path_plain :: "char \<Rightarrow> bool" where
  "path_plain c \<longleftrightarrow> is_alnum c \<or> c \<in> set ''-_.~$&+,/:;=@''"

datatype escape_mode = Host_Mode | Zone_Mode | Path_Mode | User_Mode

definition escape_allowed :: "escape_mode \<Rightarrow> nat \<Rightarrow> nat \<Rightarrow> bool" where
  "escape_allowed mode x y =
     (case mode of
        Host_Mode \<Rightarrow> x \<ge> 8 \<or> (x = 2 \<and> y = 5)
      | Zone_Mode \<Rightarrow> (x = 2 \<and> y = 5) \<or> (x = 2 \<and> y = 0) \<or> host_plain (char_of (16 * x + y))
      | _ \<Rightarrow> True)"

definition byte_allowed :: "escape_mode \<Rightarrow> char \<Rightarrow> bool" where
  "byte_allowed mode c =
     (case mode of
        Host_Mode \<Rightarrow> code c \<ge> (128::nat) \<or> host_plain c
      | Zone_Mode \<Rightarrow> code c \<ge> (128::nat) \<or> host_plain c
      | _ \<Rightarrow> True)"

text \<open>\<open>unescape\<close>: \<open>None\<close> is an error.\<close>

fun unescape_url :: "escape_mode \<Rightarrow> string \<Rightarrow> string option" where
  "unescape_url mode [] = Some []"
| "unescape_url mode (c # cs) =
     (if c = CHR ''%'' then
        (case cs of
           a # b # rest \<Rightarrow>
             (case (hex_value a, hex_value b) of
                (Some x, Some y) \<Rightarrow>
                  if escape_allowed mode x y
                  then map_option (Cons (char_of (16 * x + y))) (unescape_url mode rest) else None
              | _ \<Rightarrow> None)
         | _ \<Rightarrow> None)
      else if byte_allowed mode c then map_option (Cons c) (unescape_url mode cs) else None)"

definition escape_path :: "string \<Rightarrow> string" where
  "escape_path s = concat (map (\<lambda>c. if path_plain c then [c] else percent (code c)) s)"

section \<open>The scheme\<close>

text \<open>\<open>getScheme\<close>: \<open>None\<close> is the error for a missing scheme.\<close>

definition scheme_char :: "char \<Rightarrow> bool" where
  "scheme_char c \<longleftrightarrow> is_alnum c \<or> c \<in> set ''+-.''"

definition getScheme :: "string \<Rightarrow> (string \<times> string) option" where
  "getScheme raw =
     (let s = takeWhile scheme_char raw; rest = dropWhile scheme_char raw
      in if raw \<noteq> [] \<and> scheme_char (hd raw) \<and> \<not> (is_lower (hd raw) \<or> is_upper (hd raw)) then Some ([], raw)
         else if rest \<noteq> [] \<and> hd rest = CHR '':'' then (if s = [] then None else Some (s, tl rest))
         else Some ([], raw))"

section \<open>The authority\<close>

definition validOptionalPort :: "string \<Rightarrow> bool" where
  "validOptionalPort port \<longleftrightarrow> port = [] \<or> (hd port = CHR '':'' \<and> list_all is_digit (tl port))"

text \<open>\<open>find_zone s\<close> splits before the first \<open>%25\<close>.\<close>

fun find_zone :: "string \<Rightarrow> (string \<times> string) option" where
  "find_zone [] = None"
| "find_zone (c # cs) =
     (if take 3 (c # cs) = ''%25'' then Some ([], c # cs)
      else map_option (\<lambda>(a, b). (c # a, b)) (find_zone cs))"

text \<open>
  \<open>netip.ParseAddr\<close> on what brackets enclose: an IPv6 address, with at most one \<open>::\<close> and
  possibly an IPv4 address at the end.
\<close>

definition hex_group :: "string \<Rightarrow> bool" where
  "hex_group p \<longleftrightarrow> p \<noteq> [] \<and> length p \<le> 4 \<and> list_all (\<lambda>c. hex_value c \<noteq> None) p"

definition ip4_text :: "string \<Rightarrow> bool" where
  "ip4_text p \<longleftrightarrow> (let os = split_on (CHR ''.'') p in length os = 4 \<and>
     list_all (\<lambda>d. d \<noteq> [] \<and> list_all is_digit d \<and> digits_value d \<le> 255 \<and> (length d > 1 \<longrightarrow> hd d \<noteq> CHR ''0'')) os)"

definition ip6_fields :: "string \<Rightarrow> bool \<Rightarrow> nat option" where
  "ip6_fields s at_end =
     (if s = [] then Some 0
      else let ps = split_on (CHR '':'') s
           in if \<not> list_all hex_group (butlast ps) then None
              else if hex_group (last ps) then Some (length ps)
              else if at_end \<and> ip4_text (last ps) then Some (length ps + 1)
              else None)"

fun split_ellipsis :: "string \<Rightarrow> (string \<times> string) option" where
  "split_ellipsis [] = None"
| "split_ellipsis (c # cs) =
     (if take 2 (c # cs) = ''::'' then Some ([], drop 2 (c # cs))
      else map_option (\<lambda>(a, b). (c # a, b)) (split_ellipsis cs))"

definition ip6_text :: "string \<Rightarrow> bool" where
  "ip6_text s0 =
     (let (s, zone) = Cut s0 (CHR ''%'')
      in (CHR ''%'' \<in> set s0 \<longrightarrow> zone \<noteq> []) \<and>
         (case split_ellipsis s of
            None \<Rightarrow> ip6_fields s True = Some 8
          | Some (a, b) \<Rightarrow>
              (case (ip6_fields a False, ip6_fields b True) of
                 (Some m, Some n) \<Rightarrow> m + n \<le> 7
               | _ \<Rightarrow> False)))"

definition parseHost :: "string \<Rightarrow> string option" where
  "parseHost host =
     (if CHR ''['' \<in> set host then
        (case LastIndex host (CHR '']'') of
           None \<Rightarrow> None
         | Some i \<Rightarrow>
             let name = drop 1 (take i host); port = drop (Suc i) host
             in if hd host \<noteq> CHR ''['' \<or> \<not> validOptionalPort port then None
                else
                  (case (case find_zone name of
                           None \<Rightarrow> unescape_url Host_Mode name
                         | Some (a, z) \<Rightarrow>
                             (case (unescape_url Host_Mode a, unescape_url Zone_Mode z) of
                                (Some h1, Some h2) \<Rightarrow> Some (h1 @ h2)
                              | _ \<Rightarrow> None)) of
                     None \<Rightarrow> None
                   | Some h \<Rightarrow> if ip6_text h then Some (CHR ''['' # h @ '']'' @ port) else None))
      else if validOptionalPort (dropWhile (\<lambda>c. c \<noteq> CHR '':'') host) then unescape_url Host_Mode host
      else None)"

definition validUserinfo :: "string \<Rightarrow> bool" where
  "validUserinfo s \<longleftrightarrow> list_all (\<lambda>c. is_alnum c \<or> c \<in> set ''-._:~!$&'' \<or> code c = (39::nat) \<or> c \<in> set ''()*+,;=%@'') s"

text \<open>The user information, a name and perhaps a password, and the host of an authority.\<close>

definition parseUserinfo :: "string \<Rightarrow> (string \<times> string option) option" where
  "parseUserinfo userinfo =
     (if \<not> validUserinfo userinfo then None
      else if CHR '':'' \<notin> set userinfo then map_option (\<lambda>n. (n, None)) (unescape_url User_Mode userinfo)
      else (let (n, p) = Cut userinfo (CHR '':'')
            in case (unescape_url User_Mode n, unescape_url User_Mode p) of
                 (Some name, Some pw) \<Rightarrow> Some (name, Some pw)
               | _ \<Rightarrow> None))"

definition parseAuthority :: "string \<Rightarrow> ((string \<times> string option) option \<times> string) option" where
  "parseAuthority authority =
     (case LastIndex authority (CHR ''@'') of
        None \<Rightarrow> map_option (Pair None) (parseHost authority)
      | Some i \<Rightarrow>
          (case parseHost (drop (Suc i) authority) of
             None \<Rightarrow> None
           | Some h \<Rightarrow> map_option (\<lambda>ui. (Some ui, h)) (parseUserinfo (take i authority))))"

section \<open>Parsing\<close>

definition setPath :: "string \<Rightarrow> go_url \<Rightarrow> go_url option" where
  "setPath p u =
     (case unescape_url Path_Mode p of
        None \<Rightarrow> None
      | Some path \<Rightarrow> Some (u\<lparr>Path := path, RawPath := (if escape_path path = p then [] else p)\<rparr>))"

definition split_query :: "string \<Rightarrow> string \<times> bool \<times> string" where
  "split_query rest =
     (if rest \<noteq> [] \<and> last rest = CHR ''?'' \<and> count_list rest (CHR ''?'') = 1 then (butlast rest, True, [])
      else (let (a, q) = Cut rest (CHR ''?'') in (a, False, q)))"

text \<open>What follows the scheme, without the query: authority and path.\<close>

definition parse_hier :: "bool \<Rightarrow> string \<Rightarrow> go_url \<Rightarrow> go_url option" where
  "parse_hier viaRequest rest u =
     (if \<not> prefix ''/'' rest then
        (if Scheme u \<noteq> [] then Some (u\<lparr>Opaque := rest\<rparr>)
         else if viaRequest then None
         else if CHR '':'' \<in> set (fst (Cut rest (CHR ''/''))) then None
         else setPath rest u)
      else if (Scheme u \<noteq> [] \<or> (\<not> viaRequest \<and> \<not> prefix ''///'' rest)) \<and> prefix ''//'' rest then
        (let rest1 = drop 2 rest;
             authority = takeWhile (\<lambda>c. c \<noteq> CHR ''/'') rest1;
             path = dropWhile (\<lambda>c. c \<noteq> CHR ''/'') rest1
         in case parseAuthority authority of
              None \<Rightarrow> None
            | Some (ui, h) \<Rightarrow> setPath path (u\<lparr>User := ui, Host := h\<rparr>))
      else setPath rest (u\<lparr>OmitHost := (Scheme u \<noteq> [])\<rparr>))"

definition parse_url :: "string \<Rightarrow> bool \<Rightarrow> go_url option" where
  "parse_url raw viaRequest =
     (if list_ex (\<lambda>c. code c < (32::nat) \<or> code c = (127::nat)) raw then None
      else if raw = [] \<and> viaRequest then None
      else if raw = ''*'' then Some (no_url\<lparr>Path := ''*''\<rparr>)
      else
        (case getScheme raw of
           None \<Rightarrow> None
         | Some (scheme, rest0) \<Rightarrow>
             let (rest, force, query) = split_query rest0
             in parse_hier viaRequest rest
                  (no_url\<lparr>Scheme := ToLower scheme, ForceQuery := force, RawQuery := query\<rparr>)))"

definition ParseRequestURI :: "string \<Rightarrow> go_url option" where
  "ParseRequestURI raw = parse_url raw True"

text \<open>\<open>Parse\<close> cuts the fragment off first, whose escapes must be well formed.\<close>

definition fragment_plain :: "char \<Rightarrow> bool" where
  "fragment_plain c \<longleftrightarrow> is_alnum c \<or> c \<in> set ''-_.~$&+,/:;=?@!()*''"

definition escape_fragment :: "string \<Rightarrow> string" where
  "escape_fragment s = concat (map (\<lambda>c. if fragment_plain c then [c] else percent (code c)) s)"

definition setFragment :: "string \<Rightarrow> go_url \<Rightarrow> go_url option" where
  "setFragment f u =
     (case unescape_url User_Mode f of
        None \<Rightarrow> None
      | Some frag \<Rightarrow> Some (u\<lparr>Fragment := frag, RawFragment := (if escape_fragment frag = f then [] else f)\<rparr>))"

definition Parse :: "string \<Rightarrow> go_url option" where
  "Parse raw =
     (let (u, frag) = Cut raw (CHR ''#'')
      in case parse_url u False of
           None \<Rightarrow> None
         | Some url \<Rightarrow> if frag = [] then Some url else setFragment frag url)"

section \<open>Printing\<close>

text \<open>\<open>validEncoded\<close> of the path component.\<close>

definition valid_encoded_path :: "string \<Rightarrow> bool" where
  "valid_encoded_path s \<longleftrightarrow>
     list_all (\<lambda>c. path_plain c \<or> c \<in> set ''!$&()*+,;=:@[]%'' \<or> code c = (39::nat)) s"

definition EscapedPath :: "go_url \<Rightarrow> string" where
  "EscapedPath u =
     (if RawPath u \<noteq> [] \<and> valid_encoded_path (RawPath u) \<and> unescape_url Path_Mode (RawPath u) = Some (Path u)
      then RawPath u
      else if Path u = ''*'' then ''*''
      else escape_path (Path u))"

definition EscapedFragment :: "go_url \<Rightarrow> string" where
  "EscapedFragment u =
     (if RawFragment u \<noteq> [] \<and>
         list_all (\<lambda>c. fragment_plain c \<or> c \<in> set ''[]%'' \<or> code c = (39::nat)) (RawFragment u) \<and>
         unescape_url User_Mode (RawFragment u) = Some (Fragment u)
      then RawFragment u else escape_fragment (Fragment u))"

definition escape_user :: "string \<Rightarrow> string" where
  "escape_user s = concat (map (\<lambda>c. if is_alnum c \<or> c \<in> set ''-_.~$&+,;='' then [c] else percent (code c)) s)"

definition escape_host :: "string \<Rightarrow> string" where
  "escape_host s = concat (map (\<lambda>c. if host_plain c then [c] else percent (code c)) s)"

definition userinfo_text :: "string \<times> string option \<Rightarrow> string" where
  "userinfo_text ui =
     (case snd ui of
        None \<Rightarrow> escape_user (fst ui)
      | Some p \<Rightarrow> escape_user (fst ui) @ CHR '':'' # escape_user p)"

text \<open>\<open>URL.String\<close>.\<close>

definition authority_text :: "go_url \<Rightarrow> string" where
  "authority_text u =
     (if (Scheme u \<noteq> [] \<or> Host u \<noteq> [] \<or> User u \<noteq> None) \<and> \<not> (OmitHost u \<and> Host u = [] \<and> User u = None)
      then (if Host u \<noteq> [] \<or> Path u \<noteq> [] \<or> User u \<noteq> None then ''//'' else []) @
           (case User u of None \<Rightarrow> [] | Some ui \<Rightarrow> userinfo_text ui @ ''@'') @
           escape_host (Host u)
      else [])"

definition url_text :: "go_url \<Rightarrow> string" where
  "url_text u =
     (let scheme = (if Scheme u = [] then [] else Scheme u @ '':'');
          path = EscapedPath u;
          hier = (if Opaque u \<noteq> [] then Opaque u
            else authority_text u @
              (if path \<noteq> [] \<and> hd path \<noteq> CHR ''/'' \<and> Host u \<noteq> [] then ''/'' else []) @
              (if scheme @ authority_text u = [] \<and> CHR '':'' \<in> set (fst (Cut path (CHR ''/''))) then ''./'' else []) @
              path)
      in scheme @ hier @
         (if ForceQuery u \<or> RawQuery u \<noteq> [] then CHR ''?'' # RawQuery u else []) @
         (if Fragment u \<noteq> [] then CHR ''#'' # EscapedFragment u else []))"

definition RequestURI :: "go_url \<Rightarrow> string" where
  "RequestURI u =
     (let result =
        (if Opaque u = [] then (if EscapedPath u = [] then ''/'' else EscapedPath u)
         else if prefix ''//'' (Opaque u) then Scheme u @ CHR '':'' # Opaque u
         else Opaque u)
      in if ForceQuery u \<or> RawQuery u \<noteq> [] then result @ CHR ''?'' # RawQuery u else result)"

declare host_plain_def [eval_simps] path_plain_def [eval_simps] escape_allowed_def [eval_simps]
  byte_allowed_def [eval_simps] escape_path_def [eval_simps] scheme_char_def [eval_simps]
  getScheme_def [eval_simps] validOptionalPort_def [eval_simps] hex_group_def [eval_simps] ip4_text_def [eval_simps]
  ip6_fields_def [eval_simps] ip6_text_def [eval_simps] parseHost_def [eval_simps]
  validUserinfo_def [eval_simps] parseAuthority_def [eval_simps] setPath_def [eval_simps]
  split_query_def [eval_simps] parse_hier_def [eval_simps] parse_url_def [eval_simps] ParseRequestURI_def [eval_simps]
  Parse_def [eval_simps] parseUserinfo_def [eval_simps] fragment_plain_def [eval_simps] escape_fragment_def [eval_simps]
  setFragment_def [eval_simps] EscapedFragment_def [eval_simps] escape_user_def [eval_simps] escape_host_def [eval_simps]
  userinfo_text_def [eval_simps] authority_text_def [eval_simps] url_text_def [eval_simps] EscapedPath_def [eval_simps] valid_encoded_path_def [eval_simps]
  RequestURI_def [eval_simps] no_url_def [eval_simps]

section \<open>What parsing a URL with a host tells about its text\<close>

lemma getScheme_text: "getScheme raw = Some (s, rest) \<Longrightarrow> s \<noteq> [] \<Longrightarrow> raw = s @ CHR '':'' # rest"
proof -
  assume a: "getScheme raw = Some (s, rest)" "s \<noteq> []"
  let ?d = "dropWhile scheme_char raw"
  have d: "?d \<noteq> []" "hd ?d = CHR '':''" "s = takeWhile scheme_char raw" "rest = tl ?d"
    using a by (auto simp: getScheme_def Let_def split: if_splits)
  then have "?d = CHR '':'' # rest" by (cases ?d) auto
  then show "raw = s @ CHR '':'' # rest" using d(3) takeWhile_dropWhile_id [of scheme_char raw] by simp
qed

lemma setPath_keeps: "setPath p u = Some v \<Longrightarrow> Scheme v = Scheme u \<and> Host v = Host u"
  by (auto simp: setPath_def split: option.splits)

lemma split_query_prefix: "split_query rest0 = (rest, f, q) \<Longrightarrow> \<exists>t. rest0 = rest @ t"
proof -
  assume a: "split_query rest0 = (rest, f, q)"
  show "\<exists>t. rest0 = rest @ t"
  proof (cases "rest0 \<noteq> [] \<and> last rest0 = CHR ''?'' \<and> count_list rest0 (CHR ''?'') = 1")
    case True
    then show ?thesis using a append_butlast_last_id [of rest0] by (auto simp: split_query_def)
  next
    case False
    then have "rest = takeWhile (\<lambda>x. x \<noteq> CHR ''?'') rest0" using a by (auto simp: split_query_def Cut_def)
    then show ?thesis using takeWhile_dropWhile_id by metis
  qed
qed

lemma parse_hier_facts:
  assumes "parse_hier v rest u = Some w" and "Opaque u = []" and "Host u = []"
  shows "Scheme w = Scheme u \<and> (Scheme u = [] \<longrightarrow> Opaque w = []) \<and>
    (Host w \<noteq> [] \<longrightarrow> prefix ''//'' rest \<and> Opaque w = [])"
  using assms
  by (auto simp: parse_hier_def Let_def setPath_def split: if_splits option.splits)

lemma parse_url_cases:
  assumes "parse_url raw v = Some u"
  obtains (star) "u = no_url\<lparr>Path := ''*''\<rparr>"
  | (url) s0 rest0 rest f q where "getScheme raw = Some (s0, rest0)" "split_query rest0 = (rest, f, q)"
      "parse_hier v rest (no_url\<lparr>Scheme := ToLower s0, ForceQuery := f, RawQuery := q\<rparr>) = Some u"
proof (cases "raw = ''*''")
  case True
  then show ?thesis using assms star by (auto simp: parse_url_def)
next
  case False
  then obtain s0 rest0 where gs: "getScheme raw = Some (s0, rest0)"
    using assms by (auto simp: parse_url_def split: if_splits option.splits)
  obtain rest f q where sq: "split_query rest0 = (rest, f, q)" by (cases "split_query rest0") auto
  show ?thesis using assms gs sq False url [OF gs sq] by (simp add: parse_url_def split: if_splits)
qed

text \<open>A URL that has a scheme and a host is written \<open>scheme://\<close>.\<close>

lemma ParseRequestURI_host:
  assumes "ParseRequestURI raw = Some u" and "Scheme u \<noteq> []" and "Host u \<noteq> []"
  shows "prefix (Scheme u @ ''://'') (ToLower raw)"
  using assms(1) [unfolded ParseRequestURI_def]
proof (cases rule: parse_url_cases)
  case star
  then show ?thesis using assms(2) by (simp add: no_url_def)
next
  case (url s0 rest0 rest f q)
  have facts: "Scheme u = ToLower s0" "prefix ''//'' rest"
    using parse_hier_facts [OF url(3)] assms(3) by (simp_all add: no_url_def)
  then have "s0 \<noteq> []" using assms(2) by (auto simp: ToLower_def)
  then have raw: "raw = s0 @ CHR '':'' # rest0" using getScheme_text [OF url(1)] by simp
  obtain t where "rest0 = rest @ t" using split_query_prefix [OF url(2)] by blast
  then obtain t2 where "rest0 = ''//'' @ t2" using facts(2) by (auto simp: prefix_def)
  then have "ToLower raw = Scheme u @ ''://'' @ ToLower t2"
    using raw facts(1) by (simp add: ToLower_def is_upper_def)
  then show ?thesis by (metis append.assoc prefixI)
qed

text \<open>\<open>Parse\<close> is \<open>parse_url\<close> on what precedes the fragment, with the fragment added.\<close>

lemma Parse_url:
  assumes "Parse raw = Some u"
  obtains u0 f r where "parse_url (fst (Cut raw (CHR ''#''))) False = Some u0"
    "u = u0\<lparr>Fragment := f, RawFragment := r\<rparr>"
proof -
  obtain a frag where c: "Cut raw (CHR ''#'') = (a, frag)" by (cases "Cut raw (CHR ''#'')") auto
  then obtain u0 where u0: "parse_url a False = Some u0" "(if frag = [] then Some u0 else setFragment frag u0) = Some u"
    using assms by (auto simp: Parse_def split: option.splits)
  have "\<exists>f r. u = u0\<lparr>Fragment := f, RawFragment := r\<rparr>"
  proof (cases "frag = []")
    case True
    then show ?thesis using u0(2) by (intro exI [of _ "Fragment u0"] exI [of _ "RawFragment u0"]) simp
  next
    case False
    then show ?thesis using u0(2) by (auto simp: setFragment_def split: option.splits)
  qed
  then show ?thesis using that u0(1) c by auto
qed

lemma RequestURI_fragment [simp]: "RequestURI (u\<lparr>Fragment := f, RawFragment := r\<rparr>) = RequestURI u"
  by (simp add: RequestURI_def EscapedPath_def Let_def)

text \<open>
  The text of a URL without scheme and host whose path begins with one slash: a path that a
  browser resolves on the same host.
\<close>

definition local_path :: "string \<Rightarrow> bool" where
  "local_path s \<longleftrightarrow>
     (\<exists>t. s = CHR ''/'' # t \<and> (t = [] \<or> hd t \<noteq> CHR ''/'' \<and> hd t \<noteq> CHR 0x5C)) \<or> prefix ''%2'' s"

lemma local_path_append: "local_path s \<Longrightarrow> local_path (s @ CHR ''?'' # q)"
  by (auto simp: local_path_def prefix_def) (case_tac t; simp)+

lemma parse_url_opaque:
  assumes "parse_url raw v = Some u" and "Scheme u = []"
  shows "Opaque u = []"
  using assms(1)
proof (cases rule: parse_url_cases)
  case (url s0 rest0 rest f q)
  then show ?thesis using parse_hier_facts [OF url(3)] assms(2) by (simp add: no_url_def)
qed (simp add: no_url_def)

lemma hex_value_two: "hex_value a = Some 2 \<Longrightarrow> a = CHR ''2''"
proof -
  assume "hex_value a = Some 2"
  then have "code a = (50::nat)" by (auto simp: hex_value_def is_digit_def split: if_splits)
  then have "a = char_of (50::nat)" by (metis char_of_char)
  also have "\<dots> = CHR ''2''" by (simp add: char_of_eq)
  finally show ?thesis .
qed

lemma unescaped_slash:
  assumes "unescape_url Path_Mode raw = Some (CHR ''/'' # p)"
  shows "prefix ''%2'' raw \<or> (\<exists>cs. raw = CHR ''/'' # cs \<and> unescape_url Path_Mode cs = Some p)"
proof (cases raw)
  case (Cons c cs)
  show ?thesis
  proof (cases "c = CHR ''%''")
    case True
    then obtain a b rest x y where cs: "cs = a # b # rest" "hex_value a = Some x" "hex_value b = Some y"
      "char_of (16 * x + y) = CHR ''/''"
      using assms Cons by (auto split: list.splits option.splits if_splits)
    then have xy: "(16 * x + y) mod 256 = 47" by (simp add: char_of_eq)
    have "x < 16" "y < 16" using cs(2,3) by (auto simp: hex_value_def is_digit_def split: if_splits)
    then have "x = 2" using xy by simp
    then show ?thesis using cs(1,2) Cons True hex_value_two by simp
  qed (use assms Cons in \<open>auto simp: byte_allowed_def\<close>)
qed (use assms in simp)

lemma local_RequestURI:
  assumes "parse_url raw v = Some u" and "Scheme u = []" and "prefix ''/'' (Path u)" and "\<not> prefix ''//'' (Path u)"
  shows "local_path (RequestURI u)"
proof -
  obtain p where p: "Path u = CHR ''/'' # p" "p = [] \<or> hd p \<noteq> CHR ''/''"
    using assms(3,4) by (cases "Path u"; cases "tl (Path u)") auto
  have "local_path (EscapedPath u)"
  proof (cases "RawPath u \<noteq> [] \<and> valid_encoded_path (RawPath u) \<and> unescape_url Path_Mode (RawPath u) = Some (Path u)")
    case True
    then have "prefix ''%2'' (RawPath u) \<or> (\<exists>cs. RawPath u = CHR ''/'' # cs \<and> unescape_url Path_Mode cs = Some p)"
      using unescaped_slash p(1) by metis
    moreover have "cs = [] \<or> hd cs \<noteq> CHR ''/'' \<and> hd cs \<noteq> CHR 0x5C"
      if cs: "RawPath u = CHR ''/'' # cs" "unescape_url Path_Mode cs = Some p" for cs
    proof (cases cs)
      case (Cons d ds)
      have "d \<noteq> CHR 0x5C" using True cs(1) Cons
        by (auto simp: valid_encoded_path_def path_plain_def is_alnum_def is_lower_def is_upper_def is_digit_def)
      moreover have "d \<noteq> CHR ''/''" using cs(2) Cons p(2) by (auto simp: byte_allowed_def)
      ultimately show ?thesis using Cons by simp
    qed simp
    ultimately show ?thesis using True by (auto simp: EscapedPath_def local_path_def)
  next
    case False
    have esc: "EscapedPath u = CHR ''/'' # escape_path p"
      using False p(1) by (auto simp: EscapedPath_def escape_path_def path_plain_def)
    have "escape_path p = [] \<or> hd (escape_path p) \<noteq> CHR ''/'' \<and> hd (escape_path p) \<noteq> CHR 0x5C"
    proof (cases p)
      case (Cons d ds)
      then have "d \<noteq> CHR ''/''" using p(2) by simp
      then show ?thesis using Cons
        by (auto simp: escape_path_def path_plain_def is_alnum_def is_lower_def is_upper_def is_digit_def percent_def)
    qed (simp add: escape_path_def)
    then show ?thesis using esc by (simp add: local_path_def)
  qed
  moreover have "EscapedPath u \<noteq> []" using calculation by (auto simp: local_path_def)
  ultimately show ?thesis
    using parse_url_opaque [OF assms(1,2)] local_path_append by (simp add: RequestURI_def Let_def)
qed

end
