(* ===== verification/Links.thy ===== *)
theory Links
  imports KeyStore GoURL
begin

text \<open>
  Short links: the service of \<^verbatim>\<open>src/server/service/url.go\<close> over the table \<open>urls\<close> of
  \<^verbatim>\<open>src/server/store/store.go\<close>, with the records of \<^verbatim>\<open>src/server/model/url.go\<close>. The
  table is a list of rows under their unique short code. The Argon2id hash, the random
  numbers and the time are arguments; a statement on the database fails only when it breaks
  the uniqueness of the code. Times are seconds.
\<close>

section \<open>Records\<close>

text \<open>A row of the table; lists are stored as comma-separated text.\<close>

record url_row =
  row_id :: nat
  short_code :: string
  long_url :: string
  title :: "string option"
  description :: "string option"
  user_id :: "int option"
  org_id :: "int option"
  custom_code :: bool
  password_hash :: "string option"
  expires_at :: "int option"
  visibility :: string
  tags_col :: "string option"
  utm_source :: "string option"
  utm_medium :: "string option"
  utm_campaign :: "string option"
  utm_term :: "string option"
  utm_content :: "string option"
  geo_mode :: string
  geo_countries_col :: "string option"
  mobile_url :: "string option"
  desktop_url :: "string option"
  tablet_url :: "string option"
  created_at :: int
  updated_at :: int

record link_db =
  urls :: "(string \<times> url_row) list"
  next_row_id :: nat

record create_request =
  cr_long_url :: string
  cr_custom_code :: string
  cr_title :: "string option"
  cr_description :: "string option"
  cr_password :: string
  cr_expires_at :: "int option"
  cr_expire_after :: string
  cr_visibility :: string
  cr_tags :: "string list"
  cr_utm_source :: string
  cr_utm_medium :: string
  cr_utm_campaign :: string
  cr_utm_term :: string
  cr_utm_content :: string
  cr_geo_mode :: string
  cr_geo_countries :: "string list"
  cr_mobile_url :: string
  cr_desktop_url :: string
  cr_tablet_url :: string

datatype url_error =
    ErrInvalidURL
  | ErrInvalidCustomCode
  | ErrReservedWord
  | ErrCodeAlreadyExists
  | ErrURLNotFound
  | ErrURLExpired
  | Generate_Failed
  | Random_Failed
  | Hash_Failed
  | Update_Invalid_URL
  | Invalid_Country string
  | Geo_Countries_Required
  | Invalid_Device_URL
  | Insert_Failed

section \<open>Destinations\<close>

datatype dest_error = Dest_Unparsable | Dest_Scheme string | Dest_No_Host

definition validateDestinationURL :: "string \<Rightarrow> dest_error option" where
  "validateDestinationURL raw =
     (case ParseRequestURI raw of
        None \<Rightarrow> Some Dest_Unparsable
      | Some parsed \<Rightarrow>
          if ToLower (Scheme parsed) \<notin> {''http'', ''https''} then Some (Dest_Scheme (Scheme parsed))
          else if Host parsed = [] then Some Dest_No_Host
          else None)"

section \<open>Lists in columns\<close>

definition joinCSV :: "string list \<Rightarrow> string" where
  "joinCSV vals = join_with '','' vals"

definition cleanStrings :: "string list \<Rightarrow> string list" where
  "cleanStrings vals = filter (\<lambda>v. v \<noteq> []) (map TrimSpace vals)"

definition splitCSV :: "string \<Rightarrow> string list" where
  "splitCSV s = (if s = [] then [] else cleanStrings (split_on (CHR '','') s))"

definition derefStr :: "string option \<Rightarrow> string" where
  "derefStr s = (case s of None \<Rightarrow> [] | Some t \<Rightarrow> t)"

text \<open>The loop of \<open>normalizeCountryCodes\<close>, with the codes seen so far.\<close>

fun normalize_codes :: "string list \<Rightarrow> string list \<Rightarrow> url_error + string list" where
  "normalize_codes seen [] = Inr []"
| "normalize_codes seen (c0 # cs) =
     (let c = ToUpper (TrimSpace c0)
      in if c = [] then normalize_codes seen cs
         else if length c \<noteq> 2 \<or> \<not> list_all is_upper c then Inl (Invalid_Country c)
         else if c \<in> set seen then normalize_codes seen cs
         else then_try (normalize_codes (c # seen) cs) (\<lambda>rest. Inr (c # rest)))"

definition normalizeCountryCodes :: "string list \<Rightarrow> url_error + string list" where
  "normalizeCountryCodes codes = normalize_codes [] codes"

section \<open>Link options\<close>

record link_options =
  lo_visibility :: string
  lo_tags :: "string option"
  lo_utm_source :: "string option"
  lo_utm_medium :: "string option"
  lo_utm_campaign :: "string option"
  lo_utm_term :: "string option"
  lo_utm_content :: "string option"
  lo_geo_mode :: string
  lo_geo_countries :: "string option"
  lo_mobile_url :: "string option"
  lo_desktop_url :: "string option"
  lo_tablet_url :: "string option"

definition str_opt :: "string \<Rightarrow> string option" where
  "str_opt s = (if s = [] then None else Some s)"

definition device_url :: "string \<Rightarrow> url_error + string option" where
  "device_url u =
     (if u = [] then Inr None
      else if validateDestinationURL u \<noteq> None then Inl Invalid_Device_URL
      else Inr (Some u))"

definition buildLinkOptions :: "create_request \<Rightarrow> url_error + link_options" where
  "buildLinkOptions req =
     (let vis = (if cr_visibility req = [] then ''public'' else cr_visibility req);
          mode = (if cr_geo_mode req = [] then ''none'' else cr_geo_mode req);
          tags = (if cleanStrings (cr_tags req) = [] then None else Some (joinCSV (cleanStrings (cr_tags req))))
      in then_try (if cr_geo_countries req = [] then Inr None
                   else then_try (normalizeCountryCodes (cr_geo_countries req)) (\<lambda>codes. Inr (Some (joinCSV codes)))) (\<lambda>geo.
         if mode \<noteq> ''none'' \<and> geo = None then Inl Geo_Countries_Required
         else
           then_try (device_url (cr_mobile_url req)) (\<lambda>mob.
           then_try (device_url (cr_desktop_url req)) (\<lambda>desk.
           then_try (device_url (cr_tablet_url req)) (\<lambda>tab.
             Inr \<lparr>lo_visibility = vis, lo_tags = tags,
                  lo_utm_source = str_opt (cr_utm_source req), lo_utm_medium = str_opt (cr_utm_medium req),
                  lo_utm_campaign = str_opt (cr_utm_campaign req), lo_utm_term = str_opt (cr_utm_term req),
                  lo_utm_content = str_opt (cr_utm_content req), lo_geo_mode = mode, lo_geo_countries = geo,
                  lo_mobile_url = mob, lo_desktop_url = desk, lo_tablet_url = tab\<rparr>)))))"

section \<open>Short codes\<close>

definition reservedWords :: "string list" where
  "reservedWords =
     [''api'', ''admin'', ''www'', ''app'', ''help'', ''about'', ''setup'',
      ''login'', ''register'', ''dashboard'', ''health'', ''version'']"

definition validateCustomCode :: "string \<Rightarrow> url_error option" where
  "validateCustomCode code' =
     (if length code' < 3 \<or> length code' > 50 then Some ErrInvalidCustomCode
      else if ToLower code' \<in> set reservedWords then Some ErrReservedWord
      else if \<not> list_all (\<lambda>c. is_lower c \<or> is_upper c \<or> is_digit c) code' then Some ErrInvalidCustomCode
      else None)"

definition code_charset :: string where
  "code_charset = ''abcdefghjkmnpqrstuvwxyzABCDEFGHJKMNPQRSTUVWXYZ23456789''"

definition codeExists :: "link_db \<Rightarrow> string \<Rightarrow> bool" where
  "codeExists db c \<longleftrightarrow> map_of (urls db) c \<noteq> None"

text \<open>
  The random numbers: \<open>draw r i\<close> is the number drawn in retry \<open>r\<close> for position \<open>i\<close>, \<open>None\<close> when
  the source fails.
\<close>

definition random_code :: "(nat \<Rightarrow> nat \<Rightarrow> nat option) \<Rightarrow> nat \<Rightarrow> string option" where
  "random_code draw retry =
     those (map (\<lambda>i. map_option (nth code_charset) (draw retry i)) [0..<min (6 + retry) 8])"

fun generate_from :: "(nat \<Rightarrow> nat \<Rightarrow> nat option) \<Rightarrow> link_db \<Rightarrow> nat \<Rightarrow> nat \<Rightarrow> url_error + string" where
  "generate_from draw db retry 0 = Inl Generate_Failed"
| "generate_from draw db retry (Suc left) =
     (case random_code draw retry of
        None \<Rightarrow> Inl Random_Failed
      | Some c \<Rightarrow> if \<not> codeExists db c then Inr c else generate_from draw db (Suc retry) left)"

definition generateRandomCode :: "(nat \<Rightarrow> nat \<Rightarrow> nat option) \<Rightarrow> link_db \<Rightarrow> url_error + string" where
  "generateRandomCode draw db = generate_from draw db 0 10"

definition parseExpiration :: "int \<Rightarrow> string \<Rightarrow> int option" where
  "parseExpiration now' duration =
     (if duration = ''1h'' then Some (now' + 3600)
      else if duration = ''24h'' then Some (now' + 24 * 3600)
      else if duration = ''7d'' then Some (now' + 7 * 24 * 3600)
      else if duration = ''30d'' then Some (now' + 30 * 24 * 3600)
      else None)"

section \<open>What the service returns\<close>

record URL =
  ID :: nat
  ShortCode :: string
  LongURL :: string
  Title :: "string option"
  Description :: "string option"
  UserID :: "int option"
  OrgID :: "int option"
  CustomCode :: bool
  PasswordHash :: "string option"
  ExpiresAt :: "int option"
  Visibility :: string
  Tags :: "string list"
  UTMSource :: "string option"
  UTMMedium :: "string option"
  UTMCampaign :: "string option"
  UTMTerm :: "string option"
  UTMContent :: "string option"
  GeoMode :: string
  GeoCountries :: "string list"
  MobileURL :: "string option"
  DesktopURL :: "string option"
  TabletURL :: "string option"
  CreatedAt :: int
  UpdatedAt :: int

definition applyTo :: "link_options \<Rightarrow> URL \<Rightarrow> URL" where
  "applyTo opts u = u\<lparr>Visibility := lo_visibility opts, Tags := splitCSV (derefStr (lo_tags opts)),
     UTMSource := lo_utm_source opts, UTMMedium := lo_utm_medium opts, UTMCampaign := lo_utm_campaign opts,
     UTMTerm := lo_utm_term opts, UTMContent := lo_utm_content opts, GeoMode := lo_geo_mode opts,
     GeoCountries := splitCSV (derefStr (lo_geo_countries opts)), MobileURL := lo_mobile_url opts,
     DesktopURL := lo_desktop_url opts, TabletURL := lo_tablet_url opts\<rparr>"

text \<open>A nullable text column that counts only when it is not empty.\<close>

definition non_empty :: "string option \<Rightarrow> string option" where
  "non_empty v = str_opt (derefStr v)"

definition scanURLRow :: "url_row \<Rightarrow> URL" where
  "scanURLRow row = \<lparr>ID = row_id row, ShortCode = short_code row, LongURL = long_url row, Title = title row,
     Description = description row, UserID = user_id row, OrgID = org_id row, CustomCode = custom_code row,
     PasswordHash = password_hash row, ExpiresAt = expires_at row, Visibility = visibility row,
     Tags = splitCSV (derefStr (tags_col row)), UTMSource = non_empty (utm_source row),
     UTMMedium = non_empty (utm_medium row), UTMCampaign = non_empty (utm_campaign row),
     UTMTerm = non_empty (utm_term row), UTMContent = non_empty (utm_content row), GeoMode = geo_mode row,
     GeoCountries = splitCSV (derefStr (geo_countries_col row)), MobileURL = non_empty (mobile_url row),
     DesktopURL = non_empty (desktop_url row), TabletURL = non_empty (tablet_url row),
     CreatedAt = created_at row, UpdatedAt = updated_at row\<rparr>"

section \<open>Creation\<close>

text \<open>The short code and whether it is custom.\<close>

definition chosen_code ::
    "(nat \<Rightarrow> nat \<Rightarrow> nat option) \<Rightarrow> link_db \<Rightarrow> create_request \<Rightarrow> url_error + string \<times> bool" where
  "chosen_code draw db req =
     (if cr_custom_code req \<noteq> [] then
        (case validateCustomCode (cr_custom_code req) of
           Some e \<Rightarrow> Inl e
         | None \<Rightarrow>
             if codeExists db (cr_custom_code req) then Inl ErrCodeAlreadyExists
             else Inr (cr_custom_code req, True))
      else then_try (generateRandomCode draw db) (\<lambda>c. Inr (c, False)))"

definition chosen_expiry :: "int \<Rightarrow> create_request \<Rightarrow> int option" where
  "chosen_expiry now' req =
     (case cr_expires_at req of
        Some t \<Rightarrow> Some t
      | None \<Rightarrow> if cr_expire_after req \<noteq> [] then parseExpiration now' (cr_expire_after req) else None)"

text \<open>The INSERT statement; it fails when the code is taken.\<close>

definition insert_row :: "url_row \<Rightarrow> link_db \<Rightarrow> link_db option" where
  "insert_row row db =
     (if codeExists db (short_code row) then None
      else Some (db\<lparr>urls := AList.update (short_code row) (row\<lparr>row_id := next_row_id db\<rparr>) (urls db),
                    next_row_id := Suc (next_row_id db)\<rparr>))"

definition new_row ::
    "int \<Rightarrow> create_request \<Rightarrow> string \<times> bool \<Rightarrow> int option \<Rightarrow> int option \<Rightarrow> string option \<Rightarrow> link_options \<Rightarrow> url_row" where
  "new_row now' req chosen user org pw opts =
     \<lparr>row_id = 0, short_code = fst chosen, long_url = cr_long_url req, title = cr_title req,
      description = cr_description req, user_id = user, org_id = org, custom_code = snd chosen,
      password_hash = pw, expires_at = chosen_expiry now' req, visibility = lo_visibility opts,
      tags_col = lo_tags opts, utm_source = lo_utm_source opts, utm_medium = lo_utm_medium opts,
      utm_campaign = lo_utm_campaign opts, utm_term = lo_utm_term opts, utm_content = lo_utm_content opts,
      geo_mode = lo_geo_mode opts, geo_countries_col = lo_geo_countries opts, mobile_url = lo_mobile_url opts,
      desktop_url = lo_desktop_url opts, tablet_url = lo_tablet_url opts, created_at = now', updated_at = now'\<rparr>"

text \<open>The record the service builds by hand after an insertion, before \<open>applyTo\<close>.\<close>

definition built_record ::
    "int \<Rightarrow> nat \<Rightarrow> create_request \<Rightarrow> string \<times> bool \<Rightarrow> string option \<Rightarrow> int option \<Rightarrow> int option \<Rightarrow> string option \<Rightarrow> URL" where
  "built_record now' i req chosen desc user org pw =
     \<lparr>ID = i, ShortCode = fst chosen, LongURL = cr_long_url req, Title = cr_title req, Description = desc,
      UserID = user, OrgID = org, CustomCode = snd chosen, PasswordHash = pw,
      ExpiresAt = chosen_expiry now' req, Visibility = [], Tags = [], UTMSource = None, UTMMedium = None,
      UTMCampaign = None, UTMTerm = None, UTMContent = None, GeoMode = [], GeoCountries = [],
      MobileURL = None, DesktopURL = None, TabletURL = None, CreatedAt = now', UpdatedAt = now'\<rparr>"

definition hash_password :: "(string \<Rightarrow> string option) \<Rightarrow> string \<Rightarrow> url_error + string option" where
  "hash_password hash pw =
     (if pw = [] then Inr None else (case hash pw of None \<Rightarrow> Inl Hash_Failed | Some h \<Rightarrow> Inr (Some h)))"

definition CreateURL ::
    "(string \<Rightarrow> string option) \<Rightarrow> (nat \<Rightarrow> nat \<Rightarrow> nat option) \<Rightarrow> int \<Rightarrow> create_request \<Rightarrow> link_db \<Rightarrow>
     url_error + URL \<times> link_db" where
  "CreateURL hash draw now' req db =
     (if validateDestinationURL (cr_long_url req) \<noteq> None then Inl ErrInvalidURL
      else
        then_try (chosen_code draw db req) (\<lambda>chosen.
        then_try (hash_password hash (cr_password req)) (\<lambda>pw.
        then_try (buildLinkOptions req) (\<lambda>opts.
          (case insert_row (new_row now' req chosen None None pw opts) db of
             None \<Rightarrow> Inl Insert_Failed
           | Some db' \<Rightarrow>
               Inr (applyTo opts (built_record now' (next_row_id db) req chosen (cr_description req) None None pw), db'))))))"

definition CreateURLForUser ::
    "(nat \<Rightarrow> nat \<Rightarrow> nat option) \<Rightarrow> int \<Rightarrow> int \<Rightarrow> create_request \<Rightarrow> link_db \<Rightarrow> url_error + URL \<times> link_db" where
  "CreateURLForUser draw now' userID req db =
     (if validateDestinationURL (cr_long_url req) \<noteq> None then Inl ErrInvalidURL
      else
        then_try (chosen_code draw db req) (\<lambda>chosen.
        then_try (buildLinkOptions req) (\<lambda>opts.
          (case insert_row (new_row now' req chosen (Some userID) None None opts) db of
             None \<Rightarrow> Inl Insert_Failed
           | Some db' \<Rightarrow>
               Inr (applyTo opts (built_record now' (next_row_id db) req chosen None (Some userID) None None), db')))))"

definition CreateURLForOrg ::
    "(nat \<Rightarrow> nat \<Rightarrow> nat option) \<Rightarrow> int \<Rightarrow> int \<Rightarrow> create_request \<Rightarrow> link_db \<Rightarrow> url_error + URL \<times> link_db" where
  "CreateURLForOrg draw now' orgID req db =
     (if validateDestinationURL (cr_long_url req) \<noteq> None then Inl ErrInvalidURL
      else
        then_try (chosen_code draw db req) (\<lambda>chosen.
        then_try (buildLinkOptions req) (\<lambda>opts.
          (case insert_row (new_row now' req chosen None (Some orgID) None opts) db of
             None \<Rightarrow> Inl Insert_Failed
           | Some db' \<Rightarrow>
               Inr (applyTo opts (built_record now' (next_row_id db) req chosen None None (Some orgID) None), db')))))"

section \<open>Lookup\<close>

definition getURLByCodeRaw :: "link_db \<Rightarrow> string \<Rightarrow> url_error + URL" where
  "getURLByCodeRaw db c =
     (case map_of (urls db) c of None \<Rightarrow> Inl ErrURLNotFound | Some row \<Rightarrow> Inr (scanURLRow row))"

definition expired_at :: "int \<Rightarrow> URL \<Rightarrow> bool" where
  "expired_at now' u \<longleftrightarrow> (case ExpiresAt u of None \<Rightarrow> False | Some t \<Rightarrow> now' > t)"

definition GetURLByCode :: "int \<Rightarrow> link_db \<Rightarrow> string \<Rightarrow> url_error + URL" where
  "GetURLByCode now' db c =
     then_try (getURLByCodeRaw db c) (\<lambda>u. if expired_at now' u then Inl ErrURLExpired else Inr u)"

definition GetURLByCodeForOwner :: "int \<Rightarrow> link_db \<Rightarrow> string \<Rightarrow> string \<Rightarrow> int \<Rightarrow> url_error + URL" where
  "GetURLByCodeForOwner now' db c ownerType ownerID =
     (let lookup = (\<lambda>col.
        (case map_of (urls db) c of
           None \<Rightarrow> Inl ErrURLNotFound
         | Some row \<Rightarrow>
             if col row \<noteq> Some ownerID then Inl ErrURLNotFound
             else if expired_at now' (scanURLRow row) then Inl ErrURLExpired
             else Inr (scanURLRow row)))
      in if ownerType = ''user'' then lookup user_id
         else if ownerType = ''org'' then lookup org_id
         else Inl ErrURLNotFound)"

section \<open>Update and deletion\<close>

record update_request =
  ur_long_url :: "string option"
  ur_title :: "string option"
  ur_description :: "string option"
  ur_password :: "string option"
  ur_expires_at :: "int option"
  ur_visibility :: "string option"
  ur_tags :: "string list option"
  ur_utm_source :: "string option"
  ur_utm_medium :: "string option"
  ur_utm_campaign :: "string option"
  ur_utm_term :: "string option"
  ur_utm_content :: "string option"
  ur_geo_mode :: "string option"
  ur_geo_countries :: "string list option"
  ur_mobile_url :: "string option"
  ur_desktop_url :: "string option"
  ur_tablet_url :: "string option"

text \<open>The zero \<open>time.Time\<close> (1 January of year 1) in seconds of the Unix epoch.\<close>

definition zero_time :: int where
  "zero_time = -62135596800"

definition given_or :: "'a option \<Rightarrow> 'a \<Rightarrow> 'a" where
  "given_or new old = (case new of None \<Rightarrow> old | Some v \<Rightarrow> v)"

definition given_or_opt :: "'a option \<Rightarrow> 'a option \<Rightarrow> 'a option" where
  "given_or_opt new old = (if new = None then old else new)"

definition updated_expiry :: "update_request \<Rightarrow> int option \<Rightarrow> int option" where
  "updated_expiry req old =
     (case ur_expires_at req of None \<Rightarrow> old | Some t \<Rightarrow> if t = zero_time then None else Some t)"

definition updated_password ::
    "(string \<Rightarrow> string option) \<Rightarrow> update_request \<Rightarrow> string option \<Rightarrow> url_error + string option" where
  "updated_password hash req old =
     (case ur_password req of None \<Rightarrow> Inr old | Some pw \<Rightarrow> hash_password hash pw)"

definition updated_countries :: "update_request \<Rightarrow> string list \<Rightarrow> url_error + string" where
  "updated_countries req old =
     (case ur_geo_countries req of
        None \<Rightarrow> Inr (joinCSV old)
      | Some cs \<Rightarrow> then_try (normalizeCountryCodes cs) (\<lambda>codes. Inr (joinCSV codes)))"

definition updated_row :: "int \<Rightarrow> update_request \<Rightarrow> URL \<Rightarrow> string option \<Rightarrow> string \<Rightarrow> url_row \<Rightarrow> url_row" where
  "updated_row now' req u pw geo row =
     row\<lparr>long_url := given_or (ur_long_url req) (LongURL u), title := given_or_opt (ur_title req) (Title u),
        description := given_or_opt (ur_description req) (Description u), password_hash := pw,
        expires_at := updated_expiry req (ExpiresAt u), visibility := given_or (ur_visibility req) (Visibility u),
        tags_col := Some (case ur_tags req of None \<Rightarrow> joinCSV (Tags u) | Some ts \<Rightarrow> joinCSV (cleanStrings ts)),
        utm_source := given_or_opt (ur_utm_source req) (UTMSource u),
        utm_medium := given_or_opt (ur_utm_medium req) (UTMMedium u),
        utm_campaign := given_or_opt (ur_utm_campaign req) (UTMCampaign u),
        utm_term := given_or_opt (ur_utm_term req) (UTMTerm u),
        utm_content := given_or_opt (ur_utm_content req) (UTMContent u),
        geo_mode := given_or (ur_geo_mode req) (GeoMode u), geo_countries_col := Some geo,
        mobile_url := given_or_opt (ur_mobile_url req) (MobileURL u),
        desktop_url := given_or_opt (ur_desktop_url req) (DesktopURL u),
        tablet_url := given_or_opt (ur_tablet_url req) (TabletURL u), updated_at := now'\<rparr>"

text \<open>The UPDATE statement touches the row of the code, if there is one.\<close>

definition update_row :: "string \<Rightarrow> (url_row \<Rightarrow> url_row) \<Rightarrow> link_db \<Rightarrow> link_db" where
  "update_row c f db =
     (case map_of (urls db) c of
        None \<Rightarrow> db
      | Some row \<Rightarrow> db\<lparr>urls := AList.update c (f row) (urls db)\<rparr>)"

definition UpdateURL ::
    "(string \<Rightarrow> string option) \<Rightarrow> int \<Rightarrow> string \<Rightarrow> update_request \<Rightarrow> link_db \<Rightarrow> url_error + URL \<times> link_db" where
  "UpdateURL hash now' c req db =
     then_try (getURLByCodeRaw db c) (\<lambda>u.
     if (case ur_long_url req of None \<Rightarrow> False | Some raw \<Rightarrow> validateDestinationURL raw \<noteq> None)
     then Inl Update_Invalid_URL
     else
       then_try (updated_password hash req (PasswordHash u)) (\<lambda>pw.
       then_try (updated_countries req (GeoCountries u)) (\<lambda>geo.
         if given_or (ur_geo_mode req) (GeoMode u) \<noteq> ''none'' \<and> geo = [] then Inl Geo_Countries_Required
         else
           (let db' = update_row c (updated_row now' req u pw geo) db
            in then_try (getURLByCodeRaw db' c) (\<lambda>u'. Inr (u', db'))))))"

definition DeleteURL :: "string \<Rightarrow> link_db \<Rightarrow> url_error + link_db" where
  "DeleteURL c db =
     (if map_of (urls db) c = None then Inl ErrURLNotFound
      else Inr (db\<lparr>urls := AList.delete c (urls db)\<rparr>))"

text \<open>The task \<open>expire_urls\<close> of the scheduler.\<close>

definition expireURLs :: "int \<Rightarrow> link_db \<Rightarrow> link_db" where
  "expireURLs now' db =
     db\<lparr>urls := filter (\<lambda>(c, row). case expires_at row of Some t \<Rightarrow> \<not> t < now' | None \<Rightarrow> True) (urls db)\<rparr>"

end
