(* ===== verification/LinkCodes.thy ===== *)
theory LinkCodes
  imports Links
begin

text \<open>
  The parts of the link service on their own: which short codes are generated, what a valid
  destination looks like, and the lists in the columns.
\<close>

section \<open>Destinations\<close>

text \<open>The text of a web address: it begins with http:// or https://, in any case.\<close>

definition web_address :: "string \<Rightarrow> bool" where
  "web_address s \<longleftrightarrow> prefix ''http://'' (ToLower s) \<or> prefix ''https://'' (ToLower s)"

lemma valid_destination_is_web: "validateDestinationURL raw = None \<Longrightarrow> web_address raw"
proof -
  assume a: "validateDestinationURL raw = None"
  then obtain u where u: "ParseRequestURI raw = Some u" "ToLower (Scheme u) \<in> {''http'', ''https''}" "Host u \<noteq> []"
    by (auto simp: validateDestinationURL_def split: option.splits if_splits)
  then have "Scheme u \<noteq> []" by (auto simp: ToLower_def)
  then have "prefix (Scheme u @ ''://'') (ToLower raw)" using ParseRequestURI_host u by blast
  then obtain t where "ToLower raw = Scheme u @ ''://'' @ t" by (auto simp: prefix_def)
  then have "ToLower (ToLower raw) = ToLower (Scheme u) @ ToLower ''://'' @ ToLower t"
    by (simp add: ToLower_def)
  moreover have "ToLower ''://'' = ''://''" by (simp add: ToLower_def is_upper_def)
  ultimately show ?thesis using u(2) by (auto simp: web_address_def)
qed

section \<open>Generated codes\<close>

text \<open>The numbers drawn are below the size of the charset, as \<open>crypto/rand\<close> promises.\<close>

definition draws_in_range :: "(nat \<Rightarrow> nat \<Rightarrow> nat option) \<Rightarrow> bool" where
  "draws_in_range draw \<longleftrightarrow> (\<forall>r i n. draw r i = Some n \<longrightarrow> n < length code_charset)"

lemma those_Some_iff: "those xs = Some ys \<longleftrightarrow> xs = map Some ys"
proof (induction xs arbitrary: ys)
  case (Cons x xs)
  then show ?case by (cases x; cases ys) auto
qed auto

lemma random_code_shape:
  assumes "random_code draw r = Some c" and "draws_in_range draw"
  shows "length c = min (6 + r) 8" and "set c \<subseteq> set code_charset"
proof -
  have m: "map (\<lambda>i. map_option (nth code_charset) (draw r i)) [0..<min (6 + r) 8] = map Some c"
    using assms(1) by (simp add: random_code_def those_Some_iff)
  show l: "length c = min (6 + r) 8" using arg_cong [OF m, of length] by simp
  show "set c \<subseteq> set code_charset"
  proof
    fix x assume "x \<in> set c"
    then obtain i where i: "i < length c" "c ! i = x" by (auto simp: in_set_conv_nth)
    have "map_option (nth code_charset) (draw r i) = Some x"
      using arg_cong [OF m, of "\<lambda>xs. xs ! i"] i l by simp
    then obtain n where "draw r i = Some n" "x = code_charset ! n" by auto
    then show "x \<in> set code_charset" using assms(2) by (auto simp: draws_in_range_def intro!: nth_mem)
  qed
qed

lemma charset_chars:
  "x \<in> set code_charset \<Longrightarrow> (is_lower x \<or> is_upper x \<or> is_digit x) \<and> ToLower [x] \<notin> {''i'', ''l'', ''o''}"
proof -
  have "list_all (\<lambda>x. (is_lower x \<or> is_upper x \<or> is_digit x) \<and> ToLower [x] \<notin> {''i'', ''l'', ''o''}) code_charset"
    by (simp add: code_charset_def eval_simps)
  then show "x \<in> set code_charset \<Longrightarrow> (is_lower x \<or> is_upper x \<or> is_digit x) \<and> ToLower [x] \<notin> {''i'', ''l'', ''o''}"
    by (auto simp: list_all_iff)
qed

text \<open>
  A generated code is never a reserved word: those of at least six letters have an i, an l or
  an o, which the charset leaves out.
\<close>

lemma random_code_valid:
  assumes "random_code draw r = Some c" and "draws_in_range draw"
  shows "validateCustomCode c = None"
proof -
  note shape = random_code_shape [OF assms]
  have len: "6 \<le> length c" "length c \<le> 8" using shape(1) by simp_all
  have alnum: "list_all (\<lambda>c. is_lower c \<or> is_upper c \<or> is_digit c) c"
    using shape(2) charset_chars by (auto simp: list_all_iff)
  have no: "CHR ''i'' \<notin> set (ToLower c)" "CHR ''l'' \<notin> set (ToLower c)" "CHR ''o'' \<notin> set (ToLower c)"
    using shape(2) charset_chars by (fastforce simp: ToLower_def)+
  have "w \<in> set reservedWords \<Longrightarrow> length w < 6 \<or> length w > 8 \<or>
      CHR ''i'' \<in> set w \<or> CHR ''l'' \<in> set w \<or> CHR ''o'' \<in> set w" for w
    by (auto simp: reservedWords_def)
  then have "ToLower c \<notin> set reservedWords" using no len by (metis length_ToLower not_le)
  then show ?thesis using len alnum by (simp add: validateCustomCode_def)
qed

text \<open>The code is the first unused one of the ten tries.\<close>

lemma generate_from_Inr:
  "generate_from draw db r n = Inr c \<longleftrightarrow>
     (\<exists>q. r \<le> q \<and> q < r + n \<and> random_code draw q = Some c \<and> \<not> codeExists db c \<and>
        (\<forall>p. r \<le> p \<and> p < q \<longrightarrow> (\<exists>d. random_code draw p = Some d \<and> codeExists db d)))"
  (is "?L r n \<longleftrightarrow> ?R r n")
proof (induction n arbitrary: r)
  case 0
  then show ?case by simp
next
  case (Suc n)
  show ?case
  proof (cases "random_code draw r")
    case None
    have "\<not> ?R r (Suc n)"
    proof
      assume "?R r (Suc n)"
      then obtain q where q: "r \<le> q" "random_code draw q = Some c"
        "\<forall>p. r \<le> p \<and> p < q \<longrightarrow> (\<exists>d. random_code draw p = Some d \<and> codeExists db d)" by blast
      then have "q \<noteq> r" using None by auto
      then show False using q None by (metis le_neq_implies_less option.distinct(1) order_refl)
    qed
    then show ?thesis using None by simp
  next
    case (Some d)
    show ?thesis
    proof (cases "codeExists db d")
      case False
      then have "?R r (Suc n) \<longleftrightarrow> c = d"
        using Some by (metis add_Suc_right le_add1 le_imp_less_Suc le_neq_implies_less not_less_iff_gr_or_eq option.inject order_refl)
      then show ?thesis using Some False by auto
    next
      case True
      have "?R r (Suc n) \<longleftrightarrow> ?R (Suc r) n"
      proof
        assume "?R r (Suc n)"
        then obtain q where q: "r \<le> q" "q < r + Suc n" "random_code draw q = Some c" "\<not> codeExists db c"
          "\<forall>p. r \<le> p \<and> p < q \<longrightarrow> (\<exists>d. random_code draw p = Some d \<and> codeExists db d)" by blast
        then have "q \<noteq> r" using Some True by auto
        then show "?R (Suc r) n" using q by (intro exI [of _ q]) auto
      next
        assume "?R (Suc r) n"
        then obtain q where q: "Suc r \<le> q" "q < Suc r + n" "random_code draw q = Some c" "\<not> codeExists db c"
          "\<forall>p. Suc r \<le> p \<and> p < q \<longrightarrow> (\<exists>d. random_code draw p = Some d \<and> codeExists db d)" by blast
        have "\<exists>d. random_code draw p = Some d \<and> codeExists db d" if "r \<le> p \<and> p < q" for p
          using q(5) that Some True by (cases "p = r") auto
        then show "?R r (Suc n)" using q by (intro exI [of _ q]) auto
      qed
      then show ?thesis using Some True Suc.IH [of "Suc r"] by simp
    qed
  qed
qed

lemma generateRandomCode_Inr:
  "generateRandomCode draw db = Inr c \<longleftrightarrow>
     (\<exists>q<10. random_code draw q = Some c \<and> \<not> codeExists db c \<and>
        (\<forall>p<q. \<exists>d. random_code draw p = Some d \<and> codeExists db d))"
  by (simp add: generateRandomCode_def generate_from_Inr)

lemma generateRandomCode_valid:
  assumes "generateRandomCode draw db = Inr c" and "draws_in_range draw"
  shows "validateCustomCode c = None" and "\<not> codeExists db c" and "6 \<le> length c" and "length c \<le> 8"
  using assms random_code_valid random_code_shape(1) by (auto simp: generateRandomCode_Inr)

section \<open>Lists in columns\<close>

lemma cleanStrings_clean:
  "v \<in> set (cleanStrings vs) \<Longrightarrow> v \<noteq> [] \<and> TrimSpace v = v"
proof -
  have "TrimSpace (TrimSpace w) = TrimSpace w" if "TrimSpace w \<noteq> []" for w
    using that unfolding TrimSpace_def by (intro strip_id) (simp_all add: strip_hd strip_last)
  then show "v \<in> set (cleanStrings vs) \<Longrightarrow> v \<noteq> [] \<and> TrimSpace v = v"
    by (auto simp: cleanStrings_def)
qed

lemma cleanStrings_id: "(\<And>v. v \<in> set vs \<Longrightarrow> v \<noteq> [] \<and> TrimSpace v = v) \<Longrightarrow> cleanStrings vs = vs"
  by (simp add: cleanStrings_def map_idI filter_id_conv)

lemma joinCSV_Nil_iff: "(\<And>v. v \<in> set vs \<Longrightarrow> v \<noteq> []) \<Longrightarrow> joinCSV vs = [] \<longleftrightarrow> vs = []"
  by (cases vs) (auto simp: joinCSV_def join_with_Cons)

definition column_list :: "string list \<Rightarrow> bool" where
  "column_list vs \<longleftrightarrow> (\<forall>v \<in> set vs. v \<noteq> [] \<and> TrimSpace v = v \<and> CHR '','' \<notin> set v)"

lemma splitCSV_joinCSV: "column_list vs \<Longrightarrow> splitCSV (joinCSV vs) = vs"
proof (cases "vs = []")
  case False
  assume a: "column_list vs"
  have "split_on (CHR '','') (joinCSV vs) = vs"
    unfolding joinCSV_def using a False by (intro split_join) (auto simp: column_list_def)
  moreover have "joinCSV vs \<noteq> []" using joinCSV_Nil_iff a False by (auto simp: column_list_def)
  moreover have "cleanStrings vs = vs" using a by (intro cleanStrings_id) (auto simp: column_list_def)
  ultimately show ?thesis by (simp add: splitCSV_def)
qed (simp add: splitCSV_def joinCSV_def)

lemma column_list_splitCSV: "column_list (splitCSV s)"
proof -
  have "set (TrimSpace w) \<subseteq> set w" for w unfolding TrimSpace_def by (rule set_strip)
  then have "CHR '','' \<notin> set v" if "v \<in> set (splitCSV s)" for v
    using that set_split_on [of _ "CHR '',''" s] by (auto simp: splitCSV_def cleanStrings_def split: if_splits)
  then show ?thesis using cleanStrings_clean by (auto simp: column_list_def splitCSV_def split: if_splits)
qed

lemma column_list_cleanStrings: "(\<And>v. v \<in> set vs \<Longrightarrow> CHR '','' \<notin> set v) \<Longrightarrow> column_list (cleanStrings vs)"
proof -
  assume a: "\<And>v. v \<in> set vs \<Longrightarrow> CHR '','' \<notin> set v"
  have "set (TrimSpace w) \<subseteq> set w" for w unfolding TrimSpace_def by (rule set_strip)
  then have "CHR '','' \<notin> set v" if "v \<in> set (cleanStrings vs)" for v
    using a that by (auto simp: cleanStrings_def)
  then show ?thesis using cleanStrings_clean by (auto simp: column_list_def)
qed

text \<open>Country codes are kept in order, upper-cased, without repetition.\<close>

lemma normalize_codes_Inr:
  "normalize_codes seen cs = Inr out \<Longrightarrow>
     distinct out \<and> set out \<inter> set seen = {} \<and>
     (\<forall>c \<in> set out. length c = 2 \<and> list_all is_upper c) \<and>
     set out \<union> set seen = {c \<in> (\<lambda>c. ToUpper (TrimSpace c)) ` set cs. c \<noteq> []} \<union> set seen"
proof (induction cs arbitrary: seen out)
  case Nil
  then show ?case by simp
next
  case (Cons c0 cs)
  obtain c where c: "ToUpper (TrimSpace c0) = c" by blast
  show ?case
  proof (cases "c = []")
    case True
    then show ?thesis using Cons.IH [of seen out] Cons.prems c by auto
  next
    case False
    then have ok: "length c = 2" "list_all is_upper c"
      using Cons.prems c by (auto simp: Let_def split: if_splits)
    show ?thesis
    proof (cases "c \<in> set seen")
      case True
      then have "normalize_codes seen cs = Inr out" using Cons.prems False ok c by simp
      from Cons.IH [OF this] show ?thesis using True False c by auto
    next
      case new: False
      then obtain rest where r: "normalize_codes (c # seen) cs = Inr rest" "out = c # rest"
        using Cons.prems False ok c by (auto simp: then_try_Inr)
      from Cons.IH [OF r(1)] show ?thesis using r(2) False ok new c by auto
    qed
  qed
qed

lemma upper_no_comma:
  assumes "length c = 2" and "list_all is_upper c"
  shows "c \<noteq> [] \<and> TrimSpace c = c \<and> CHR '','' \<notin> set c"
proof -
  have "\<not> go_space x \<and> x \<noteq> CHR '',''" if "is_upper x" for x
    using that by (auto simp: is_upper_def go_space_def)
  then have "\<not> go_space x \<and> x \<noteq> CHR '',''" if "x \<in> set c" for x
    using that assms(2) by (simp add: list_all_iff)
  then show ?thesis using assms(1) TrimSpace_id [of c] by auto
qed

lemma column_list_normalize:
  assumes "normalizeCountryCodes cs = Inr out"
  shows "column_list out"
  unfolding column_list_def
proof
  fix c assume "c \<in> set out"
  then have "length c = 2" "list_all is_upper c"
    using normalize_codes_Inr assms unfolding normalizeCountryCodes_def by blast+
  then show "c \<noteq> [] \<and> TrimSpace c = c \<and> CHR '','' \<notin> set c" by (rule upper_no_comma)
qed

end
