(* ===== verification/LinkStore.thy ===== *)
theory LinkStore
  imports LinkCodes
begin

text \<open>
  The link service over its table: a created link is what a lookup returns, an update changes
  the fields it names of one link, and whatever the requests, every stored link keeps a valid
  unique code and a web address as its destination.
\<close>

section \<open>One write of the table\<close>

definition look :: "link_db \<Rightarrow> string \<Rightarrow> url_row option" where
  "look db = map_of (urls db)"

lemma getURLByCodeRaw_look:
  "getURLByCodeRaw db c = (case look db c of None \<Rightarrow> Inl ErrURLNotFound | Some row \<Rightarrow> Inr (scanURLRow row))"
  by (simp add: getURLByCodeRaw_def look_def)

lemma insert_row_Some:
  assumes "insert_row row db = Some db'"
  shows "look db (short_code row) = None" and
    "look db' c = (if c = short_code row then Some (row\<lparr>row_id := next_row_id db\<rparr>) else look db c)" and
    "next_row_id db' = Suc (next_row_id db)"
  using assms by (auto simp: insert_row_def codeExists_def look_def assoc_list.get_put split: if_splits)

lemma insert_row_free: "\<not> codeExists db (short_code row) \<Longrightarrow> \<exists>db'. insert_row row db = Some db'"
  by (simp add: insert_row_def)

lemma look_update_row:
  "look (update_row c f db) c' = (if c' = c then map_option f (look db c) else look db c')"
  by (auto simp: look_def update_row_def assoc_list.get_put split: option.splits)

lemma next_update_row [simp]: "next_row_id (update_row c f db) = next_row_id db"
  by (simp add: update_row_def split: option.splits)

lemma DeleteURL_Inr:
  assumes "DeleteURL c db = Inr db'"
  shows "look db c \<noteq> None" and "look db' c' = (if c' = c then None else look db c')" and
    "next_row_id db' = next_row_id db"
  using assms by (auto simp: DeleteURL_def look_def assoc_list.get_del split: if_splits)

lemma DeleteURL_error: "DeleteURL c db = Inl e \<longleftrightarrow> e = ErrURLNotFound \<and> look db c = None"
  by (auto simp: DeleteURL_def look_def)

section \<open>Creation\<close>

lemma chosen_code_Inr:
  assumes "chosen_code draw db req = Inr chosen" and "draws_in_range draw"
  shows "validateCustomCode (fst chosen) = None" and "\<not> codeExists db (fst chosen)"
    and "snd chosen \<longleftrightarrow> cr_custom_code req \<noteq> []" and "snd chosen \<Longrightarrow> fst chosen = cr_custom_code req"
  using assms generateRandomCode_valid
  by (auto simp: chosen_code_def then_try_Inr split: if_splits option.splits)

text \<open>The three operations share one shape.\<close>

lemma insert_case:
  "(case r of None \<Rightarrow> Inl e | Some d \<Rightarrow> Inr (x, d)) = Inr (u, d') \<longleftrightarrow> r = Some d' \<and> u = x"
  by (auto split: option.splits)

lemma guard_case: "(if b then Inl e else r) = Inr y \<longleftrightarrow> \<not> b \<and> r = Inr y"
  by simp

lemma CreateURL_Inr:
  "CreateURL hash draw now' req db = Inr (u, db') \<longleftrightarrow>
     validateDestinationURL (cr_long_url req) = None \<and>
     (\<exists>chosen pw opts. chosen_code draw db req = Inr chosen \<and> hash_password hash (cr_password req) = Inr pw \<and>
        buildLinkOptions req = Inr opts \<and>
        insert_row (new_row now' req chosen None None pw opts) db = Some db' \<and>
        u = applyTo opts (built_record now' (next_row_id db) req chosen (cr_description req) None None pw))"
  unfolding CreateURL_def guard_case then_try_Inr insert_case by auto

lemma CreateURLForUser_Inr:
  "CreateURLForUser draw now' i req db = Inr (u, db') \<longleftrightarrow>
     validateDestinationURL (cr_long_url req) = None \<and>
     (\<exists>chosen opts. chosen_code draw db req = Inr chosen \<and> buildLinkOptions req = Inr opts \<and>
        insert_row (new_row now' req chosen (Some i) None None opts) db = Some db' \<and>
        u = applyTo opts (built_record now' (next_row_id db) req chosen None (Some i) None None))"
  unfolding CreateURLForUser_def guard_case then_try_Inr insert_case by auto

lemma CreateURLForOrg_Inr:
  "CreateURLForOrg draw now' i req db = Inr (u, db') \<longleftrightarrow>
     validateDestinationURL (cr_long_url req) = None \<and>
     (\<exists>chosen opts. chosen_code draw db req = Inr chosen \<and> buildLinkOptions req = Inr opts \<and>
        insert_row (new_row now' req chosen None (Some i) None opts) db = Some db' \<and>
        u = applyTo opts (built_record now' (next_row_id db) req chosen None None (Some i) None))"
  unfolding CreateURLForOrg_def guard_case then_try_Inr insert_case by auto

text \<open>What the options leave in the columns is what scanning them gives back.\<close>

lemma str_opt_non_empty [simp]: "non_empty (str_opt s) = str_opt s"
  by (simp add: non_empty_def str_opt_def derefStr_def)

lemma device_url_Inr: "device_url s = Inr v \<Longrightarrow> v = str_opt s \<and> (\<forall>t. v = Some t \<longrightarrow> validateDestinationURL t = None)"
  by (auto simp: device_url_def str_opt_def split: if_splits)

definition clean_options :: "link_options \<Rightarrow> bool" where
  "clean_options opts \<longleftrightarrow>
     (\<forall>v \<in> {lo_utm_source opts, lo_utm_medium opts, lo_utm_campaign opts, lo_utm_term opts, lo_utm_content opts,
            lo_mobile_url opts, lo_desktop_url opts, lo_tablet_url opts}. non_empty v = v) \<and>
     (\<forall>v \<in> {lo_mobile_url opts, lo_desktop_url opts, lo_tablet_url opts}.
        \<forall>t. v = Some t \<longrightarrow> validateDestinationURL t = None)"

lemma buildLinkOptions_clean:
  assumes "buildLinkOptions req = Inr opts"
  shows "clean_options opts"
proof -
  obtain geo mob desk tab where d: "device_url (cr_mobile_url req) = Inr mob" "device_url (cr_desktop_url req) = Inr desk"
    "device_url (cr_tablet_url req) = Inr tab"
    and o: "lo_mobile_url opts = mob" "lo_desktop_url opts = desk" "lo_tablet_url opts = tab"
      "lo_utm_source opts = str_opt (cr_utm_source req)" "lo_utm_medium opts = str_opt (cr_utm_medium req)"
      "lo_utm_campaign opts = str_opt (cr_utm_campaign req)" "lo_utm_term opts = str_opt (cr_utm_term req)"
      "lo_utm_content opts = str_opt (cr_utm_content req)"
    using assms unfolding buildLinkOptions_def Let_def then_try_Inr guard_case by (elim exE conjE) force
  show ?thesis unfolding clean_options_def
    using d [THEN device_url_Inr] by (simp add: o)
qed

lemma scan_new_row:
  assumes "clean_options opts"
  shows "scanURLRow ((new_row now' req chosen user org pw opts)\<lparr>row_id := i\<rparr>) =
    (applyTo opts (built_record now' i req chosen desc user org pw))\<lparr>Description := cr_description req\<rparr>"
  using assms by (simp add: scanURLRow_def new_row_def applyTo_def built_record_def clean_options_def)

lemma look_after_insert:
  assumes "insert_row (new_row now' req chosen user org pw opts) db = Some db'" and "clean_options opts"
    and "u = applyTo opts (built_record now' (next_row_id db) req chosen desc user org pw)"
  shows "getURLByCodeRaw db (ShortCode u) = Inl ErrURLNotFound"
    and "getURLByCodeRaw db' (ShortCode u) = Inr (u\<lparr>Description := cr_description req\<rparr>)"
    and "c \<noteq> ShortCode u \<Longrightarrow> getURLByCodeRaw db' c = getURLByCodeRaw db c"
    and "LongURL u = cr_long_url req" and "PasswordHash u = pw" and "UserID u = user" and "OrgID u = org"
    and "Description u = desc"
proof -
  have code: "short_code (new_row now' req chosen user org pw opts) = ShortCode u"
    using assms(3) by (simp add: new_row_def applyTo_def built_record_def)
  note ins = insert_row_Some [OF assms(1), unfolded code]
  show "getURLByCodeRaw db (ShortCode u) = Inl ErrURLNotFound"
    "getURLByCodeRaw db' (ShortCode u) = Inr (u\<lparr>Description := cr_description req\<rparr>)"
    "c \<noteq> ShortCode u \<Longrightarrow> getURLByCodeRaw db' c = getURLByCodeRaw db c"
    using ins scan_new_row [OF assms(2)] assms(3)
    by (simp_all add: getURLByCodeRaw_look)
  show "LongURL u = cr_long_url req" "PasswordHash u = pw" "UserID u = user" "OrgID u = org" "Description u = desc"
    using assms(3) by (simp_all add: applyTo_def built_record_def)
qed

section \<open>Update\<close>

definition text_update :: "string option \<Rightarrow> string option \<Rightarrow> string option" where
  "text_update new old = (case new of None \<Rightarrow> old | Some s \<Rightarrow> str_opt s)"

lemma non_empty_given [simp]: "non_empty (given_or_opt new (non_empty x)) = text_update new (non_empty x)"
  by (cases new) (simp_all add: given_or_opt_def text_update_def non_empty_def str_opt_def derefStr_def)

text \<open>The link after an update: the fields the request names, the others as they were.\<close>

definition updated_url :: "int \<Rightarrow> update_request \<Rightarrow> string option \<Rightarrow> string list \<Rightarrow> URL \<Rightarrow> URL" where
  "updated_url now' req pw countries u =
     u\<lparr>LongURL := given_or (ur_long_url req) (LongURL u), Title := given_or_opt (ur_title req) (Title u),
      Description := given_or_opt (ur_description req) (Description u), PasswordHash := pw,
      ExpiresAt := updated_expiry req (ExpiresAt u), Visibility := given_or (ur_visibility req) (Visibility u),
      Tags := (case ur_tags req of None \<Rightarrow> Tags u | Some ts \<Rightarrow> splitCSV (joinCSV (cleanStrings ts))),
      UTMSource := text_update (ur_utm_source req) (UTMSource u),
      UTMMedium := text_update (ur_utm_medium req) (UTMMedium u),
      UTMCampaign := text_update (ur_utm_campaign req) (UTMCampaign u),
      UTMTerm := text_update (ur_utm_term req) (UTMTerm u),
      UTMContent := text_update (ur_utm_content req) (UTMContent u),
      GeoMode := given_or (ur_geo_mode req) (GeoMode u), GeoCountries := countries,
      MobileURL := text_update (ur_mobile_url req) (MobileURL u),
      DesktopURL := text_update (ur_desktop_url req) (DesktopURL u),
      TabletURL := text_update (ur_tablet_url req) (TabletURL u), UpdatedAt := now'\<rparr>"

lemma splitCSV_again [simp]: "splitCSV (joinCSV (splitCSV s)) = splitCSV s"
  by (rule splitCSV_joinCSV [OF column_list_splitCSV])

lemma scan_updated_row:
  "scanURLRow (updated_row now' req (scanURLRow row) pw geo row) =
     updated_url now' req pw (splitCSV geo) (scanURLRow row)"
  by (simp add: scanURLRow_def updated_row_def updated_url_def derefStr_def split: option.splits)

definition wanted_countries :: "update_request \<Rightarrow> URL \<Rightarrow> url_error + string list" where
  "wanted_countries req u =
     (case ur_geo_countries req of None \<Rightarrow> Inr (GeoCountries u) | Some cs \<Rightarrow> normalizeCountryCodes cs)"

lemma updated_countries_wanted:
  "updated_countries req (GeoCountries (scanURLRow row)) = Inr geo \<longleftrightarrow>
     (\<exists>cs. wanted_countries req (scanURLRow row) = Inr cs \<and> geo = joinCSV cs)"
  by (auto simp: updated_countries_def wanted_countries_def then_try_Inr split: option.splits)

lemma wanted_countries_column: "wanted_countries req (scanURLRow row) = Inr cs \<Longrightarrow> column_list cs"
  using column_list_normalize column_list_splitCSV
  by (auto simp: wanted_countries_def scanURLRow_def split: option.splits)

lemma UpdateURL_Inr:
  assumes "UpdateURL hash now' c req db = Inr (u', db')"
  obtains row pw cs where "look db c = Some row"
    "\<And>raw. ur_long_url req = Some raw \<Longrightarrow> validateDestinationURL raw = None"
    "updated_password hash req (password_hash row) = Inr pw"
    "wanted_countries req (scanURLRow row) = Inr cs"
    "u' = updated_url now' req pw cs (scanURLRow row)"
    "GeoMode u' \<noteq> ''none'' \<Longrightarrow> cs \<noteq> []"
    "db' = update_row c (updated_row now' req (scanURLRow row) pw (joinCSV cs)) db"
proof -
  obtain u pw geo where u: "getURLByCodeRaw db c = Inr u"
    and url: "\<not> (case ur_long_url req of None \<Rightarrow> False | Some raw \<Rightarrow> validateDestinationURL raw \<noteq> None)"
    and pw: "updated_password hash req (PasswordHash u) = Inr pw"
    and geo: "updated_countries req (GeoCountries u) = Inr geo"
    and mode: "\<not> (given_or (ur_geo_mode req) (GeoMode u) \<noteq> ''none'' \<and> geo = [])"
    and db: "db' = update_row c (updated_row now' req u pw geo) db"
    and u': "getURLByCodeRaw db' c = Inr u'"
    using assms unfolding UpdateURL_def Let_def guard_case then_try_Inr by auto
  obtain row where row: "look db c = Some row" "u = scanURLRow row"
    using u by (auto simp: getURLByCodeRaw_look split: option.splits)
  obtain cs where cs: "wanted_countries req (scanURLRow row) = Inr cs" "geo = joinCSV cs"
    using geo row updated_countries_wanted by auto
  note col = wanted_countries_column [OF cs(1)]
  have "u' = scanURLRow (updated_row now' req (scanURLRow row) pw (joinCSV cs) row)"
    using u' row cs(2) db by (simp add: getURLByCodeRaw_look look_update_row)
  then have eq: "u' = updated_url now' req pw cs (scanURLRow row)"
    by (simp add: scan_updated_row splitCSV_joinCSV [OF col])
  show ?thesis
  proof (rule that [OF row(1) _ _ cs(1) eq])
    show "\<And>raw. ur_long_url req = Some raw \<Longrightarrow> validateDestinationURL raw = None" using url by simp
    show "updated_password hash req (password_hash row) = Inr pw" using pw row by (simp add: scanURLRow_def)
    show "GeoMode u' \<noteq> ''none'' \<Longrightarrow> cs \<noteq> []"
      using mode eq row cs(2) by (auto simp: updated_url_def joinCSV_def)
    show "db' = update_row c (updated_row now' req (scanURLRow row) pw (joinCSV cs)) db"
      using db row cs(2) by simp
  qed
qed

section \<open>Any sequence of requests\<close>

definition sound_row :: "string \<Rightarrow> url_row \<Rightarrow> bool" where
  "sound_row c row \<longleftrightarrow>
     short_code row = c \<and> validateCustomCode c = None \<and> validateDestinationURL (long_url row) = None"

definition sound_db :: "link_db \<Rightarrow> bool" where
  "sound_db db \<longleftrightarrow>
     (\<forall>c row. look db c = Some row \<longrightarrow> sound_row c row \<and> row_id row < next_row_id db) \<and>
     (\<forall>c d row row'. look db c = Some row \<longrightarrow> look db d = Some row' \<longrightarrow> row_id row = row_id row' \<longrightarrow> c = d)"

inductive link_step :: "link_db \<Rightarrow> link_db \<Rightarrow> bool" where
  create_step: "draws_in_range draw \<Longrightarrow> CreateURL hash draw now' req db = Inr (u, db') \<Longrightarrow> link_step db db'"
| create_user_step: "draws_in_range draw \<Longrightarrow> CreateURLForUser draw now' i req db = Inr (u, db') \<Longrightarrow> link_step db db'"
| create_org_step: "draws_in_range draw \<Longrightarrow> CreateURLForOrg draw now' i req db = Inr (u, db') \<Longrightarrow> link_step db db'"
| update_step: "UpdateURL hash now' c upd db = Inr (u, db') \<Longrightarrow> link_step db db'"
| delete_step: "DeleteURL c db = Inr db' \<Longrightarrow> link_step db db'"
| expire_step: "link_step db (expireURLs now' db)"

inductive reachable_db :: "link_db \<Rightarrow> bool" where
  empty_db: "reachable_db \<lparr>urls = [], next_row_id = 1\<rparr>"
| next_db: "reachable_db db \<Longrightarrow> link_step db db' \<Longrightarrow> reachable_db db'"

inductive_cases link_stepE: "link_step db db'"

lemma sound_dbD:
  assumes "sound_db db" and "look db c = Some row"
  shows "sound_row c row" and "row_id row < next_row_id db"
  using assms by (simp_all add: sound_db_def)

lemma sound_db_ids:
  assumes "sound_db db" and "look db c = Some row" and "look db d = Some row'" and "row_id row = row_id row'"
  shows "c = d"
  using assms unfolding sound_db_def by blast

lemma sound_dbI:
  assumes "\<And>c row. look db c = Some row \<Longrightarrow> sound_row c row \<and> row_id row < next_row_id db"
    and "\<And>c d row row'. look db c = Some row \<Longrightarrow> look db d = Some row' \<Longrightarrow> row_id row = row_id row' \<Longrightarrow> c = d"
  shows "sound_db db"
  using assms unfolding sound_db_def by blast

lemma sound_insert:
  assumes "sound_db db" and "insert_row row db = Some db'" and "sound_row (short_code row) row"
  shows "sound_db db'"
proof (rule sound_dbI)
  note ins = insert_row_Some(2,3) [OF assms(2)]
  have old: "row_id r < next_row_id db" if "look db c = Some r" for c r
    using that sound_dbD(2) [OF assms(1)] by blast
  show "sound_row c r \<and> row_id r < next_row_id db'" if "look db' c = Some r" for c r
    using that ins assms(3) old [of c r] sound_dbD(1) [OF assms(1), of c r]
    by (auto simp: sound_row_def split: if_splits)
  show "c = d" if "look db' c = Some r" "look db' d = Some s" "row_id r = row_id s" for c d r s
  proof (cases "c = short_code row \<or> d = short_code row")
    case True
    then show ?thesis using that ins(1) old [of c r] old [of d s] by (auto split: if_splits)
  next
    case False
    then show ?thesis using that ins(1) sound_db_ids [OF assms(1)] by simp
  qed
qed

lemma sound_create:
  assumes "sound_db db" and "chosen_code draw db req = Inr chosen" and "draws_in_range draw"
    and "validateDestinationURL (cr_long_url req) = None"
    and "insert_row (new_row now' req chosen user org pw opts) db = Some db'"
  shows "sound_db db'"
  using assms(1,5) chosen_code_Inr(1) [OF assms(2,3)] assms(4)
  by (intro sound_insert [OF assms(1,5)]) (simp add: sound_row_def new_row_def)

lemma sound_update_row:
  assumes "sound_db db" and "look db c = Some row" and "row_id (f row) = row_id row" and "sound_row c (f row)"
  shows "sound_db (update_row c f db)"
proof (rule sound_dbI)
  have old: "\<exists>y. look db d = Some y \<and> row_id y = row_id x \<and> sound_row d x"
    if "look (update_row c f db) d = Some x" for d x
  proof (cases "d = c")
    case True
    then show ?thesis using that assms(2,3,4) by (auto simp: look_update_row)
  next
    case False
    then show ?thesis using that sound_dbD(1) [OF assms(1)] by (simp add: look_update_row)
  qed
  show "sound_row d x \<and> row_id x < next_row_id (update_row c f db)"
    if "look (update_row c f db) d = Some x" for d x
    using old [OF that] sound_dbD(2) [OF assms(1)] by (metis next_update_row)
  show "d = e" if "look (update_row c f db) d = Some x" "look (update_row c f db) e = Some y" "row_id x = row_id y"
    for d e x y
    using old [OF that(1)] old [OF that(2)] that(3) sound_db_ids [OF assms(1)] by metis
qed

lemma sound_update:
  assumes "sound_db db" and "UpdateURL hash now' c req db = Inr (u', db')"
  shows "sound_db db'"
  using assms(2)
proof (rule UpdateURL_Inr)
  fix row pw cs
  assume a: "look db c = Some row" "\<And>raw. ur_long_url req = Some raw \<Longrightarrow> validateDestinationURL raw = None"
    "db' = update_row c (updated_row now' req (scanURLRow row) pw (joinCSV cs)) db"
  have "sound_row c row" using assms(1) a(1) by (simp add: sound_db_def)
  then have "sound_row c (updated_row now' req (scanURLRow row) pw (joinCSV cs) row)"
    using a(2) by (auto simp: sound_row_def updated_row_def scanURLRow_def given_or_def split: option.splits)
  then show "sound_db db'" unfolding a(3)
    by (intro sound_update_row [OF assms(1) a(1)]) (simp_all add: updated_row_def)
qed

lemma sound_delete:
  assumes "sound_db db" and "DeleteURL c db = Inr db'"
  shows "sound_db db'"
proof (rule sound_dbI)
  note del = DeleteURL_Inr(2,3) [OF assms(2)]
  show "sound_row d r \<and> row_id r < next_row_id db'" if "look db' d = Some r" for d r
    using that del sound_dbD [OF assms(1), of d r] by (auto split: if_splits)
  show "d = e" if "look db' d = Some r" "look db' e = Some s" "row_id r = row_id s" for d e r s
    using that del(1) sound_db_ids [OF assms(1)] by (auto split: if_splits)
qed

text \<open>The codes of the rows are unique, so that a clean-up never uncovers another row.\<close>

definition unique_codes :: "link_db \<Rightarrow> bool" where
  "unique_codes db \<longleftrightarrow> distinct (map fst (urls db))"

lemma unique_insert: "insert_row row db = Some db' \<Longrightarrow> unique_codes db \<Longrightarrow> unique_codes db'"
  by (auto simp: insert_row_def unique_codes_def distinct_update split: if_splits)

lemma unique_step: "link_step db db' \<Longrightarrow> unique_codes db \<Longrightarrow> unique_codes db'"
proof (erule link_stepE)
  fix hash now' c upd u
  assume "unique_codes db" "UpdateURL hash now' c upd db = Inr (u, db')"
  then show "unique_codes db'"
    by (elim UpdateURL_Inr) (auto simp: update_row_def unique_codes_def distinct_update split: option.splits)
next
  fix c
  assume "unique_codes db" "DeleteURL c db = Inr db'"
  then show "unique_codes db'" by (auto simp: DeleteURL_def unique_codes_def distinct_delete split: if_splits)
next
  fix now'
  assume "unique_codes db" "db' = expireURLs now' db"
  then show "unique_codes db'" by (simp add: expireURLs_def unique_codes_def distinct_map_filter)
qed (auto simp: CreateURL_Inr CreateURLForUser_Inr CreateURLForOrg_Inr intro: unique_insert)

lemma reachable_unique: "reachable_db db \<Longrightarrow> unique_codes db"
  by (induction rule: reachable_db.induct) (auto simp: unique_codes_def intro: unique_step [unfolded unique_codes_def])

lemma map_of_filter_distinct:
  "distinct (map fst xs) \<Longrightarrow> map_of (filter (\<lambda>(k, v). P v) xs) c =
     (case map_of xs c of Some v \<Rightarrow> if P v then Some v else None | None \<Rightarrow> None)"
proof (induction xs)
  case (Cons x xs)
  have "c \<notin> fst ` set xs \<Longrightarrow> map_of xs c = None" by (simp add: map_of_eq_None_iff)
  then show ?case using Cons by (cases x) auto
qed simp

lemma look_expire:
  assumes "unique_codes db"
  shows "look (expireURLs now' db) c =
    (case look db c of
       Some row \<Rightarrow> if (case expires_at row of Some t \<Rightarrow> t < now' | None \<Rightarrow> False) then None else Some row
     | None \<Rightarrow> None)"
  using assms map_of_filter_distinct [of "urls db" "\<lambda>row. case expires_at row of Some t \<Rightarrow> \<not> t < now' | None \<Rightarrow> True" c]
  by (auto simp: unique_codes_def look_def expireURLs_def split: option.splits)

lemma sound_expire:
  assumes "sound_db db" and "unique_codes db"
  shows "sound_db (expireURLs now' db)"
proof (rule sound_dbI)
  have old: "look db c = Some r" if "look (expireURLs now' db) c = Some r" for c r
    using that by (auto simp: look_expire [OF assms(2)] split: option.splits if_splits)
  show "sound_row c r \<and> row_id r < next_row_id (expireURLs now' db)" if "look (expireURLs now' db) c = Some r" for c r
    using sound_dbD [OF assms(1) old [OF that]] by (simp add: expireURLs_def)
  show "c = d" if "look (expireURLs now' db) c = Some r" "look (expireURLs now' db) d = Some s" "row_id r = row_id s" for c d r s
    using sound_db_ids [OF assms(1) old [OF that(1)] old [OF that(2)] that(3)] .
qed

lemma sound_step: "link_step db db' \<Longrightarrow> sound_db db \<Longrightarrow> unique_codes db \<Longrightarrow> sound_db db'"
  by (erule link_stepE)
    (auto simp: CreateURL_Inr CreateURLForUser_Inr CreateURLForOrg_Inr
      intro: sound_create sound_update sound_delete sound_expire)

lemma reachable_sound: "reachable_db db \<Longrightarrow> sound_db db"
proof (induction rule: reachable_db.induct)
  case empty_db
  show ?case by (simp add: sound_db_def look_def)
next
  case (next_db db db')
  then show ?case using sound_step reachable_unique by blast
qed

section \<open>Properties\<close>

text \<open>
  C2 (links_stay_sound). Whatever links are created, changed, deleted and expired, a link found under a
  code has that code, the code passes the rules for custom codes (it is no reserved word), the
  destination is a valid http or https address, and no other code has the link's id.
\<close>

theorem links_stay_sound:
  assumes "reachable_db db" and "getURLByCodeRaw db c = Inr u"
  shows "ShortCode u = c \<and> validateCustomCode c = None \<and> validateDestinationURL (LongURL u) = None \<and>
    web_address (LongURL u) \<and> (\<forall>d v. getURLByCodeRaw db d = Inr v \<longrightarrow> ID v = ID u \<longrightarrow> d = c)"
proof -
  obtain row where row: "look db c = Some row" "u = scanURLRow row"
    using assms(2) by (auto simp: getURLByCodeRaw_look split: option.splits)
  have s: "sound_db db" using assms(1) by (rule reachable_sound)
  then have r: "sound_row c row" using row by (simp add: sound_db_def)
  have "d = c" if "getURLByCodeRaw db d = Inr v" "ID v = ID u" for d v
    using that s row by (auto simp: getURLByCodeRaw_look sound_db_def scanURLRow_def split: option.splits)
  then show ?thesis using r row valid_destination_is_web by (simp add: sound_row_def scanURLRow_def)
qed

text \<open>
  The task that deletes expired links cannot be told from doing nothing by whoever follows
  links later: a link that was found is found the same, and one that had expired is answered as
  expired or as not found.
\<close>

theorem expiry_unseen:
  assumes "reachable_db db" and "now' \<le> later"
  shows "GetURLByCode later (expireURLs now' db) c = GetURLByCode later db c \<or>
    (GetURLByCode later db c = Inl ErrURLExpired \<and> GetURLByCode later (expireURLs now' db) c = Inl ErrURLNotFound)"
proof (cases "look db c")
  case None
  then show ?thesis using look_expire [OF reachable_unique [OF assms(1)]]
    by (simp add: GetURLByCode_def getURLByCodeRaw_look)
next
  case (Some row)
  have "expired_at later (scanURLRow row) \<longleftrightarrow> (case expires_at row of Some t \<Rightarrow> t < later | None \<Rightarrow> False)"
    by (auto simp: expired_at_def scanURLRow_def split: option.splits)
  then show ?thesis using Some assms(2) look_expire [OF reachable_unique [OF assms(1)], of now' c]
    by (auto simp: GetURLByCode_def getURLByCodeRaw_look then_try_def split: option.splits)
qed

text \<open>A request that only names a destination and a code.\<close>

definition plain_request :: "string \<Rightarrow> string \<Rightarrow> create_request" where
  "plain_request url c = \<lparr>cr_long_url = url, cr_custom_code = c, cr_title = None, cr_description = None,
     cr_password = [], cr_expires_at = None, cr_expire_after = [], cr_visibility = [], cr_tags = [],
     cr_utm_source = [], cr_utm_medium = [], cr_utm_campaign = [], cr_utm_term = [], cr_utm_content = [],
     cr_geo_mode = [], cr_geo_countries = [], cr_mobile_url = [], cr_desktop_url = [], cr_tablet_url = []\<rparr>"

definition no_update :: update_request where
  "no_update = \<lparr>ur_long_url = None, ur_title = None, ur_description = None, ur_password = None,
     ur_expires_at = None, ur_visibility = None, ur_tags = None, ur_utm_source = None, ur_utm_medium = None,
     ur_utm_campaign = None, ur_utm_term = None, ur_utm_content = None, ur_geo_mode = None,
     ur_geo_countries = None, ur_mobile_url = None, ur_desktop_url = None, ur_tablet_url = None\<rparr>"

definition never_draws :: "nat \<Rightarrow> nat \<Rightarrow> nat option" where
  "never_draws r i = None"

lemma never_draws_in_range [simp]: "draws_in_range never_draws"
  by (simp add: draws_in_range_def never_draws_def)

lemmas link_eval = CreateURL_def CreateURLForUser_def CreateURLForOrg_def UpdateURL_def DeleteURL_def
  validateDestinationURL_def chosen_code_def validateCustomCode_def reservedWords_def codeExists_def
  hash_password_def buildLinkOptions_def insert_row_def new_row_def built_record_def applyTo_def
  chosen_expiry_def parseExpiration_def device_url_def str_opt_def getURLByCodeRaw_def scanURLRow_def non_empty_def derefStr_def
  splitCSV_def joinCSV_def cleanStrings_def normalizeCountryCodes_def updated_row_def update_row_def
  updated_password_def updated_countries_def updated_expiry_def given_or_def given_or_opt_def
  zero_time_def plain_request_def no_update_def

abbreviation no_links :: link_db where
  "no_links \<equiv> \<lparr>urls = [], next_row_id = 1\<rparr>"

lemma sample_created:
  "\<exists>u db. CreateURL Some never_draws 0 (plain_request ''http://a.io/'' ''abc'') no_links = Inr (u, db) \<and>
     getURLByCodeRaw db ''abc'' = Inr u"
  by (simp add: link_eval eval_simps)

lemma sample_created_user:
  "\<exists>u db. CreateURLForUser never_draws 0 7 ((plain_request ''http://a.io/'' ''abc'')\<lparr>cr_password := ''pw''\<rparr>) no_links =
     Inr (u, db)"
  by (simp add: link_eval eval_simps)

lemma sample_update:
  "\<exists>u db u' db'. CreateURL Some never_draws 0 (plain_request ''http://a.io/'' ''abc'') no_links = Inr (u, db) \<and>
     UpdateURL Some 5 ''abc'' (no_update\<lparr>ur_tags := Some [''x'', ''y'']\<rparr>) db = Inr (u', db')"
  by (simp add: link_eval eval_simps)

theorem links_stay_sound_witness:
  "\<exists>db u. reachable_db db \<and> getURLByCodeRaw db ''abc'' = Inr u \<and> ShortCode u = ''abc'' \<and> web_address (LongURL u)"
proof -
  obtain u db where c: "CreateURL Some never_draws 0 (plain_request ''http://a.io/'' ''abc'') no_links = Inr (u, db)"
    and g: "getURLByCodeRaw db ''abc'' = Inr u"
    using sample_created by blast
  have "reachable_db db"
    by (rule next_db [OF empty_db create_step [OF never_draws_in_range c]])
  then show ?thesis using links_stay_sound [of db "''abc''" u] g by blast
qed

lemma sample_kept:
  "\<exists>u db. CreateURL Some never_draws 0 (plain_request ''http://a.io/'' ''abc'') no_links = Inr (u, db) \<and>
     GetURLByCode 20 db ''abc'' = Inr u"
  by (simp add: link_eval GetURLByCode_def expired_at_def eval_simps)

theorem expiry_unseen_witness:
  "\<exists>db u. reachable_db db \<and> GetURLByCode 20 db ''abc'' = Inr u \<and> GetURLByCode 20 (expireURLs 10 db) ''abc'' = Inr u"
proof -
  obtain u db where c: "CreateURL Some never_draws 0 (plain_request ''http://a.io/'' ''abc'') no_links = Inr (u, db)"
    and g: "GetURLByCode 20 db ''abc'' = Inr u"
    using sample_kept by blast
  have r: "reachable_db db" by (rule next_db [OF empty_db create_step [OF never_draws_in_range c]])
  then show ?thesis using expiry_unseen [OF r, of 10 20 "''abc''"] g by auto
qed

text \<open>
  A created link is found under its code exactly as it was returned,
  password hash included; the code was free before, the destination is the one asked for, a
  password hash is stored exactly when a password was given, and no other code's link changed.
\<close>

theorem created_link_found:
  assumes "CreateURL hash draw now' req db = Inr (u, db')"
  shows "getURLByCodeRaw db (ShortCode u) = Inl ErrURLNotFound \<and> getURLByCodeRaw db' (ShortCode u) = Inr u \<and>
    LongURL u = cr_long_url req \<and> (cr_custom_code req \<noteq> [] \<longrightarrow> ShortCode u = cr_custom_code req) \<and>
    (if cr_password req = [] then PasswordHash u = None
     else PasswordHash u \<noteq> None \<and> PasswordHash u = hash (cr_password req)) \<and>
    (\<forall>c. c \<noteq> ShortCode u \<longrightarrow> getURLByCodeRaw db' c = getURLByCodeRaw db c)"
proof -
  obtain chosen pw opts where ch: "chosen_code draw db req = Inr chosen"
    and pw: "hash_password hash (cr_password req) = Inr pw" and o: "buildLinkOptions req = Inr opts"
    and ins: "insert_row (new_row now' req chosen None None pw opts) db = Some db'"
    and u: "u = applyTo opts (built_record now' (next_row_id db) req chosen (cr_description req) None None pw)"
    using assms unfolding CreateURL_Inr by blast
  note f = look_after_insert [OF ins buildLinkOptions_clean [OF o] u]
  have "u\<lparr>Description := cr_description req\<rparr> = u" using f(8) by simp
  moreover have "ShortCode u = fst chosen" using u by (simp add: applyTo_def built_record_def)
  moreover have "cr_custom_code req \<noteq> [] \<longrightarrow> fst chosen = cr_custom_code req"
    using ch by (auto simp: chosen_code_def split: if_splits option.splits)
  moreover have "if cr_password req = [] then pw = None else pw \<noteq> None \<and> pw = hash (cr_password req)"
    using pw unfolding hash_password_def by (cases pw) (simp_all split: if_splits option.splits)
  ultimately show ?thesis using f by (cases pw) (auto split: if_splits)
qed

theorem created_link_found_witness:
  "\<exists>u db. CreateURL Some never_draws 0 (plain_request ''http://a.io/'' ''abc'') no_links = Inr (u, db) \<and>
     getURLByCodeRaw db ''abc'' = Inr u \<and> LongURL u = ''http://a.io/'' \<and> PasswordHash u = None"
proof -
  let ?req = "plain_request ''http://a.io/'' ''abc''"
  obtain u db where c: "CreateURL Some never_draws 0 ?req no_links = Inr (u, db)"
    using sample_created by blast
  have "ShortCode u = ''abc'' \<and> getURLByCodeRaw db (ShortCode u) = Inr u \<and> LongURL u = ''http://a.io/'' \<and> PasswordHash u = None"
    using created_link_found [OF c] by (elim conjE) (simp add: plain_request_def)
  then show ?thesis using c by auto
qed

text \<open>
  A link created for a user or an organisation is stored with
  that owner and found under its code, but the password of the request is not kept: the link is
  open to everyone with the code, whatever password was asked for. The description is stored
  although the returned record lacks it.
\<close>

theorem owned_link_drops_password:
  assumes "(if for_org then CreateURLForOrg else CreateURLForUser) draw now' i req db = Inr (u, db')"
  shows "getURLByCodeRaw db (ShortCode u) = Inl ErrURLNotFound \<and>
    getURLByCodeRaw db' (ShortCode u) = Inr (u\<lparr>Description := cr_description req\<rparr>) \<and>
    LongURL u = cr_long_url req \<and> Description u = None \<and> PasswordHash u = None \<and>
    UserID u = (if for_org then None else Some i) \<and> OrgID u = (if for_org then Some i else None) \<and>
    (\<forall>c. c \<noteq> ShortCode u \<longrightarrow> getURLByCodeRaw db' c = getURLByCodeRaw db c)"
proof -
  define user where "user = (if for_org then None else Some i)"
  define org where "org = (if for_org then Some i else None)"
  obtain chosen opts where o: "buildLinkOptions req = Inr opts"
    and ins: "insert_row (new_row now' req chosen user org None opts) db = Some db'"
    and u: "u = applyTo opts (built_record now' (next_row_id db) req chosen None user org None)"
    using assms unfolding user_def org_def
    by (cases for_org) (auto simp: CreateURLForOrg_Inr CreateURLForUser_Inr)
  show ?thesis
    using look_after_insert [OF ins buildLinkOptions_clean [OF o] u] by (simp add: user_def org_def)
qed

theorem owned_link_drops_password_witness:
  "\<exists>u db. CreateURLForUser never_draws 0 7 ((plain_request ''http://a.io/'' ''abc'')\<lparr>cr_password := ''pw''\<rparr>) no_links =
     Inr (u, db) \<and> UserID u = Some 7 \<and> PasswordHash u = None"
proof -
  let ?req = "(plain_request ''http://a.io/'' ''abc'')\<lparr>cr_password := ''pw''\<rparr>"
  obtain u db where c: "CreateURLForUser never_draws 0 7 ?req no_links = Inr (u, db)"
    using sample_created_user by blast
  then have "(if False then CreateURLForOrg else CreateURLForUser) never_draws 0 7 ?req no_links = Inr (u, db)" by simp
  from owned_link_drops_password [OF this] show ?thesis using c by auto
qed

text \<open>
  An update that succeeds changes the link of its code to
  the values the request names, the empty text clearing an optional one, leaves every other
  field and the owner, id and code alone, and touches no other link. The new destination was
  validated, and a geographic restriction has a country.
\<close>

theorem update_changes_what_it_names:
  assumes "UpdateURL hash now' c req db = Inr (u', db')"
  shows "\<exists>u pw countries. getURLByCodeRaw db c = Inr u \<and>
    updated_password hash req (PasswordHash u) = Inr pw \<and> wanted_countries req u = Inr countries \<and>
    u' = updated_url now' req pw countries u \<and> getURLByCodeRaw db' c = Inr u' \<and>
    (\<forall>raw. ur_long_url req = Some raw \<longrightarrow> validateDestinationURL raw = None) \<and>
    (GeoMode u' \<noteq> ''none'' \<longrightarrow> countries \<noteq> []) \<and>
    (\<forall>d. d \<noteq> c \<longrightarrow> getURLByCodeRaw db' d = getURLByCodeRaw db d)"
  using assms
proof (rule UpdateURL_Inr)
  fix row pw cs
  assume a: "look db c = Some row" "\<And>raw. ur_long_url req = Some raw \<Longrightarrow> validateDestinationURL raw = None"
    "updated_password hash req (password_hash row) = Inr pw" "wanted_countries req (scanURLRow row) = Inr cs"
    "u' = updated_url now' req pw cs (scanURLRow row)" "GeoMode u' \<noteq> ''none'' \<Longrightarrow> cs \<noteq> []"
    "db' = update_row c (updated_row now' req (scanURLRow row) pw (joinCSV cs)) db"
  have "splitCSV (joinCSV cs) = cs" using wanted_countries_column [OF a(4)] by (rule splitCSV_joinCSV)
  then have "getURLByCodeRaw db' c = Inr u'" "\<forall>d. d \<noteq> c \<longrightarrow> getURLByCodeRaw db' d = getURLByCodeRaw db d"
    using a(1,5,7) by (simp_all add: getURLByCodeRaw_look look_update_row scan_updated_row)
  moreover have "getURLByCodeRaw db c = Inr (scanURLRow row)" "PasswordHash (scanURLRow row) = password_hash row"
    using a(1) by (simp_all add: getURLByCodeRaw_look scanURLRow_def)
  ultimately show ?thesis using a(2,3,4,5,6) by (intro exI [of _ "scanURLRow row"] exI [of _ pw] exI [of _ cs]) simp
qed

theorem update_changes_what_it_names_witness:
  "\<exists>u db u' db'. CreateURL Some never_draws 0 (plain_request ''http://a.io/'' ''abc'') no_links = Inr (u, db) \<and>
     UpdateURL Some 5 ''abc'' (no_update\<lparr>ur_tags := Some [''x'', ''y'']\<rparr>) db = Inr (u', db') \<and>
     getURLByCodeRaw db' ''abc'' = Inr u' \<and> UpdatedAt u' = 5"
proof -
  let ?upd = "no_update\<lparr>ur_tags := Some [''x'', ''y'']\<rparr>"
  obtain u db u' db' where
    c: "CreateURL Some never_draws 0 (plain_request ''http://a.io/'' ''abc'') no_links = Inr (u, db)" and
    upd: "UpdateURL Some 5 ''abc'' ?upd db = Inr (u', db')"
    using sample_update by blast
  have "getURLByCodeRaw db' ''abc'' = Inr u' \<and> UpdatedAt u' = 5"
    using update_changes_what_it_names [OF upd] by (auto simp: updated_url_def)
  then show ?thesis using c upd by blast
qed

text \<open>
  The generated code is the first of the ten random ones that is unused;
  it has six to eight characters, and it passes the rules for custom codes.
\<close>

theorem generated_code:
  assumes "draws_in_range draw"
  shows "generateRandomCode draw db = Inr c \<longleftrightarrow>
     (\<exists>q<10. random_code draw q = Some c \<and> \<not> codeExists db c \<and> validateCustomCode c = None \<and>
        length c = min (6 + q) 8 \<and> (\<forall>p<q. \<exists>d. random_code draw p = Some d \<and> codeExists db d))"
  using assms random_code_valid random_code_shape(1) unfolding generateRandomCode_Inr by metis

theorem generated_code_witness:
  "generateRandomCode (\<lambda>r i. if i < 6 then Some i else None) no_links = Inr ''abcdef''"
proof -
  let ?draw = "\<lambda>r i. if i < 6 then Some i else None"
  have d: "draws_in_range ?draw" by (simp add: draws_in_range_def code_charset_def)
  have m: "random_code ?draw 0 = Some ''abcdef''" by (simp add: random_code_def code_charset_def upt_rec)
  show ?thesis
    unfolding generated_code [OF d]
    using m random_code_valid [OF m d] by (intro exI [of _ 0]) (simp add: codeExists_def)
qed

end
