(* ===== verification/GoURLHost.thy ===== *)
theory GoURLHost
  imports GoURL
begin

text \<open>
  The host under \<open>ParseRequestURI\<close>, which accepted a URL, and under \<open>Parse\<close>, which reads it
  again when a visitor follows it: cutting off a fragment never changes the authority, so both
  see the same scheme and host, and \<open>String\<close> writes them back.
\<close>

section \<open>A host that parses has no number sign\<close>

lemma hex_value_Some: "hex_value c = Some x \<Longrightarrow> is_alnum c"
  by (auto simp: hex_value_def is_alnum_def is_lower_def is_upper_def is_digit_def split: if_splits)

lemma not_alnum_hash: "\<not> is_alnum (CHR ''#'')"
  by (simp add: is_alnum_def is_lower_def is_upper_def is_digit_def)

lemma unescape_host_no_hash:
  "unescape_url mode s = Some t \<Longrightarrow> mode = Host_Mode \<or> mode = Zone_Mode \<Longrightarrow> CHR ''#'' \<notin> set s"
proof (induction mode s arbitrary: t rule: unescape_url.induct)
  case (2 mode c cs)
  show ?case
  proof (cases "c = CHR ''%''")
    case True
    then obtain a b rest x y where h: "cs = a # b # rest" "hex_value a = Some x" "hex_value b = Some y"
      "unescape_url mode rest \<noteq> None" "escape_allowed mode x y"
      using "2.prems" by (auto split: list.splits option.splits if_splits)
    then have "CHR ''#'' \<notin> set rest" using "2.IH"(1) [OF True h(1) refl refl h(2,3,5)] h(4) "2.prems"(2) by auto
    then show ?thesis using True h hex_value_Some not_alnum_hash by auto
  next
    case False
    then have b: "byte_allowed mode c" "unescape_url mode cs \<noteq> None" using "2.prems" by (auto split: if_splits)
    then have "c \<noteq> CHR ''#''"
      using "2.prems"(2) not_alnum_hash by (auto simp: byte_allowed_def host_plain_def)
    then show ?thesis using "2.IH"(2) [OF False b(1)] b "2.prems"(2) by auto
  qed
qed simp

lemma find_zone_append: "find_zone s = Some (a, b) \<Longrightarrow> s = a @ b"
  by (induction s arbitrary: a) (auto split: if_splits)

lemma LastIndex_split: "LastIndex s c = Some i \<Longrightarrow> i < length s \<and> s ! i = c"
proof -
  assume a: "LastIndex s c = Some i"
  then have mem: "c \<in> set s" and i: "i = length s - 1 - length (takeWhile (\<lambda>x. x \<noteq> c) (rev s))"
    by (auto simp: LastIndex_def split: if_splits)
  let ?k = "length (takeWhile (\<lambda>x. x \<noteq> c) (rev s))"
  have k: "?k < length (rev s)"
    using mem by (metis (mono_tags, lifting) length_takeWhile_le linorder_not_le set_rev takeWhile_eq_all_conv
      takeWhile_eq_take take_all order_antisym_conv)
  then have "rev s ! ?k = c" using nth_length_takeWhile [of "\<lambda>x. x \<noteq> c" "rev s"] by simp
  then show ?thesis using k i by (simp add: rev_nth)
qed

lemma validOptionalPort_no_hash: "validOptionalPort p \<Longrightarrow> CHR ''#'' \<notin> set p"
  using not_alnum_hash by (cases p) (auto simp: validOptionalPort_def list_all_iff is_alnum_def)

lemma parseHost_no_hash:
  assumes "parseHost host = Some h"
  shows "CHR ''#'' \<notin> set host"
proof (cases "CHR ''['' \<in> set host")
  case False
  then have "unescape_url Host_Mode host = Some h"
    using assms by (auto simp: parseHost_def split: if_splits)
  then show ?thesis using unescape_host_no_hash by blast
next
  case True
  then obtain i where i: "LastIndex host (CHR '']'') = Some i"
    using assms by (auto simp: parseHost_def split: option.splits)
  let ?name = "drop 1 (take i host)"
  have h: "hd host = CHR ''[''" "validOptionalPort (drop (Suc i) host)"
    using assms True i by (auto simp: parseHost_def Let_def split: if_splits)
  have "CHR ''#'' \<notin> set ?name"
  proof (cases "find_zone ?name")
    case None
    then have "unescape_url Host_Mode ?name \<noteq> None"
      using assms True i h by (auto simp: parseHost_def Let_def split: option.splits)
    then show ?thesis using unescape_host_no_hash by blast
  next
    case (Some az)
    obtain a z where az: "az = (a, z)" by (cases az)
    then have "unescape_url Host_Mode a \<noteq> None" "unescape_url Zone_Mode z \<noteq> None"
      using assms True i h Some by (auto simp: parseHost_def Let_def split: option.splits)
    then have "CHR ''#'' \<notin> set a" "CHR ''#'' \<notin> set z" using unescape_host_no_hash by blast+
    then show ?thesis using find_zone_append Some az by (metis Un_iff set_append)
  qed
  moreover have "take i host = hd host # ?name \<or> take i host = []"
    by (cases host; cases i) auto
  then have "set (take i host) \<subseteq> insert (CHR ''['') (set ?name)"
    using h(1) by (metis empty_set empty_subsetI list.simps(15) order_refl)
  moreover have "host = take i host @ CHR '']'' # drop (Suc i) host"
    using LastIndex_split [OF i] id_take_nth_drop [of i host] by simp
  then have "set host = set (take i host) \<union> {CHR '']''} \<union> set (drop (Suc i) host)"
    by (metis Un_insert_right list.simps(15) set_append sup_bot.right_neutral insert_is_Un Un_assoc)
  ultimately show ?thesis using validOptionalPort_no_hash [OF h(2)] by auto
qed

lemma parseAuthority_no_hash:
  assumes "parseAuthority a = Some uh"
  shows "CHR ''#'' \<notin> set a"
proof (cases "LastIndex a (CHR ''@'')")
  case None
  then show ?thesis using assms parseHost_no_hash by (auto simp: parseAuthority_def)
next
  case (Some i)
  obtain h where h: "parseHost (drop (Suc i) a) = Some h" and ui: "parseUserinfo (take i a) \<noteq> None"
    using assms Some by (auto simp: parseAuthority_def split: option.splits)
  have "validUserinfo (take i a)" using ui by (auto simp: parseUserinfo_def split: if_splits)
  then have "CHR ''#'' \<notin> set (take i a)"
    using not_alnum_hash by (auto simp: validUserinfo_def list_all_iff)
  moreover have "a = take i a @ CHR ''@'' # drop (Suc i) a"
    using LastIndex_split [OF Some] id_take_nth_drop [of i a] by simp
  then have "set a = set (take i a) \<union> {CHR ''@''} \<union> set (drop (Suc i) a)"
    by (metis Un_insert_right list.simps(15) set_append sup_bot.right_neutral insert_is_Un Un_assoc)
  ultimately show ?thesis using parseHost_no_hash [OF h] by auto
qed
section \<open>Both ways of parsing agree on scheme and host\<close>

lemma takeWhile_swap: "takeWhile P (takeWhile Q s) = takeWhile Q (takeWhile P s)"
  by (induction s) auto

lemma split_query_rest: "split_query s = (rest, f, q) \<Longrightarrow> rest = takeWhile (\<lambda>c. c \<noteq> CHR ''?'') s"
proof -
  assume a: "split_query s = (rest, f, q)"
  show ?thesis
  proof (cases "s \<noteq> [] \<and> last s = CHR ''?'' \<and> count_list s (CHR ''?'') = 1")
    case True
    then obtain b where b: "s = b @ [CHR ''?'']" by (metis append_butlast_last_id)
    then have "count_list b (CHR ''?'') = 0" using True by simp
    then have "CHR ''?'' \<notin> set b" by (simp add: count_list_0_iff)
    then have "takeWhile (\<lambda>c. c \<noteq> CHR ''?'') s = butlast s" using b by (auto simp: takeWhile_append)
    then show ?thesis using a True by (simp add: split_query_def)
  next
    case False
    then show ?thesis using a by (auto simp: split_query_def Cut_def)
  qed
qed

lemma parse_hier_host:
  assumes "parse_hier v rest u0 = Some u" and "Scheme u0 \<noteq> []" and "prefix ''//'' rest"
  obtains ui where "parseAuthority (takeWhile (\<lambda>c. c \<noteq> CHR ''/'') (drop 2 rest)) = Some (ui, Host u)"
proof -
  have "prefix ''/'' rest" using assms(3) by (auto simp: prefix_def)
  then obtain ui h where p: "parseAuthority (takeWhile (\<lambda>c. c \<noteq> CHR ''/'') (drop 2 rest)) = Some (ui, h)"
    "setPath (dropWhile (\<lambda>c. c \<noteq> CHR ''/'') (drop 2 rest)) (u0\<lparr>User := ui, Host := h\<rparr>) = Some u"
    using assms by (auto simp: parse_hier_def Let_def split: option.splits)
  then show ?thesis using that setPath_keeps [OF p(2)] by simp
qed

lemma getScheme_cut:
  assumes "getScheme raw = Some (s, rest)" and "s \<noteq> []"
  shows "getScheme (fst (Cut raw (CHR ''#''))) = Some (s, takeWhile (\<lambda>c. c \<noteq> CHR ''#'') rest)"
proof -
  have raw: "raw = s @ CHR '':'' # rest" using getScheme_text [OF assms] .
  have s: "s = takeWhile scheme_char raw" "is_lower (hd raw) \<or> is_upper (hd raw) \<or> \<not> scheme_char (hd raw)"
    using assms by (auto simp: getScheme_def Let_def split: if_splits)
  have all: "\<forall>c \<in> set s. scheme_char c" using s(1) by (metis set_takeWhileD)
  have "\<not> scheme_char (CHR ''#'')" "\<not> scheme_char (CHR '':'')"
    by (simp_all add: scheme_char_def is_alnum_def is_lower_def is_upper_def is_digit_def)
  then have "fst (Cut raw (CHR ''#'')) = s @ CHR '':'' # takeWhile (\<lambda>c. c \<noteq> CHR ''#'') rest"
    using raw all by (auto simp: Cut_def takeWhile_append)
  then show ?thesis
    using s(2) all \<open>\<not> scheme_char (CHR '':'')\<close> assms(2) raw
    by (simp add: getScheme_def takeWhile_append dropWhile_append)
qed

theorem Parse_same_host:
  assumes "ParseRequestURI raw = Some u" and "Scheme u \<noteq> []" and "Host u \<noteq> []" and "Parse raw = Some w"
  shows "Scheme w = Scheme u \<and> Host w = Host u \<and> Opaque w = []"
proof -
  obtain s0 rest0 rest f q where gs: "getScheme raw = Some (s0, rest0)" and sq: "split_query rest0 = (rest, f, q)"
    and ph: "parse_hier True rest (no_url\<lparr>Scheme := ToLower s0, ForceQuery := f, RawQuery := q\<rparr>) = Some u"
    using assms(1-3) unfolding ParseRequestURI_def by (elim parse_url_cases) (auto simp: no_url_def)
  note facts = parse_hier_facts [OF ph]
  have sch: "Scheme u = ToLower s0" "prefix ''//'' rest" "s0 \<noteq> []"
    using facts assms(2,3) by (auto simp: no_url_def ToLower_def)
  obtain w0 fr r where w0: "parse_url (fst (Cut raw (CHR ''#''))) False = Some w0"
    and w: "w = w0\<lparr>Fragment := fr, RawFragment := r\<rparr>"
    using Parse_url [OF assms(4)] by blast
  let ?rest0 = "takeWhile (\<lambda>c. c \<noteq> CHR ''#'') rest0"
  have "fst (Cut raw (CHR ''#'')) \<noteq> ''*''"
    using getScheme_text [OF getScheme_cut [OF gs sch(3)] sch(3)] by (cases s0) auto
  then obtain rest' f' q' where sq': "split_query ?rest0 = (rest', f', q')"
    and ph': "parse_hier False rest' (no_url\<lparr>Scheme := ToLower s0, ForceQuery := f', RawQuery := q'\<rparr>) = Some w0"
    using w0 getScheme_cut [OF gs sch(3)] by (auto simp: parse_url_def Let_def split: if_splits prod.splits)
  have rest': "rest' = takeWhile (\<lambda>c. c \<noteq> CHR ''#'') rest"
    using split_query_rest [OF sq] split_query_rest [OF sq'] takeWhile_swap by metis
  obtain tl where tl: "rest = CHR ''/'' # CHR ''/'' # tl" using sch(2) by (auto simp: prefix_def)
  have pre: "prefix ''//'' rest'" using rest' tl by simp
  have ne: "Scheme (no_url\<lparr>Scheme := ToLower s0, ForceQuery := b, RawQuery := x\<rparr>) \<noteq> []" for b x
    using sch(3) by (simp add: no_url_def ToLower_def)
  obtain ui where au: "parseAuthority (takeWhile (\<lambda>c. c \<noteq> CHR ''/'') (drop 2 rest)) = Some (ui, Host u)"
    using parse_hier_host [OF ph ne sch(2)] by blast
  obtain ui' where au': "parseAuthority (takeWhile (\<lambda>c. c \<noteq> CHR ''/'') (drop 2 rest')) = Some (ui', Host w0)"
    using parse_hier_host [OF ph' ne pre] by blast
  have "drop 2 rest' = takeWhile (\<lambda>c. c \<noteq> CHR ''#'') (drop 2 rest)"
    using rest' tl by simp
  then have "takeWhile (\<lambda>c. c \<noteq> CHR ''/'') (drop 2 rest') =
      takeWhile (\<lambda>c. c \<noteq> CHR ''#'') (takeWhile (\<lambda>c. c \<noteq> CHR ''/'') (drop 2 rest))"
    by (simp only: takeWhile_swap [of "\<lambda>c. c \<noteq> CHR ''/''" "\<lambda>c. c \<noteq> CHR ''#''"])
  also have "\<dots> = takeWhile (\<lambda>c. c \<noteq> CHR ''/'') (drop 2 rest)"
    unfolding takeWhile_eq_all_conv using parseAuthority_no_hash [OF au] by blast
  finally have "Host w0 = Host u" using au au' by simp
  moreover have "Scheme w0 = Scheme u" "Host w0 \<noteq> [] \<longrightarrow> Opaque w0 = []"
    using parse_hier_facts [OF ph'] sch(1) by (simp_all add: no_url_def)
  ultimately show ?thesis using w assms(3) by simp
qed

lemma url_text_host:
  assumes "Scheme u \<noteq> []" and "Host u \<noteq> []" and "Opaque u = []"
  shows "prefix (Scheme u @ ''://'') (url_text u)"
  using assms by (simp add: url_text_def authority_text_def Let_def)

end
