(* ===== verification/LinkTarget.thy ===== *)
theory LinkTarget
  imports LinkCodes GoURLHost "HOL-Library.List_Lexorder" "HOL-Library.Char_ord"
begin

text \<open>
  Where a short link leads: the device of the visitor, the destination for it, the UTM
  parameters added to it, and the checks of country, visibility and password, all from
  \<^verbatim>\<open>src/server/service/url.go\<close>.
\<close>

section \<open>Devices\<close>

datatype device = Tablet | Mobile | Desktop

definition DetectDeviceType :: "string \<Rightarrow> device" where
  "DetectDeviceType userAgent =
     (let ua = ToLower userAgent
      in if Contains ua ''ipad'' \<or> Contains ua ''tablet'' \<or> (Contains ua ''android'' \<and> \<not> Contains ua ''mobile'')
         then Tablet
         else if Contains ua ''mobi'' \<or> Contains ua ''iphone'' \<or> Contains ua ''ipod'' \<or> Contains ua ''android''
         then Mobile
         else Desktop)"

definition device_override :: "URL \<Rightarrow> device \<Rightarrow> string option" where
  "device_override u d = (case d of Mobile \<Rightarrow> MobileURL u | Tablet \<Rightarrow> TabletURL u | Desktop \<Rightarrow> DesktopURL u)"

definition SelectDestination :: "URL \<Rightarrow> device \<Rightarrow> string" where
  "SelectDestination u d =
     (case device_override u d of
        None \<Rightarrow> LongURL u
      | Some t \<Rightarrow> if t \<noteq> [] then t else LongURL u)"

section \<open>UTM parameters\<close>

text \<open>
  \<open>url.Values\<close>: the pairs of a query. \<open>Query\<close> skips the parts that are malformed; \<open>Encode\<close>
  sorts by key and keeps the order of the values of one key.
\<close>

definition url_query :: "go_url \<Rightarrow> (string \<times> string) list" where
  "url_query u = List.map_filter parse_query_part (filter (\<lambda>p. p \<noteq> []) (split_on (CHR ''&'') (RawQuery u)))"

definition values_set :: "string \<Rightarrow> string \<Rightarrow> (string \<times> string) list \<Rightarrow> (string \<times> string) list" where
  "values_set k v kvs = filter (\<lambda>kv. fst kv \<noteq> k) kvs @ [(k, v)]"

definition values_encode :: "(string \<times> string) list \<Rightarrow> string" where
  "values_encode kvs =
     join_with ''&'' (map (\<lambda>(k, v). QueryEscape k @ CHR ''='' # QueryEscape v) (sort_key fst kvs))"

definition setIfAbsent :: "string \<times> string option \<Rightarrow> (string \<times> string) list \<Rightarrow> (string \<times> string) list" where
  "setIfAbsent kv q =
     (case snd kv of
        None \<Rightarrow> q
      | Some v \<Rightarrow> if v \<noteq> [] \<and> form_value q (fst kv) = [] then values_set (fst kv) v q else q)"

definition utm_fields :: "URL \<Rightarrow> (string \<times> string option) list" where
  "utm_fields u =
     [(''utm_source'', UTMSource u), (''utm_medium'', UTMMedium u), (''utm_campaign'', UTMCampaign u),
      (''utm_term'', UTMTerm u), (''utm_content'', UTMContent u)]"

definition ApplyUTM :: "string \<Rightarrow> URL \<Rightarrow> string" where
  "ApplyUTM dest u =
     (if list_all (\<lambda>kv. snd kv = None) (utm_fields u) then dest
      else
        (case Parse dest of
           None \<Rightarrow> dest
         | Some parsed \<Rightarrow>
             url_text (parsed\<lparr>RawQuery := values_encode (fold setIfAbsent (utm_fields u) (url_query parsed))\<rparr>)))"

section \<open>Checks\<close>

definition GeoAllowed :: "URL \<Rightarrow> string \<Rightarrow> bool" where
  "GeoAllowed u countryCode =
     (if GeoMode u = [] \<or> GeoMode u = ''none'' \<or> countryCode = [] then True
      else
        (let inList = list_ex (\<lambda>c. EqualFold c (ToUpper countryCode)) (GeoCountries u)
         in if GeoMode u = ''allow'' then inList
            else if GeoMode u = ''deny'' then \<not> inList
            else True))"

definition CanView :: "URL \<Rightarrow> bool \<Rightarrow> string \<Rightarrow> int \<Rightarrow> bool" where
  "CanView u isAdmin ownerType ownerID =
     (if Visibility u \<noteq> ''private'' then True
      else if isAdmin then True
      else if EqualFold ownerType ''org'' then OrgID u = Some ownerID
      else UserID u = Some ownerID)"

definition URLRequiresPassword :: "URL \<Rightarrow> bool" where
  "URLRequiresPassword u \<longleftrightarrow> PasswordHash u \<noteq> None \<and> PasswordHash u \<noteq> Some []"

text \<open>\<open>verify\<close> is the Argon2id check of a plain text against a hash.\<close>

definition VerifyURLPassword :: "(string \<Rightarrow> string \<Rightarrow> bool) \<Rightarrow> URL \<Rightarrow> string \<Rightarrow> bool" where
  "VerifyURLPassword verify u plaintext =
     (case PasswordHash u of None \<Rightarrow> False | Some h \<Rightarrow> if h = [] then False else verify plaintext h)"

section \<open>Queries written and read back\<close>

lemma QueryEscape_chars: "x \<in> set (QueryEscape s) \<Longrightarrow> is_alnum x \<or> x \<in> set ''-_.~+%''"
  unfolding QueryEscape_def using escape_byte_chars [of x "''-_.~''"] by fastforce

lemma QueryEscape_no:
  "CHR ''&'' \<notin> set (QueryEscape s)" "CHR ''='' \<notin> set (QueryEscape s)" "CHR '';'' \<notin> set (QueryEscape s)"
  using QueryEscape_chars [of "CHR ''&''" s] QueryEscape_chars [of "CHR ''=''" s] QueryEscape_chars [of "CHR '';''" s]
  by (auto simp: is_alnum_def is_lower_def is_upper_def is_digit_def)

lemma ParseQuery_escaped:
  "ParseQuery (join_with ''&'' (map (\<lambda>(k, v). QueryEscape k @ CHR ''='' # QueryEscape v) kvs)) = Some kvs"
proof (cases "kvs = []")
  case True
  then show ?thesis by (simp add: ParseQuery_def)
next
  case False
  let ?part = "\<lambda>(k, v). QueryEscape k @ CHR ''='' # QueryEscape v"
  have split: "split_on (CHR ''&'') (join_with ''&'' (map ?part kvs)) = map ?part kvs"
    using False QueryEscape_no(1) by (intro split_join) (auto split: prod.splits)
  have all: "filter (\<lambda>p. p \<noteq> []) (map ?part kvs) = map ?part kvs"
    by (intro filter_True) (auto split: prod.splits)
  have one: "parse_query_part (?part kv) = Some kv" for kv
    using QueryEscape_no by (cases kv) (simp add: query_component.dec_enc)
  have "those (map (\<lambda>x. parse_query_part (?part x)) kvs) = Some kvs"
    by (induction kvs) (simp_all only: list.map those.simps one option.case option.map)
  then show ?thesis unfolding ParseQuery_def split all map_map o_def .
qed

lemma ParseQuery_values_encode: "ParseQuery (values_encode kvs) = Some (sort_key fst kvs)"
  unfolding values_encode_def by (rule ParseQuery_escaped)

section \<open>Adding the UTM parameters\<close>

definition values_of :: "(string \<times> string) list \<Rightarrow> string \<Rightarrow> string list" where
  "values_of kvs k = map snd (filter (\<lambda>kv. fst kv = k) kvs)"

lemma form_value_values_of: "form_value kvs k = (case values_of kvs k of [] \<Rightarrow> [] | v # vs \<Rightarrow> v)"
  by (induction kvs) (auto simp: form_value_def values_of_def)

lemma values_of_sort [simp]: "values_of (sort_key fst kvs) k = values_of kvs k"
  by (simp add: values_of_def sort_key_stable)

lemma values_of_set: "values_of (values_set k v kvs) k' = (if k' = k then [v] else values_of kvs k')"
  by (auto simp: values_of_def values_set_def filter_empty_conv intro!: arg_cong [where f = "map snd"] filter_cong)

definition with_default :: "string option \<Rightarrow> string list \<Rightarrow> string list" where
  "with_default ov vs =
     (case ov of None \<Rightarrow> vs | Some v \<Rightarrow> if v \<noteq> [] \<and> (vs = [] \<or> hd vs = []) then [v] else vs)"

lemma values_of_setIfAbsent:
  "values_of (setIfAbsent (k, ov) q) k' = (if k' = k then with_default ov (values_of q k) else values_of q k')"
  by (auto simp: setIfAbsent_def with_default_def values_of_set form_value_values_of split: option.splits list.splits)

lemma values_of_fold:
  "distinct (map fst fs) \<Longrightarrow>
     values_of (fold setIfAbsent fs q) k =
       (case map_of fs k of None \<Rightarrow> values_of q k | Some ov \<Rightarrow> with_default ov (values_of q k))"
proof (induction fs arbitrary: q)
  case (Cons f fs)
  obtain k0 ov where f: "f = (k0, ov)" by (cases f)
  have "map_of fs k0 = None" using Cons.prems f by (simp add: map_of_eq_None_iff)
  then show ?case using Cons.IH [of "setIfAbsent f q"] Cons.prems f
    by (auto simp: values_of_setIfAbsent split: option.splits)
qed simp

section \<open>Properties\<close>

text \<open>
  When a link has UTM values and its destination parses, what the visitor gets is
  that destination with a new query, which reads back: every parameter has the values it had,
  except that a UTM parameter that is missing or empty has the link's value, if that is not
  empty. No value of the destination is overwritten or lost.
\<close>

theorem apply_utm:
  assumes "Parse dest = Some p" and "kv \<in> set (utm_fields u)" and "snd kv \<noteq> None"
  shows "\<exists>q kvs. ApplyUTM dest u = url_text (p\<lparr>RawQuery := q\<rparr>) \<and> ParseQuery q = Some kvs \<and>
    (\<forall>k. values_of kvs k =
       (case map_of (utm_fields u) k of
          None \<Rightarrow> values_of (url_query p) k
        | Some ov \<Rightarrow> with_default ov (values_of (url_query p) k)))"
proof -
  have some: "\<not> list_all (\<lambda>kv. snd kv = None) (utm_fields u)" using assms(2,3) by (auto simp: list_all_iff)
  have "distinct (map fst (utm_fields u))" by (simp add: utm_fields_def)
  note v = values_of_fold [OF this, of "url_query p"]
  let ?kvs = "fold setIfAbsent (utm_fields u) (url_query p)"
  have "ApplyUTM dest u = url_text (p\<lparr>RawQuery := values_encode ?kvs\<rparr>)"
    unfolding ApplyUTM_def using some assms(1) by simp
  then show ?thesis using ParseQuery_values_encode [of ?kvs] v
    by (intro exI [of _ "values_encode ?kvs"] exI [of _ "sort_key fst ?kvs"]) simp
qed

definition plain_link :: URL where
  "plain_link = scanURLRow \<lparr>row_id = 1, short_code = ''abc'', long_url = ''http://a.io/?x=1'', title = None,
     description = None, user_id = None, org_id = None, custom_code = True, password_hash = None,
     expires_at = None, visibility = ''public'', tags_col = None, utm_source = None, utm_medium = None,
     utm_campaign = None, utm_term = None, utm_content = None, geo_mode = ''none'', geo_countries_col = None,
     mobile_url = None, desktop_url = None, tablet_url = None, created_at = 0, updated_at = 0\<rparr>"

lemma plain_link_url: "validateDestinationURL (LongURL plain_link) = None" "Parse (LongURL plain_link) \<noteq> None"
  by (simp_all add: validateDestinationURL_def plain_link_def scanURLRow_def eval_simps)

theorem apply_utm_witness:
  "\<exists>q kvs p. ApplyUTM ''http://a.io/?x=1'' (plain_link\<lparr>UTMSource := Some ''news''\<rparr>) = url_text (p\<lparr>RawQuery := q\<rparr>) \<and>
     ParseQuery q = Some kvs \<and> values_of kvs ''utm_source'' = [''news''] \<and> values_of kvs ''x'' = [''1'']"
proof -
  let ?u = "plain_link\<lparr>UTMSource := Some ''news''\<rparr>"
  obtain p where p: "Parse ''http://a.io/?x=1'' = Some p" "RawQuery p = ''x=1''"
    by (simp add: eval_simps)
  have "(''utm_source'', Some ''news'') \<in> set (utm_fields ?u)" by (simp add: utm_fields_def)
  moreover have "url_query p = [(''x'', ''1'')]" using p(2) by (simp add: url_query_def List.map_filter_def eval_simps)
  moreover have "map_of (utm_fields ?u) ''utm_source'' = Some (Some ''news'')" "map_of (utm_fields ?u) ''x'' = None"
    by (simp_all add: utm_fields_def)
  ultimately obtain q kvs where "ApplyUTM ''http://a.io/?x=1'' ?u = url_text (p\<lparr>RawQuery := q\<rparr>)"
    "ParseQuery q = Some kvs" "values_of kvs ''utm_source'' = [''news'']" "values_of kvs ''x'' = [''1'']"
    using apply_utm [OF p(1), of "(''utm_source'', Some ''news'')" ?u]
    by (auto simp: values_of_def with_default_def)
  then show ?thesis by blast
qed

text \<open>The parameters leave the address of the destination alone.\<close>

lemma ApplyUTM_web:
  assumes "validateDestinationURL dest = None"
  shows "web_address (ApplyUTM dest u)"
proof (cases "list_all (\<lambda>kv. snd kv = None) (utm_fields u) \<or> Parse dest = None")
  case True
  then have "ApplyUTM dest u = dest" by (auto simp: ApplyUTM_def)
  then show ?thesis using assms valid_destination_is_web by simp
next
  case False
  then obtain w where w: "Parse dest = Some w" by auto
  obtain v where v: "ParseRequestURI dest = Some v" "ToLower (Scheme v) \<in> {''http'', ''https''}" "Host v \<noteq> []"
    using assms by (auto simp: validateDestinationURL_def split: option.splits if_splits)
  then have s: "Scheme v \<noteq> []" by (auto simp: ToLower_def)
  note same = Parse_same_host [OF v(1) s v(3) w]
  obtain q where q: "ApplyUTM dest u = url_text (w\<lparr>RawQuery := q\<rparr>)"
    using False w by (auto simp: ApplyUTM_def)
  have "prefix (Scheme v @ ''://'') (ApplyUTM dest u)"
    unfolding q using url_text_host [of "w\<lparr>RawQuery := q\<rparr>"] same s v(3) by simp
  then obtain t where "ApplyUTM dest u = Scheme v @ ''://'' @ t" by (auto simp: prefix_def)
  then have "ToLower (ApplyUTM dest u) = ToLower (Scheme v) @ ''://'' @ ToLower t"
    by (simp add: ToLower_def is_upper_def)
  then show ?thesis using v(2) by (auto simp: web_address_def)
qed

end
