(* ===== verification/LinkRedirect.thy ===== *)
theory LinkRedirect
  imports LinkStore LinkTarget
begin

text \<open>
  Following a short link: \<open>RedirectURL\<close> and \<open>unlockURLOrPrompt\<close> of
  \<^verbatim>\<open>src/server/handler/url.go\<close>. A visit is what the handler reads of the request; the
  country of an address, the password check and whether a click worker is free are arguments.
  The response records the call that answers; \<open>Redirect_To loc\<close> is \<open>http.Redirect\<close> with the
  status 302.
\<close>

record visit =
  v_code :: string
  v_domain :: "(string \<times> int) option"  \<comment> \<open>owner type and owner of the custom domain\<close>
  v_method :: string
  v_form :: "(string \<times> string) list option"  \<comment> \<open>the posted form, \<open>None\<close> when \<open>ParseForm\<close> fails\<close>
  v_query :: "(string \<times> string) list"
  v_accept :: string
  v_ip :: string
  v_user_agent :: string
  v_referrer :: string

datatype redirect_response =
    Not_Found
  | Internal_Error
  | Password_Required          \<comment> \<open>the JSON answer, 401\<close>
  | Password_Page string bool  \<comment> \<open>code, and whether a wrong password was given\<close>
  | Redirect_To string

text \<open>The password supplied by the visitor, if one was submitted.\<close>

definition provided_password :: "visit \<Rightarrow> string option" where
  "provided_password v =
     (if v_method v = ''POST'' then map_option (\<lambda>form. form_value form ''password'') (v_form v)
      else if form_value (v_query v) ''password'' \<noteq> [] then Some (form_value (v_query v) ''password'')
      else None)"

text \<open>\<open>None\<close> lets the redirect go on.\<close>

definition unlockURLOrPrompt ::
    "(string \<Rightarrow> string \<Rightarrow> bool) \<Rightarrow> visit \<Rightarrow> URL \<Rightarrow> redirect_response option" where
  "unlockURLOrPrompt verify v u =
     (case provided_password v of
        Some pw \<Rightarrow>
          if VerifyURLPassword verify u pw then None
          else if v_accept v = ''application/json'' then Some Password_Required
          else Some (Password_Page (ShortCode u) True)
      | None \<Rightarrow>
          if v_accept v = ''application/json'' then Some Password_Required
          else Some (Password_Page (ShortCode u) False))"

definition find_visited :: "int \<Rightarrow> link_db \<Rightarrow> visit \<Rightarrow> url_error + URL" where
  "find_visited now' db v =
     (case v_domain v of
        Some (ot, oid) \<Rightarrow> GetURLByCodeForOwner now' db (v_code v) ot oid
      | None \<Rightarrow> GetURLByCode now' db (v_code v))"

text \<open>The click that is queued: link, address, user agent and referrer.\<close>

type_synonym click = "nat \<times> string \<times> string \<times> string"

definition RedirectURL ::
    "(string \<Rightarrow> string \<Rightarrow> bool) \<Rightarrow> (string \<Rightarrow> string) \<Rightarrow> bool \<Rightarrow> int \<Rightarrow> link_db \<Rightarrow> visit \<Rightarrow>
     redirect_response \<times> click option" where
  "RedirectURL verify lookup_country worker_free now' db v =
     (if v_code v = [] then (Not_Found, None)
      else
        (case find_visited now' db v of
           Inl e \<Rightarrow>
             if e = ErrURLNotFound \<or> e = ErrURLExpired then (Not_Found, None) else (Internal_Error, None)
         | Inr u \<Rightarrow>
             (case (if URLRequiresPassword u then unlockURLOrPrompt verify v u else None) of
                Some r \<Rightarrow> (r, None)
              | None \<Rightarrow>
                  if GeoMode u \<noteq> [] \<and> GeoMode u \<noteq> ''none'' \<and> \<not> GeoAllowed u (lookup_country (v_ip v))
                  then (Not_Found, None)
                  else
                    (Redirect_To (ApplyUTM (SelectDestination u (DetectDeviceType (v_user_agent v))) u),
                     if worker_free then Some (ID u, v_ip v, v_user_agent v, v_referrer v) else None))))"

section \<open>Who gets through\<close>

lemma GetURLByCode_Inr:
  "GetURLByCode now' db c = Inr u \<longleftrightarrow> getURLByCodeRaw db c = Inr u \<and> \<not> expired_at now' u"
  by (auto simp: GetURLByCode_def then_try_Inr)

lemma GetURLByCodeForOwner_Inr:
  "GetURLByCodeForOwner now' db c ot i = Inr u \<longleftrightarrow>
     getURLByCodeRaw db c = Inr u \<and> \<not> expired_at now' u \<and>
     (ot = ''user'' \<and> UserID u = Some i \<or> ot = ''org'' \<and> OrgID u = Some i)"
  by (auto simp: GetURLByCodeForOwner_def getURLByCodeRaw_def scanURLRow_def Let_def split: option.splits)

lemma find_visited_Inr:
  "find_visited now' db v = Inr u \<longleftrightarrow>
     getURLByCodeRaw db (v_code v) = Inr u \<and> \<not> expired_at now' u \<and>
     (\<forall>ot i. v_domain v = Some (ot, i) \<longrightarrow>
        ot = ''user'' \<and> UserID u = Some i \<or> ot = ''org'' \<and> OrgID u = Some i)"
  by (auto simp: find_visited_def GetURLByCode_Inr GetURLByCodeForOwner_Inr split: option.splits)

lemma find_visited_Inl: "find_visited now' db v = Inl e \<Longrightarrow> e = ErrURLNotFound \<or> e = ErrURLExpired"
  by (auto simp: find_visited_def GetURLByCode_def GetURLByCodeForOwner_def getURLByCodeRaw_def then_try_def Let_def
      split: option.splits sum.splits if_splits)

lemma unlock_None:
  "unlockURLOrPrompt verify v u = None \<longleftrightarrow>
     (\<exists>pw. provided_password v = Some pw \<and> VerifyURLPassword verify u pw)"
  by (auto simp: unlockURLOrPrompt_def split: option.splits)

lemma VerifyURLPassword_iff:
  "VerifyURLPassword verify u pw \<longleftrightarrow> URLRequiresPassword u \<and> verify pw (the (PasswordHash u))"
  by (auto simp: VerifyURLPassword_def URLRequiresPassword_def split: option.splits)

lemma redirect_iff:
  "fst (RedirectURL verify lookup_country free now' db v) = Redirect_To loc \<longleftrightarrow>
     (\<exists>u. v_code v \<noteq> [] \<and> getURLByCodeRaw db (v_code v) = Inr u \<and> \<not> expired_at now' u \<and>
        (\<forall>ot i. v_domain v = Some (ot, i) \<longrightarrow>
           ot = ''user'' \<and> UserID u = Some i \<or> ot = ''org'' \<and> OrgID u = Some i) \<and>
        (URLRequiresPassword u \<longrightarrow>
           (\<exists>pw. provided_password v = Some pw \<and> verify pw (the (PasswordHash u)))) \<and>
        GeoAllowed u (lookup_country (v_ip v)) \<and>
        loc = ApplyUTM (SelectDestination u (DetectDeviceType (v_user_agent v))) u)"
  (is "?L \<longleftrightarrow> (\<exists>u. ?R u)")
proof (cases "v_code v = [] \<or> (\<exists>e. find_visited now' db v = Inl e)")
  case True
  then have "\<not> ?L" using find_visited_Inl by (auto simp: RedirectURL_def)
  moreover have "\<not> ?R u" for u
    using True find_visited_Inr [of now' db v u] by auto
  ultimately show ?thesis by blast
next
  case False
  then obtain u where u: "find_visited now' db v = Inr u" by (cases "find_visited now' db v") auto
  have uniq: "w = u" if "?R w" for w
    using that u find_visited_Inr [of now' db v u] by auto
  have unl: "(if URLRequiresPassword u then unlockURLOrPrompt verify v u else None) = None \<longleftrightarrow>
      (URLRequiresPassword u \<longrightarrow> (\<exists>pw. provided_password v = Some pw \<and> verify pw (the (PasswordHash u))))"
    by (auto simp: unlock_None VerifyURLPassword_iff)
  have not_redirect: "unlockURLOrPrompt verify v u \<noteq> Some (Redirect_To loc)"
    by (auto simp: unlockURLOrPrompt_def split: option.splits)
  have geo: "GeoAllowed u x" if "GeoMode u = [] \<or> GeoMode u = ''none''" for x
    using that by (auto simp: GeoAllowed_def)
  have "?L \<longleftrightarrow> ?R u"
    using False u unl not_redirect find_visited_Inr [of now' db v u] geo unfolding RedirectURL_def
    by (auto split: option.splits if_splits)
  then show ?thesis using uniq by blast
qed

section \<open>Properties\<close>

text \<open>
  C1 (redirect_gate). A visit is redirected exactly when the link exists, has not expired,
  belongs to the owner of the custom domain if the visit came through one, was unlocked with
  the right password if it has one, and admits the visitor's country; the location is then the
  destination for the visitor's device with the UTM parameters. Every other visit ends in a
  page without a redirect, no database error can occur, and only redirects count as clicks.
\<close>

theorem redirect_gate:
  "fst (RedirectURL verify lookup_country free now' db v) = Redirect_To loc \<longleftrightarrow>
     (\<exists>u. v_code v \<noteq> [] \<and> getURLByCodeRaw db (v_code v) = Inr u \<and> \<not> expired_at now' u \<and>
        (\<forall>ot i. v_domain v = Some (ot, i) \<longrightarrow>
           ot = ''user'' \<and> UserID u = Some i \<or> ot = ''org'' \<and> OrgID u = Some i) \<and>
        (URLRequiresPassword u \<longrightarrow>
           (\<exists>pw. provided_password v = Some pw \<and> verify pw (the (PasswordHash u)))) \<and>
        GeoAllowed u (lookup_country (v_ip v)) \<and>
        loc = ApplyUTM (SelectDestination u (DetectDeviceType (v_user_agent v))) u)"
  by (rule redirect_iff)

text \<open>A visit by a browser of the given kind, with no password.\<close>

definition plain_visit :: "string \<Rightarrow> string \<Rightarrow> visit" where
  "plain_visit c agent = \<lparr>v_code = c, v_domain = None, v_method = ''GET'', v_form = None, v_query = [],
     v_accept = ''text/html'', v_ip = ''1.2.3.4'', v_user_agent = agent, v_referrer = []\<rparr>"

lemma sample_redirect:
  "\<exists>u db. CreateURL Some never_draws 0 (plain_request ''http://a.io/'' ''abc'') no_links = Inr (u, db) \<and>
     getURLByCodeRaw db ''abc'' = Inr u \<and> ExpiresAt u = None \<and> PasswordHash u = None \<and> GeoMode u = ''none'' \<and>
     LongURL u = ''http://a.io/'' \<and> MobileURL u = None \<and> DesktopURL u = None \<and> TabletURL u = None \<and>
     list_all (\<lambda>kv. snd kv = None) (utm_fields u) \<and> GeoCountries u = []"
  by (simp add: link_eval eval_simps utm_fields_def)

lemma no_override: "MobileURL u = None \<Longrightarrow> DesktopURL u = None \<Longrightarrow> TabletURL u = None \<Longrightarrow> SelectDestination u d = LongURL u"
  by (cases d) (simp_all add: SelectDestination_def device_override_def)

lemma open_link: "PasswordHash u = None \<Longrightarrow> \<not> URLRequiresPassword u" "ExpiresAt u = None \<Longrightarrow> \<not> expired_at n u"
  "GeoMode u = ''none'' \<Longrightarrow> GeoAllowed u c"
  by (simp_all add: URLRequiresPassword_def expired_at_def GeoAllowed_def)

lemma no_utm: "list_all (\<lambda>kv. snd kv = None) (utm_fields u) \<Longrightarrow> ApplyUTM dest u = dest"
  by (simp add: ApplyUTM_def)

theorem redirect_gate_witness:
  "\<exists>u db. CreateURL Some never_draws 0 (plain_request ''http://a.io/'' ''abc'') no_links = Inr (u, db) \<and>
     fst (RedirectURL (\<lambda>p h. False) (\<lambda>ip. ''DE'') True 9 db (plain_visit ''abc'' ''Mozilla'')) = Redirect_To ''http://a.io/''"
proof -
  obtain u db where c: "CreateURL Some never_draws 0 (plain_request ''http://a.io/'' ''abc'') no_links = Inr (u, db)"
    and u: "getURLByCodeRaw db ''abc'' = Inr u" "ExpiresAt u = None" "PasswordHash u = None" "GeoMode u = ''none''"
      "LongURL u = ''http://a.io/''" "MobileURL u = None" "DesktopURL u = None" "TabletURL u = None"
      "list_all (\<lambda>kv. snd kv = None) (utm_fields u)"
    using sample_redirect by blast
  have "fst (RedirectURL (\<lambda>p h. False) (\<lambda>ip. ''DE'') True 9 db (plain_visit ''abc'' ''Mozilla'')) = Redirect_To ''http://a.io/''"
    unfolding redirect_gate
    using u by (intro exI [of _ u]) (simp add: plain_visit_def open_link no_override no_utm)
  then show ?thesis using c by blast
qed

text \<open>
  In every state the service can reach, a redirect goes to an http
  or https address, never to another scheme, provided the device overrides of the link are
  valid destinations, as those of a creation always are.
\<close>

theorem redirect_to_web_address:
  assumes "reachable_db db"
    and "fst (RedirectURL verify lookup_country free now' db v) = Redirect_To loc"
    and "\<And>u d t. getURLByCodeRaw db (v_code v) = Inr u \<Longrightarrow> device_override u d = Some t \<Longrightarrow> t \<noteq> [] \<Longrightarrow>
           validateDestinationURL t = None"
  shows "web_address loc"
proof -
  obtain u where u: "getURLByCodeRaw db (v_code v) = Inr u"
    and loc: "loc = ApplyUTM (SelectDestination u (DetectDeviceType (v_user_agent v))) u"
    using assms(2) unfolding redirect_iff by blast
  obtain row where row: "look db (v_code v) = Some row" "u = scanURLRow row"
    using u by (auto simp: getURLByCodeRaw_look split: option.splits)
  have "validateDestinationURL (LongURL u) = None"
    using sound_dbD(1) [OF reachable_sound [OF assms(1)] row(1)] row(2) by (simp add: sound_row_def scanURLRow_def)
  then have "validateDestinationURL (SelectDestination u d) = None" for d
    using assms(3) [OF u] by (auto simp: SelectDestination_def split: option.splits)
  then show ?thesis unfolding loc by (rule ApplyUTM_web)
qed

theorem redirect_to_web_address_witness:
  "\<exists>u db loc. CreateURL Some never_draws 0 (plain_request ''http://a.io/'' ''abc'') no_links = Inr (u, db) \<and>
     fst (RedirectURL (\<lambda>p h. False) (\<lambda>ip. ''DE'') True 9 db (plain_visit ''abc'' ''Mozilla'')) = Redirect_To loc \<and>
     web_address loc"
proof -
  let ?go = "\<lambda>db. fst (RedirectURL (\<lambda>p h. False) (\<lambda>ip. ''DE'') True 9 db (plain_visit ''abc'' ''Mozilla''))"
  obtain u db where c: "CreateURL Some never_draws 0 (plain_request ''http://a.io/'' ''abc'') no_links = Inr (u, db)"
    and u: "getURLByCodeRaw db ''abc'' = Inr u" "ExpiresAt u = None" "PasswordHash u = None" "GeoMode u = ''none''"
      "MobileURL u = None" "DesktopURL u = None" "TabletURL u = None"
    using sample_redirect by blast
  have code: "v_code (plain_visit ''abc'' ''Mozilla'') = ''abc''" by (simp add: plain_visit_def)
  have "find_visited 9 db (plain_visit ''abc'' ''Mozilla'') = Inr u"
    using u by (simp add: find_visited_Inr plain_visit_def open_link)
  then obtain loc where loc: "?go db = Redirect_To loc"
    using u by (simp add: RedirectURL_def code open_link)
  have r: "reachable_db db" by (rule next_db [OF empty_db create_step [OF never_draws_in_range c]])
  have over: "device_override w d = Some t \<Longrightarrow> False" if "getURLByCodeRaw db (v_code (plain_visit ''abc'' ''Mozilla'')) = Inr w" for w d t
    using that u code by (cases d) (simp_all add: device_override_def)
  have "web_address loc" using redirect_to_web_address [OF r loc] over by blast
  then show ?thesis using c loc by blast
qed

text \<open>
  An update stores a device override without checking it: for any text that
  is not empty, the owner of an open link can make every mobile visitor be redirected to
  exactly that text, a javascript: address for instance.
\<close>

theorem update_accepts_any_device_url:
  assumes "getURLByCodeRaw db c = Inr u" and "GeoMode u = ''none''" and "PasswordHash u = None"
    and "ExpiresAt u = None" and "list_all (\<lambda>kv. snd kv = None) (utm_fields u)" and "target \<noteq> []" and "c \<noteq> []"
    and "v_code v = c" and "v_domain v = None" and "DetectDeviceType (v_user_agent v) = Mobile"
  shows "\<exists>u' db'. UpdateURL hash now' c (no_update\<lparr>ur_mobile_url := Some target\<rparr>) db = Inr (u', db') \<and>
    fst (RedirectURL verify lookup_country free n db' v) = Redirect_To target"
proof -
  let ?req = "no_update\<lparr>ur_mobile_url := Some target\<rparr>"
  obtain row where row: "look db c = Some row" "u = scanURLRow row"
    using assms(1) by (auto simp: getURLByCodeRaw_look split: option.splits)
  have "\<exists>u' db'. UpdateURL hash now' c ?req db = Inr (u', db')"
    using assms(1,2) row
    by (simp add: UpdateURL_def no_update_def updated_password_def updated_countries_def given_or_def
        getURLByCodeRaw_look look_update_row Let_def)
  then obtain u' db' where upd: "UpdateURL hash now' c ?req db = Inr (u', db')" by blast
  obtain pw cs where pw: "updated_password hash ?req (password_hash row) = Inr pw"
    and u': "u' = updated_url now' ?req pw cs (scanURLRow row)"
    and db': "db' = update_row c (updated_row now' ?req (scanURLRow row) pw (joinCSV cs)) db"
    and cs: "wanted_countries ?req (scanURLRow row) = Inr cs"
    using UpdateURL_Inr [OF upd] row(1) by (metis option.inject)
  have "splitCSV (joinCSV cs) = cs" using wanted_countries_column [OF cs] by (rule splitCSV_joinCSV)
  then have found: "getURLByCodeRaw db' c = Inr u'"
    using db' row(1) u' by (simp add: getURLByCodeRaw_look look_update_row scan_updated_row)
  have "pw = None" using pw assms(3) row(2) by (simp add: updated_password_def no_update_def scanURLRow_def)
  then have facts: "ExpiresAt u' = None" "PasswordHash u' = None" "GeoMode u' = ''none''" "MobileURL u' = Some target"
    "list_all (\<lambda>kv. snd kv = None) (utm_fields u')"
    using u' assms(2-6) row(2)
    by (simp_all add: updated_url_def no_update_def updated_expiry_def given_or_def text_update_def str_opt_def utm_fields_def)
  have "fst (RedirectURL verify lookup_country free n db' v) = Redirect_To target"
    unfolding redirect_iff
    using found facts assms(6-10)
    by (intro exI [of _ u']) (simp add: open_link no_utm SelectDestination_def device_override_def)
  then show ?thesis using upd by blast
qed

theorem update_accepts_any_device_url_witness:
  "\<exists>db u db'. reachable_db db \<and>
     UpdateURL Some 1 ''abc'' (no_update\<lparr>ur_mobile_url := Some ''javascript:alert(1)''\<rparr>) db = Inr (u, db') \<and>
     fst (RedirectURL (\<lambda>p h. False) (\<lambda>ip. ''DE'') True 9 db' (plain_visit ''abc'' ''mobile'')) =
       Redirect_To ''javascript:alert(1)''"
proof -
  obtain u db where c: "CreateURL Some never_draws 0 (plain_request ''http://a.io/'' ''abc'') no_links = Inr (u, db)"
    and u: "getURLByCodeRaw db ''abc'' = Inr u" "ExpiresAt u = None" "PasswordHash u = None" "GeoMode u = ''none''"
      "list_all (\<lambda>kv. snd kv = None) (utm_fields u)"
    using sample_redirect by blast
  have r: "reachable_db db" by (rule next_db [OF empty_db create_step [OF never_draws_in_range c]])
  have v: "v_code (plain_visit ''abc'' ''mobile'') = ''abc''" "v_domain (plain_visit ''abc'' ''mobile'') = None"
    "DetectDeviceType (v_user_agent (plain_visit ''abc'' ''mobile'')) = Mobile"
    by (simp_all add: plain_visit_def DetectDeviceType_def eval_simps Let_def)
  show ?thesis
    using update_accepts_any_device_url [OF u(1,4,3,2,5) _ _ v, of "''javascript:alert(1)''"] r by blast
qed

end
