(* ===== verification/JSON.thy ===== *)
theory JSON
  imports Codec JSStrings GoStrings
begin

text \<open>
  JSON values as the page script uses them: \<open>JSON.stringify\<close> (compact), \<open>JSON.parse\<close>, property
  access and truthiness. Numbers are integers; a number with a fraction or an exponent, and an
  escape of a code unit above 0xFF, are outside the model and parse to \<open>Beyond\<close>. An object
  is the list of its members in the order of the text; the last of several with one key counts.
\<close>

section \<open>Values\<close>

datatype json =
    JNull
  | JBool bool
  | JNum int
  | JStr string
  | JArr "json list"
  | JObj "(string \<times> json) list"

fun truthy :: "json \<Rightarrow> bool" where
  "truthy JNull = False"
| "truthy (JBool b) = b"
| "truthy (JNum n) = (n \<noteq> 0)"
| "truthy (JStr s) = (s \<noteq> [])"
| "truthy (JArr _) = True"
| "truthy (JObj _) = True"

definition truthy_opt :: "json option \<Rightarrow> bool" where
  "truthy_opt v = (case v of None \<Rightarrow> False | Some x \<Rightarrow> truthy x)"

text \<open>
  \<open>v.k\<close> for a name that is no built-in property: \<open>None\<close> is the TypeError on null, \<open>Some None\<close>
  is undefined.
\<close>

fun get_prop :: "json \<Rightarrow> string \<Rightarrow> json option option" where
  "get_prop JNull k = None"
| "get_prop (JObj ms) k = Some (map_of (rev ms) k)"
| "get_prop _ k = Some None"

section \<open>JSON.stringify\<close>

definition dquote :: char where "dquote = CHR 0x22"
definition backslash :: char where "backslash = CHR 0x5C"

definition json_escape :: "char \<Rightarrow> string" where
  "json_escape c =
     (if c = dquote \<or> c = backslash then [backslash, c]
      else if code c = (8::nat) then [backslash, CHR ''b'']
      else if code c = (9::nat) then [backslash, CHR ''t'']
      else if code c = (10::nat) then [backslash, CHR ''n'']
      else if code c = (12::nat) then [backslash, CHR ''f'']
      else if code c = (13::nat) then [backslash, CHR ''r'']
      else if code c < (32::nat)
        then [backslash, CHR ''u'', CHR ''0'', CHR ''0'', hex_nibble (code c div 16), hex_nibble (code c mod 16)]
      else [c])"

definition json_quote :: "string \<Rightarrow> string" where
  "json_quote s = dquote # concat (map json_escape s) @ [dquote]"

definition show_int :: "int \<Rightarrow> string" where
  "show_int n = (if n < 0 then hyphen # show_nat (nat (- n)) else show_nat (nat n))"

fun stringify :: "json \<Rightarrow> string" where
  "stringify JNull = ''null''"
| "stringify (JBool b) = (if b then ''true'' else ''false'')"
| "stringify (JNum n) = show_int n"
| "stringify (JStr s) = json_quote s"
| "stringify (JArr vs) = CHR ''['' # join_with '','' (map stringify vs) @ '']''"
| "stringify (JObj ms) =
     CHR ''{'' # join_with '','' (map (\<lambda>(k, v). json_quote k @ CHR '':'' # stringify v) ms) @ ''}''"

text \<open>The conversion of a value to a string by the operator \<open>+\<close>.\<close>

fun js_text :: "json \<Rightarrow> string" where
  "js_text JNull = ''null''"
| "js_text (JBool b) = (if b then ''true'' else ''false'')"
| "js_text (JNum n) = show_int n"
| "js_text (JStr s) = s"
| "js_text (JArr vs) = join_with '','' (map (\<lambda>v. if v = JNull then [] else js_text v) vs)"
| "js_text (JObj _) = ''[object Object]''"

section \<open>JSON.parse\<close>

datatype 'a parsed = Parsed 'a string | Bad | Beyond

fun and_then :: "'a parsed \<Rightarrow> ('a \<Rightarrow> string \<Rightarrow> 'b parsed) \<Rightarrow> 'b parsed" where
  "and_then (Parsed x s) f = f x s"
| "and_then Bad f = Bad"
| "and_then Beyond f = Beyond"

definition parsed_as :: "('a \<Rightarrow> 'b) \<Rightarrow> 'a parsed \<Rightarrow> 'b parsed" where
  "parsed_as f p = and_then p (\<lambda>x. Parsed (f x))"

lemma parsed_as_simps [simp]:
  "parsed_as f (Parsed x s) = Parsed (f x) s" "parsed_as f Bad = Bad" "parsed_as f Beyond = Beyond"
  by (simp_all add: parsed_as_def)

definition json_space :: "char \<Rightarrow> bool" where
  "json_space c \<longleftrightarrow> code c \<in> {9, 10, 13, 32}"

definition skip :: "string \<Rightarrow> string" where
  "skip s = dropWhile json_space s"

text \<open>Four hexadecimal digits.\<close>

fun hex4 :: "string \<Rightarrow> (nat \<times> string) option" where
  "hex4 (a # b # x # y # rest) =
     (case (hex_value a, hex_value b, hex_value x, hex_value y) of
        (Some i, Some j, Some k, Some l) \<Rightarrow> Some (4096 * i + 256 * j + 16 * k + l, rest)
      | _ \<Rightarrow> None)"
| "hex4 _ = None"

definition unescape :: "char \<Rightarrow> char option" where
  "unescape e =
     (if e = dquote \<or> e = backslash \<or> e = CHR ''/'' then Some e
      else if e = CHR ''b'' then Some (CHR 0x08)
      else if e = CHR ''f'' then Some (CHR 0x0C)
      else if e = CHR ''n'' then Some (CHR 0x0A)
      else if e = CHR ''r'' then Some (CHR 0x0D)
      else if e = CHR ''t'' then Some (CHR 0x09)
      else None)"

lemma hex4_length: "hex4 s = Some (n, r) \<Longrightarrow> length r < length s"
  by (cases s rule: hex4.cases) (auto split: option.splits)

function parse_chars :: "string \<Rightarrow> string parsed" where
  "parse_chars [] = Bad"
| "parse_chars (c # cs) =
     (if c = dquote then Parsed [] cs
      else if code c < (32::nat) then Bad
      else if c \<noteq> backslash then parsed_as (Cons c) (parse_chars cs)
      else (case cs of
              [] \<Rightarrow> Bad
            | e # es \<Rightarrow>
                if e = CHR ''u'' then
                  (case hex4 es of
                     None \<Rightarrow> Bad
                   | Some (n, rest) \<Rightarrow>
                       if n < 256 then parsed_as (Cons (char_of n)) (parse_chars rest) else Beyond)
                else
                  (case unescape e of
                     None \<Rightarrow> Bad
                   | Some x \<Rightarrow> parsed_as (Cons x) (parse_chars es))))"
  by pat_completeness auto
termination
  by (relation "measure length") (auto dest: hex4_length)

declare parse_chars.simps(2) [simp del]

text \<open>Integers: no leading zero, and a fraction or exponent is beyond the model.\<close>

definition parse_digits :: "string \<Rightarrow> nat parsed" where
  "parse_digits s =
     (let ds = takeWhile is_digit s; rest = dropWhile is_digit s
      in if ds = [] \<or> (hd ds = CHR ''0'' \<and> length ds > 1) then Bad
         else if rest \<noteq> [] \<and> hd rest \<in> {CHR ''.'', CHR ''e'', CHR ''E''} then Beyond
         else Parsed (digits_value ds) rest)"

definition parse_number :: "string \<Rightarrow> int parsed" where
  "parse_number s =
     (case s of
        c # cs \<Rightarrow> if c = hyphen then parsed_as (\<lambda>n. - int n) (parse_digits cs) else parsed_as int (parse_digits s)
      | [] \<Rightarrow> Bad)"

text \<open>A keyword at the front.\<close>

definition keyword :: "string \<Rightarrow> 'a \<Rightarrow> string \<Rightarrow> 'a parsed" where
  "keyword w x s = (if take (length w) s = w then Parsed x (drop (length w) s) else Bad)"

text \<open>Strings, keywords and numbers.\<close>

definition parse_scalar :: "string \<Rightarrow> json parsed" where
  "parse_scalar s =
     (if hd s = dquote then parsed_as JStr (parse_chars (tl s))
      else if hd s = CHR ''n'' then keyword ''null'' JNull s
      else if hd s = CHR ''t'' then keyword ''true'' (JBool True) s
      else if hd s = CHR ''f'' then keyword ''false'' (JBool False) s
      else parsed_as JNum (parse_number s))"

text \<open>
  The grammar, with fuel for the nesting (\<open>JSON_parse_fuel\<close>: what \<open>JSON_parse\<close> gives is enough
  for every text).
\<close>

fun parse_value :: "nat \<Rightarrow> string \<Rightarrow> json parsed"
  and parse_elems :: "nat \<Rightarrow> string \<Rightarrow> json list parsed"
  and parse_members :: "nat \<Rightarrow> string \<Rightarrow> (string \<times> json) list parsed" where
  "parse_value 0 s = Beyond"
| "parse_value (Suc n) s =
     (case skip s of
        [] \<Rightarrow> Bad
      | c # cs \<Rightarrow>
          if c = CHR ''['' then
            (if skip cs \<noteq> [] \<and> hd (skip cs) = CHR '']'' then Parsed (JArr []) (tl (skip cs))
             else parsed_as JArr (parse_elems n cs))
          else if c = CHR ''{'' then
            (if skip cs \<noteq> [] \<and> hd (skip cs) = CHR ''}'' then Parsed (JObj []) (tl (skip cs))
             else parsed_as JObj (parse_members n cs))
          else parse_scalar (c # cs))"
| "parse_elems 0 s = Beyond"
| "parse_elems (Suc n) s =
     and_then (parse_value n s) (\<lambda>v r.
       case skip r of
         [] \<Rightarrow> Bad
       | c # cs \<Rightarrow>
           if c = CHR '','' then parsed_as (Cons v) (parse_elems n cs)
           else if c = CHR '']'' then Parsed [v] cs
           else Bad)"
| "parse_members 0 s = Beyond"
| "parse_members (Suc n) s =
     (case skip s of
        [] \<Rightarrow> Bad
      | q # cs \<Rightarrow>
          if q \<noteq> dquote then Bad
          else and_then (parse_chars cs) (\<lambda>k r.
            case skip r of
              [] \<Rightarrow> Bad
            | d # ds \<Rightarrow>
                if d \<noteq> CHR '':'' then Bad
                else and_then (parse_value n ds) (\<lambda>v r2.
                  case skip r2 of
                    [] \<Rightarrow> Bad
                  | c # es \<Rightarrow>
                      if c = CHR '','' then parsed_as (Cons (k, v)) (parse_members n es)
                      else if c = CHR ''}'' then Parsed [(k, v)] es
                      else Bad)))"

text \<open>\<open>JSON.parse\<close>: one value, and nothing but space after it.\<close>

datatype json_result = JSON_Value json | JSON_SyntaxError | JSON_Beyond

definition JSON_parse :: "string \<Rightarrow> json_result" where
  "JSON_parse s =
     (case parse_value (2 * length s + 1) s of
        Parsed v r \<Rightarrow> if skip r = [] then JSON_Value v else JSON_SyntaxError
      | Bad \<Rightarrow> JSON_SyntaxError
      | Beyond \<Rightarrow> JSON_Beyond)"

declare dquote_def [eval_simps] backslash_def [eval_simps] json_escape_def [eval_simps]
  json_quote_def [eval_simps] show_int_def [eval_simps] json_space_def [eval_simps] skip_def [eval_simps]
  unescape_def [eval_simps] parse_chars.simps [eval_simps] parse_digits_def [eval_simps]
  parse_number_def [eval_simps] keyword_def [eval_simps] parse_scalar_def [eval_simps] JSON_parse_def [eval_simps]
  truthy_opt_def [eval_simps]

section \<open>Parsing consumes text, and the fuel is enough\<close>

lemma parsed_as_eq: "parsed_as f p = Parsed y r \<longleftrightarrow> (\<exists>x. p = Parsed x r \<and> y = f x)"
  by (cases p) auto

lemma and_then_eq: "and_then p f = Parsed y r \<longleftrightarrow> (\<exists>x s. p = Parsed x s \<and> f x s = Parsed y r)"
  by (cases p) auto

lemma parse_chars_length: "parse_chars s = Parsed x r \<Longrightarrow> length r < length s"
proof (induction s arbitrary: x r rule: length_induct)
  case (1 s)
  then have IH: "parse_chars t = Parsed y r \<Longrightarrow> length t < length s \<Longrightarrow> length r < length t" for t y by blast
  obtain c cs where s: "s = c # cs" using "1.prems" by (cases s) auto
  show ?case
    using "1.prems" s
    by (auto simp: parse_chars.simps(2) parsed_as_eq split: if_splits list.splits option.splits
        dest!: IH hex4_length)
qed

lemma skip_length: "skip s = c # cs \<Longrightarrow> length cs < length s"
  unfolding skip_def by (metis Suc_le_lessD length_Cons length_dropWhile_le)

lemma tl_skip_length: "skip s \<noteq> [] \<Longrightarrow> length (tl (skip s)) < length s"
  by (metis hd_Cons_tl skip_length)

lemma parse_digits_length: "parse_digits s = Parsed n r \<Longrightarrow> length r < length s"
proof -
  assume a: "parse_digits s = Parsed n r"
  then have "takeWhile is_digit s \<noteq> []" "r = dropWhile is_digit s"
    by (auto simp: parse_digits_def Let_def split: if_splits)
  moreover have "length s = length (takeWhile is_digit s) + length (dropWhile is_digit s)"
    by (metis length_append takeWhile_dropWhile_id)
  ultimately show ?thesis by simp
qed

lemma parse_number_length: "parse_number s = Parsed n r \<Longrightarrow> length r < length s"
  by (auto simp: parse_number_def parsed_as_eq split: list.splits if_splits dest: parse_digits_length)

lemma keyword_length: "keyword w x s = Parsed y r \<Longrightarrow> w \<noteq> [] \<Longrightarrow> length r < length s"
  by (auto simp: keyword_def split: if_splits) (metis append_Nil append_take_drop_id diff_less length_drop length_greater_0_conv take_all_iff take_Nil linorder_not_less)

lemma keyword_length': "keyword w x (c # cs) = Parsed y r \<Longrightarrow> w \<noteq> [] \<Longrightarrow> length r \<le> length cs"
  using keyword_length [of w x "c # cs" y r] by simp

lemma parse_scalar_length: "parse_scalar (c # cs) = Parsed v r \<Longrightarrow> length r \<le> length cs"
  unfolding parse_scalar_def list.sel
  by (auto simp: parsed_as_eq split: if_splits
      dest!: parse_chars_length keyword_length' parse_number_length)

lemma parse_value_Suc_length:
  assumes elems: "\<And>t vs r. parse_elems n t = Parsed vs r \<Longrightarrow> length r < length t"
    and members: "\<And>t ms r. parse_members n t = Parsed ms r \<Longrightarrow> length r < length t"
    and parse: "parse_value (Suc n) s = Parsed v r"
  shows "length r < length s"
proof -
  obtain c cs where c: "skip s = c # cs" using parse by (cases "skip s") auto
  have tls: "skip cs \<noteq> [] \<Longrightarrow> length (tl (skip cs)) < length cs" by (rule tl_skip_length)
  consider (empty) "skip cs \<noteq> []" "r = tl (skip cs)"
    | (arr) vs where "parse_elems n cs = Parsed vs r"
    | (obj) ms where "parse_members n cs = Parsed ms r"
    | (scalar) "parse_scalar (c # cs) = Parsed v r"
    using parse unfolding parse_value.simps c list.case
    by (simp only: parsed_as_eq parsed.inject split: if_splits) blast+
  then have "length r \<le> length cs"
    using tls elems members parse_scalar_length by cases (fastforce dest: less_imp_le)+
  then show ?thesis using skip_length [OF c] by simp
qed

lemma parse_length:
  "(\<forall>s v r. parse_value n s = Parsed v r \<longrightarrow> length r < length s) \<and>
   (\<forall>s vs r. parse_elems n s = Parsed vs r \<longrightarrow> length r < length s) \<and>
   (\<forall>s ms r. parse_members n s = Parsed ms r \<longrightarrow> length r < length s)"
proof (induction n)
  case (Suc n)
  then have v: "parse_value n s = Parsed v r \<Longrightarrow> length r < length s"
    and e: "parse_elems n s = Parsed vs r \<Longrightarrow> length r < length s"
    and m: "parse_members n s = Parsed ms r \<Longrightarrow> length r < length s" for s v r vs ms by blast+
  have 1: "parse_value (Suc n) s = Parsed w r \<Longrightarrow> length r < length s" for s w r
    by (rule parse_value_Suc_length [OF e m])
  have 2: "length r < length s" if p: "parse_elems (Suc n) s = Parsed ws r" for s ws r
  proof -
    obtain w t where w: "parse_value n s = Parsed w t" using p by (auto simp: and_then_eq)
    obtain c cs where c: "skip t = c # cs" using p w by (cases "skip t") auto
    have "length r \<le> length cs"
      using p unfolding parse_elems.simps w and_then.simps c list.case
      by (auto simp: parsed_as_eq split: if_splits dest!: e)
    then show ?thesis using v [OF w] skip_length [OF c] by simp
  qed
  have 3: "length r < length s" if p: "parse_members (Suc n) s = Parsed ws r" for s ws r
  proof -
    obtain q cs where q: "skip s = q # cs" using p by (cases "skip s") auto
    obtain key t where k: "parse_chars cs = Parsed key t" using p q by (auto simp: and_then_eq split: if_splits)
    obtain d ds where d: "skip t = d # ds" using p q k by (cases "skip t") (auto split: if_splits)
    obtain w t2 where w: "parse_value n ds = Parsed w t2"
      using p q k d by (auto simp: and_then_eq split: if_splits)
    obtain c es where c: "skip t2 = c # es" using p q k d w by (cases "skip t2") (auto split: if_splits)
    have "length r \<le> length es"
      using p unfolding parse_members.simps q k d w c and_then.simps list.case
      by (auto simp: parsed_as_eq split: if_splits dest!: m)
    then show ?thesis
      using v [OF w] skip_length [OF q] skip_length [OF d] skip_length [OF c] parse_chars_length [OF k] by simp
  qed
  show ?case using 1 2 3 by blast
qed simp

lemmas parse_lengths = parse_length [THEN conjunct1, rule_format]
  parse_length [THEN conjunct2, THEN conjunct1, rule_format]
  parse_length [THEN conjunct2, THEN conjunct2, rule_format]

text \<open>Once the fuel covers the text, more of it changes nothing.\<close>

lemma parse_fuel:
  "(2 * length s + 1 \<le> n \<longrightarrow> parse_value n s = parse_value (n + k) s) \<and>
   (2 * length s + 2 \<le> n \<longrightarrow> parse_elems n s = parse_elems (n + k) s) \<and>
   (2 * length s + 2 \<le> n \<longrightarrow> parse_members n s = parse_members (n + k) s)"
proof (induction n arbitrary: s)
  case (Suc n)
  then have v: "2 * length s + 1 \<le> n \<Longrightarrow> parse_value (n + k) s = parse_value n s"
    and e: "2 * length s + 2 \<le> n \<Longrightarrow> parse_elems (n + k) s = parse_elems n s"
    and m: "2 * length s + 2 \<le> n \<Longrightarrow> parse_members (n + k) s = parse_members n s" for s by metis+
  have 1: "parse_value (Suc n) s = parse_value (Suc n + k) s" if l: "2 * length s + 1 \<le> Suc n"
  proof (cases "skip s")
    case (Cons c cs)
    then have "2 * length cs + 2 \<le> n" using l skip_length [OF Cons] by simp
    then have "parse_elems (n + k) cs = parse_elems n cs" "parse_members (n + k) cs = parse_members n cs"
      by (simp_all add: e m)
    then show ?thesis by (simp only: add_Suc parse_value.simps Cons list.case)
  next
    case Nil
    then show ?thesis by (simp only: add_Suc parse_value.simps list.case)
  qed
  have 2: "parse_elems (Suc n) s = parse_elems (Suc n + k) s" if l: "2 * length s + 2 \<le> Suc n"
  proof -
    have rest: "parse_elems (n + k) cs = parse_elems n cs" if "parse_value n s = Parsed w r" "skip r = c # cs" for w r c cs
      using parse_lengths(1) [OF that(1)] skip_length [OF that(2)] l by (intro e) simp
    have val: "parse_value (n + k) s = parse_value n s" using l by (intro v) simp
    show ?thesis
    proof (cases "parse_value n s")
      case (Parsed w r)
      then show ?thesis using val rest [OF Parsed] by (cases "skip r") auto
    qed (use val in auto)
  qed
  have 3: "parse_members (Suc n) s = parse_members (Suc n + k) s" if l: "2 * length s + 2 \<le> Suc n"
  proof (cases "skip s")
    case (Cons q cs)
    have l1: "length cs < length s" using skip_length [OF Cons] .
    show ?thesis
    proof (cases "parse_chars cs")
      case (Parsed key r)
      have l2: "length r < length cs" using parse_chars_length [OF Parsed] .
      show ?thesis
      proof (cases "skip r")
        case (Cons d ds)
        have l3: "length ds < length r" using skip_length [OF Cons] .
        have val: "parse_value (n + k) ds = parse_value n ds" using l l1 l2 l3 by (intro v) simp
        have rest: "parse_members (n + k) es = parse_members n es" if "parse_value n ds = Parsed w t" "skip t = c # es" for w t c es
          using parse_lengths(1) [OF that(1)] skip_length [OF that(2)] l l1 l2 l3 by (intro m) simp
        show ?thesis
        proof (cases "parse_value n ds")
          case val2: (Parsed w t)
          show ?thesis using \<open>skip s = q # cs\<close> Parsed Cons val val2 rest [OF val2] by (cases "skip t") auto
        qed (use \<open>skip s = q # cs\<close> Parsed Cons val in auto)
      qed (use \<open>skip s = q # cs\<close> Parsed in auto)
    qed (use Cons in auto)
  qed simp
  show ?case by (intro conjI impI 1 2 3)
qed simp

lemma JSON_parse_fuel:
  assumes "2 * length s + 1 \<le> n"
  shows "parse_value n s = parse_value (2 * length s + 1) s"
proof -
  obtain k where "n = 2 * length s + 1 + k" using assms le_Suc_ex by blast
  then show ?thesis using parse_fuel [of s "2 * length s + 1" k] by simp
qed

section \<open>Parsing what was printed\<close>

lemma hex_value_hex_nibble [simp]: "n < 16 \<Longrightarrow> hex_value (hex_nibble n) = Some n"
  by (auto simp: hex_value_def hex_nibble_def is_digit_def of_char_of)

lemma parse_escape: "parse_chars (json_escape c @ s) = parsed_as (Cons c) (parse_chars s)"
proof -
  have same: "code c = (n::nat) \<Longrightarrow> n < 256 \<Longrightarrow> c = char_of n" for n by (metis char_of_char)
  consider (quoted) "c = dquote \<or> c = backslash" | (b) "code c = (8::nat)" | (t) "code c = (9::nat)"
    | (n) "code c = (10::nat)" | (f) "code c = (12::nat)" | (r) "code c = (13::nat)"
    | (ctl) "c \<noteq> dquote" "c \<noteq> backslash" "code c < (32::nat)" "code c \<notin> {8, 9, 10, 12, 13::nat}"
    | (plain) "c \<noteq> dquote" "c \<noteq> backslash" "\<not> code c < (32::nat)"
    by auto
  then show ?thesis
  proof cases
    case quoted
    then show ?thesis by (auto simp: json_escape_def parse_chars.simps unescape_def dquote_def backslash_def)
  next
    case b
    then have "c = CHR 0x08" using same [OF b] by (simp add: char_of_eq)
    then show ?thesis by (simp add: json_escape_def parse_chars.simps unescape_def dquote_def backslash_def)
  next
    case t
    then have "c = CHR 0x09" using same [OF t] by (simp add: char_of_eq)
    then show ?thesis by (simp add: json_escape_def parse_chars.simps unescape_def dquote_def backslash_def)
  next
    case n
    then have "c = CHR 0x0A" using same [OF n] by (simp add: char_of_eq)
    then show ?thesis by (simp add: json_escape_def parse_chars.simps unescape_def dquote_def backslash_def)
  next
    case f
    then have "c = CHR 0x0C" using same [OF f] by (simp add: char_of_eq)
    then show ?thesis by (simp add: json_escape_def parse_chars.simps unescape_def dquote_def backslash_def)
  next
    case r
    then have "c = CHR 0x0D" using same [OF r] by (simp add: char_of_eq)
    then show ?thesis by (simp add: json_escape_def parse_chars.simps unescape_def dquote_def backslash_def)
  next
    case ctl
    have z: "hex_value (CHR ''0'') = Some 0" by (simp add: hex_value_def is_digit_def)
    have n: "code c div 16 < (16::nat)" "code c mod 16 < (16::nat)" using ctl(3) by simp_all
    have sum: "16 * (code c div 16) + code c mod 16 = (code c :: nat)" by simp
    have e: "json_escape c = [backslash, CHR ''u'', CHR ''0'', CHR ''0'', hex_nibble (code c div 16), hex_nibble (code c mod 16)]"
      using ctl by (simp add: json_escape_def)
    have bq: "backslash \<noteq> dquote" "\<not> code backslash < (32::nat)" by (simp_all add: backslash_def dquote_def)
    show ?thesis using z n sum bq by (simp add: e parse_chars.simps(2))
  next
    case plain
    then show ?thesis by (auto simp: json_escape_def parse_chars.simps(2))
  qed
qed

lemma parse_chars_quote: "parse_chars (concat (map json_escape x) @ dquote # r) = Parsed x r"
  by (induction x) (simp_all add: parse_escape parse_chars.simps(2))

text \<open>What may follow a number.\<close>

definition ends_number :: "string \<Rightarrow> bool" where
  "ends_number r \<longleftrightarrow> r = [] \<or> \<not> is_digit (hd r) \<and> hd r \<notin> {CHR ''.'', CHR ''e'', CHR ''E''}"

lemma show_nat_no_zero: "show_nat n = CHR ''0'' # ds \<Longrightarrow> ds = []"
proof (induction n arbitrary: ds rule: show_nat.induct)
  case (1 n)
  show ?case
  proof (cases "n < 10")
    case True
    then show ?thesis using "1.prems" by (simp add: show_nat.simps [of n])
  next
    case False
    then have eq: "show_nat (n div 10) @ [char_of (48 + n mod 10)] = CHR ''0'' # ds"
      using "1.prems" by (simp add: show_nat.simps [of n])
    then obtain es where es: "show_nat (n div 10) = CHR ''0'' # es" by (cases "show_nat (n div 10)") auto
    then have "show_nat (n div 10) = [CHR ''0'']" using "1.IH" [OF False es] by simp
    then have "n div 10 = 0" using digits_value_show_nat [of "n div 10"] by (simp add: digits_value_def)
    then show ?thesis using False by simp
  qed
qed

lemma parse_digits_show:
  assumes "ends_number r"
  shows "parse_digits (show_nat n @ r) = Parsed n r"
proof -
  have all: "\<And>c. c \<in> set (show_nat n) \<Longrightarrow> is_digit c" by (rule show_nat_digits)
  have tw: "takeWhile is_digit (show_nat n @ r) = show_nat n"
    and dw: "dropWhile is_digit (show_nat n @ r) = r"
    using assms all by (cases r; auto simp: ends_number_def)+
  have z: "\<not> (hd (show_nat n) = CHR ''0'' \<and> length (show_nat n) > 1)"
    using show_nat_no_zero [of n "tl (show_nat n)"] by (metis hd_Cons_tl length_tl list.size(3) show_nat_not_Nil zero_less_diff less_irrefl)
  show ?thesis using assms z unfolding parse_digits_def by (auto simp: tw dw Let_def ends_number_def)
qed

lemma parse_number_show: "ends_number r \<Longrightarrow> parse_number (show_int n @ r) = Parsed n r"
proof -
  assume r: "ends_number r"
  obtain c cs where s: "show_nat (nat n) = c # cs" by (metis list.exhaust show_nat_not_Nil)
  then have "is_digit c" using show_nat_digits [of c "nat n"] by simp
  then have "c \<noteq> hyphen" by (auto simp: is_digit_def)
  then show ?thesis
    using parse_digits_show [OF r, of "nat n"] parse_digits_show [OF r, of "nat (- n)"] s
    by (auto simp: show_int_def parse_number_def)
qed

fun json_need :: "json \<Rightarrow> nat" where
  "json_need (JArr vs) = 2 + sum_list (map (\<lambda>v. 1 + json_need v) vs)"
| "json_need (JObj ms) = 2 + sum_list (map (\<lambda>(k, v). 1 + json_need v) ms)"
| "json_need _ = 1"

lemma skip_no_space: "\<not> json_space c \<Longrightarrow> skip (c # s) = c # s"
  by (simp add: skip_def)

lemma ends_number_simps [simp]: "ends_number (CHR '','' # r)" "ends_number (CHR '']'' # r)" "ends_number (CHR ''}'' # r)" "ends_number []"
  by (simp_all add: ends_number_def is_digit_def)

lemma json_space_punctuation [simp]:
  "\<not> json_space (CHR '','')" "\<not> json_space (CHR '']'')" "\<not> json_space (CHR ''}'')"
  "\<not> json_space (CHR '':'')" "\<not> json_space dquote" "\<not> json_space (CHR ''['')" "\<not> json_space (CHR ''{'')"
  by (simp_all add: json_space_def dquote_def)

lemmas skip_punctuation [simp] = json_space_punctuation [THEN skip_no_space]

text \<open>The first character of a printed value tells what it is.\<close>

lemma stringify_hd:
  "\<exists>c cs. stringify v = c # cs \<and> \<not> json_space c \<and> c \<noteq> CHR '']'' \<and> c \<noteq> CHR ''}''"
proof (cases v)
  case (JNum n)
  obtain d ds where "show_nat (nat n) = d # ds" by (metis list.exhaust show_nat_not_Nil)
  moreover then have "is_digit d" using show_nat_digits [of d "nat n"] by simp
  ultimately show ?thesis using JNum by (auto simp: show_int_def json_space_def is_digit_def)
qed (auto simp: json_space_def json_quote_def dquote_def)

lemma show_int_hd: "\<exists>c cs. show_int n = c # cs \<and> (is_digit c \<or> c = hyphen)"
proof (cases "n < 0")
  case False
  obtain e es where "show_nat (nat n) = e # es" by (metis list.exhaust show_nat_not_Nil)
  then show ?thesis using False show_nat_digits [of e "nat n"] by (simp add: show_int_def)
qed (simp add: show_int_def)

lemma parse_scalar_stringify:
  assumes "ends_number r"
  shows "parse_scalar (json_quote s @ r) = Parsed (JStr s) r"
    and "parse_scalar (''null'' @ r) = Parsed JNull r"
    and "parse_scalar ((if b then ''true'' else ''false'') @ r) = Parsed (JBool b) r"
    and "parse_scalar (show_int n @ r) = Parsed (JNum n) r"
proof -
  show "parse_scalar (json_quote s @ r) = Parsed (JStr s) r"
    by (simp add: parse_scalar_def json_quote_def parse_chars_quote)
  show "parse_scalar (''null'' @ r) = Parsed JNull r"
    by (simp add: parse_scalar_def dquote_def keyword_def)
  show "parse_scalar ((if b then ''true'' else ''false'') @ r) = Parsed (JBool b) r"
    by (simp add: parse_scalar_def dquote_def keyword_def)
  obtain d ds where "show_int n = d # ds" "is_digit d \<or> d = hyphen" using show_int_hd by blast
  then show "parse_scalar (show_int n @ r) = Parsed (JNum n) r"
    using parse_number_show [OF assms, of n] by (auto simp: parse_scalar_def dquote_def is_digit_def)
qed

lemma parse_elems_join:
  assumes "\<And>v r n. v \<in> set vs \<Longrightarrow> json_need v \<le> n \<Longrightarrow> ends_number r \<Longrightarrow> parse_value n (stringify v @ r) = Parsed v r"
    and "vs \<noteq> []" and "sum_list (map (\<lambda>v. 1 + json_need v) vs) \<le> n"
  shows "parse_elems n (join_with '','' (map stringify vs) @ '']'' @ r) = Parsed vs r"
  using assms
proof (induction vs arbitrary: n)
  case (Cons v vs)
  obtain m where n: "n = Suc m" "json_need v \<le> m" "sum_list (map (\<lambda>v. 1 + json_need v) vs) \<le> m"
    using Cons.prems(3) by (cases n) auto
  show ?case
  proof (cases vs)
    case Nil
    then show ?thesis using Cons.prems(1) [of v m] n by simp
  next
    case (Cons w ws)
    have rest: "parse_elems m (join_with '','' (map stringify vs) @ '']'' @ r) = Parsed vs r"
      using Cons.IH Cons.prems(1) n(3) Cons by auto
    show ?thesis using Cons.prems(1) [of v m] n(1,2) rest Cons by simp
  qed
qed simp

lemma parse_members_join:
  assumes "\<And>k v r n. (k, v) \<in> set ms \<Longrightarrow> json_need v \<le> n \<Longrightarrow> ends_number r \<Longrightarrow> parse_value n (stringify v @ r) = Parsed v r"
    and "ms \<noteq> []" and "sum_list (map (\<lambda>(k, v). 1 + json_need v) ms) \<le> n"
  shows "parse_members n (join_with '','' (map (\<lambda>(k, v). json_quote k @ CHR '':'' # stringify v) ms) @ ''}'' @ r) = Parsed ms r"
  using assms
proof (induction ms arbitrary: n)
  case (Cons kv ms)
  obtain k v where kv: "kv = (k, v)" by force
  obtain m where n: "n = Suc m" "json_need v \<le> m" "sum_list (map (\<lambda>(k, v). 1 + json_need v) ms) \<le> m"
    using Cons.prems(3) kv by (cases n) auto
  show ?case
  proof (cases ms)
    case Nil
    then show ?thesis using Cons.prems(1) [of k v m] n kv by (simp add: json_quote_def parse_chars_quote)
  next
    case (Cons w ws)
    have rest: "parse_members m (join_with '','' (map (\<lambda>(k, v). json_quote k @ CHR '':'' # stringify v) ms) @ ''}'' @ r) = Parsed ms r"
      by (rule Cons.IH) (use Cons.prems(1) n(3) Cons in auto)
    show ?thesis using Cons.prems(1) [of k v m] n(1,2) rest Cons kv
      by (simp add: json_quote_def parse_chars_quote)
  qed
qed simp

lemma skip_stringify: "skip (stringify v @ r) = stringify v @ r"
  using stringify_hd [of v] skip_no_space by fastforce

lemma parse_stringify:
  "json_need v \<le> n \<Longrightarrow> ends_number r \<Longrightarrow> parse_value n (stringify v @ r) = Parsed v r"
proof (induction v arbitrary: n r)
  case (JArr vs)
  then obtain m where n: "n = Suc m" "sum_list (map (\<lambda>v. 1 + json_need v) vs) \<le> m" by (cases n) auto
  show ?case
  proof (cases vs)
    case (Cons v ws)
    obtain c cs where c: "stringify v = c # cs" "\<not> json_space c" "c \<noteq> CHR '']''" using stringify_hd by blast
    have "parse_elems m (join_with '','' (map stringify vs) @ '']'' @ r) = Parsed vs r"
      by (rule parse_elems_join) (use JArr.IH n(2) Cons in auto)
    then show ?thesis using n(1) c Cons skip_no_space [OF c(2)] by (simp add: join_with_Cons)
  qed (use n in simp)
next
  case (JObj ms)
  then obtain m where n: "n = Suc m" "sum_list (map (\<lambda>(k, v). 1 + json_need v) ms) \<le> m" by (cases n) auto
  show ?case
  proof (cases ms)
    case (Cons kv ws)
    have "parse_members m (join_with '','' (map (\<lambda>(k, v). json_quote k @ CHR '':'' # stringify v) ms) @ ''}'' @ r) = Parsed ms r"
    proof (rule parse_members_join)
      show "parse_value k (stringify w @ t) = Parsed w t"
        if "(x, w) \<in> set ms" "json_need w \<le> k" "ends_number t" for x w t k
        using JObj.IH [OF that(1) _ that(2,3)] by (simp add: snds.simps)
    qed (use n(2) Cons in auto)
    then show ?thesis using n(1) Cons
      by (simp add: join_with_Cons json_quote_def dquote_def json_space_def skip_no_space split: prod.splits)
  qed (use n in simp)
next
  case JNull
  then show ?case using skip_stringify [of JNull r] parse_scalar_stringify(2) [OF JNull(2)] by (cases n) auto
next
  case (JBool b)
  then show ?case using skip_stringify [of "JBool b" r] parse_scalar_stringify(3) [OF JBool(2), of b] by (cases n) (auto split: if_splits)
next
  case (JNum i)
  obtain m where n: "n = Suc m" using JNum(1) by (cases n) auto
  obtain c cs where c: "show_int i = c # cs" "\<not> json_space c" "c \<noteq> CHR ''[''" "c \<noteq> CHR ''{''"
  proof -
    obtain c cs where "show_int i = c # cs" "is_digit c \<or> c = hyphen" using show_int_hd by blast
    then show ?thesis by (intro that [of c cs]) (auto simp: json_space_def is_digit_def)
  qed
  show ?case using n skip_no_space [OF c(2)] c parse_scalar_stringify(4) [OF JNum(2), of i] by simp
next
  case (JStr s)
  then show ?case using parse_scalar_stringify(1) [OF JStr(2), of s]
    by (cases n) (auto simp: json_quote_def dquote_def skip_no_space json_space_def)
qed

lemma json_need_length: "json_need v \<le> 2 * length (stringify v) + 1"
proof (induction v)
  case (JArr vs)
  have "sum_list (map (\<lambda>v. 1 + json_need v) vs) \<le> 2 * length (join_with '','' (map stringify vs)) + 2"
    using JArr
  proof (induction vs)
    case (Cons v vs)
    have "json_need v \<le> 2 * length (stringify v) + 1" using Cons.prems by simp
    moreover have "sum_list (map (\<lambda>v. 1 + json_need v) vs) \<le> 2 * length (join_with '','' (map stringify vs)) + 2"
      using Cons by simp
    ultimately show ?case by (cases vs) simp_all
  qed simp
  then show ?case by simp
next
  case (JObj ms)
  have "sum_list (map (\<lambda>(k, v). 1 + json_need v) ms)
      \<le> 2 * length (join_with '','' (map (\<lambda>(k, v). json_quote k @ CHR '':'' # stringify v) ms)) + 2"
    using JObj
  proof (induction ms)
    case (Cons kv ms)
    obtain k v where kv: "kv = (k, v)" by force
    have "json_need v \<le> 2 * length (stringify v) + 1" using Cons.prems [of kv v] kv by (simp add: snds.intros)
    moreover have "sum_list (map (\<lambda>(k, v). 1 + json_need v) ms)
        \<le> 2 * length (join_with '','' (map (\<lambda>(k, v). json_quote k @ CHR '':'' # stringify v) ms)) + 2"
      using Cons by (auto simp: snds.simps)
    ultimately show ?case using kv by (cases ms) (simp_all add: json_quote_def)
  qed simp
  then show ?case by simp
qed simp_all

theorem JSON_parse_stringify [simp]: "JSON_parse (stringify v) = JSON_Value v"
  using parse_stringify [OF json_need_length, of "[]" v] by (simp add: JSON_parse_def skip_def)

interpretation json_text: codec stringify "\<lambda>s. case JSON_parse s of JSON_Value v \<Rightarrow> Some v | _ \<Rightarrow> None"
  by unfold_locales simp

text \<open>What a \<open>fetch\<close> comes to: a failure, or the text of the response's body.\<close>

datatype fetch_outcome = Network_Failure | Response_Text string

end
