(* ===== verification/LinkApi.thy ===== *)
theory LinkApi
  imports LinkStore LinkTarget JSON
begin

text \<open>
  The handlers of \<^verbatim>\<open>src/server/handler/url.go\<close> for links: the JSON interface behind bearer
  tokens, the forms behind a session, and the checks of ownership in front of every change. A
  request is what the handlers read of it: the first JSON value of the body, the decoded form,
  the token. The reader of RFC 3339 times is an argument, and so is that of form times.
\<close>

section \<open>Requests and responses\<close>

record token =
  tok_owner_type :: string
  tok_owner_id :: int

datatype api_response =
    Api_Error nat string
  | Api_Link nat URL
  | Api_No_Content

text \<open>\<open>errCodeFromStatus\<close> for the statuses used here, and the body \<open>respondError\<close> sends.\<close>

definition errCodeFromStatus :: "nat \<Rightarrow> string" where
  "errCodeFromStatus status =
     (if status = 400 then ''BAD_REQUEST''
      else if status = 401 then ''UNAUTHORIZED''
      else if status = 403 then ''FORBIDDEN''
      else if status = 404 then ''NOT_FOUND''
      else if status = 405 then ''METHOD_NOT_ALLOWED''
      else if status = 409 then ''CONFLICT''
      else if status = 410 then ''GONE''
      else if status = 422 then ''VALIDATION_FAILED''
      else if status = 429 then ''RATE_LIMITED''
      else if status = 503 then ''MAINTENANCE''
      else if status \<ge> 500 then ''SERVER_ERROR''
      else ''ERROR'')"

definition respondError :: "nat \<Rightarrow> string \<Rightarrow> json" where
  "respondError status message =
     JObj [(''ok'', JBool False), (''error'', JStr (errCodeFromStatus status)), (''message'', JStr message)]"

section \<open>Decoding JSON into the request structures\<close>

text \<open>
  \<open>encoding/json\<close>: members match a tag regardless of case, later ones overwrite earlier ones,
  unknown ones are ignored, null leaves a string alone and clears a pointer or a slice.
  \<open>None\<close> is a decoding error.
\<close>

fun json_string :: "json \<Rightarrow> string \<Rightarrow> string option" where
  "json_string (JStr s) old = Some s"
| "json_string JNull old = Some old"
| "json_string _ old = None"

fun json_pointer :: "json \<Rightarrow> string option option" where
  "json_pointer (JStr s) = Some (Some s)"
| "json_pointer JNull = Some None"
| "json_pointer _ = None"

fun json_strings :: "json list \<Rightarrow> string list option" where
  "json_strings [] = Some []"
| "json_strings (v # vs) =
     Option.bind (json_string v []) (\<lambda>s. map_option (Cons s) (json_strings vs))"

fun json_slice :: "json \<Rightarrow> string list option option" where
  "json_slice (JArr vs) = map_option Some (json_strings vs)"
| "json_slice JNull = Some None"
| "json_slice _ = None"

definition json_time :: "(string \<Rightarrow> int option) \<Rightarrow> json \<Rightarrow> int option option" where
  "json_time parse_time v =
     (case v of JNull \<Rightarrow> Some None | JStr s \<Rightarrow> map_option Some (parse_time s) | _ \<Rightarrow> None)"

definition empty_request :: create_request where
  "empty_request = \<lparr>cr_long_url = [], cr_custom_code = [], cr_title = None, cr_description = None,
     cr_password = [], cr_expires_at = None, cr_expire_after = [], cr_visibility = [], cr_tags = [],
     cr_utm_source = [], cr_utm_medium = [], cr_utm_campaign = [], cr_utm_term = [], cr_utm_content = [],
     cr_geo_mode = [], cr_geo_countries = [], cr_mobile_url = [], cr_desktop_url = [], cr_tablet_url = []\<rparr>"

definition create_field :: "(string \<Rightarrow> int option) \<Rightarrow> string \<times> json \<Rightarrow> create_request \<Rightarrow> create_request option" where
  "create_field parse_time kv r =
     (let k = ToLower (fst kv); v = snd kv;
          list_of = (\<lambda>f. map_option (\<lambda>x. f (case x of None \<Rightarrow> [] | Some vs \<Rightarrow> vs)) (json_slice v))
      in if k = ''url'' then map_option (\<lambda>s. r\<lparr>cr_long_url := s\<rparr>) (json_string v (cr_long_url r))
         else if k = ''custom_code'' then map_option (\<lambda>s. r\<lparr>cr_custom_code := s\<rparr>) (json_string v (cr_custom_code r))
         else if k = ''title'' then map_option (\<lambda>s. r\<lparr>cr_title := s\<rparr>) (json_pointer v)
         else if k = ''description'' then map_option (\<lambda>s. r\<lparr>cr_description := s\<rparr>) (json_pointer v)
         else if k = ''password'' then map_option (\<lambda>s. r\<lparr>cr_password := s\<rparr>) (json_string v (cr_password r))
         else if k = ''expires_at'' then map_option (\<lambda>t. r\<lparr>cr_expires_at := t\<rparr>) (json_time parse_time v)
         else if k = ''expire_after'' then map_option (\<lambda>s. r\<lparr>cr_expire_after := s\<rparr>) (json_string v (cr_expire_after r))
         else if k = ''visibility'' then map_option (\<lambda>s. r\<lparr>cr_visibility := s\<rparr>) (json_string v (cr_visibility r))
         else if k = ''tags'' then list_of (\<lambda>vs. r\<lparr>cr_tags := vs\<rparr>)
         else if k = ''utm_source'' then map_option (\<lambda>s. r\<lparr>cr_utm_source := s\<rparr>) (json_string v (cr_utm_source r))
         else if k = ''utm_medium'' then map_option (\<lambda>s. r\<lparr>cr_utm_medium := s\<rparr>) (json_string v (cr_utm_medium r))
         else if k = ''utm_campaign'' then map_option (\<lambda>s. r\<lparr>cr_utm_campaign := s\<rparr>) (json_string v (cr_utm_campaign r))
         else if k = ''utm_term'' then map_option (\<lambda>s. r\<lparr>cr_utm_term := s\<rparr>) (json_string v (cr_utm_term r))
         else if k = ''utm_content'' then map_option (\<lambda>s. r\<lparr>cr_utm_content := s\<rparr>) (json_string v (cr_utm_content r))
         else if k = ''geo_mode'' then map_option (\<lambda>s. r\<lparr>cr_geo_mode := s\<rparr>) (json_string v (cr_geo_mode r))
         else if k = ''geo_countries'' then list_of (\<lambda>vs. r\<lparr>cr_geo_countries := vs\<rparr>)
         else if k = ''mobile_url'' then map_option (\<lambda>s. r\<lparr>cr_mobile_url := s\<rparr>) (json_string v (cr_mobile_url r))
         else if k = ''desktop_url'' then map_option (\<lambda>s. r\<lparr>cr_desktop_url := s\<rparr>) (json_string v (cr_desktop_url r))
         else if k = ''tablet_url'' then map_option (\<lambda>s. r\<lparr>cr_tablet_url := s\<rparr>) (json_string v (cr_tablet_url r))
         else Some r)"

definition update_field :: "(string \<Rightarrow> int option) \<Rightarrow> string \<times> json \<Rightarrow> update_request \<Rightarrow> update_request option" where
  "update_field parse_time kv r =
     (let k = ToLower (fst kv); v = snd kv; text_of = (\<lambda>f. map_option f (json_pointer v))
      in if k = ''url'' then text_of (\<lambda>s. r\<lparr>ur_long_url := s\<rparr>)
         else if k = ''title'' then text_of (\<lambda>s. r\<lparr>ur_title := s\<rparr>)
         else if k = ''description'' then text_of (\<lambda>s. r\<lparr>ur_description := s\<rparr>)
         else if k = ''password'' then text_of (\<lambda>s. r\<lparr>ur_password := s\<rparr>)
         else if k = ''expires_at'' then map_option (\<lambda>t. r\<lparr>ur_expires_at := t\<rparr>) (json_time parse_time v)
         else if k = ''visibility'' then text_of (\<lambda>s. r\<lparr>ur_visibility := s\<rparr>)
         else if k = ''tags'' then map_option (\<lambda>vs. r\<lparr>ur_tags := vs\<rparr>) (json_slice v)
         else if k = ''utm_source'' then text_of (\<lambda>s. r\<lparr>ur_utm_source := s\<rparr>)
         else if k = ''utm_medium'' then text_of (\<lambda>s. r\<lparr>ur_utm_medium := s\<rparr>)
         else if k = ''utm_campaign'' then text_of (\<lambda>s. r\<lparr>ur_utm_campaign := s\<rparr>)
         else if k = ''utm_term'' then text_of (\<lambda>s. r\<lparr>ur_utm_term := s\<rparr>)
         else if k = ''utm_content'' then text_of (\<lambda>s. r\<lparr>ur_utm_content := s\<rparr>)
         else if k = ''geo_mode'' then text_of (\<lambda>s. r\<lparr>ur_geo_mode := s\<rparr>)
         else if k = ''geo_countries'' then map_option (\<lambda>vs. r\<lparr>ur_geo_countries := vs\<rparr>) (json_slice v)
         else if k = ''mobile_url'' then text_of (\<lambda>s. r\<lparr>ur_mobile_url := s\<rparr>)
         else if k = ''desktop_url'' then text_of (\<lambda>s. r\<lparr>ur_desktop_url := s\<rparr>)
         else if k = ''tablet_url'' then text_of (\<lambda>s. r\<lparr>ur_tablet_url := s\<rparr>)
         else Some r)"

fun decode_members :: "(string \<times> json \<Rightarrow> 'r \<Rightarrow> 'r option) \<Rightarrow> (string \<times> json) list \<Rightarrow> 'r \<Rightarrow> 'r option" where
  "decode_members field [] r = Some r"
| "decode_members field (kv # kvs) r = Option.bind (field kv r) (decode_members field kvs)"

text \<open>\<open>Decode\<close> of the first value of the body; \<open>None\<close> stands for a syntax error.\<close>

definition decode_body :: "(string \<times> json \<Rightarrow> 'r \<Rightarrow> 'r option) \<Rightarrow> 'r \<Rightarrow> json option \<Rightarrow> 'r option" where
  "decode_body field zero body =
     (case body of
        Some (JObj ms) \<Rightarrow> decode_members field ms zero
      | Some JNull \<Rightarrow> Some zero
      | _ \<Rightarrow> None)"

text \<open>The text \<open>json.Encoder\<close> writes ends with a line feed.\<close>

definition encode_json :: "json \<Rightarrow> string" where
  "encode_json v = stringify v @ [CHR 0x0A]"

lemma JSON_parse_line: "JSON_parse (encode_json v) = JSON_Value v"
proof -
  have "parse_value (2 * length (encode_json v) + 1) (stringify v @ [CHR 0x0A]) = Parsed v [CHR 0x0A]"
    by (rule parse_stringify) (use json_need_length [of v] in \<open>simp_all add: encode_json_def ends_number_def eval_simps\<close>)
  then show ?thesis by (simp add: JSON_parse_def encode_json_def skip_def json_space_def)
qed

section \<open>Creating a link\<close>

text \<open>\<open>r.Form\<close> is \<open>None\<close> when \<open>ParseForm\<close> fails.\<close>

record create_call =
  cc_content_type :: string
  cc_form :: "(string \<times> string) list option"
  cc_body :: "json option"
  cc_token :: "token option"

definition splitFormList :: "string \<Rightarrow> string list" where
  "splitFormList s = (if s = [] then [] else filter (\<lambda>p. p \<noteq> []) (map TrimSpace (split_on (CHR '','') s)))"

definition form_content :: "string \<Rightarrow> bool" where
  "form_content ct \<longleftrightarrow> ct = ''application/x-www-form-urlencoded'' \<or> ct = ''multipart/form-data'' \<or>
     (length ct > 33 \<and> take 33 ct = ''application/x-www-form-urlencoded'')"

definition form_long_url :: "(string \<times> string) list \<Rightarrow> string" where
  "form_long_url f = (if form_value f ''long_url'' = [] then form_value f ''url'' else form_value f ''long_url'')"

definition form_request :: "(string \<times> string) list \<Rightarrow> create_request" where
  "form_request f = empty_request\<lparr>cr_long_url := form_long_url f, cr_custom_code := form_value f ''custom_code'',
     cr_password := form_value f ''password'', cr_visibility := form_value f ''visibility'',
     cr_tags := splitFormList (form_value f ''tags''), cr_utm_source := form_value f ''utm_source'',
     cr_utm_medium := form_value f ''utm_medium'', cr_utm_campaign := form_value f ''utm_campaign'',
     cr_utm_term := form_value f ''utm_term'', cr_utm_content := form_value f ''utm_content'',
     cr_geo_mode := form_value f ''geo_mode'', cr_geo_countries := splitFormList (form_value f ''geo_countries''),
     cr_mobile_url := form_value f ''mobile_url'', cr_desktop_url := form_value f ''desktop_url'',
     cr_tablet_url := form_value f ''tablet_url''\<rparr>"

definition create_error :: "url_error \<Rightarrow> api_response" where
  "create_error e =
     (if e = ErrCodeAlreadyExists then Api_Error 409 ''Short code already exists''
      else if e = ErrReservedWord then Api_Error 400 ''Short code is a reserved word''
      else if e = ErrInvalidCustomCode then Api_Error 400 ''Invalid custom code''
      else if e = ErrInvalidURL then Api_Error 400 ''Invalid URL''
      else Api_Error 500 ''Failed to create URL'')"

definition create_for ::
    "(string \<Rightarrow> string option) \<Rightarrow> (nat \<Rightarrow> nat \<Rightarrow> nat option) \<Rightarrow> int \<Rightarrow> token option \<Rightarrow> create_request \<Rightarrow> link_db \<Rightarrow>
     url_error + URL \<times> link_db" where
  "create_for hash draw now' tok req db =
     (case tok of
        None \<Rightarrow> CreateURL hash draw now' req db
      | Some rec \<Rightarrow>
          if EqualFold (tok_owner_type rec) ''user'' then CreateURLForUser draw now' (tok_owner_id rec) req db
          else if EqualFold (tok_owner_type rec) ''org'' then CreateURLForOrg draw now' (tok_owner_id rec) req db
          else CreateURL hash draw now' req db)"

definition CreateURL_handler ::
    "(string \<Rightarrow> string option) \<Rightarrow> (nat \<Rightarrow> nat \<Rightarrow> nat option) \<Rightarrow> (string \<Rightarrow> int option) \<Rightarrow> int \<Rightarrow> create_call \<Rightarrow> link_db \<Rightarrow>
     api_response \<times> link_db" where
  "CreateURL_handler hash draw parse_time now' r db =
     (case (if form_content (cc_content_type r)
            then (case cc_form r of None \<Rightarrow> Inl ''Invalid form data'' | Some f \<Rightarrow> Inr (form_request f))
            else (case decode_body (create_field parse_time) empty_request (cc_body r) of
                    None \<Rightarrow> Inl ''Invalid request body''
                  | Some req \<Rightarrow> Inr req)) of
        Inl msg \<Rightarrow> (Api_Error 400 msg, db)
      | Inr req \<Rightarrow>
          (case create_for hash draw now' (cc_token r) req db of
             Inl e \<Rightarrow> (create_error e, db)
           | Inr (u, db') \<Rightarrow> (Api_Link 201 u, db')))"

datatype web_response =
    Web_Error nat string
  | Web_Not_Found
  | Web_Redirect nat string
  | Manage_Page URL "(string \<times> string) option"  \<comment> \<open>the page of a link with a flash message\<close>

definition WebCreateURL ::
    "(string \<Rightarrow> string option) \<Rightarrow> (nat \<Rightarrow> nat \<Rightarrow> nat option) \<Rightarrow> int \<Rightarrow> int option \<Rightarrow>
     (string \<times> string) list option \<Rightarrow> link_db \<Rightarrow> web_response \<times> link_db" where
  "WebCreateURL hash draw now' user form db =
     (case form of
        None \<Rightarrow> (Web_Error 400 ''Invalid form data'', db)
      | Some f \<Rightarrow>
          if form_long_url f = [] then (Web_Error 400 ''URL is required'', db)
          else
            (let req = empty_request\<lparr>cr_long_url := form_long_url f, cr_custom_code := form_value f ''custom_code'',
                                    cr_password := form_value f ''password''\<rparr>
             in case (case user of
                        Some i \<Rightarrow> CreateURLForUser draw now' i req db
                      | None \<Rightarrow> CreateURL hash draw now' req db) of
                  Inl e \<Rightarrow> (Web_Redirect 303 ''/?error=Bad Request'', db)
                | Inr (u, db') \<Rightarrow> (Web_Redirect 303 (''/users/dashboard?created='' @ ShortCode u), db')))"

lemma empty_is_invalid: "validateDestinationURL [] \<noteq> None"
  by (simp add: validateDestinationURL_def eval_simps)

lemma no_url_member: "ToLower ''long_url'' = ''long_url''" "ToLower ''custom_code'' = ''custom_code''"
  by (simp_all add: ToLower_def is_upper_def)

lemma rejected_without_url:
  "cr_long_url req = [] \<Longrightarrow> create_for hash draw now' tok req db = Inl ErrInvalidURL"
  using empty_is_invalid
  by (simp add: create_for_def CreateURL_def CreateURLForUser_def CreateURLForOrg_def split: option.splits)

section \<open>Reading and changing a link through the API\<close>

definition canViewURL :: "token option \<Rightarrow> URL \<Rightarrow> bool" where
  "canViewURL tok u =
     (case tok of
        None \<Rightarrow> CanView u False [] 0
      | Some rec \<Rightarrow> CanView u (EqualFold (tok_owner_type rec) ''admin'') (tok_owner_type rec) (tok_owner_id rec))"

definition GetURL_handler :: "int \<Rightarrow> token option \<Rightarrow> string \<Rightarrow> link_db \<Rightarrow> api_response" where
  "GetURL_handler now' tok c db =
     (if c = [] then Api_Error 400 ''Short code required''
      else
        (case GetURLByCode now' db c of
           Inl e \<Rightarrow>
             if e = ErrURLNotFound then Api_Error 404 ''URL not found''
             else if e = ErrURLExpired then Api_Error 410 ''URL has expired''
             else Api_Error 500 ''Failed to get URL''
         | Inr u \<Rightarrow> if canViewURL tok u then Api_Link 200 u else Api_Error 404 ''URL not found''))"

text \<open>\<open>None\<close> lets the change go on.\<close>

definition checkURLOwnership :: "token option \<Rightarrow> link_db \<Rightarrow> string \<Rightarrow> api_response option" where
  "checkURLOwnership tok db c =
     (case tok of
        None \<Rightarrow> Some (Api_Error 401 ''Bearer token required'')
      | Some rec \<Rightarrow>
          if EqualFold (tok_owner_type rec) ''admin'' then None
          else
            (case getURLByCodeRaw db c of
               Inl e \<Rightarrow>
                 if e = ErrURLNotFound then Some (Api_Error 404 ''URL not found'')
                 else Some (Api_Error 500 ''Failed to load URL'')
             | Inr u \<Rightarrow>
                 if EqualFold (tok_owner_type rec) ''org''
                 then (if OrgID u \<noteq> Some (tok_owner_id rec) then Some (Api_Error 404 ''URL not found'') else None)
                 else (if UserID u \<noteq> Some (tok_owner_id rec) then Some (Api_Error 404 ''URL not found'') else None)))"

definition UpdateURL_handler ::
    "(string \<Rightarrow> string option) \<Rightarrow> (string \<Rightarrow> int option) \<Rightarrow> int \<Rightarrow> token option \<Rightarrow> json option \<Rightarrow> string \<Rightarrow> link_db \<Rightarrow>
     api_response \<times> link_db" where
  "UpdateURL_handler hash parse_time now' tok body c db =
     (if c = [] then (Api_Error 400 ''Short code required'', db)
      else
        (case checkURLOwnership tok db c of
           Some r \<Rightarrow> (r, db)
         | None \<Rightarrow>
             (case decode_body (update_field parse_time) no_update body of
                None \<Rightarrow> (Api_Error 400 ''Invalid request body'', db)
              | Some req \<Rightarrow>
                  (case UpdateURL hash now' c req db of
                     Inl e \<Rightarrow>
                       (if e = ErrURLNotFound then Api_Error 404 ''URL not found''
                        else Api_Error 400 ''Failed to update URL'', db)
                   | Inr (u, db') \<Rightarrow> (Api_Link 200 u, db')))))"

definition DeleteURL_handler :: "token option \<Rightarrow> string \<Rightarrow> link_db \<Rightarrow> api_response \<times> link_db" where
  "DeleteURL_handler tok c db =
     (if c = [] then (Api_Error 400 ''Short code required'', db)
      else
        (case checkURLOwnership tok db c of
           Some r \<Rightarrow> (r, db)
         | None \<Rightarrow>
             (case DeleteURL c db of
                Inl e \<Rightarrow>
                  (if e = ErrURLNotFound then Api_Error 404 ''URL not found''
                   else Api_Error 500 ''Failed to delete URL'', db)
              | Inr db' \<Rightarrow> (Api_No_Content, db'))))"

section \<open>The management page of a signed-in user\<close>

definition ownedURLForUser :: "link_db \<Rightarrow> string \<Rightarrow> int \<Rightarrow> URL option" where
  "ownedURLForUser db c user =
     (case getURLByCodeRaw db c of
        Inl e \<Rightarrow> None
      | Inr u \<Rightarrow> if UserID u \<noteq> Some user then None else Some u)"

definition renderURLManage :: "link_db \<Rightarrow> int \<Rightarrow> string \<Rightarrow> (string \<times> string) option \<Rightarrow> web_response" where
  "renderURLManage db user c flash =
     (case ownedURLForUser db c user of None \<Rightarrow> Web_Not_Found | Some u \<Rightarrow> Manage_Page u flash)"

text \<open>
  The posted form \<open>f\<close>, and the keys of \<open>r.Form\<close>, which has the query of the address too.
  A text field counts when it is not blank or present at all.
\<close>

definition trimmed_field :: "string list \<Rightarrow> (string \<times> string) list \<Rightarrow> string \<Rightarrow> string option" where
  "trimmed_field has f k =
     (let v = TrimSpace (form_value f k) in if v \<noteq> [] \<or> k \<in> set has then Some v else None)"

definition some_text :: "string \<Rightarrow> string option" where
  "some_text v = (if v \<noteq> [] then Some v else None)"

definition manage_update ::
    "(string \<Rightarrow> int option) \<Rightarrow> string list \<Rightarrow> (string \<times> string) list \<Rightarrow> update_request" where
  "manage_update parse_form_time has f =
     \<lparr>ur_long_url = some_text (TrimSpace (form_value f ''long_url'')),
      ur_title = Some (TrimSpace (form_value f ''title'')),
      ur_description = Some (TrimSpace (form_value f ''description'')),
      ur_password =
        (if form_value f ''clear_password'' = ''1'' then Some []
         else some_text (form_value f ''password'')),
      ur_expires_at =
        (if form_value f ''clear_expiry'' = ''1'' then Some zero_time
         else if form_value f ''expires_at'' \<noteq> [] then parse_form_time (form_value f ''expires_at'')
         else None),
      ur_visibility = some_text (form_value f ''visibility''),
      ur_tags = Some (splitFormList (form_value f ''tags'')),
      ur_utm_source = trimmed_field has f ''utm_source'', ur_utm_medium = trimmed_field has f ''utm_medium'',
      ur_utm_campaign = trimmed_field has f ''utm_campaign'', ur_utm_term = trimmed_field has f ''utm_term'',
      ur_utm_content = trimmed_field has f ''utm_content'',
      ur_geo_mode = some_text (form_value f ''geo_mode''),
      ur_geo_countries = Some (splitFormList (form_value f ''geo_countries'')),
      ur_mobile_url = trimmed_field has f ''mobile_url'', ur_desktop_url = trimmed_field has f ''desktop_url'',
      ur_tablet_url = trimmed_field has f ''tablet_url''\<rparr>"

text \<open>A POST carries the outcome of \<open>ParseForm\<close>: the posted form and the keys of \<open>r.Form\<close>.\<close>

datatype manage_request = Manage_Get | Manage_Post "((string \<times> string) list \<times> string list) option"

definition WebURLManage ::
    "(string \<Rightarrow> string option) \<Rightarrow> (string \<Rightarrow> int option) \<Rightarrow> int \<Rightarrow> int option \<Rightarrow> manage_request \<Rightarrow> string \<Rightarrow> link_db \<Rightarrow>
     web_response \<times> link_db" where
  "WebURLManage hash parse_form_time now' user r c db =
     (case user of
        None \<Rightarrow> (Web_Redirect 302 ''/server/auth/login'', db)
      | Some i \<Rightarrow>
          if c = [] then (Web_Not_Found, db)
          else
            (case r of
               Manage_Get \<Rightarrow> (renderURLManage db i c None, db)
             | Manage_Post form \<Rightarrow>
                 if ownedURLForUser db c i = None then (Web_Not_Found, db)
                 else
                   (case form of
                      None \<Rightarrow> (Web_Error 400 ''Invalid form data'', db)
                    | Some (f, has) \<Rightarrow>
                        if form_value f ''action'' = ''delete'' then
                          (case DeleteURL c db of
                             Inl e \<Rightarrow> (renderURLManage db i c (Some (''danger'', ''Failed to delete link.'')), db)
                           | Inr db' \<Rightarrow> (Web_Redirect 303 (''/users/dashboard?deleted='' @ c), db'))
                        else
                          (case UpdateURL hash now' c (manage_update parse_form_time has f) db of
                             Inl e \<Rightarrow> (renderURLManage db i c (Some (''danger'', ''Failed to update link'')), db)
                           | Inr (u, db') \<Rightarrow>
                               (renderURLManage db' i c (Some (''success'', ''Link updated.'')), db')))))"

section \<open>The contract of a guarded change\<close>

text \<open>
  An operation on the link of one code that leaves every other link alone, and does nothing
  unless the caller may change that link, which depends on the stored row only. Whatever
  sequence of such requests one caller makes, the links of others stay as they were.
\<close>

locale guarded_change =
  fixes run :: "'q \<Rightarrow> string \<Rightarrow> link_db \<Rightarrow> 'r \<times> link_db"
    and allowed :: "url_row option \<Rightarrow> bool"
  assumes frame: "d \<noteq> c \<Longrightarrow> look (snd (run q c db)) d = look db d"
    and refused: "\<not> allowed (look db c) \<Longrightarrow> snd (run q c db) = db"
begin

fun run_all :: "('q \<times> string) list \<Rightarrow> link_db \<Rightarrow> link_db" where
  "run_all [] db = db"
| "run_all ((q, c) # rs) db = run_all rs (snd (run q c db))"

lemma foreign_once: "\<not> allowed (look db d) \<Longrightarrow> look (snd (run q c db)) d = look db d"
  using frame refused by (cases "d = c") auto

lemma foreign_kept: "\<not> allowed (look db d) \<Longrightarrow> look (run_all rs db) d = look db d"
  by (induction rs db rule: run_all.induct) (simp_all add: foreign_once)

lemma foreign_url_kept: "\<not> allowed (look db d) \<Longrightarrow> getURLByCodeRaw (run_all rs db) d = getURLByCodeRaw db d"
  by (simp add: getURLByCodeRaw_look foreign_kept)

end

text \<open>Who may change a row: an admin token, or the token or user that owns it.\<close>

definition token_owns :: "token option \<Rightarrow> url_row option \<Rightarrow> bool" where
  "token_owns tok row \<longleftrightarrow>
     (case tok of
        None \<Rightarrow> False
      | Some rec \<Rightarrow> EqualFold (tok_owner_type rec) ''admin'' \<or>
          (case row of
             None \<Rightarrow> False
           | Some r \<Rightarrow> (if EqualFold (tok_owner_type rec) ''org'' then org_id r else user_id r) = Some (tok_owner_id rec)))"

definition user_owns :: "int option \<Rightarrow> url_row option \<Rightarrow> bool" where
  "user_owns user row \<longleftrightarrow> (case (user, row) of (Some i, Some r) \<Rightarrow> user_id r = Some i | _ \<Rightarrow> False)"

lemma checkURLOwnership_iff: "checkURLOwnership tok db c = None \<longleftrightarrow> token_owns tok (look db c)"
  by (auto simp: checkURLOwnership_def token_owns_def getURLByCodeRaw_look scanURLRow_def split: option.splits)

lemma ownedURLForUser_iff: "ownedURLForUser db c i \<noteq> None \<longleftrightarrow> user_owns (Some i) (look db c)"
  by (auto simp: ownedURLForUser_def user_owns_def getURLByCodeRaw_look scanURLRow_def split: option.splits)

lemma UpdateURL_frame: "UpdateURL hash now' c req db = Inr (u, db') \<Longrightarrow> d \<noteq> c \<Longrightarrow> look db' d = look db d"
  by (erule UpdateURL_Inr) (simp add: look_update_row)

lemma DeleteURL_frame: "DeleteURL c db = Inr db' \<Longrightarrow> d \<noteq> c \<Longrightarrow> look db' d = look db d"
  using DeleteURL_Inr(2) by simp

datatype api_change = Update_Request int "json option" | Delete_Request

fun api_call ::
    "(string \<Rightarrow> string option) \<Rightarrow> (string \<Rightarrow> int option) \<Rightarrow> token option \<Rightarrow> api_change \<Rightarrow> string \<Rightarrow> link_db \<Rightarrow>
     api_response \<times> link_db" where
  "api_call hash parse_time tok (Update_Request now' body) c db = UpdateURL_handler hash parse_time now' tok body c db"
| "api_call hash parse_time tok Delete_Request c db = DeleteURL_handler tok c db"

interpretation api: guarded_change "api_call hash parse_time tok" "token_owns tok" for hash parse_time tok
proof
  show "look (snd (api_call hash parse_time tok q c db)) d = look db d" if "d \<noteq> c" for d c q db
    using that by (cases q)
      (auto simp: UpdateURL_handler_def DeleteURL_handler_def split: option.splits sum.splits
        dest: UpdateURL_frame DeleteURL_frame)
  show "snd (api_call hash parse_time tok q c db) = db" if "\<not> token_owns tok (look db c)" for c q db
  proof -
    have "checkURLOwnership tok db c \<noteq> None" using that checkURLOwnership_iff by blast
    then show ?thesis
      by (cases q) (auto simp: UpdateURL_handler_def DeleteURL_handler_def)
  qed
qed

definition web_call ::
    "(string \<Rightarrow> string option) \<Rightarrow> (string \<Rightarrow> int option) \<Rightarrow> int option \<Rightarrow> int \<times> manage_request \<Rightarrow> string \<Rightarrow> link_db \<Rightarrow>
     web_response \<times> link_db" where
  "web_call hash parse_form_time user q c db = WebURLManage hash parse_form_time (fst q) user (snd q) c db"

interpretation web: guarded_change "web_call hash parse_form_time user" "user_owns user" for hash parse_form_time user
proof
  show "look (snd (web_call hash parse_form_time user q c db)) d = look db d" if "d \<noteq> c" for d c q db
    using that
    by (auto simp: web_call_def WebURLManage_def split: option.splits sum.splits manage_request.splits
        dest: UpdateURL_frame DeleteURL_frame)
  show "snd (web_call hash parse_form_time user q c db) = db" if "\<not> user_owns user (look db c)" for c q db
  proof (cases user)
    case (Some i)
    then have "ownedURLForUser db c i = None" using that ownedURLForUser_iff by blast
    then show ?thesis using Some by (simp add: web_call_def WebURLManage_def split: manage_request.splits)
  qed (simp add: web_call_def WebURLManage_def)
qed

section \<open>Properties\<close>

text \<open>
  C3 (api_changes_only_owned). Whatever updates and deletions are requested with one token, a
  link that the token does not own stays exactly as it was; only an admin token can change
  the links of others and those without an owner.
\<close>

theorem api_changes_only_owned:
  assumes "\<not> token_owns tok (look db d)"
  shows "getURLByCodeRaw (api.run_all hash parse_time tok requests db) d = getURLByCodeRaw db d"
  using assms by (rule api.foreign_url_kept)

lemma sample_owner:
  "\<exists>u db. CreateURLForUser never_draws 0 7 (plain_request ''http://a.io/'' ''abc'') no_links = Inr (u, db) \<and>
     map_option user_id (look db ''abc'') = Some (Some 7)"
  by (simp add: link_eval eval_simps look_def)

theorem api_changes_only_owned_witness:
  "\<exists>u db. CreateURLForUser never_draws 0 7 (plain_request ''http://a.io/'' ''abc'') no_links = Inr (u, db) \<and>
     getURLByCodeRaw (api.run_all Some (\<lambda>t. None) (Some \<lparr>tok_owner_type = ''user'', tok_owner_id = 8\<rparr>)
       [(Delete_Request, ''abc''), (Update_Request 3 (Some (JObj [(''url'', JStr ''http://b.io/'')])), ''abc'')] db) ''abc''
     = getURLByCodeRaw db ''abc''"
proof -
  obtain u db where c: "CreateURLForUser never_draws 0 7 (plain_request ''http://a.io/'' ''abc'') no_links = Inr (u, db)"
    and l: "map_option user_id (look db ''abc'') = Some (Some 7)"
    using sample_owner by blast
  have "\<not> token_owns (Some \<lparr>tok_owner_type = ''user'', tok_owner_id = 8\<rparr>) (look db ''abc'')"
    using l by (auto simp: token_owns_def EqualFold_def ToLower_def is_upper_def)
  from api_changes_only_owned [OF this] show ?thesis using c by blast
qed

text \<open>
  Whatever a signed-in user, or a visitor, posts to the
  management pages, a link of another user stays exactly as it was.
\<close>

theorem manage_page_changes_only_owned:
  assumes "\<not> user_owns user (look db d)"
  shows "getURLByCodeRaw (web.run_all hash parse_form_time user requests db) d = getURLByCodeRaw db d"
  using assms by (rule web.foreign_url_kept)

theorem manage_page_changes_only_owned_witness:
  "\<exists>u db. CreateURLForUser never_draws 0 7 (plain_request ''http://a.io/'' ''abc'') no_links = Inr (u, db) \<and>
     getURLByCodeRaw (web.run_all Some (\<lambda>t. None) (Some 8)
       [((3, Manage_Post (Some ([(''action'', ''delete'')], [''action'']))), ''abc'')] db) ''abc''
     = getURLByCodeRaw db ''abc''"
proof -
  obtain u db where c: "CreateURLForUser never_draws 0 7 (plain_request ''http://a.io/'' ''abc'') no_links = Inr (u, db)"
    and l: "map_option user_id (look db ''abc'') = Some (Some 7)"
    using sample_owner by blast
  have "\<not> user_owns (Some 8) (look db ''abc'')" using l by (auto simp: user_owns_def)
  from manage_page_changes_only_owned [OF this] show ?thesis using c by blast
qed

text \<open>
  The API shows the details of a link exactly when it exists and has
  not expired, and is public or asked for by an admin or by its owner. (Without a token the
  owner looked for is user 0, an id the table of users does not give out.)
\<close>

theorem private_link_details:
  "GetURL_handler now' tok c db = Api_Link s u \<longleftrightarrow>
     c \<noteq> [] \<and> s = 200 \<and> getURLByCodeRaw db c = Inr u \<and> \<not> expired_at now' u \<and>
     (Visibility u = ''private'' \<longrightarrow>
        (case tok of
           None \<Rightarrow> UserID u = Some 0
         | Some rec \<Rightarrow> EqualFold (tok_owner_type rec) ''admin'' \<or>
             (if EqualFold (tok_owner_type rec) ''org'' then OrgID u else UserID u) = Some (tok_owner_id rec)))"
proof -
  have "\<not> EqualFold [] ''org''" by (simp add: EqualFold_def ToLower_def)
  then show ?thesis
    by (auto simp: GetURL_handler_def GetURLByCode_def then_try_def canViewURL_def CanView_def
        split: sum.splits option.splits)
qed

theorem private_link_details_witness:
  "\<exists>u db. CreateURL Some never_draws 0 ((plain_request ''http://a.io/'' ''abc'')\<lparr>cr_visibility := ''private''\<rparr>) no_links =
     Inr (u, db) \<and> (\<forall>s w. GetURL_handler 0 None ''abc'' db \<noteq> Api_Link s w) \<and>
     GetURL_handler 0 (Some \<lparr>tok_owner_type = ''admin'', tok_owner_id = 1\<rparr>) ''abc'' db = Api_Link 200 u"
proof -
  let ?req = "(plain_request ''http://a.io/'' ''abc'')\<lparr>cr_visibility := ''private''\<rparr>"
  have "\<exists>u db. CreateURL Some never_draws 0 ?req no_links = Inr (u, db) \<and> getURLByCodeRaw db ''abc'' = Inr u \<and>
     Visibility u = ''private'' \<and> UserID u = None \<and> ExpiresAt u = None"
    by (simp add: link_eval eval_simps)
  then obtain u db where c: "CreateURL Some never_draws 0 ?req no_links = Inr (u, db)"
    and u: "getURLByCodeRaw db ''abc'' = Inr u" "Visibility u = ''private''" "UserID u = None" "ExpiresAt u = None"
    by blast
  have "GetURL_handler 0 None ''abc'' db \<noteq> Api_Link s w" for s w
    unfolding private_link_details using u by auto
  moreover have "GetURL_handler 0 (Some \<lparr>tok_owner_type = ''admin'', tok_owner_id = 1\<rparr>) ''abc'' db = Api_Link 200 u"
    unfolding private_link_details using u by (simp add: expired_at_def EqualFold_def)
  ultimately show ?thesis using c by blast
qed

end
