(* ===== verification/CookieJar.thy ===== *)
theory CookieJar
  imports KeyStore JSStrings
begin

text \<open>
  The browser's cookie jar for the site, as the script sees it through
  \<open>document.cookie\<close> (RFC 6265), and the \<open>Cookie\<close> header the browser sends. All
  cookies of the program are set with path / on one host, so a cookie is identified by its
  name; a stored cookie is one that has not expired. It is a
  \<open>key_store\<close>.
\<close>

section \<open>The jar\<close>

record cookie =
  ck_name :: string
  ck_value :: string
  ck_http_only :: bool

type_synonym cookie_jar = "cookie list"

definition jar_lookup :: "cookie_jar \<Rightarrow> string \<Rightarrow> cookie option" where
  "jar_lookup jar n = find (\<lambda>c. ck_name c = n) jar"

fun jar_store :: "cookie \<Rightarrow> cookie_jar \<Rightarrow> cookie_jar" where
  "jar_store c [] = [c]"
| "jar_store c (d # ds) = (if ck_name d = ck_name c then c # ds else d # jar_store c ds)"

definition jar_remove :: "string \<Rightarrow> cookie_jar \<Rightarrow> cookie_jar" where
  "jar_remove n jar = filter (\<lambda>c. ck_name c \<noteq> n) jar"

definition jar_put :: "string \<Rightarrow> cookie \<Rightarrow> cookie_jar \<Rightarrow> cookie_jar" where
  "jar_put n c jar = jar_store (c\<lparr>ck_name := n\<rparr>) jar"

lemma jar_lookup_store:
  "jar_lookup (jar_store c jar) n = (if n = ck_name c then Some c else jar_lookup jar n)"
  by (induction jar) (auto simp: jar_lookup_def)

lemma jar_lookup_remove:
  "jar_lookup (jar_remove n jar) m = (if m = n then None else jar_lookup jar m)"
  by (induction jar) (auto simp: jar_lookup_def jar_remove_def)

lemma jar_lookup_name: "jar_lookup jar n = Some c \<Longrightarrow> ck_name c = n \<and> c \<in> set jar"
  by (auto simp: jar_lookup_def find_Some_iff)

text \<open>Values and the HttpOnly flag as the stored data of a name.\<close>

definition jar_get :: "cookie_jar \<Rightarrow> string \<Rightarrow> (string \<times> bool) option" where
  "jar_get jar n = map_option (\<lambda>c. (ck_value c, ck_http_only c)) (jar_lookup jar n)"

definition jar_set :: "string \<Rightarrow> string \<times> bool \<Rightarrow> cookie_jar \<Rightarrow> cookie_jar" where
  "jar_set n v jar = jar_store \<lparr>ck_name = n, ck_value = fst v, ck_http_only = snd v\<rparr> jar"

interpretation cookies: key_store jar_get jar_set jar_remove
  by unfold_locales (auto simp: jar_get_def jar_set_def jar_lookup_store jar_lookup_remove)

section \<open>Names are distinct\<close>

abbreviation distinct_names :: "cookie_jar \<Rightarrow> bool" where
  "distinct_names jar \<equiv> distinct (map ck_name jar)"

lemma names_jar_store: "set (map ck_name (jar_store c jar)) = insert (ck_name c) (set (map ck_name jar))"
  by (induction jar) auto

lemma distinct_jar_store: "distinct_names jar \<Longrightarrow> distinct_names (jar_store c jar)"
  by (induction jar) (use names_jar_store in auto)

lemma distinct_jar_remove: "distinct_names jar \<Longrightarrow> distinct_names (jar_remove n jar)"
  by (simp add: jar_remove_def distinct_map_filter)

section \<open>document.cookie and the Cookie header\<close>

definition cookie_pair :: "cookie \<Rightarrow> string" where
  "cookie_pair c = ck_name c @ ''='' @ ck_value c"

text \<open>Reading \<open>document.cookie\<close>: HttpOnly cookies are hidden from scripts.\<close>

definition document_cookie :: "cookie_jar \<Rightarrow> string" where
  "document_cookie jar = join_with ''; '' (map cookie_pair (filter (\<lambda>c. \<not> ck_http_only c) jar))"

definition cookie_header :: "cookie_jar \<Rightarrow> string" where
  "cookie_header jar = join_with ''; '' (map cookie_pair jar)"

definition cookie_wsp :: "char \<Rightarrow> bool" where
  "cookie_wsp c \<longleftrightarrow> code c = 32 \<or> code c = 9"

text \<open>\<open>cut_at c s\<close> splits at the first \<open>c\<close>.\<close>

definition cut_at :: "char \<Rightarrow> string \<Rightarrow> (string \<times> string) option" where
  "cut_at c s = (if c \<in> set s then Some (takeWhile (\<lambda>x. x \<noteq> c) s, tl (dropWhile (\<lambda>x. x \<noteq> c) s)) else None)"

lemma cut_at_append [simp]: "c \<notin> set s \<Longrightarrow> cut_at c (s @ c # t) = Some (s, t)"
  by (simp add: cut_at_def takeWhile_append dropWhile_append)

text \<open>
  Assigning to \<open>document.cookie\<close>: the text up to the first semicolon is the pair, the rest
  are attributes, of which the last Max-Age counts; a Max-Age that is not positive deletes
  the cookie. A script cannot replace an HttpOnly cookie. A pair without an equals sign is
  ignored (the script never assigns one).
\<close>

definition attribute_max_age :: "string \<Rightarrow> int option" where
  "attribute_max_age a =
     (case cut_at (CHR ''='') a of
        Some (n, v) \<Rightarrow>
          if toLowerCase (strip cookie_wsp n) = ''max-age''
          then (let w = strip cookie_wsp v in
                case w of
                  [] \<Rightarrow> None
                | c # cs \<Rightarrow>
                    if (is_digit c \<or> c = CHR ''-'') \<and> list_all is_digit cs \<and> w \<noteq> ''-''
                    then parse_int10 w else None)
          else None
      | None \<Rightarrow> None)"

definition max_age_of :: "string list \<Rightarrow> int option" where
  "max_age_of attrs = fold (\<lambda>a r. case attribute_max_age a of None \<Rightarrow> r | Some n \<Rightarrow> Some n) attrs None"

definition document_cookie_assign :: "string \<Rightarrow> cookie_jar \<Rightarrow> cookie_jar" where
  "document_cookie_assign s jar =
     (let parts = split_on (CHR '';'') s in
      case cut_at (CHR ''='') (hd parts) of
        None \<Rightarrow> jar
      | Some (n, v) \<Rightarrow>
          (let name = strip cookie_wsp n; value = strip cookie_wsp v in
           if (case jar_lookup jar name of Some c \<Rightarrow> ck_http_only c | None \<Rightarrow> False) then jar
           else if (case max_age_of (tl parts) of Some m \<Rightarrow> m \<le> 0 | None \<Rightarrow> False)
             then jar_remove name jar
           else jar_set name (value, False) jar))"

declare jar_lookup_def [eval_simps] jar_remove_def [eval_simps] jar_get_def [eval_simps]
  jar_set_def [eval_simps] cookie_pair_def [eval_simps] document_cookie_def [eval_simps]
  cookie_header_def [eval_simps] cookie_wsp_def [eval_simps] cut_at_def [eval_simps]
  attribute_max_age_def [eval_simps] max_age_of_def [eval_simps]
  document_cookie_assign_def [eval_simps]

text \<open>Cookies that print and read back unchanged: what the program stores.\<close>

definition clean_cookie :: "cookie \<Rightarrow> bool" where
  "clean_cookie c \<longleftrightarrow> ck_name c \<noteq> [] \<and>
     (\<forall>x \<in> set (ck_name c). x \<noteq> CHR ''='' \<and> x \<noteq> CHR '';'' \<and> \<not> js_space x) \<and>
     CHR '';'' \<notin> set (ck_value c)"

lemma clean_pair_no_semicolon: "clean_cookie c \<Longrightarrow> CHR '';'' \<notin> set (cookie_pair c)"
  by (auto simp: clean_cookie_def cookie_pair_def)

end
