(* ===== verification/Theme.thy ===== *)
theory Theme
  imports CookieJar
begin

text \<open>
  Theme management of \<^verbatim>\<open>src/server/tmpl/static/js/app.js\<close>: \<open>applyTheme\<close>,
  \<open>cycleTheme\<close>, the restore on page load, and the handlers of the toggle button and of the
  theme selection buttons. The state is what these functions touch: the attribute
  \<open>data-theme\<close> of the document, the cookie jar, \<open>localStorage\<close> and the toggle
  button. A look-up such as \<open>icons[theme]\<close> is modelled on the keys the literal lists; the
  names every JavaScript object inherits (\<open>constructor\<close> and the like) are not themes.
\<close>

section \<open>State\<close>

datatype icon = Sun | Moon | Desktop

record toggle_button =
  tb_icon :: icon
  tb_title :: string

type_synonym local_storage = "string \<rightharpoonup> string"

interpretation local_store: key_store
  "\<lambda>(s :: local_storage) k. s k" "\<lambda>k v s. s(k \<mapsto> v)" "\<lambda>k s. s(k := None)"
  by unfold_locales auto

record page =
  html_theme :: string
  jar :: cookie_jar
  storage :: local_storage
  toggle :: "toggle_button option"

definition THEME_KEY :: string where
  "THEME_KEY = ''cl_theme''"

section \<open>applyTheme and cycleTheme\<close>

definition theme_cookie :: "string \<Rightarrow> string" where
  "theme_cookie theme =
     (if theme \<noteq> ''auto''
      then ''theme='' @ theme @ ''; path=/; max-age=31536000; SameSite=Lax''
      else ''theme=; path=/; max-age=0; SameSite=Lax'')"

definition theme_icon :: "string \<Rightarrow> icon" where
  "theme_icon theme =
     (if theme = ''dark'' then Sun else if theme = ''light'' then Moon else Desktop)"

definition theme_button :: "string \<Rightarrow> toggle_button" where
  "theme_button theme =
     \<lparr>tb_icon = theme_icon theme, tb_title = ''Switch theme (current: '' @ theme @ '')''\<rparr>"

definition applyTheme :: "string \<Rightarrow> page \<Rightarrow> page" where
  "applyTheme theme p =
     p\<lparr>html_theme := theme,
       jar := document_cookie_assign (theme_cookie theme) (jar p),
       storage := (storage p)(THEME_KEY \<mapsto> theme),
       toggle := map_option (\<lambda>_. theme_button theme) (toggle p)\<rparr>"

definition next_theme :: "string \<Rightarrow> string" where
  "next_theme current =
     (if current = ''auto'' then ''dark''
      else if current = ''dark'' then ''light''
      else if current = ''light'' then ''auto''
      else ''auto'')"

definition cycleTheme :: "page \<Rightarrow> page" where
  "cycleTheme p = applyTheme (next_theme (js_or (storage p THEME_KEY) ''auto'')) p"

text \<open>The restore that runs when the script is loaded.\<close>

definition restore_theme :: "page \<Rightarrow> page" where
  "restore_theme p = applyTheme (js_or (storage p THEME_KEY) ''auto'') p"

section \<open>Events of a visit\<close>

text \<open>
  A page load brings a fresh document (whatever theme and button the server rendered) and
  keeps the jar and the storage; the toggle and the selection buttons are wired to
  \<open>cycleTheme\<close> and \<open>applyTheme\<close>. A click on an absent toggle cannot happen.
\<close>

datatype theme_event =
    LoadPage string "toggle_button option"
  | ClickToggle
  | ClickThemeSet string

fun theme_step :: "theme_event \<Rightarrow> page \<Rightarrow> page" where
  "theme_step (LoadPage attr btn) p = restore_theme (p\<lparr>html_theme := attr, toggle := btn\<rparr>)"
| "theme_step ClickToggle p = (case toggle p of Some _ \<Rightarrow> cycleTheme p | None \<Rightarrow> p)"
| "theme_step (ClickThemeSet theme) p = applyTheme theme p"

definition theme_run :: "theme_event list \<Rightarrow> page \<Rightarrow> page" where
  "theme_run es p = fold theme_step es p"

section \<open>The theme cookie\<close>

definition clean_theme :: "string \<Rightarrow> bool" where
  "clean_theme t \<longleftrightarrow> CHR '';'' \<notin> set t \<and> strip cookie_wsp t = t"

definition theme_cookie_visible :: "cookie_jar \<Rightarrow> bool" where
  "theme_cookie_visible jr \<longleftrightarrow>
     (case jar_get jr ''theme'' of Some (_, hidden) \<Rightarrow> \<not> hidden | None \<Rightarrow> True)"

lemma theme_attrs_live:
  "max_age_of ['' path=/'', '' max-age=31536000'', '' SameSite=Lax''] = Some 31536000"
  by (simp add: eval_simps)

lemma theme_attrs_dead: "max_age_of ['' path=/'', '' max-age=0'', '' SameSite=Lax''] = Some 0"
  by (simp add: eval_simps)

lemma theme_cookie_parts:
  assumes "CHR '';'' \<notin> set t" and "t \<noteq> ''auto''"
  shows "split_on (CHR '';'') (theme_cookie t)
    = [''theme='' @ t, '' path=/'', '' max-age=31536000'', '' SameSite=Lax'']"
proof -
  have "theme_cookie t = (''theme='' @ t) @ CHR '';'' # '' path=/; max-age=31536000; SameSite=Lax''"
    using assms by (simp add: theme_cookie_def)
  then show ?thesis using assms by (simp only: split_on_append) (simp add: split_on_append)
qed

lemma theme_cookie_parts_auto:
  "split_on (CHR '';'') (theme_cookie ''auto'')
    = [''theme='', '' path=/'', '' max-age=0'', '' SameSite=Lax'']"
  by (simp add: theme_cookie_def)

lemma cut_theme: "cut_at (CHR ''='') (''theme='' @ t) = Some (''theme'', t)"
  using cut_at_append [of "CHR ''=''" "''theme''" t] by simp

lemma strip_theme_name: "strip cookie_wsp ''theme'' = ''theme''"
  by (rule strip_id) (auto simp: cookie_wsp_def)

lemma visible_not_hidden:
  "theme_cookie_visible jr \<Longrightarrow>
     \<not> (case jar_lookup jr ''theme'' of Some c \<Rightarrow> ck_http_only c | None \<Rightarrow> False)"
  by (auto simp: theme_cookie_visible_def jar_get_def split: option.splits)

lemma assign_theme:
  assumes "clean_theme t" and "t \<noteq> ''auto''" and "theme_cookie_visible jr"
  shows "document_cookie_assign (theme_cookie t) jr = jar_set ''theme'' (t, False) jr"
proof -
  have t: "CHR '';'' \<notin> set t" "strip cookie_wsp t = t" using assms(1) by (auto simp: clean_theme_def)
  show ?thesis
    using theme_cookie_parts [OF t(1) assms(2)] cut_theme [of t] strip_theme_name t
      visible_not_hidden [OF assms(3)] theme_attrs_live
    by (simp add: document_cookie_assign_def Let_def)
qed

lemma assign_theme_auto:
  assumes "theme_cookie_visible jr"
  shows "document_cookie_assign (theme_cookie ''auto'') jr = jar_remove ''theme'' jr"
  using theme_cookie_parts_auto cut_theme [of "[]"] strip_theme_name
    visible_not_hidden [OF assms] theme_attrs_dead
  by (simp add: document_cookie_assign_def Let_def)

section \<open>Document, storage, cookie and button agree\<close>

definition theme_agrees :: "string \<Rightarrow> page \<Rightarrow> bool" where
  "theme_agrees t p \<longleftrightarrow>
     html_theme p = t \<and> storage p THEME_KEY = Some t \<and>
     jar_get (jar p) ''theme'' = (if t = ''auto'' then None else Some (t, False)) \<and>
     (\<forall>b. toggle p = Some b \<longrightarrow> b = theme_button t)"

lemma theme_agrees_visible: "theme_agrees t p \<Longrightarrow> theme_cookie_visible (jar p)"
  by (auto simp: theme_agrees_def theme_cookie_visible_def split: if_splits)

lemma applyTheme_agrees:
  assumes "clean_theme t" and "theme_cookie_visible (jar p)"
  shows "theme_agrees t (applyTheme t p)"
proof (cases "t = ''auto''")
  case True
  then show ?thesis using assign_theme_auto [OF assms(2)]
    by (auto simp: theme_agrees_def applyTheme_def cookies.get_del)
next
  case False
  then show ?thesis using assign_theme [OF assms(1) False assms(2)]
    by (auto simp: theme_agrees_def applyTheme_def cookies.get_put)
qed

text \<open>The theme a page shows after its events: what the events say, step by step.\<close>

fun theme_after :: "theme_event \<Rightarrow> bool \<times> string \<Rightarrow> bool \<times> string" where
  "theme_after (LoadPage attr btn) (_, t) = (btn \<noteq> None, t)"
| "theme_after ClickToggle (shown, t) = (shown, if shown then next_theme t else t)"
| "theme_after (ClickThemeSet t') (shown, t) = (shown, t')"

fun clean_event :: "theme_event \<Rightarrow> bool" where
  "clean_event (ClickThemeSet t) \<longleftrightarrow> clean_theme t \<and> t \<noteq> []"
| "clean_event _ \<longleftrightarrow> True"

definition page_abs :: "page \<Rightarrow> bool \<times> string" where
  "page_abs p = (toggle p \<noteq> None, js_or (storage p THEME_KEY) ''auto'')"

definition page_ok :: "page \<Rightarrow> bool" where
  "page_ok p \<longleftrightarrow> theme_cookie_visible (jar p) \<and>
     (\<forall>t. storage p THEME_KEY = Some t \<longrightarrow> clean_theme t)"

lemma clean_literals [simp]:
  "clean_theme ''auto''" "clean_theme ''dark''" "clean_theme ''light''" "clean_theme []"
  by (simp_all add: clean_theme_def eval_simps)

lemma clean_next [simp]: "clean_theme (next_theme t)" and next_theme_not_Nil [simp]: "next_theme t \<noteq> []"
  by (auto simp: next_theme_def)

lemma page_ok_current: "page_ok p \<Longrightarrow> clean_theme (js_or (storage p THEME_KEY) ''auto'')"
  by (auto simp: page_ok_def js_or_def split: option.splits)

lemma applyTheme_step:
  assumes "clean_theme t" and "t \<noteq> []" and "theme_cookie_visible (jar p)"
  shows "page_ok (applyTheme t p) \<and> page_abs (applyTheme t p) = (toggle p \<noteq> None, t)"
  using theme_agrees_visible [OF applyTheme_agrees [OF assms(1,3)]] assms
  by (auto simp: page_ok_def page_abs_def applyTheme_def)

lemma js_or_not_Nil: "d \<noteq> [] \<Longrightarrow> js_or a d \<noteq> []"
  by (auto simp: js_or_def split: option.splits)

lemma theme_step_refines:
  assumes "page_ok p" and "clean_event e"
  shows "page_ok (theme_step e p) \<and> page_abs (theme_step e p) = theme_after e (page_abs p)"
proof (cases e)
  case (LoadPage attr btn)
  let ?q = "p\<lparr>html_theme := attr, toggle := btn\<rparr>"
  have "theme_cookie_visible (jar ?q)" using assms(1) by (simp add: page_ok_def)
  then show ?thesis
    using applyTheme_step [OF page_ok_current [OF assms(1)] js_or_not_Nil, of "?q"] LoadPage
    by (simp add: restore_theme_def page_abs_def)
next
  case ClickToggle
  then show ?thesis
    using applyTheme_step [OF clean_next next_theme_not_Nil, of p] assms(1)
    by (auto simp: cycleTheme_def page_ok_def page_abs_def split: option.splits)
next
  case (ClickThemeSet t)
  then show ?thesis
    using applyTheme_step [of t p] assms by (simp add: page_ok_def page_abs_def)
qed

lemma theme_run_refines:
  assumes "page_ok p" and "list_all clean_event es"
  shows "page_ok (theme_run es p) \<and> page_abs (theme_run es p) = fold theme_after es (page_abs p)"
  using assms
proof (induction es arbitrary: p)
  case (Cons e es)
  then have "page_ok (theme_step e p)" and "page_abs (theme_step e p) = theme_after e (page_abs p)"
    using theme_step_refines by auto
  then show ?case using Cons by (simp add: theme_run_def)
qed (simp add: theme_run_def)

lemma theme_run_snoc: "theme_run (es @ [e]) p = theme_step e (theme_run es p)"
  by (simp add: theme_run_def)

lemma theme_step_agrees:
  assumes "page_ok p" and "clean_event e" and "toggle p \<noteq> None \<or> e \<noteq> ClickToggle"
  shows "theme_agrees (snd (theme_after e (page_abs p))) (theme_step e p)"
  using assms(2,3) applyTheme_agrees [OF page_ok_current [OF assms(1)]] assms(1)
  by (cases e) (auto simp: restore_theme_def cycleTheme_def page_abs_def page_ok_def
      split: option.splits intro!: applyTheme_agrees)

text \<open>The theme a page shows, as the specification sees it, never becomes empty.\<close>

lemma theme_after_not_Nil: "snd st \<noteq> [] \<Longrightarrow> clean_event e \<Longrightarrow> snd (theme_after e st) \<noteq> []"
  by (cases e; cases st) auto

definition theme_inv :: "bool \<times> string \<Rightarrow> page \<Rightarrow> bool" where
  "theme_inv st p \<longleftrightarrow> page_ok p \<and> st = page_abs p \<and> theme_agrees (snd st) p"

lemma theme_inv_load:
  assumes "page_ok p"
  shows "theme_inv (btn \<noteq> None, js_or (storage p THEME_KEY) ''auto'') (theme_step (LoadPage attr btn) p)"
  using theme_step_refines [OF assms, of "LoadPage attr btn"]
    theme_step_agrees [OF assms, of "LoadPage attr btn"]
  by (simp add: theme_inv_def page_abs_def)

lemma theme_inv_step:
  assumes "theme_inv st p" and "clean_event e"
  shows "theme_inv (theme_after e st) (theme_step e p)"
proof (cases "toggle p \<noteq> None \<or> e \<noteq> ClickToggle")
  case True
  then show ?thesis using assms theme_step_refines theme_step_agrees by (simp add: theme_inv_def)
next
  case False
  then show ?thesis using assms by (auto simp: theme_inv_def page_abs_def)
qed

lemma theme_inv_run:
  "theme_inv st p \<Longrightarrow> list_all clean_event es \<Longrightarrow> theme_inv (fold theme_after es st) (theme_run es p)"
  by (induction es arbitrary: st p) (simp_all add: theme_run_def theme_inv_step)

section \<open>Properties\<close>

text \<open>
  C29 (theme session refinement). After a page load and any sequence of toggle clicks, selections and
  further loads, the document attribute, \<open>localStorage\<close>, the \<open>theme\<close> cookie (absent for
  auto) and the label of the toggle button all show one theme, and it is the theme the
  specification \<open>theme_after\<close> computes from the stored theme and the events.
\<close>

theorem theme_session:
  assumes "page_ok p" and "list_all clean_event es"
  shows "theme_agrees
           (snd (fold theme_after es (btn \<noteq> None, js_or (storage p THEME_KEY) ''auto'')))
           (theme_run (LoadPage attr btn # es) p)"
  using theme_inv_run [OF theme_inv_load [OF assms(1)] assms(2)]
  by (simp add: theme_inv_def theme_run_def)

definition example_page :: page where
  "example_page = \<lparr>html_theme = ''dark'', jar = [], storage = Map.empty, toggle = None\<rparr>"

theorem theme_session_witness:
  "theme_agrees ''light''
     (theme_run [LoadPage ''dark'' (Some (theme_button ''dark'')), ClickToggle, ClickToggle] example_page)"
proof -
  have ok: "page_ok example_page"
    by (simp add: page_ok_def example_page_def theme_cookie_visible_def eval_simps)
  show ?thesis
    using theme_session [OF ok, of "[ClickToggle, ClickToggle]" "Some (theme_button ''dark'')" "''dark''"]
    by (simp add: example_page_def next_theme_def)
qed

text \<open>
  On a page whose stored theme is one of the three the script knows, three clicks on the
  toggle button bring the page back to that theme; from any other stored theme the first click
  shows auto, so the third shows light.
\<close>

theorem theme_toggle_cycle:
  assumes "theme_agrees t p" and "page_ok p" and "toggle p \<noteq> None" and "t \<noteq> []"
  shows "theme_agrees (if t \<in> {''auto'', ''dark'', ''light''} then t else ''light'')
           (theme_run [ClickToggle, ClickToggle, ClickToggle] p)"
proof -
  have "theme_inv (True, t) p"
    using assms by (auto simp: theme_inv_def page_abs_def theme_agrees_def js_or_def)
  then have "theme_inv (fold theme_after [ClickToggle, ClickToggle, ClickToggle] (True, t))
      (theme_run [ClickToggle, ClickToggle, ClickToggle] p)"
    by (rule theme_inv_run) simp
  then have "theme_agrees (next_theme (next_theme (next_theme t)))
      (theme_run [ClickToggle, ClickToggle, ClickToggle] p)"
    by (simp add: theme_inv_def)
  moreover have "next_theme (next_theme (next_theme t))
      = (if t \<in> {''auto'', ''dark'', ''light''} then t else ''light'')"
    by (simp add: next_theme_def)
  ultimately show ?thesis by simp
qed

theorem theme_toggle_cycle_witness:
  "theme_agrees ''auto'' (theme_run [ClickToggle, ClickToggle, ClickToggle]
     (restore_theme (example_page\<lparr>toggle := Some (theme_button ''dark'')\<rparr>)))"
proof -
  let ?p = "restore_theme (example_page\<lparr>toggle := Some (theme_button ''dark'')\<rparr>)"
  have ok: "page_ok (example_page\<lparr>toggle := Some (theme_button ''dark'')\<rparr>)"
    by (simp add: page_ok_def example_page_def theme_cookie_visible_def eval_simps)
  have "theme_agrees ''auto'' ?p" and "page_ok ?p" and "toggle ?p \<noteq> None"
    using theme_inv_load [OF ok, of "Some (theme_button ''dark'')" "''dark''"]
    by (auto simp: theme_inv_def example_page_def restore_theme_def applyTheme_def)
  then show ?thesis using theme_toggle_cycle [of "''auto''" ?p] by simp
qed

end
