(* ===== verification/CsrfClient.thy ===== *)
theory CsrfClient
  imports CookieJar
begin

text \<open>
  CSRF injection of \<^verbatim>\<open>src/server/tmpl/static/js/app.js\<close>: \<open>getCSRFToken\<close> and the
  replacement of \<open>window.fetch\<close>. The state is the \<open>csrf-token\<close> meta element and the
  cookie jar; the request is the \<open>init\<close> argument, whose headers are a \<open>Headers\<close> object,
  a plain object, an array of pairs, or something that is not an object.
\<close>

section \<open>getCSRFToken\<close>

text \<open>
  The regular expression \<^verbatim>\<open>(?:^|;\s*)csrf_token=([^;]+)\<close>: the cookie name at the start
  of the text or after a semicolon and white space, then the longest non-empty value
  without a semicolon.
\<close>

definition csrf_value_at :: "string \<Rightarrow> string option" where
  "csrf_value_at s =
     (if prefix ''csrf_token='' s
      then (let v = takeWhile (\<lambda>c. c \<noteq> CHR '';'') (drop 11 s) in if v = [] then None else Some v)
      else None)"

fun csrf_scan :: "string \<Rightarrow> string option" where
  "csrf_scan [] = None"
| "csrf_scan (c # cs) =
     (if c = CHR '';'' then
        (case csrf_value_at (dropWhile js_space cs) of Some v \<Rightarrow> Some v | None \<Rightarrow> csrf_scan cs)
      else csrf_scan cs)"

definition csrf_match :: "string \<Rightarrow> string option" where
  "csrf_match s = (case csrf_value_at s of Some v \<Rightarrow> Some v | None \<Rightarrow> csrf_scan s)"

text \<open>
  The token: the content of the meta element if there is one, even an empty one, else the
  decoded cookie, else the empty string.
\<close>

definition getCSRFToken :: "string option \<Rightarrow> string \<Rightarrow> decoded" where
  "getCSRFToken meta cookies =
     (case meta of
        Some content \<Rightarrow> Decoded content
      | None \<Rightarrow> (case csrf_match cookies of Some v \<Rightarrow> decodeURIComponent v | None \<Rightarrow> Decoded []))"

section \<open>The patched fetch\<close>

text \<open>
  \<open>HeadersInstance\<close> holds the names in lower case, as a \<open>Headers\<close> object does; a plain
  object has its own properties in order; an array of pairs is an object too, but the
  property the script sets on it is not one of its elements.
\<close>

datatype headers_init =
    HeadersInstance "(string \<times> string) list"
  | PlainObject "(string \<times> string) list"
  | PairArray "(string \<times> string) list"
  | NotAnObject

record fetch_init =
  fi_method :: "string option"
  fi_headers :: "headers_init option"
  fi_body :: "string option"

definition safe_methods :: "string list" where
  "safe_methods = [''GET'', ''HEAD'', ''OPTIONS'', ''TRACE'']"

definition is_safe_method :: "string option \<Rightarrow> bool" where
  "is_safe_method m \<longleftrightarrow> toUpperCase (js_or m ''GET'') \<in> set safe_methods"

text \<open>A property of an object is truthy when it is there and not the empty string.\<close>

definition truthy_prop :: "(string \<times> string) list \<Rightarrow> string \<Rightarrow> bool" where
  "truthy_prop kvs k \<longleftrightarrow> (case map_of kvs k of Some v \<Rightarrow> v \<noteq> [] | None \<Rightarrow> False)"

text \<open>Assigning a property: in place if it is there, at the end if not.\<close>

fun set_prop :: "string \<Rightarrow> string \<Rightarrow> (string \<times> string) list \<Rightarrow> (string \<times> string) list" where
  "set_prop k v [] = [(k, v)]"
| "set_prop k v ((k', v') # kvs) = (if k' = k then (k, v) # kvs else (k', v') # set_prop k v kvs)"

text \<open>
  What happens to the headers of a request that is not safe; the token is computed only
  where the source calls \<open>getCSRFToken\<close>, and then a URIError of it escapes the call.
\<close>

fun inject_token :: "decoded \<Rightarrow> headers_init \<Rightarrow> headers_init option" where
  "inject_token tok (HeadersInstance hs) =
     (if map_of hs ''authorization'' = None \<and> map_of hs ''x-csrf-token'' = None
      then (case tok of Decoded t \<Rightarrow> Some (HeadersInstance (hs @ [(''x-csrf-token'', t)])) | _ \<Rightarrow> None)
      else Some (HeadersInstance hs))"
| "inject_token tok (PlainObject kvs) =
     (if \<not> (truthy_prop kvs ''Authorization'' \<or> truthy_prop kvs ''authorization'') \<and>
         \<not> truthy_prop kvs ''X-CSRF-Token''
      then (case tok of Decoded t \<Rightarrow> Some (PlainObject (set_prop ''X-CSRF-Token'' t kvs)) | _ \<Rightarrow> None)
      else Some (PlainObject kvs))"
| "inject_token tok (PairArray ps) =
     (case tok of Decoded t \<Rightarrow> Some (PairArray ps) | _ \<Rightarrow> None)"
| "inject_token tok NotAnObject = Some NotAnObject"

text \<open>
  \<open>window.fetch(input, init)\<close>: the init handed to the original fetch, \<open>None\<close> when the
  call throws. The input, and with it the origin of the request, is not looked at.
\<close>

definition empty_init :: fetch_init where
  "empty_init = \<lparr>fi_method = None, fi_headers = None, fi_body = None\<rparr>"

definition patched_fetch ::
    "string option \<Rightarrow> string \<Rightarrow> 'input \<Rightarrow> fetch_init option \<Rightarrow> ('input \<times> fetch_init) option" where
  "patched_fetch meta cookies input init0 =
     (let init = (case init0 of None \<Rightarrow> empty_init | Some i \<Rightarrow> i) in
      if is_safe_method (fi_method init) then Some (input, init)
      else (let headers = (case fi_headers init of None \<Rightarrow> PlainObject [] | Some h \<Rightarrow> h) in
            case inject_token (getCSRFToken meta cookies) headers of
              None \<Rightarrow> None
            | Some h \<Rightarrow> Some (input, init\<lparr>fi_headers := Some h\<rparr>)))"

section \<open>What the browser sends\<close>

text \<open>
  The headers of the request as the network sees them: names in lower case, values of equal
  names joined by a comma.
\<close>

definition sent_values :: "headers_init option \<Rightarrow> string \<Rightarrow> string list" where
  "sent_values h n =
     map snd (filter (\<lambda>(k, v). toLowerCase k = n)
       (case h of
          Some (HeadersInstance hs) \<Rightarrow> hs
        | Some (PlainObject kvs) \<Rightarrow> kvs
        | Some (PairArray ps) \<Rightarrow> ps
        | _ \<Rightarrow> []))"

definition sent_header :: "headers_init option \<Rightarrow> string \<Rightarrow> string" where
  "sent_header h n = join_with '', '' (sent_values h n)"

text \<open>The method name on the wire: fetch capitalises these six and no others.\<close>

definition wire_method :: "string option \<Rightarrow> string" where
  "wire_method m =
     (let u = toUpperCase (js_or m ''GET'') in
      if u \<in> {''DELETE'', ''GET'', ''HEAD'', ''OPTIONS'', ''POST'', ''PUT''} then u
      else js_or m ''GET'')"

declare csrf_value_at_def [eval_simps] csrf_match_def [eval_simps] getCSRFToken_def [eval_simps]
  safe_methods_def [eval_simps] is_safe_method_def [eval_simps] truthy_prop_def [eval_simps]
  empty_init_def [eval_simps] patched_fetch_def [eval_simps] sent_values_def [eval_simps]
  sent_header_def [eval_simps] wire_method_def [eval_simps]

section \<open>Reading the token from the cookies\<close>

lemma csrf_value_at_pair:
  assumes "clean_cookie c" and "r = [] \<or> (\<exists>t. r = CHR '';'' # t)"
  shows "csrf_value_at (cookie_pair c @ r)
    = (if ck_name c = ''csrf_token'' \<and> ck_value c \<noteq> [] then Some (ck_value c) else None)"
proof (cases "ck_name c = ''csrf_token''")
  case True
  then have p: "cookie_pair c @ r = ''csrf_token='' @ ck_value c @ r" by (simp add: cookie_pair_def)
  have v: "CHR '';'' \<notin> set (ck_value c)" using assms(1) by (simp add: clean_cookie_def)
  have "drop 11 (cookie_pair c @ r) = ck_value c @ r" by (simp add: p)
  moreover have "takeWhile (\<lambda>x. x \<noteq> CHR '';'') (ck_value c @ r) = ck_value c"
    using assms(2) takeWhile_append2 [of "ck_value c" "\<lambda>x. x \<noteq> CHR '';''" r] v by fastforce
  moreover have "prefix ''csrf_token='' (cookie_pair c @ r)" by (simp add: p)
  ultimately show ?thesis using True by (simp add: csrf_value_at_def Let_def)
next
  case False
  have n: "CHR ''='' \<notin> set (ck_name c)" using assms(1) by (auto simp: clean_cookie_def)
  have "\<not> prefix ''csrf_token='' (cookie_pair c @ r)"
  proof
    assume "prefix ''csrf_token='' (cookie_pair c @ r)"
    then obtain t where "cookie_pair c @ r = ''csrf_token='' @ t" by (auto elim: prefixE)
    then have "takeWhile (\<lambda>x. x \<noteq> CHR ''='') (cookie_pair c @ r)
        = takeWhile (\<lambda>x. x \<noteq> CHR ''='') (''csrf_token='' @ t)" by simp
    moreover have "takeWhile (\<lambda>x. x \<noteq> CHR ''='') (cookie_pair c @ r) = ck_name c"
      using takeWhile_append2 [of "ck_name c" "\<lambda>x. x \<noteq> CHR ''=''" "''='' @ ck_value c @ r"] n
      by (fastforce simp: cookie_pair_def)
    ultimately show False using False by simp
  qed
  then show ?thesis using False by (simp add: csrf_value_at_def)
qed

lemma csrf_scan_no_semicolon:
  "CHR '';'' \<notin> set w \<Longrightarrow> csrf_scan (w @ s) = csrf_scan s"
  by (induction w) auto

lemma clean_pair_no_space:
  assumes "clean_cookie c"
  shows "dropWhile js_space (cookie_pair c @ r) = cookie_pair c @ r"
  using assms by (cases "ck_name c") (auto simp: clean_cookie_def cookie_pair_def)

text \<open>The first script-visible cookie called \<open>csrf_token\<close> with a value.\<close>

definition csrf_cookie_of :: "cookie list \<Rightarrow> string option" where
  "csrf_cookie_of cs =
     map_option ck_value (find (\<lambda>c. ck_name c = ''csrf_token'' \<and> ck_value c \<noteq> []) cs)"

lemma csrf_scan_pairs:
  assumes "list_all clean_cookie cs"
  shows "csrf_scan (concat (map (\<lambda>c. ''; '' @ cookie_pair c) cs)) = csrf_cookie_of cs"
  using assms
proof (induction cs)
  case Nil
  then show ?case by (simp add: csrf_cookie_of_def)
next
  case (Cons c cs)
  let ?rest = "concat (map (\<lambda>c. ''; '' @ cookie_pair c) cs)"
  have clean: "clean_cookie c" using Cons.prems by simp
  have rest: "?rest = [] \<or> (\<exists>t. ?rest = CHR '';'' # t)" by (cases cs) auto
  have sp: "js_space (CHR '' '')" by (simp add: eval_simps)
  have skip: "dropWhile js_space (CHR '' '' # cookie_pair c @ ?rest) = cookie_pair c @ ?rest"
    using sp clean_pair_no_space [OF clean] by simp
  have "csrf_scan (cookie_pair c @ ?rest) = csrf_scan ?rest"
    using clean_pair_no_semicolon [OF clean] by (rule csrf_scan_no_semicolon)
  then show ?case
    using Cons skip csrf_value_at_pair [OF clean rest] by (simp add: csrf_cookie_of_def)
qed

lemma join_pairs:
  "join_with ''; '' (map cookie_pair (c # cs))
    = cookie_pair c @ concat (map (\<lambda>c. ''; '' @ cookie_pair c) cs)"
  by (induction cs arbitrary: c) auto

lemma csrf_match_document_cookie:
  assumes "list_all clean_cookie jr"
  shows "csrf_match (document_cookie jr) = csrf_cookie_of (filter (\<lambda>c. \<not> ck_http_only c) jr)"
proof -
  have clean: "list_all clean_cookie (filter (\<lambda>c. \<not> ck_http_only c) jr)"
    using assms by (auto simp: list_all_iff)
  show ?thesis
  proof (cases "filter (\<lambda>c. \<not> ck_http_only c) jr")
    case Nil
    then show ?thesis by (simp add: document_cookie_def eval_simps csrf_cookie_of_def)
  next
    case (Cons c cs)
    let ?rest = "concat (map (\<lambda>c. ''; '' @ cookie_pair c) cs)"
    have rest: "?rest = [] \<or> (\<exists>t. ?rest = CHR '';'' # t)" by (cases cs) auto
    have c: "clean_cookie c" "list_all clean_cookie cs" using clean Cons by auto
    have "csrf_scan (cookie_pair c @ ?rest) = csrf_cookie_of cs"
      using csrf_scan_no_semicolon [OF clean_pair_no_semicolon [OF c(1)]] csrf_scan_pairs [OF c(2)]
      by simp
    then show ?thesis
      using Cons join_pairs csrf_value_at_pair [OF c(1) rest]
      by (simp add: document_cookie_def csrf_match_def csrf_cookie_of_def)
  qed
qed

lemma csrf_cookie_of_distinct:
  assumes "distinct_names jr" and "jar_get jr ''csrf_token'' = Some (v, h)"
  shows "csrf_cookie_of (filter (\<lambda>c. \<not> ck_http_only c) jr)
    = (if h \<or> v = [] then None else Some v)"
  using assms
proof (induction jr)
  case (Cons c cs)
  show ?case
  proof (cases "ck_name c = ''csrf_token''")
    case True
    then have "\<forall>d \<in> set cs. ck_name d \<noteq> ''csrf_token''" using Cons.prems(1) by force
    then have "find (\<lambda>d. ck_name d = ''csrf_token'' \<and> ck_value d \<noteq> [])
        (filter (\<lambda>c. \<not> ck_http_only c) cs) = None"
      by (auto simp: find_None_iff)
    then show ?thesis
      using True Cons.prems(2) by (auto simp: csrf_cookie_of_def jar_get_def jar_lookup_def)
  next
    case False
    then have "jar_get cs ''csrf_token'' = Some (v, h)"
      using Cons.prems(2) by (simp add: jar_get_def jar_lookup_def)
    then show ?thesis using False Cons by (auto simp: csrf_cookie_of_def)
  qed
qed (simp add: jar_get_def jar_lookup_def)

section \<open>Injection\<close>

lemma toLowerCase_token [simp]: "toLowerCase ''X-CSRF-Token'' = ''x-csrf-token''"
  by (simp add: eval_simps)

lemma sent_set_prop:
  assumes "\<And>k v'. (k, v') \<in> set kvs \<Longrightarrow> toLowerCase k = ''x-csrf-token'' \<Longrightarrow> k = ''X-CSRF-Token''"
    and "distinct (map fst kvs)"
  shows "map snd (filter (\<lambda>(k, v). toLowerCase k = ''x-csrf-token'') (set_prop ''X-CSRF-Token'' t kvs)) = [t]"
  using assms
proof (induction kvs)
  case (Cons kv kvs)
  obtain k v where kv: "kv = (k, v)" by force
  show ?case
  proof (cases "k = ''X-CSRF-Token''")
    case True
    then have "\<forall>(k', v') \<in> set kvs. toLowerCase k' \<noteq> ''x-csrf-token''"
      using Cons.prems kv by force
    then have "filter (\<lambda>(k, v). toLowerCase k = ''x-csrf-token'') kvs = []"
      by (auto simp: filter_empty_conv)
    then show ?thesis using True kv by simp
  next
    case False
    then have "toLowerCase k \<noteq> ''x-csrf-token''" using Cons.prems(1) kv by auto
    then show ?thesis using False kv Cons by auto
  qed
qed simp

lemma sent_set_prop_other:
  "n \<noteq> ''x-csrf-token'' \<Longrightarrow>
     filter (\<lambda>(k, v). toLowerCase k = n) (set_prop ''X-CSRF-Token'' t kvs)
     = filter (\<lambda>(k, v). toLowerCase k = n) kvs"
  by (induction kvs) auto

end
