(* ===== verification/CookieHeader.thy ===== *)
theory CookieHeader
  imports CookieJar GoStrings
begin

text \<open>
  From the server's \<open>Set-Cookie\<close> through the browser's jar to the \<open>Cookie\<close> header and the
  server's \<open>r.Cookie\<close>: a cookie that is stored under a token name with a plain value is read
  back unchanged, whatever other cookies the jar holds.
\<close>

record set_cookie =
  sc_name :: string
  sc_value :: string
  sc_path :: string
  sc_max_age :: int
  sc_http_only :: bool
  sc_secure :: bool
  sc_same_site :: string

definition apply_set_cookie :: "set_cookie \<Rightarrow> cookie_jar \<Rightarrow> cookie_jar" where
  "apply_set_cookie sc jr = jar_set (sc_name sc) (sc_value sc, sc_http_only sc) jr"

definition good_jar :: "cookie_jar \<Rightarrow> bool" where
  "good_jar jr \<longleftrightarrow> list_all clean_cookie jr \<and> distinct_names jr"

lemma clean_jar_store: "list_all clean_cookie jr \<Longrightarrow> clean_cookie c \<Longrightarrow> list_all clean_cookie (jar_store c jr)"
  by (induction jr) auto

section \<open>Reading the header back\<close>

lemma cookie_header_split:
  assumes "list_all clean_cookie jr" and "jr \<noteq> []"
  shows "split_on (CHR '';'') (cookie_header jr)
    = cookie_pair (hd jr) # map (\<lambda>c. CHR '' '' # cookie_pair c) (tl jr)"
proof -
  obtain c cs where jr: "jr = c # cs" using assms(2) by (cases jr) auto
  let ?ws = "cookie_pair c # map (\<lambda>c. CHR '' '' # cookie_pair c) cs"
  have join: "join_with ''; '' (map cookie_pair (c # cs)) = join_with [CHR '';''] ?ws"
    by (simp only: list.map join_with_Cons) (simp add: comp_def)
  have "CHR '';'' \<notin> set w" if "w \<in> set ?ws" for w
    using that assms(1) jr clean_pair_no_semicolon by (auto simp: list_all_iff)
  then have "split_on (CHR '';'') (join_with [CHR '';''] ?ws) = ?ws" by (intro split_join) auto
  then show ?thesis using join jr by (simp add: cookie_header_def)
qed

lemma text_space_js_space: "text_space x \<Longrightarrow> js_space x"
  by (auto simp: text_space_def js_space_def)

lemma clean_name: "clean_cookie c \<Longrightarrow> strip text_space (ck_name c) = ck_name c"
  by (rule strip_none) (use text_space_js_space in \<open>auto simp: clean_cookie_def\<close>)

lemma strip_pair:
  assumes "clean_cookie c" and "set sp \<subseteq> {CHR '' ''}"
  shows "strip text_space (sp @ cookie_pair c)
    = ck_name c @ CHR ''='' # rev (dropWhile text_space (rev (ck_value c)))"
proof -
  obtain n ns where n: "ck_name c = n # ns" "\<not> text_space n"
    using assms(1) text_space_js_space by (cases "ck_name c") (auto simp: clean_cookie_def)
  have "dropWhile text_space sp = []"
    using assms(2) by (auto simp: dropWhile_eq_Nil_conv text_space_def)
  then have "dropWhile text_space (sp @ cookie_pair c) = cookie_pair c"
    using n by (simp add: cookie_pair_def dropWhile_append dropWhile_eq_Nil_conv)
  moreover have "rev (dropWhile text_space (rev (cookie_pair c)))
      = ck_name c @ CHR ''='' # rev (dropWhile text_space (rev (ck_value c)))"
    using rev_dropWhile_rev [of text_space "CHR ''=''" "ck_name c" "ck_value c"]
    by (simp add: cookie_pair_def text_space_def)
  ultimately show ?thesis by (simp only: strip_def)
qed

lemma read_pair:
  assumes "clean_cookie c" and "set sp \<subseteq> {CHR '' ''}"
  shows "read_cookie_part (sp @ cookie_pair c) =
    (let val = unquote (rev (dropWhile text_space (rev (ck_value c)))) in
     if \<not> list_all token_char (ck_name c) \<or> \<not> list_all cookie_value_byte val then None
     else Some (ck_name c, val))"
proof -
  have "CHR ''='' \<notin> set (ck_name c)" and "ck_name c \<noteq> []"
    using assms(1) by (auto simp: clean_cookie_def)
  then show ?thesis
    using strip_pair [OF assms] clean_name [OF assms(1)]
    by (simp add: read_cookie_part_def Let_def)
qed

lemma read_cookies_header:
  assumes "list_all clean_cookie jr"
  shows "read_cookies (cookie_header jr) = List.map_filter (\<lambda>c. read_cookie_part (cookie_pair c)) jr"
proof (cases "jr = []")
  case True
  then show ?thesis by (simp add: eval_simps)
next
  case False
  then obtain c cs where jr: "jr = c # cs" by (cases jr) auto
  have "read_cookie_part (CHR '' '' # cookie_pair d) = read_cookie_part (cookie_pair d)"
    if "d \<in> set cs" for d
    using that assms jr read_pair [of d "[CHR '' '']"] read_pair [of d "[]"]
    by (auto simp: list_all_iff)
  then have "List.map_filter read_cookie_part (map (\<lambda>c. CHR '' '' # cookie_pair c) cs)
      = List.map_filter (\<lambda>c. read_cookie_part (cookie_pair c)) cs"
    by (induction cs) (auto simp: List.map_filter_def)
  then show ?thesis
    using cookie_header_split [OF assms False] jr
    by (simp add: read_cookies_def List.map_filter_def split: option.splits)
qed

text \<open>A token the server can store: what \<open>hex.EncodeToString\<close> writes.\<close>

text \<open>The values that need no quoting.\<close>

definition plain_value :: "string \<Rightarrow> bool" where
  "plain_value t \<longleftrightarrow> t \<noteq> [] \<and> (\<forall>x\<in>set t. cookie_value_byte x \<and> \<not> text_space x)"

lemma plain_value_reads:
  assumes "plain_value t"
  shows "rev (dropWhile text_space (rev t)) = t" and "unquote t = t" and "list_all cookie_value_byte t"
proof -
  have chars: "\<And>x. x \<in> set t \<Longrightarrow> cookie_value_byte x \<and> \<not> text_space x \<and> x \<noteq> CHR 0x22"
    using assms by (auto simp: plain_value_def cookie_value_byte_def)
  have "t \<noteq> []" using assms by (simp add: plain_value_def)
  then have "\<not> text_space (last t)" and "hd t \<noteq> CHR 0x22" using chars by (meson last_in_set hd_in_set)+
  then show "rev (dropWhile text_space (rev t)) = t" and "unquote t = t"
    by (cases t rule: rev_cases; simp add: unquote_def)+
  show "list_all cookie_value_byte t" using chars by (simp add: list_all_iff)
qed

lemma map_of_filter_cookies:
  assumes "distinct_names jr" and "c \<in> set jr" and "f c = Some (ck_name c, v)"
    and "\<And>d w. d \<in> set jr \<Longrightarrow> f d = Some w \<Longrightarrow> fst w = ck_name d"
  shows "map_of (List.map_filter f jr) (ck_name c) = Some v"
  using assms
proof (induction jr)
  case (Cons d ds)
  show ?case
  proof (cases "d = c")
    case True
    then show ?thesis using Cons.prems by (simp add: List.map_filter_def)
  next
    case False
    then have c: "c \<in> set ds" using Cons.prems(2) by simp
    then have "ck_name c \<in> ck_name ` set ds" by (rule imageI)
    then have ne: "ck_name d \<noteq> ck_name c" using Cons.prems(1) by auto
    have "map_of (List.map_filter f ds) (ck_name c) = Some v"
      using Cons.IH [OF _ c Cons.prems(3)] Cons.prems(1,4) by auto
    then show ?thesis
      using ne Cons.prems(4) [of d] by (cases "f d") (auto simp: List.map_filter_def)
  qed
qed simp

lemma jar_get_in_set:
  "jar_get jr n = Some (v, h) \<Longrightarrow> \<exists>c \<in> set jr. ck_name c = n \<and> ck_value c = v \<and> ck_http_only c = h"
  by (auto simp: jar_get_def dest!: jar_lookup_name)

lemma request_cookie_jar:
  assumes "list_all clean_cookie jr" and "distinct_names jr"
    and "jar_get jr n = Some (t, h)" and "plain_value t" and "list_all token_char n"
  shows "request_cookie (cookie_header jr) n = Some t"
proof -
  obtain c where c: "c \<in> set jr" "ck_name c = n" "ck_value c = t"
    using jar_get_in_set [OF assms(3)] by blast
  have clean: "d \<in> set jr \<Longrightarrow> clean_cookie d" for d using assms(1) by (auto simp: list_all_iff)
  have reads: "read_cookie_part (cookie_pair c) = Some (ck_name c, t)"
    using read_pair [OF clean [OF c(1)], of "[]"] c plain_value_reads [OF assms(4)] assms(5)
    by simp
  have "fst w = ck_name d" if "d \<in> set jr" "read_cookie_part (cookie_pair d) = Some w" for d w
    using that read_pair [OF clean [OF that(1)], of "[]"] by (auto simp: Let_def split: if_splits)
  then show ?thesis
    using map_of_filter_cookies [OF assms(2) c(1), of "\<lambda>c. read_cookie_part (cookie_pair c)", OF reads]
      read_cookies_header [OF assms(1)] c(2)
    by (simp add: request_cookie_def)
qed

end
