(* ===== verification/CsrfServer.thy ===== *)
theory CsrfServer
  imports CookieHeader
begin

text \<open>
  The CSRF middleware of \<^verbatim>\<open>src/server/middleware.go\<close> (double-submit cookie) and
  the token the page templates render (\<open>csrfToken\<close> in
  \<^verbatim>\<open>src/server/handler/helpers.go\<close>). A request is what these functions read of it;
  the 32 random bytes of a new token are an argument.
\<close>

record http_request =
  rq_method :: string
  rq_path :: string
  rq_header :: "string \<Rightarrow> string"  \<comment> \<open>\<open>r.Header.Get\<close>, by the name in lower case\<close>
  rq_cookies :: string               \<comment> \<open>the Cookie header\<close>
  rq_form :: "string \<Rightarrow> string"    \<comment> \<open>\<open>r.FormValue\<close> after \<open>ParseMultipartForm\<close>\<close>
  rq_tls :: bool

datatype csrf_result =
    Next "set_cookie option"  \<comment> \<open>the next handler runs, with this Set-Cookie\<close>
  | CsrfForbidden             \<comment> \<open>403, CSRF validation failed\<close>

definition csrfCookieName :: string where
  "csrfCookieName = ''csrf_token''"

definition csrfHeaderName :: string where
  "csrfHeaderName = ''x-csrf-token''"

definition csrfFormField :: string where
  "csrfFormField = ''_csrf''"

definition ensureCSRFCookie :: "nat list \<Rightarrow> http_request \<Rightarrow> set_cookie option" where
  "ensureCSRFCookie random r =
     (case request_cookie (rq_cookies r) csrfCookieName of
        Some v \<Rightarrow> if v \<noteq> [] then None else
          Some \<lparr>sc_name = csrfCookieName, sc_value = EncodeToString random, sc_path = ''/'',
                sc_max_age = 86400, sc_http_only = False, sc_secure = rq_tls r,
                sc_same_site = ''Strict''\<rparr>
      | None \<Rightarrow>
          Some \<lparr>sc_name = csrfCookieName, sc_value = EncodeToString random, sc_path = ''/'',
                sc_max_age = 86400, sc_http_only = False, sc_secure = rq_tls r,
                sc_same_site = ''Strict''\<rparr>)"

definition CSRFMiddleware :: "string \<Rightarrow> nat list \<Rightarrow> http_request \<Rightarrow> csrf_result" where
  "CSRFMiddleware apiBasePath random r =
     (let path = rq_path r; healthzPrefix = apiBasePath @ ''/server/healthz'' in
      if HasPrefix path ''/.well-known/'' \<or> path = ''/server/healthz'' \<or> HasPrefix path healthzPrefix
        then Next None
      else if rq_method r \<in> {''GET'', ''HEAD'', ''OPTIONS'', ''TRACE''}
        then Next (ensureCSRFCookie random r)
      else if HasPrefix (rq_header r ''authorization'') ''Bearer '' then Next None
      else (case request_cookie (rq_cookies r) csrfCookieName of
              None \<Rightarrow> CsrfForbidden
            | Some cookie \<Rightarrow>
                if cookie = [] then CsrfForbidden
                else (let h = rq_header r csrfHeaderName;
                          submitted = (if h = [] then rq_form r csrfFormField else h)
                      in if submitted = [] \<or> submitted \<noteq> cookie then CsrfForbidden else Next None)))"

text \<open>The token a page renders into its meta element and its hidden form fields.\<close>

definition csrfToken :: "http_request \<Rightarrow> string" where
  "csrfToken r = (case request_cookie (rq_cookies r) csrfCookieName of Some v \<Rightarrow> v | None \<Rightarrow> [])"

declare csrfCookieName_def [eval_simps] csrfHeaderName_def [eval_simps] csrfFormField_def [eval_simps]
  ensureCSRFCookie_def [eval_simps] CSRFMiddleware_def [eval_simps] csrfToken_def [eval_simps]

abbreviation csrf_exempt :: "string \<Rightarrow> http_request \<Rightarrow> bool" where
  "csrf_exempt apiBasePath r \<equiv>
     HasPrefix (rq_path r) ''/.well-known/'' \<or> rq_path r = ''/server/healthz'' \<or>
     HasPrefix (rq_path r) (apiBasePath @ ''/server/healthz'') \<or>
     rq_method r \<in> {''GET'', ''HEAD'', ''OPTIONS'', ''TRACE''} \<or>
     HasPrefix (rq_header r ''authorization'') ''Bearer ''"

lemma CSRFMiddleware_exempt: "csrf_exempt api r \<Longrightarrow> \<exists>c. CSRFMiddleware api random r = Next c"
  by (auto simp: CSRFMiddleware_def Let_def)

lemma CSRFMiddleware_checked:
  assumes "\<not> csrf_exempt api r"
  shows "CSRFMiddleware api random r =
    (if (\<exists>t. t \<noteq> [] \<and> request_cookie (rq_cookies r) csrfCookieName = Some t \<and>
           (rq_header r csrfHeaderName = t \<or>
            rq_header r csrfHeaderName = [] \<and> rq_form r csrfFormField = t))
     then Next None else CsrfForbidden)"
  using assms by (auto simp: CSRFMiddleware_def Let_def split: option.splits)

section \<open>Properties\<close>

text \<open>
  C11 (double submit). A request that changes state (not an exempt path, not a safe method, no bearer
  token) reaches the handler exactly when it carries a non-empty \<open>csrf_token\<close> cookie and
  repeats its value in the \<open>X-CSRF-Token\<close> header or, if that header is empty, in the
  \<open>_csrf\<close> form field; every other such request is answered 403.
\<close>

theorem csrf_double_submit:
  assumes "\<not> csrf_exempt apiBasePath r"
  shows "CSRFMiddleware apiBasePath random r =
      (if \<exists>t. t \<noteq> [] \<and> request_cookie (rq_cookies r) csrfCookieName = Some t \<and>
            (rq_header r csrfHeaderName = t \<or>
             rq_header r csrfHeaderName = [] \<and> rq_form r csrfFormField = t)
       then Next None else CsrfForbidden)"
  by (rule CSRFMiddleware_checked [OF assms])

definition example_post :: http_request where
  "example_post =
     \<lparr>rq_method = ''POST'', rq_path = ''/users/tokens'', rq_header = (\<lambda>_. []),
      rq_cookies = ''user_session=s1; csrf_token=ab12'',
      rq_form = (\<lambda>k. if k = ''_csrf'' then ''ab12'' else []), rq_tls = True\<rparr>"

theorem csrf_double_submit_witness:
  "CSRFMiddleware ''/api/v1'' [] example_post = Next None \<and>
   CSRFMiddleware ''/api/v1'' [] (example_post\<lparr>rq_form := (\<lambda>_. ''ab13'')\<rparr>) = CsrfForbidden"
proof -
  have cookie: "request_cookie ''user_session=s1; csrf_token=ab12'' csrfCookieName = Some ''ab12''"
    by (simp add: eval_simps)
  have ok: "\<not> csrf_exempt ''/api/v1'' example_post"
    and ok': "\<not> csrf_exempt ''/api/v1'' (example_post\<lparr>rq_form := (\<lambda>_. ''ab13'')\<rparr>)"
    by (simp_all add: example_post_def HasPrefix_def)
  show ?thesis
    using csrf_double_submit [OF ok, of "[]"] csrf_double_submit [OF ok', of "[]"] cookie
    by (simp add: example_post_def csrfFormField_def)
qed

end
