(* ===== verification/CsrfRoundTrip.thy ===== *)
theory CsrfRoundTrip
  imports CsrfClient CsrfServer
begin

text \<open>
  The two halves of the CSRF protection together: the token the server stores in the
  cookie, the script's patched \<open>fetch\<close>, the request the browser sends, and the middleware
  that checks it. The interface \<open>double_submit\<close> states what makes a double-submit cookie
  work: after the server has issued a token, the script and the server read the same one.
\<close>

section \<open>The interface\<close>

locale double_submit =
  fixes wf :: "'s \<Rightarrow> bool"
    and good :: "'t \<Rightarrow> bool"
    and issue :: "'t \<Rightarrow> 's \<Rightarrow> 's"
    and script_reads :: "'s \<Rightarrow> 't option"
    and server_reads :: "'s \<Rightarrow> 't option"
  assumes wf_issue: "wf s \<Longrightarrow> good t \<Longrightarrow> wf (issue t s)"
    and script_issue: "wf s \<Longrightarrow> good t \<Longrightarrow> script_reads (issue t s) = Some t"
    and server_issue: "wf s \<Longrightarrow> good t \<Longrightarrow> server_reads (issue t s) = Some t"
begin

lemma agree: "wf s \<Longrightarrow> good t \<Longrightarrow> script_reads (issue t s) = server_reads (issue t s)"
  by (simp add: script_issue server_issue)

text \<open>Whatever was issued before, the last token is the one both sides read.\<close>

lemma agree_last:
  assumes "wf s" and "list_all good ts" and "good t"
  shows "script_reads (issue t (fold issue ts s)) = Some t \<and>
         server_reads (issue t (fold issue ts s)) = Some t"
proof -
  have "wf (fold issue ts s)" using assms(1,2)
    by (induction ts arbitrary: s) (simp_all add: wf_issue)
  then show ?thesis using assms(3) by (simp add: script_issue server_issue)
qed

end

section \<open>Tokens\<close>

definition good_token :: "string \<Rightarrow> bool" where
  "good_token t \<longleftrightarrow> t \<noteq> [] \<and> list_all is_slug_char t"

lemma slug_char_cookie_byte: "is_slug_char x \<Longrightarrow> cookie_value_byte x \<and> \<not> text_space x \<and> x \<noteq> CHR 0x22"
  by (auto simp: is_slug_char_def is_lower_def is_digit_def cookie_value_byte_def text_space_def)

lemma good_token_plain: "good_token t \<Longrightarrow> plain_value t"
  using slug_char_cookie_byte by (auto simp: good_token_def plain_value_def list_all_iff)

lemma token_csrf_name: "list_all token_char ''csrf_token''"
  by (simp add: eval_simps)

section \<open>The interface, on the model\<close>

definition csrf_set_cookie :: "string \<Rightarrow> bool \<Rightarrow> set_cookie" where
  "csrf_set_cookie t tls =
     \<lparr>sc_name = csrfCookieName, sc_value = t, sc_path = ''/'', sc_max_age = 86400,
      sc_http_only = False, sc_secure = tls, sc_same_site = ''Strict''\<rparr>"

lemma clean_token_cookie:
  "good_token t \<Longrightarrow> clean_cookie \<lparr>ck_name = ''csrf_token'', ck_value = t, ck_http_only = h\<rparr>"
  by (auto simp: clean_cookie_def good_token_def list_all_iff js_space_def is_slug_char_def
      is_lower_def is_digit_def)

lemma good_jar_token:
  "good_jar jr \<Longrightarrow> good_token t \<Longrightarrow> good_jar (apply_set_cookie (csrf_set_cookie t tls) jr)"
  by (simp add: good_jar_def apply_set_cookie_def csrf_set_cookie_def jar_set_def csrfCookieName_def
      clean_jar_store clean_token_cookie distinct_jar_store)

lemma jar_get_token:
  "jar_get (apply_set_cookie (csrf_set_cookie t tls) jr) ''csrf_token'' = Some (t, False)"
  by (simp add: apply_set_cookie_def csrf_set_cookie_def cookies.get_put csrfCookieName_def)

text \<open>What the script reads when the page has no meta element.\<close>

definition script_token :: "cookie_jar \<Rightarrow> string option" where
  "script_token jr = (case getCSRFToken None (document_cookie jr) of Decoded t \<Rightarrow> Some t | _ \<Rightarrow> None)"

lemma good_token_decoded: "good_token t \<Longrightarrow> decodeURIComponent t = Decoded t"
  by (rule decode_no_percent)
    (auto simp: good_token_def list_all_iff is_slug_char_def is_lower_def is_digit_def)

lemma getCSRFToken_jar:
  assumes "good_jar jr" and "jar_get jr ''csrf_token'' = Some (t, False)" and "good_token t"
  shows "getCSRFToken None (document_cookie jr) = Decoded t"
  using assms csrf_match_document_cookie [of jr] csrf_cookie_of_distinct [of jr t False]
    good_token_decoded
  by (simp add: getCSRFToken_def good_jar_def good_token_def)

interpretation csrf: double_submit good_jar good_token
  "\<lambda>t. apply_set_cookie (csrf_set_cookie t tls)" script_token
  "\<lambda>jr. request_cookie (cookie_header jr) csrfCookieName" for tls
proof unfold_locales
  fix jr t
  assume jr: "good_jar jr" and t: "good_token t"
  let ?jr = "apply_set_cookie (csrf_set_cookie t tls) jr"
  show good: "good_jar ?jr" using jr t by (rule good_jar_token)
  show "script_token ?jr = Some t"
    using getCSRFToken_jar [OF good jar_get_token t] by (simp add: script_token_def)
  show "request_cookie (cookie_header ?jr) csrfCookieName = Some t"
    using good request_cookie_jar [OF _ _ jar_get_token good_token_plain [OF t] token_csrf_name] by (simp add: good_jar_def csrfCookieName_def)
qed

section \<open>From the script to the middleware\<close>

text \<open>The request the server sees for a fetch that passes these headers.\<close>

definition browser_request :: "cookie_jar \<Rightarrow> string \<Rightarrow> fetch_init \<Rightarrow> http_request" where
  "browser_request jr path i =
     \<lparr>rq_method = wire_method (fi_method i), rq_path = path,
      rq_header = sent_header (fi_headers i), rq_cookies = cookie_header jr,
      rq_form = (\<lambda>_. []), rq_tls = True\<rparr>"

text \<open>Headers as the page's own scripts pass them: none, or a plain object without the two.\<close>

definition plain_headers :: "headers_init option \<Rightarrow> bool" where
  "plain_headers h \<longleftrightarrow> (case h of
       None \<Rightarrow> True
     | Some (PlainObject kvs) \<Rightarrow> distinct (map fst kvs) \<and>
         (\<forall>(k, v) \<in> set kvs. toLowerCase k \<noteq> ''x-csrf-token'' \<and> toLowerCase k \<noteq> ''authorization'')
     | _ \<Rightarrow> False)"

abbreviation header_list :: "headers_init option \<Rightarrow> (string \<times> string) list" where
  "header_list h \<equiv> (case h of Some (PlainObject kvs) \<Rightarrow> kvs | _ \<Rightarrow> [])"

lemma plain_no_key:
  assumes "\<forall>(k, v) \<in> set kvs. toLowerCase k \<noteq> n" and "toLowerCase k' = n"
  shows "\<not> truthy_prop kvs k'"
  using assms by (auto simp: truthy_prop_def split: option.splits dest!: map_of_SomeD)

lemma patched_fetch_plain:
  assumes "plain_headers (fi_headers i)" and "\<not> is_safe_method (fi_method i)"
    and "getCSRFToken meta cookies = Decoded t"
  shows "patched_fetch meta cookies input (Some i) =
    Some (input, i\<lparr>fi_headers := Some (PlainObject
      (set_prop ''X-CSRF-Token'' t (header_list (fi_headers i))))\<rparr>)"
proof -
  let ?kvs = "header_list (fi_headers i)"
  have h: "(case fi_headers i of None \<Rightarrow> PlainObject [] | Some h \<Rightarrow> h) = PlainObject ?kvs"
    and csrf: "\<forall>(k, v) \<in> set ?kvs. toLowerCase k \<noteq> ''x-csrf-token''"
    and auth: "\<forall>(k, v) \<in> set ?kvs. toLowerCase k \<noteq> ''authorization''"
    using assms(1) by (auto simp: plain_headers_def split: option.splits headers_init.splits)
  have low: "toLowerCase ''Authorization'' = ''authorization''" "toLowerCase ''authorization'' = ''authorization''"
    by (simp_all add: eval_simps)
  have "\<not> truthy_prop ?kvs ''Authorization''" and "\<not> truthy_prop ?kvs ''authorization''"
    and "\<not> truthy_prop ?kvs ''X-CSRF-Token''"
    using plain_no_key [OF auth] plain_no_key [OF csrf] low toLowerCase_token by blast+
  then show ?thesis using assms(2,3) h by (simp add: patched_fetch_def)
qed

lemma sent_values_plain:
  assumes "plain_headers h"
  shows "sent_values (Some (PlainObject (set_prop ''X-CSRF-Token'' t (header_list h)))) n
    = (if n = ''x-csrf-token'' then [t] else sent_values h n)"
proof -
  have "distinct (map fst (header_list h))"
    and "\<And>k v. (k, v) \<in> set (header_list h) \<Longrightarrow> toLowerCase k \<noteq> ''x-csrf-token''"
    using assms by (auto simp: plain_headers_def split: option.splits headers_init.splits)
  then show ?thesis
    using sent_set_prop [of "header_list h" t] sent_set_prop_other [of n t "header_list h"] assms
    by (auto simp: sent_values_def plain_headers_def split: option.splits headers_init.splits)
qed

lemma sent_no_auth:
  assumes "plain_headers h"
  shows "sent_header h ''authorization'' = []"
proof -
  have "filter (\<lambda>(k, v). toLowerCase k = ''authorization'') (header_list h) = []"
    using assms by (auto simp: plain_headers_def filter_empty_conv split: option.splits headers_init.splits)
  then show ?thesis
    using assms by (auto simp: sent_header_def sent_values_def plain_headers_def
        split: option.splits headers_init.splits)
qed

lemma browser_request_checked:
  assumes "request_cookie (cookie_header jr) csrfCookieName = Some t" and "t \<noteq> []"
    and "sent_header (fi_headers i) ''x-csrf-token'' = t"
  shows "\<exists>c. CSRFMiddleware api random (browser_request jr path i) = Next c"
proof (cases "csrf_exempt api (browser_request jr path i)")
  case True
  then show ?thesis by (rule CSRFMiddleware_exempt)
next
  case False
  then show ?thesis using CSRFMiddleware_checked [OF False, of random] assms
    by (auto simp: browser_request_def csrfHeaderName_def)
qed

lemma safe_on_the_wire:
  assumes "is_safe_method m" and "toUpperCase (js_or m ''GET'') \<noteq> ''TRACE''"
  shows "wire_method m \<in> {''GET'', ''HEAD'', ''OPTIONS'', ''TRACE''}"
  using assms by (auto simp: is_safe_method_def safe_methods_def wire_method_def Let_def)

section \<open>Properties\<close>

text \<open>
  On a page without a meta element, \<open>getCSRFToken\<close> returns the value of the
  cookie named exactly \<open>csrf_token\<close>, wherever it stands among the other cookies, and the
  empty string if that cookie is HttpOnly.
\<close>

theorem csrf_token_from_cookie:
  assumes "good_jar jr" and "jar_get jr ''csrf_token'' = Some (t, hidden)" and "good_token t"
  shows "getCSRFToken None (document_cookie jr) = Decoded (if hidden then [] else t)"
  using assms csrf_match_document_cookie [of jr] csrf_cookie_of_distinct [of jr t hidden]
    good_token_decoded
  by (simp add: getCSRFToken_def good_jar_def good_token_def)

definition example_jar :: cookie_jar where
  "example_jar =
     [\<lparr>ck_name = ''xcsrf_token'', ck_value = ''evil'', ck_http_only = False\<rparr>,
      \<lparr>ck_name = ''user_session'', ck_value = ''s1'', ck_http_only = True\<rparr>,
      \<lparr>ck_name = ''theme'', ck_value = ''dark'', ck_http_only = False\<rparr>,
      \<lparr>ck_name = ''csrf_token'', ck_value = ''ab12'', ck_http_only = False\<rparr>]"

lemma example_jar_good: "good_jar example_jar"
  by (simp add: good_jar_def example_jar_def clean_cookie_def js_space_def)

lemma example_token_good: "good_token ''ab12''"
  by (simp add: good_token_def eval_simps)

theorem csrf_token_from_cookie_witness:
  "getCSRFToken None (document_cookie example_jar) = Decoded ''ab12''"
  using csrf_token_from_cookie [OF example_jar_good _ example_token_good, of False]
  by (simp add: example_jar_def eval_simps)

text \<open>
  Called with any input, the replacement of \<open>fetch\<close> leaves a request with a
  safe method alone; for any other method, given headers as the pages pass them, it adds
  one \<open>X-CSRF-Token\<close> header with the token and changes no other header, method or body.
  The input is never looked at: the token is added for every origin.
\<close>

theorem patched_fetch_injects:
  assumes "plain_headers (fi_headers i)" and "getCSRFToken meta cookies = Decoded t"
  shows "\<exists>out. patched_fetch meta cookies input (Some i) = Some (input, out) \<and>
    fi_method out = fi_method i \<and> fi_body out = fi_body i \<and>
    (\<forall>n. sent_values (fi_headers out) n =
      (if \<not> is_safe_method (fi_method i) \<and> n = ''x-csrf-token'' then [t]
       else sent_values (fi_headers i) n))"
proof (cases "is_safe_method (fi_method i)")
  case True
  then show ?thesis by (simp add: patched_fetch_def)
next
  case False
  then show ?thesis
    using patched_fetch_plain [OF assms(1) False assms(2), of input] sent_values_plain [OF assms(1)]
    by simp
qed

definition example_init :: fetch_init where
  "example_init =
     \<lparr>fi_method = Some ''POST'',
      fi_headers = Some (PlainObject [(''Content-Type'', ''application/json'')]), fi_body = None\<rparr>"

lemma example_init_plain: "plain_headers (fi_headers example_init)"
  by (simp add: example_init_def plain_headers_def toLowerCase_def js_lower_def eval_simps)

theorem patched_fetch_injects_witness:
  "\<exists>out. patched_fetch None (document_cookie example_jar) ''https://elsewhere.example/x'' (Some example_init)
      = Some (''https://elsewhere.example/x'', out) \<and> sent_values (fi_headers out) ''x-csrf-token'' = [''ab12'']"
proof -
  have t: "getCSRFToken None (document_cookie example_jar) = Decoded ''ab12''"
    using getCSRFToken_jar [OF example_jar_good _ example_token_good]
    by (simp add: example_jar_def eval_simps)
  have "\<not> is_safe_method (fi_method example_init)" by (simp add: example_init_def js_or_def eval_simps)
  then show ?thesis
    using patched_fetch_injects [OF example_init_plain t, of "''https://elsewhere.example/x''"] by force
qed


definition example_get :: http_request where
  "example_get =
     \<lparr>rq_method = ''GET'', rq_path = ''/users/dashboard'', rq_header = (\<lambda>_. []),
      rq_cookies = ''user_session=s1'', rq_form = (\<lambda>_. []), rq_tls = True\<rparr>"

lemma example_get_issues:
  "CSRFMiddleware ''/api/v1'' [171, 18] example_get = Next (Some (csrf_set_cookie ''ab12'' True))"
  by (simp add: example_get_def csrf_set_cookie_def EncodeToString_def hex_nibble_def eval_simps)

lemma session_jar_good: "good_jar [\<lparr>ck_name = ''user_session'', ck_value = ''s1'', ck_http_only = True\<rparr>]"
  by (simp add: good_jar_def clean_cookie_def js_space_def)

lemma example_init_not_trace: "toUpperCase (js_or (fi_method example_init) ''GET'') \<noteq> ''TRACE''"
  by (simp add: example_init_def js_or_def eval_simps)


text \<open>
  C28 (the first page cannot post). A page rendered for a request without the CSRF cookie carries an empty meta token,
  which \<open>getCSRFToken\<close> prefers to the cookie the same response sets: until a reload, every
  state-changing fetch of that page to a path that is not exempt is answered 403.
\<close>

theorem csrf_first_page_rejected:
  assumes jr: "good_jar jr" and fresh: "random \<noteq> []"
    and issued: "CSRFMiddleware api random page_request = Next (Some sc)"
    and plain: "plain_headers (fi_headers i)"
    and unsafe: "\<not> is_safe_method (fi_method i)"
    and path: "\<not> csrf_exempt api (browser_request (apply_set_cookie sc jr) path i)"
  shows "\<exists>out. patched_fetch (Some (csrfToken page_request))
      (document_cookie (apply_set_cookie sc jr)) input (Some i) = Some (input, out) \<and>
    CSRFMiddleware api random' (browser_request (apply_set_cookie sc jr) path out) = CsrfForbidden"
proof -
  have "request_cookie (rq_cookies page_request) csrfCookieName \<in> {None, Some []}"
    using issued by (auto simp: CSRFMiddleware_def Let_def ensureCSRFCookie_def
        split: if_splits option.splits)
  then have "csrfToken page_request = []" by (auto simp: csrfToken_def)
  then have token: "getCSRFToken (Some (csrfToken page_request)) (document_cookie (apply_set_cookie sc jr)) = Decoded []"
    by (simp add: getCSRFToken_def)
  let ?out = "i\<lparr>fi_headers := Some (PlainObject (set_prop ''X-CSRF-Token'' [] (header_list (fi_headers i))))\<rparr>"
  let ?r = "browser_request (apply_set_cookie sc jr) path ?out"
  have headers: "sent_header (fi_headers ?out) n
      = (if n = ''x-csrf-token'' then [] else sent_header (fi_headers i) n)" for n
    using sent_values_plain [OF plain, of "[]" n] by (simp add: sent_header_def)
  have exempt: "\<not> csrf_exempt api ?r"
    using path headers [of "''authorization''"] by (simp add: browser_request_def)
  have "rq_header ?r csrfHeaderName = []" and "rq_form ?r csrfFormField = []"
    using headers [of "''x-csrf-token''"] by (simp_all add: browser_request_def csrfHeaderName_def)
  then have "CSRFMiddleware api random' ?r = CsrfForbidden"
    using CSRFMiddleware_checked [OF exempt, of random'] by auto
  then show ?thesis using patched_fetch_plain [OF plain unsafe token, of input] by blast
qed

theorem csrf_first_page_rejected_witness:
  "\<exists>out. patched_fetch (Some (csrfToken example_get))
      (document_cookie (apply_set_cookie (csrf_set_cookie ''ab12'' True)
        [\<lparr>ck_name = ''user_session'', ck_value = ''s1'', ck_http_only = True\<rparr>]))
      ''/users/passkeys/begin-register'' (Some example_init) = Some (''/users/passkeys/begin-register'', out) \<and>
    CSRFMiddleware ''/api/v1'' [] (browser_request (apply_set_cookie (csrf_set_cookie ''ab12'' True)
        [\<lparr>ck_name = ''user_session'', ck_value = ''s1'', ck_http_only = True\<rparr>])
        ''/users/passkeys/begin-register'' out) = CsrfForbidden"
proof (rule csrf_first_page_rejected [OF session_jar_good _ example_get_issues example_init_plain])
  show "\<not> is_safe_method (fi_method example_init)" by (simp add: example_init_def js_or_def eval_simps)
  show "\<not> csrf_exempt ''/api/v1'' (browser_request (apply_set_cookie (csrf_set_cookie ''ab12'' True)
        [\<lparr>ck_name = ''user_session'', ck_value = ''s1'', ck_http_only = True\<rparr>])
        ''/users/passkeys/begin-register'' example_init)"
    by (simp add: browser_request_def example_init_def HasPrefix_def js_or_def eval_simps)
qed simp

end
