(* ===== verification/EventLoop.thy ===== *)
theory EventLoop
  imports Prelude
begin

text \<open>
  The timers of the page: \<open>setTimeout\<close> puts an action on a queue ordered by due time
  (actions due at the same time keep the order they were set in), and letting time pass runs
  every action that falls due, at its due time, before anything later happens. An action may
  set further timers. The interface \<open>timer_client\<close> is what makes that stop: every action
  has a weight that pays for the timers it sets.
\<close>

section \<open>The queue\<close>

record ('w, 'a) event_loop =
  now :: nat
  timers :: "(nat \<times> 'a) list"
  world :: 'w

fun insert_timer :: "nat \<Rightarrow> 'a \<Rightarrow> (nat \<times> 'a) list \<Rightarrow> (nat \<times> 'a) list" where
  "insert_timer d a [] = [(d, a)]"
| "insert_timer d a ((e, b) # q) =
     (if e \<le> d then (e, b) # insert_timer d a q else (d, a) # (e, b) # q)"

definition setTimeout :: "'a \<Rightarrow> nat \<Rightarrow> ('w, 'a) event_loop \<Rightarrow> ('w, 'a) event_loop" where
  "setTimeout a delay l = l\<lparr>timers := insert_timer (now l + delay) a (timers l)\<rparr>"

definition change_world :: "('w \<Rightarrow> 'w) \<Rightarrow> ('w, 'a) event_loop \<Rightarrow> ('w, 'a) event_loop" where
  "change_world f l = l\<lparr>world := f (world l)\<rparr>"

text \<open>
  The delay argument of \<open>setTimeout\<close> is converted to a signed 32-bit integer, NaN to 0, and
  a negative delay counts as 0.
\<close>

definition timeout_delay :: "int option \<Rightarrow> nat" where
  "timeout_delay d =
     (case d of None \<Rightarrow> 0
      | Some n \<Rightarrow> nat ((n + 2147483648) mod 4294967296 - 2147483648))"

lemma timeout_delay_small: "0 \<le> n \<Longrightarrow> n < 2147483648 \<Longrightarrow> timeout_delay (Some n) = nat n"
  by (simp add: timeout_delay_def)

lemma timeout_delay_NaN [simp]: "timeout_delay None = 0"
  by (simp add: timeout_delay_def)

section \<open>Letting time pass\<close>

fun run_until ::
    "('a \<Rightarrow> ('w, 'a) event_loop \<Rightarrow> ('w, 'a) event_loop) \<Rightarrow> nat \<Rightarrow> nat \<Rightarrow>
     ('w, 'a) event_loop \<Rightarrow> ('w, 'a) event_loop option" where
  "run_until exec 0 t l = None"
| "run_until exec (Suc fuel) t l =
     (case timers l of
        [] \<Rightarrow> Some (l\<lparr>now := max (now l) t\<rparr>)
      | (d, a) # q \<Rightarrow>
          if d \<le> t then run_until exec fuel t (exec a (l\<lparr>now := max (now l) d, timers := q\<rparr>))
          else Some (l\<lparr>now := max (now l) t\<rparr>))"

definition queue_weight :: "('a \<Rightarrow> nat) \<Rightarrow> (nat \<times> 'a) list \<Rightarrow> nat" where
  "queue_weight w q = sum_list (map (w \<circ> snd) q)"

text \<open>
  \<open>wait exec w t l\<close> lets the time pass until \<open>t\<close>, with fuel for every action the queue's
  weight can pay for (\<open>timer_client.wait_returns\<close>: always enough).
\<close>

definition wait ::
    "('a \<Rightarrow> ('w, 'a) event_loop \<Rightarrow> ('w, 'a) event_loop) \<Rightarrow> ('a \<Rightarrow> nat) \<Rightarrow> nat \<Rightarrow>
     ('w, 'a) event_loop \<Rightarrow> ('w, 'a) event_loop option" where
  "wait exec w t l = run_until exec (Suc (queue_weight w (timers l))) t l"

lemma queue_weight_simps [simp]:
  "queue_weight w [] = 0" "queue_weight w ((d, a) # q) = w a + queue_weight w q"
  by (simp_all add: queue_weight_def)

lemma queue_weight_insert [simp]: "queue_weight w (insert_timer d a q) = w a + queue_weight w q"
  by (induction d a q rule: insert_timer.induct) auto

lemma setTimeout_simps [simp]:
  "timers (setTimeout a delay l) = insert_timer (now l + delay) a (timers l)"
  "now (setTimeout a delay l) = now l" "world (setTimeout a delay l) = world l"
  by (simp_all add: setTimeout_def)

lemma change_world_simps [simp]:
  "timers (change_world f l) = timers l" "now (change_world f l) = now l"
  "world (change_world f l) = f (world l)"
  by (simp_all add: change_world_def)

text \<open>The queue stays in the order of its due times.\<close>

definition ordered :: "('w, 'a) event_loop \<Rightarrow> bool" where
  "ordered l \<longleftrightarrow> sorted (map fst (timers l))"

lemma set_insert_timer [simp]: "set (insert_timer d a q) = insert (d, a) (set q)"
  by (induction d a q rule: insert_timer.induct) auto

lemma insert_timer_not_Nil [simp]: "insert_timer d a q \<noteq> []"
  by (cases "(d, a, q)" rule: insert_timer.cases) auto

lemma sorted_insert_timer:
  "sorted (map fst q) \<Longrightarrow> sorted (map fst (insert_timer d a q))"
  by (induction d a q rule: insert_timer.induct) auto

lemma ordered_setTimeout [intro]: "ordered l \<Longrightarrow> ordered (setTimeout a delay l)"
  by (simp add: ordered_def setTimeout_def sorted_insert_timer)

lemma ordered_change_world [simp]: "ordered (change_world f l) = ordered l"
  by (simp add: ordered_def change_world_def)

lemma ordered_later: "ordered l \<Longrightarrow> timers l = [] \<or> t < fst (hd (timers l)) \<Longrightarrow> (d, a) \<in> set (timers l) \<Longrightarrow> t < d"
  by (cases "timers l") (auto simp: ordered_def)

text \<open>The timers of one object among many.\<close>

definition timers_of :: "('a \<Rightarrow> bool) \<Rightarrow> (nat \<times> 'a) list \<Rightarrow> (nat \<times> 'a) list" where
  "timers_of mine q = [da \<leftarrow> q. mine (snd da)]"

lemma timers_of_simps [simp]:
  "timers_of mine [] = []"
  "timers_of mine ((d, a) # q) = (if mine a then (d, a) # timers_of mine q else timers_of mine q)"
  by (simp_all add: timers_of_def)

lemma timers_of_insert_other [simp]: "\<not> mine a \<Longrightarrow> timers_of mine (insert_timer d a q) = timers_of mine q"
  by (induction d a q rule: insert_timer.induct) auto

lemma timers_of_insert_first [simp]:
  "timers_of mine q = [] \<Longrightarrow> mine a \<Longrightarrow> timers_of mine (insert_timer d a q) = [(d, a)]"
  by (induction d a q rule: insert_timer.induct) (auto split: if_splits)

lemma in_timers_of: "da \<in> set (timers_of mine q) \<Longrightarrow> da \<in> set q"
  by (simp add: timers_of_def)

lemma run_until_mono:
  "run_until exec n t l = Some l' \<Longrightarrow> n \<le> m \<Longrightarrow> run_until exec m t l = Some l'"
proof (induction n arbitrary: m l)
  case (Suc fuel)
  then obtain k where m: "m = Suc k" "fuel \<le> k" by (cases m) auto
  show ?case
  proof (cases "timers l")
    case Nil
    then show ?thesis using Suc.prems(1) m by simp
  next
    case (Cons da q)
    obtain d a where "da = (d, a)" by force
    then show ?thesis using Suc.prems(1) Suc.IH [OF _ m(2)] Cons m(1) by (simp split: if_splits)
  qed
qed simp

locale timer_client =
  fixes exec :: "'a \<Rightarrow> ('w, 'a) event_loop \<Rightarrow> ('w, 'a) event_loop"
    and w :: "'a \<Rightarrow> nat"
  assumes pays: "queue_weight w (timers (exec a l)) < w a + queue_weight w (timers l)"
    and keeps_time: "now (exec a l) = now l"
begin

lemma run_until_returns:
  "queue_weight w (timers l) < fuel \<Longrightarrow> \<exists>l'. run_until exec fuel t l = Some l'"
proof (induction fuel arbitrary: l)
  case (Suc fuel)
  show ?case
  proof (cases "timers l")
    case (Cons da q)
    obtain d a where da: "da = (d, a)" by force
    let ?l = "exec a (l\<lparr>now := max (now l) d, timers := q\<rparr>)"
    have "queue_weight w (timers ?l) < fuel"
      using pays [of a "l\<lparr>now := max (now l) d, timers := q\<rparr>"] Suc.prems Cons da by simp
    then show ?thesis using Suc.IH Cons da by simp
  qed simp
qed simp

lemma wait_returns: "\<exists>l'. wait exec w t l = Some l'"
  using run_until_returns [of l "Suc (queue_weight w (timers l))" t] by (simp add: wait_def)

lemma wait_unfold:
  "wait exec w t l =
     (case timers l of
        [] \<Rightarrow> Some (l\<lparr>now := max (now l) t\<rparr>)
      | (d, a) # q \<Rightarrow>
          if d \<le> t then wait exec w t (exec a (l\<lparr>now := max (now l) d, timers := q\<rparr>))
          else Some (l\<lparr>now := max (now l) t\<rparr>))"
proof (cases "timers l")
  case (Cons da q)
  obtain d a where da: "da = (d, a)" by force
  let ?l = "exec a (l\<lparr>now := max (now l) d, timers := q\<rparr>)"
  obtain l' where l': "wait exec w t ?l = Some l'" using wait_returns by blast
  have "Suc (queue_weight w (timers ?l)) \<le> queue_weight w (timers l)"
    using pays [of a "l\<lparr>now := max (now l) d, timers := q\<rparr>"] Cons da by simp
  then have "run_until exec (queue_weight w (timers l)) t ?l = Some l'"
    using l' run_until_mono unfolding wait_def by blast
  then show ?thesis using l' Cons da by (simp add: wait_def)
qed (simp add: wait_def)

lemma wait_idle:
  "timers l = [] \<Longrightarrow> wait exec w t l = Some (l\<lparr>now := max (now l) t\<rparr>)"
  by (simp add: wait_unfold)

lemma wait_early:
  "timers l = (d, a) # q \<Longrightarrow> t < d \<Longrightarrow> wait exec w t l = Some (l\<lparr>now := max (now l) t\<rparr>)"
  by (simp add: wait_unfold)

lemma wait_fires:
  "timers l = (d, a) # q \<Longrightarrow> d \<le> t \<Longrightarrow>
     wait exec w t l = wait exec w t (exec a (l\<lparr>now := max (now l) d, timers := q\<rparr>))"
  by (subst wait_unfold) simp

text \<open>What every action keeps, waiting keeps.\<close>

lemma wait_invariant:
  assumes "wait exec w t l = Some l'" and "P l"
    and step: "\<And>l d a q. P l \<Longrightarrow> timers l = (d, a) # q \<Longrightarrow>
      P (exec a (l\<lparr>now := max (now l) d, timers := q\<rparr>))"
    and stop: "\<And>l. P l \<Longrightarrow> P (l\<lparr>now := max (now l) t\<rparr>)"
  shows "P l'"
proof -
  have run: "run_until exec fuel t l = Some l' \<Longrightarrow> P l \<Longrightarrow> P l'" for fuel l
  proof (induction fuel arbitrary: l)
    case (Suc fuel)
    then show ?case using step stop by (auto split: list.splits if_splits prod.splits)
  qed simp
  show ?thesis using run assms(1,2) unfolding wait_def by blast
qed

lemma wait_now:
  assumes "wait exec w t l = Some l'"
  shows "now l' = max (now l) t"
proof -
  have "run_until exec fuel t l = Some l' \<Longrightarrow> now l' = max (now l) t" for fuel l
  proof (induction fuel arbitrary: l)
    case (Suc fuel)
    then show ?case using keeps_time by (auto split: list.splits if_splits prod.splits)
  qed simp
  then show ?thesis using assms unfolding wait_def by blast
qed

text \<open>After waiting until \<open>t\<close>, no timer that is due by \<open>t\<close> is left at the head of the queue.\<close>

lemma wait_done:
  assumes "wait exec w t l = Some l'"
  shows "timers l' = [] \<or> t < fst (hd (timers l'))"
proof -
  have "run_until exec fuel t l = Some l' \<Longrightarrow> timers l' = [] \<or> t < fst (hd (timers l'))" for fuel l
    by (induction fuel arbitrary: l) (auto split: list.splits if_splits prod.splits)
  then show ?thesis using assms unfolding wait_def by blast
qed

end

text \<open>The contract of actions that set no timer: a weight of one pays for each.\<close>

definition one_shot_weight :: "'a \<Rightarrow> nat" where
  "one_shot_weight a = 1"

locale one_shot_client =
  fixes exec :: "'a \<Rightarrow> ('w, 'a) event_loop \<Rightarrow> ('w, 'a) event_loop"
  assumes sets_no_timer: "timers (exec a l) = timers l"
    and time_stands: "now (exec a l) = now l"

sublocale one_shot_client \<subseteq> timer_client exec one_shot_weight
  by unfold_locales (simp_all add: sets_no_timer time_stands one_shot_weight_def)

end
