(* ===== verification/CopyButtons.thy ===== *)
theory CopyButtons
  imports EventLoop JSStrings
begin

text \<open>
  The copy-to-clipboard buttons of \<^verbatim>\<open>src/server/tmpl/static/js/app.js\<close>: one button
  with its click handler, the clipboard, and the timer that puts the button's text back
  after 1500 ms. Whether the browser has \<open>navigator.clipboard\<close> and whether copying
  succeeds is the environment; a failed copy is swallowed, as the source does.
\<close>

section \<open>State and handler\<close>

record copy_env =
  data_copy :: "string option"
  data_copy_text :: "string option"
  element_text :: "string \<Rightarrow> string option"  \<comment> \<open>\<open>getElementById(id).textContent\<close>\<close>
  has_clipboard :: bool
  write_ok :: bool                              \<comment> \<open>\<open>writeText\<close> resolves\<close>
  exec_ok :: bool                               \<comment> \<open>\<open>execCommand('copy')\<close> copies\<close>

record copy_world =
  btn_text :: string
  clipboard :: "string option"

datatype copy_action = RestoreText string

definition copied_label :: string where
  "copied_label = ''Copied!''"

definition copy_source :: "copy_env \<Rightarrow> string" where
  "copy_source env =
     (case data_copy env of
        Some target \<Rightarrow>
          if target \<noteq> [] then (case element_text env target of Some t \<Rightarrow> t | None \<Rightarrow> target)
          else js_or (data_copy_text env) []
      | None \<Rightarrow> js_or (data_copy_text env) [])"

definition copy_to_clipboard :: "copy_env \<Rightarrow> copy_world \<Rightarrow> copy_world" where
  "copy_to_clipboard env w =
     (let text = copy_source env in
      if \<not> has_clipboard env
      then (if exec_ok env then w\<lparr>clipboard := Some text\<rparr> else w)
      else (if write_ok env then w\<lparr>clipboard := Some text\<rparr> else w))"

fun copy_exec :: "copy_action \<Rightarrow> (copy_world, copy_action) event_loop \<Rightarrow> (copy_world, copy_action) event_loop" where
  "copy_exec (RestoreText orig) l = change_world (\<lambda>w. w\<lparr>btn_text := orig\<rparr>) l"

definition copy_click :: "copy_env \<Rightarrow> (copy_world, copy_action) event_loop \<Rightarrow> (copy_world, copy_action) event_loop" where
  "copy_click env l =
     (let orig = btn_text (world l);
          l1 = change_world (\<lambda>w. (copy_to_clipboard env w)\<lparr>btn_text := copied_label\<rparr>) l
      in setTimeout (RestoreText orig) 1500 l1)"

interpretation copy: one_shot_client copy_exec
proof unfold_locales
  fix a :: copy_action and l :: "(copy_world, copy_action) event_loop"
  show "timers (copy_exec a l) = timers l" and "now (copy_exec a l) = now l" by (cases a; simp)+
qed

definition copy_wait :: "nat \<Rightarrow> (copy_world, copy_action) event_loop \<Rightarrow> (copy_world, copy_action) event_loop" where
  "copy_wait t l = the (wait copy_exec one_shot_weight t l)"

text \<open>A visit: clicks at the given times.\<close>

fun copy_session :: "copy_env \<Rightarrow> nat list \<Rightarrow> (copy_world, copy_action) event_loop \<Rightarrow> (copy_world, copy_action) event_loop" where
  "copy_session env [] l = l"
| "copy_session env (t # ts) l = copy_session env ts (copy_click env (copy_wait t l))"

section \<open>One click at a time\<close>

lemma copy_wait_idle: "timers l = [] \<Longrightarrow> copy_wait t l = l\<lparr>now := max (now l) t\<rparr>"
  by (simp add: copy_wait_def copy.wait_idle)

lemma copy_wait_early:
  "timers l = (d, a) # q \<Longrightarrow> t < d \<Longrightarrow> copy_wait t l = l\<lparr>now := max (now l) t\<rparr>"
  by (simp add: copy_wait_def copy.wait_early)

lemma copy_wait_fires:
  "timers l = (d, a) # q \<Longrightarrow> d \<le> t \<Longrightarrow>
     copy_wait t l = copy_wait t (copy_exec a (l\<lparr>now := max (now l) d, timers := q\<rparr>))"
  by (simp add: copy_wait_def copy.wait_fires)

text \<open>A button at rest, and a button clicked at \<open>t\<close>, whose text was \<open>x\<close>.\<close>

definition copy_rest :: "string \<Rightarrow> (copy_world, copy_action) event_loop \<Rightarrow> bool" where
  "copy_rest x l \<longleftrightarrow> timers l = [] \<and> btn_text (world l) = x"

definition copy_pressed :: "string \<Rightarrow> nat \<Rightarrow> (copy_world, copy_action) event_loop \<Rightarrow> bool" where
  "copy_pressed x t l \<longleftrightarrow> now l = t \<and> timers l = [(t + 1500, RestoreText x)] \<and>
     btn_text (world l) = copied_label"

lemma copy_wait_rest:
  "copy_rest x l \<Longrightarrow> copy_rest x (copy_wait t l) \<and> now (copy_wait t l) = max (now l) t \<and>
     clipboard (world (copy_wait t l)) = clipboard (world l)"
  by (simp add: copy_rest_def copy_wait_idle)

lemma copy_click_rest: "copy_rest x l \<Longrightarrow> copy_pressed x (now l) (copy_click env l)"
  by (simp add: copy_rest_def copy_pressed_def copy_click_def setTimeout_def change_world_def Let_def)

lemma copy_wait_pressed:
  assumes "copy_pressed x t l" and "t \<le> t'"
  shows "now (copy_wait t' l) = t' \<and> clipboard (world (copy_wait t' l)) = clipboard (world l) \<and>
    (if t' < t + 1500 then timers (copy_wait t' l) = timers l \<and> btn_text (world (copy_wait t' l)) = copied_label
     else copy_rest x (copy_wait t' l))"
proof (cases "t' < t + 1500")
  case True
  then show ?thesis using assms by (simp add: copy_pressed_def copy_wait_early)
next
  case False
  then show ?thesis using assms copy_wait_fires [of l "t + 1500" "RestoreText x" "[]" t']
    by (simp add: copy_pressed_def copy_wait_idle copy_rest_def change_world_def)
qed

lemma copy_click_clipboard:
  "clipboard (world (copy_click env l))
    = (if (if has_clipboard env then write_ok env else exec_ok env) then Some (copy_source env)
       else clipboard (world l))"
  by (simp add: copy_click_def setTimeout_def change_world_def copy_to_clipboard_def Let_def)

abbreviation spaced :: "nat list \<Rightarrow> bool" where
  "spaced ts \<equiv> successively (\<lambda>a b. a + 1500 \<le> b) ts"

lemma copy_session_pressed:
  assumes "copy_rest x l" and "ts \<noteq> []" and "now l \<le> hd ts" and "spaced ts"
  shows "copy_pressed x (last ts) (copy_session env ts l) \<and>
    clipboard (world (copy_session env ts l))
    = (if (if has_clipboard env then write_ok env else exec_ok env) then Some (copy_source env)
       else clipboard (world l))"
  using assms
proof (induction ts arbitrary: l)
  case (Cons t ts)
  let ?l = "copy_wait t l"
  have rest: "copy_rest x ?l" "now ?l = t" "clipboard (world ?l) = clipboard (world l)"
    using copy_wait_rest [OF Cons.prems(1), of t] Cons.prems(3) by auto
  have pressed: "copy_pressed x t (copy_click env ?l)" using copy_click_rest [OF rest(1)] rest(2) by simp
  show ?case
  proof (cases ts)
    case Nil
    then show ?thesis using pressed copy_click_clipboard [of env ?l] rest(3) by simp
  next
    case tail: (Cons t2 ts2)
    then have gap: "t + 1500 \<le> t2" "spaced ts" using Cons.prems(4) by auto
    let ?m = "copy_click env ?l"
    \<comment> \<open>the next click finds the button at rest\<close>
    have m: "copy_rest x (copy_wait t2 ?m)" "now (copy_wait t2 ?m) = t2"
      "clipboard (world (copy_wait t2 ?m)) = clipboard (world ?m)"
      using copy_wait_pressed [OF pressed, of t2] gap(1) by auto
    have again: "copy_wait t2 (copy_wait t2 ?m) = copy_wait t2 ?m"
      using m(1,2) by (simp add: copy_rest_def copy_wait_idle)
    then have "copy_session env ts ?m = copy_session env ts (copy_wait t2 ?m)" using tail by simp
    then show ?thesis
      using Cons.IH [OF m(1)] tail gap(2) m(2,3) copy_click_clipboard [of env ?l] rest(3) by auto
  qed
qed simp

section \<open>Properties\<close>

text \<open>
  C25 (a copy button recovers). If the clicks on a copy button are at least 1500 ms apart, the button reads Copied! for
  1500 ms after the last click and its own text again from then on, and the clipboard holds
  the text the button names whenever copying works.
\<close>

theorem copy_button_restores:
  assumes "copy_rest x l" and "ts \<noteq> []" and "now l \<le> hd ts" and "spaced ts" and "last ts \<le> t"
  shows "btn_text (world (copy_wait t (copy_session env ts l)))
      = (if t < last ts + 1500 then copied_label else x) \<and>
    clipboard (world (copy_wait t (copy_session env ts l)))
      = (if (if has_clipboard env then write_ok env else exec_ok env) then Some (copy_source env)
         else clipboard (world l))"
  using copy_session_pressed [OF assms(1-4), of env] copy_wait_pressed [of x "last ts" _ t] assms(5)
  by (auto simp: copy_rest_def split: if_splits)

definition example_button :: "(copy_world, copy_action) event_loop" where
  "example_button = \<lparr>now = 0, timers = [], world = \<lparr>btn_text = ''Copy'', clipboard = None\<rparr>\<rparr>"

definition example_copy_env :: copy_env where
  "example_copy_env =
     \<lparr>data_copy = None, data_copy_text = Some ''/abc123'', element_text = (\<lambda>_. None),
      has_clipboard = True, write_ok = True, exec_ok = False\<rparr>"

lemma example_button_rest: "copy_rest ''Copy'' example_button"
  by (simp add: copy_rest_def example_button_def)

theorem copy_button_restores_witness:
  "btn_text (world (copy_wait 9000 (copy_session example_copy_env [100, 2000] example_button))) = ''Copy'' \<and>
   clipboard (world (copy_wait 9000 (copy_session example_copy_env [100, 2000] example_button))) = Some ''/abc123''"
  using copy_button_restores [OF example_button_rest, of "[100, 2000]" 9000 example_copy_env]
  by (simp add: example_button_def example_copy_env_def copy_source_def)

text \<open>
  C26 (two quick clicks spoil the button). A second click less than 1500 ms after the first saves the text Copied! as the
  button's own, so that the button reads Copied! for ever after.
\<close>

theorem copy_button_stuck:
  assumes "copy_rest x l" and "now l \<le> t1" and "t1 \<le> t2" and "t2 < t1 + 1500" and "t2 + 1500 \<le> t"
  shows "copy_rest copied_label (copy_wait t (copy_session env [t1, t2] l))"
proof -
  let ?l1 = "copy_click env (copy_wait t1 l)"
  have p1: "copy_pressed x t1 ?l1"
    using copy_wait_rest [OF assms(1), of t1] copy_click_rest [of x "copy_wait t1 l" env] assms(2) by simp
  let ?l2 = "copy_click env (copy_wait t2 ?l1)"
  have "now (copy_wait t2 ?l1) = t2" "timers (copy_wait t2 ?l1) = [(t1 + 1500, RestoreText x)]"
    "btn_text (world (copy_wait t2 ?l1)) = copied_label"
    using copy_wait_pressed [OF p1 assms(3)] assms(4) p1 by (auto simp: copy_pressed_def)
  then have l2: "now ?l2 = t2"
    "timers ?l2 = [(t1 + 1500, RestoreText x), (t2 + 1500, RestoreText copied_label)]"
    using assms(3) by (simp_all add: copy_click_def setTimeout_def change_world_def Let_def)
  let ?l3 = "copy_exec (RestoreText x) (?l2\<lparr>now := t1 + 1500, timers := [(t2 + 1500, RestoreText copied_label)]\<rparr>)"
  have "copy_wait t ?l2 = copy_wait t ?l3"
    using copy_wait_fires [OF l2(2), of t] l2(1) assms(3-5) by simp
  also have "copy_wait t ?l3 = copy_wait t (copy_exec (RestoreText copied_label) (?l3\<lparr>now := t2 + 1500, timers := []\<rparr>))"
    using copy_wait_fires [of ?l3 "t2 + 1500" "RestoreText copied_label" "[]" t] assms(3,5)
    by (simp add: change_world_def)
  finally show ?thesis by (simp add: copy_wait_idle copy_rest_def change_world_def)
qed

theorem copy_button_stuck_witness:
  "copy_rest ''Copied!'' (copy_wait 60000 (copy_session example_copy_env [100, 400] example_button))"
  using copy_button_stuck [OF example_button_rest, of 100 400 60000 example_copy_env]
  by (simp add: example_button_def copied_label_def)

end
