(* ===== verification/ConfirmDialog.thy ===== *)
theory ConfirmDialog
  imports JSStrings
begin

text \<open>
  The confirm-before-submit forms of \<^verbatim>\<open>src/server/tmpl/static/js/app.js\<close>: the shared
  dialog, \<open>askConfirm\<close> with its closures and the submit handler of the forms that carry
  \<^verbatim>\<open>data-confirm\<close>. A closure \<open>onClose\<close> is represented by the index of its form.
  An open modal dialog makes the rest of the page inert, and the \<open>close\<close> event is queued
  with the user's own events, so that it is delivered before anything else the user does.
  \<open>sent\<close> lists the forms that were submitted to the server, in order.
\<close>

section \<open>State\<close>

record confirm_form =
  data_confirm :: string
  data_confirmed :: bool

record confirm_page =
  forms :: "confirm_form list"
  dialog_built :: bool
  dialog_open :: bool
  dialog_message :: string
  returnValue :: string
  close_listeners :: "nat list"
  sent :: "nat list"

record engine =
  has_showModal :: bool
  has_requestSubmit :: bool

abbreviation set_confirmed :: "nat \<Rightarrow> bool \<Rightarrow> confirm_page \<Rightarrow> confirm_page" where
  "set_confirmed f b p \<equiv> p\<lparr>forms := (forms p)[f := (forms p ! f)\<lparr>data_confirmed := b\<rparr>]\<rparr>"

abbreviation send_form :: "nat \<Rightarrow> confirm_page \<Rightarrow> confirm_page" where
  "send_form f p \<equiv> p\<lparr>sent := sent p @ [f]\<rparr>"

section \<open>The handlers\<close>

definition confirm_rank :: "(engine \<times> nat \<times> confirm_page) + (engine \<times> nat \<times> confirm_page) + (engine \<times> nat \<times> confirm_page) \<Rightarrow> nat" where
  "confirm_rank call =
     (case call of
        Inl _ \<Rightarrow> 1
      | Inr (Inl (eng, f, p)) \<Rightarrow> if f < length (forms p) \<and> \<not> data_confirmed (forms p ! f) then 3 else 0
      | Inr (Inr _) \<Rightarrow> 2)"

text \<open>
  \<open>onConfirm\<close>, the submit handler and \<open>askConfirm\<close> call one another: a confirmation marks the
  form and requests a submit, whose event runs the handler again. The recursion ends since
  the handler only asks for a form that is not marked.
\<close>

function onConfirm :: "engine \<Rightarrow> nat \<Rightarrow> confirm_page \<Rightarrow> confirm_page"
  and submit_event :: "engine \<Rightarrow> nat \<Rightarrow> confirm_page \<Rightarrow> confirm_page"
  and askConfirm :: "engine \<Rightarrow> nat \<Rightarrow> confirm_page \<Rightarrow> confirm_page" where
  "onConfirm eng f p =
     (if has_requestSubmit eng then submit_event eng f (set_confirmed f True p)
      else send_form f (set_confirmed f True p))"
| "submit_event eng f p =
     (if f < length (forms p)
      then if data_confirmed (forms p ! f) then send_form f (set_confirmed f False p)
           else askConfirm eng f p
      else p)"
| "askConfirm eng f p =
     (if \<not> has_showModal eng then onConfirm eng f (p\<lparr>dialog_built := True\<rparr>)
      else p\<lparr>dialog_built := True,
             dialog_message := js_or (Some (data_confirm (forms p ! f))) ''Are you sure?'',
             close_listeners := close_listeners p @ [f],
             returnValue := ''cancel'',
             dialog_open := True\<rparr>)"
  by pat_completeness auto

termination
  by (relation "measure confirm_rank") (auto simp: confirm_rank_def)

declare onConfirm.simps [simp del] submit_event.simps [simp del] askConfirm.simps [simp del]

definition onClose :: "engine \<Rightarrow> nat \<Rightarrow> confirm_page \<Rightarrow> confirm_page" where
  "onClose eng f p =
     (let p1 = p\<lparr>close_listeners := remove1 f (close_listeners p)\<rparr>
      in if returnValue p1 = ''confirm'' then onConfirm eng f p1 else p1)"

text \<open>Closing the dialog with a value runs the listeners of the \<open>close\<close> event.\<close>

definition close_dialog :: "engine \<Rightarrow> string \<Rightarrow> confirm_page \<Rightarrow> confirm_page" where
  "close_dialog eng v p =
     fold (onClose eng) (close_listeners p) (p\<lparr>dialog_open := False, returnValue := v\<rparr>)"

datatype confirm_event = UserSubmit nat | PressCancel | PressConfirm | Escape

fun confirm_step :: "engine \<Rightarrow> confirm_page \<Rightarrow> confirm_event \<Rightarrow> confirm_page" where
  "confirm_step eng p (UserSubmit f) = (if dialog_open p then p else submit_event eng f p)"
| "confirm_step eng p PressCancel = (if dialog_open p then close_dialog eng ''cancel'' p else p)"
| "confirm_step eng p PressConfirm = (if dialog_open p then close_dialog eng ''confirm'' p else p)"
| "confirm_step eng p Escape = (if dialog_open p then close_dialog eng (returnValue p) p else p)"

definition confirm_run :: "engine \<Rightarrow> confirm_page \<Rightarrow> confirm_event list \<Rightarrow> confirm_page" where
  "confirm_run eng p es = foldl (confirm_step eng) p es"

lemma confirm_run_simps [simp]:
  "confirm_run eng p [] = p"
  "confirm_run eng p (e # es) = confirm_run eng (confirm_step eng p e) es"
  by (simp_all add: confirm_run_def)

section \<open>What the handlers promise\<close>

text \<open>
  The specification: at most one form is waiting for an answer; it is sent when the user
  confirms and forgotten when the user does anything else with the dialog.
\<close>

fun confirm_spec :: "nat \<Rightarrow> nat option \<Rightarrow> confirm_event \<Rightarrow> nat option \<times> nat list" where
  "confirm_spec n None (UserSubmit f) = (if f < n then Some f else None, [])"
| "confirm_spec n None _ = (None, [])"
| "confirm_spec n (Some f) (UserSubmit _) = (Some f, [])"
| "confirm_spec n (Some f) PressConfirm = (None, [f])"
| "confirm_spec n (Some f) _ = (None, [])"

fun confirm_spec_run :: "nat \<Rightarrow> nat option \<Rightarrow> confirm_event list \<Rightarrow> nat list" where
  "confirm_spec_run n w [] = []"
| "confirm_spec_run n w (e # es) = snd (confirm_spec n w e) @ confirm_spec_run n (fst (confirm_spec n w e)) es"

definition waiting :: "confirm_page \<Rightarrow> nat option" where
  "waiting p = (if dialog_open p then Some (hd (close_listeners p)) else None)"

definition confirm_inv :: "confirm_page \<Rightarrow> bool" where
  "confirm_inv p \<longleftrightarrow>
     (\<forall>x\<in>set (forms p). \<not> data_confirmed x) \<and>
     (if dialog_open p
      then returnValue p = ''cancel'' \<and>
        (\<exists>f. close_listeners p = [f] \<and> f < length (forms p) \<and>
          dialog_message p = js_or (Some (data_confirm (forms p ! f))) ''Are you sure?'')
      else close_listeners p = [])"

abbreviation modern :: engine where
  "modern \<equiv> \<lparr>has_showModal = True, has_requestSubmit = True\<rparr>"

lemma unmark_marked:
  assumes "\<forall>x\<in>set fs. \<not> data_confirmed x" and "f < length fs"
  shows "fs[f := (fs ! f)\<lparr>data_confirmed := False\<rparr>] = fs"
proof -
  have "\<not> data_confirmed (fs ! f)" using assms by simp
  then have "(fs ! f)\<lparr>data_confirmed := False\<rparr> = fs ! f" by (cases "fs ! f") simp
  then show ?thesis by simp
qed

text \<open>A confirmation sends its form and leaves no mark behind.\<close>

lemma onConfirm_modern:
  assumes "\<forall>x\<in>set (forms p). \<not> data_confirmed x" and "f < length (forms p)"
    and "has_requestSubmit eng"
  shows "onConfirm eng f p = send_form f p"
  using assms unmark_marked [OF assms(1,2)]
  by (simp add: onConfirm.simps [of eng] submit_event.simps [of eng])

text \<open>One step of the handlers is one step of the specification.\<close>

lemma confirm_step_spec:
  assumes "confirm_inv p"
  shows "confirm_inv (confirm_step modern p e) \<and> forms (confirm_step modern p e) = forms p \<and>
    waiting (confirm_step modern p e) = fst (confirm_spec (length (forms p)) (waiting p) e) \<and>
    sent (confirm_step modern p e) = sent p @ snd (confirm_spec (length (forms p)) (waiting p) e)"
proof (cases "dialog_open p")
  case True
  then obtain f where f: "close_listeners p = [f]" "f < length (forms p)" "returnValue p = ''cancel''"
    and unmarked: "\<forall>x\<in>set (forms p). \<not> data_confirmed x"
    using assms by (auto simp: confirm_inv_def)
  have w: "waiting p = Some f" using True f(1) by (simp add: waiting_def)
  show ?thesis
  proof (cases e)
    case (UserSubmit g)
    then show ?thesis using True w assms by simp
  next
    case PressCancel
    then show ?thesis using True w f unmarked
      by (simp add: close_dialog_def onClose_def confirm_inv_def waiting_def)
  next
    case PressConfirm
    then show ?thesis using True w f unmarked
      by (simp add: close_dialog_def onClose_def onConfirm_modern confirm_inv_def waiting_def)
  next
    case Escape
    then show ?thesis using True w f unmarked
      by (simp add: close_dialog_def onClose_def confirm_inv_def waiting_def)
  qed
next
  case False
  then have w: "waiting p = None" "close_listeners p = []" and unmarked: "\<forall>x\<in>set (forms p). \<not> data_confirmed x"
    using assms by (auto simp: waiting_def confirm_inv_def)
  show ?thesis
  proof (cases e)
    case (UserSubmit g)
    then show ?thesis using False w unmarked assms
      by (simp add: submit_event.simps [of modern] askConfirm.simps [of modern] confirm_inv_def waiting_def)
  qed (use False w assms in simp_all)
qed

lemma confirm_run_spec:
  "confirm_inv p \<Longrightarrow>
     confirm_inv (confirm_run modern p es) \<and>
     sent (confirm_run modern p es) = sent p @ confirm_spec_run (length (forms p)) (waiting p) es"
proof (induction es arbitrary: p)
  case (Cons e es)
  then show ?case using Cons.IH [of "confirm_step modern p e"] confirm_step_spec [OF Cons.prems, of e] by simp
qed simp

definition fresh_page :: "string list \<Rightarrow> confirm_page" where
  "fresh_page ms =
     \<lparr>forms = map (\<lambda>m. \<lparr>data_confirm = m, data_confirmed = False\<rparr>) ms, dialog_built = False,
      dialog_open = False, dialog_message = [], returnValue = [], close_listeners = [], sent = []\<rparr>"

lemma fresh_page_inv: "confirm_inv (fresh_page ms)"
  by (auto simp: confirm_inv_def fresh_page_def)

lemma fresh_page_simps [simp]:
  "length (forms (fresh_page ms)) = length ms" "waiting (fresh_page ms) = None"
  "sent (fresh_page ms) = []" "\<not> dialog_open (fresh_page ms)" "close_listeners (fresh_page ms) = []"
  by (simp_all add: fresh_page_def waiting_def)

section \<open>Properties\<close>


text \<open>
  In every state the page can reach, an open dialog shows the question of the
  one form that is waiting, with the default wording when it has none, no form is left
  marked as confirmed, and pressing Confirm sends that form.
\<close>

theorem confirm_asks_for_the_waiting_form:
  assumes "p = confirm_run modern (fresh_page ms) es" and "dialog_open p"
  shows "\<exists>f. close_listeners p = [f] \<and> f < length (forms p) \<and>
    dialog_message p = js_or (Some (data_confirm (forms p ! f))) ''Are you sure?'' \<and>
    (\<forall>x\<in>set (forms p). \<not> data_confirmed x) \<and>
    sent (confirm_step modern p PressConfirm) = sent p @ [f] \<and>
    sent (confirm_step modern p Escape) = sent p"
proof -
  have inv: "confirm_inv p" using confirm_run_spec [OF fresh_page_inv] assms(1) by simp
  then obtain f where f: "close_listeners p = [f]" "f < length (forms p)"
    "dialog_message p = js_or (Some (data_confirm (forms p ! f))) ''Are you sure?''"
    using assms(2) by (auto simp: confirm_inv_def)
  have w: "waiting p = Some f" using assms(2) f(1) by (simp add: waiting_def)
  show ?thesis
    using f w inv confirm_step_spec [OF inv, of PressConfirm] confirm_step_spec [OF inv, of Escape]
    by (auto simp: confirm_inv_def)
qed

theorem confirm_asks_for_the_waiting_form_witness:
  "dialog_open (confirm_run modern (fresh_page [''Delete?'', ''Revoke?'']) [UserSubmit 0, Escape, UserSubmit 1]) \<and>
   (\<exists>f. close_listeners (confirm_run modern (fresh_page [''Delete?'', ''Revoke?'']) [UserSubmit 0, Escape, UserSubmit 1]) = [f])"
proof -
  have "dialog_open (confirm_run modern (fresh_page [''Delete?'', ''Revoke?'']) [UserSubmit 0, Escape, UserSubmit 1])"
    by (simp add: fresh_page_def submit_event.simps askConfirm.simps close_dialog_def onClose_def)
  then show ?thesis using confirm_asks_for_the_waiting_form [OF refl] by blast
qed

text \<open>
  C29 (without \<open>requestSubmit\<close> the question is asked once). In an engine that has the dialog and lacks
  \<open>requestSubmit\<close>, a confirmed form is sent by \<open>submit()\<close>, which runs no handler: the mark
  stays, and the next submit of that form on the page is sent without a question.
\<close>

theorem confirm_mark_left_behind:
  assumes "f < length ms"
  shows "sent (confirm_run \<lparr>has_showModal = True, has_requestSubmit = False\<rparr> (fresh_page ms)
    [UserSubmit f, PressConfirm, UserSubmit f]) = [f, f]"
proof -
  let ?old = "\<lparr>has_showModal = True, has_requestSubmit = False\<rparr>"
  have "\<not> data_confirmed (forms (fresh_page ms) ! f)" using assms by (simp add: fresh_page_def)
  then show ?thesis using assms
    by (simp add: submit_event.simps [of ?old] askConfirm.simps [of ?old] onConfirm.simps [of ?old]
        close_dialog_def onClose_def Let_def)
qed

theorem confirm_mark_left_behind_witness:
  "sent (confirm_run \<lparr>has_showModal = True, has_requestSubmit = False\<rparr> (fresh_page [''Delete?''])
    [UserSubmit 0, PressConfirm, UserSubmit 0]) = [0, 0]"
  using confirm_mark_left_behind [of 0 "[''Delete?'']"] by simp

end
