(* ===== verification/FlashDismiss.thy ===== *)
theory FlashDismiss
  imports EventLoop JSStrings
begin

text \<open>
  The flash messages that dismiss themselves (the \<^verbatim>\<open>data-autohide\<close> part of
  \<^verbatim>\<open>src/server/tmpl/static/js/app.js\<close>): when the page is ready, every such message gets
  a timer, whose callback fades it out and sets a second timer that removes it.
\<close>

section \<open>State and handlers\<close>

record flash_alert =
  autohide :: string      \<comment> \<open>the attribute's value\<close>
  faded :: bool           \<comment> \<open>\<open>style.opacity = '0'\<close>\<close>
  attached :: bool        \<comment> \<open>still in the document\<close>

datatype flash_action = FadeOut nat | Remove nat

type_synonym flash_loop = "(flash_alert list, flash_action) event_loop"

definition flash_delay :: "string \<Rightarrow> nat" where
  "flash_delay attr = timeout_delay (parse_int10 (js_or (Some attr) ''4000''))"

fun flash_exec :: "flash_action \<Rightarrow> flash_loop \<Rightarrow> flash_loop" where
  "flash_exec (FadeOut i) l =
     setTimeout (Remove i) 400 (change_world (\<lambda>es. es[i := (es ! i)\<lparr>faded := True\<rparr>]) l)"
| "flash_exec (Remove i) l = change_world (\<lambda>es. es[i := (es ! i)\<lparr>attached := False\<rparr>]) l"

definition flash_wire :: "flash_loop \<Rightarrow> flash_loop" where
  "flash_wire l =
     fold (\<lambda>i. setTimeout (FadeOut i) (flash_delay (autohide (world l ! i)))) [0..<length (world l)] l"

fun flash_weight :: "flash_action \<Rightarrow> nat" where
  "flash_weight (FadeOut _) = 2"
| "flash_weight (Remove _) = 1"

interpretation flash: timer_client flash_exec flash_weight
proof unfold_locales
  fix a :: flash_action and l :: flash_loop
  show "queue_weight flash_weight (timers (flash_exec a l)) < flash_weight a + queue_weight flash_weight (timers l)"
    by (cases a) simp_all
  show "now (flash_exec a l) = now l" by (cases a) simp_all
qed

definition flash_wait :: "nat \<Rightarrow> flash_loop \<Rightarrow> flash_loop" where
  "flash_wait t l = the (wait flash_exec flash_weight t l)"

section \<open>The life of one message\<close>

fun flash_target :: "flash_action \<Rightarrow> nat" where
  "flash_target (FadeOut i) = i"
| "flash_target (Remove i) = i"

abbreviation flash_queue :: "nat \<Rightarrow> flash_loop \<Rightarrow> (nat \<times> flash_action) list" where
  "flash_queue i l \<equiv> timers_of (\<lambda>a. flash_target a = i) (timers l)"

text \<open>
  Message \<open>i\<close>, due to fade at \<open>t\<close>, is shown, fading or gone, and its one timer is the one
  that takes it to the next of these.
\<close>

definition flash_stage :: "nat \<Rightarrow> nat \<Rightarrow> flash_loop \<Rightarrow> bool" where
  "flash_stage i t l \<longleftrightarrow> i < length (world l) \<and>
     (\<not> faded (world l ! i) \<and> attached (world l ! i) \<and> flash_queue i l = [(t, FadeOut i)] \<or>
      faded (world l ! i) \<and> attached (world l ! i) \<and> flash_queue i l = [(t + 400, Remove i)] \<and> t \<le> now l \<or>
      faded (world l ! i) \<and> \<not> attached (world l ! i) \<and> flash_queue i l = [] \<and> t + 400 \<le> now l)"

text \<open>A timer that fires at its due time moves its message to the next stage, and no other.\<close>

lemma flash_stage_step:
  assumes stage: "flash_stage i t l" and head: "timers l = (d, a) # q" and time: "now l \<le> d"
  shows "flash_stage i t (flash_exec a (l\<lparr>now := max (now l) d, timers := q\<rparr>))"
proof (cases "flash_target a = i")
  case False
  then have "flash_queue i (l\<lparr>timers := q\<rparr>) = flash_queue i l" using head by simp
  then show ?thesis using stage False time
    by (cases a) (auto simp: flash_stage_def setTimeout_def change_world_def)
next
  case True
  then show ?thesis using stage head time
    by (cases a) (auto simp: flash_stage_def setTimeout_def change_world_def)
qed

lemma flash_stage_stop: "flash_stage i t l \<Longrightarrow> flash_stage i t (l\<lparr>now := max (now l) t'\<rparr>)"
  by (auto simp: flash_stage_def)

definition none_overdue :: "flash_loop \<Rightarrow> bool" where
  "none_overdue l \<longleftrightarrow> ordered l \<and> (\<forall>da\<in>set (timers l). now l \<le> fst da)"

lemma none_overdue_step:
  assumes "none_overdue l" and "timers l = (d, a) # q"
  shows "none_overdue (flash_exec a (l\<lparr>now := max (now l) d, timers := q\<rparr>))"
proof -
  have "ordered (l\<lparr>now := max (now l) d, timers := q\<rparr>)" "now l \<le> d" "\<forall>da\<in>set q. d \<le> fst da"
    using assms by (auto simp: none_overdue_def ordered_def)
  then show ?thesis unfolding none_overdue_def
    by (cases a) (auto intro!: ordered_setTimeout simp: setTimeout_def change_world_def ordered_def sorted_insert_timer)
qed

text \<open>Waiting is done when the clock is at \<open>t\<close> and every timer left is due later.\<close>

lemma flash_wait_stage:
  assumes "flash_stage i t l" and "none_overdue l" and "now l \<le> t'"
  shows "flash_stage i t (flash_wait t' l)"
    and "now (flash_wait t' l) = t'"
    and "\<And>d a. (d, a) \<in> set (timers (flash_wait t' l)) \<Longrightarrow> t' < d"
proof -
  obtain l' where l': "wait flash_exec flash_weight t' l = Some l'" using flash.wait_returns by blast
  have is_l': "flash_wait t' l = l'" using l' by (simp add: flash_wait_def)
  have run: "run_until flash_exec fuel t' l = Some l' \<Longrightarrow> flash_stage i t l \<Longrightarrow> none_overdue l \<Longrightarrow>
      flash_stage i t l' \<and> ordered l'" for fuel l
  proof (induction fuel arbitrary: l)
    case (Suc fuel)
    show ?case
    proof (cases "timers l \<noteq> [] \<and> fst (hd (timers l)) \<le> t'")
      case True
      then obtain d a q where head: "timers l = (d, a) # q" "d \<le> t'" by (cases "timers l") auto
      have le: "now l \<le> d" using Suc.prems(3) head(1) by (auto simp: none_overdue_def)
      show ?thesis
        using Suc.IH [OF _ flash_stage_step [OF Suc.prems(2) head(1) le] none_overdue_step [OF Suc.prems(3) head(1)]]
          Suc.prems(1) head by simp
    next
      case False
      then have "l' = l\<lparr>now := max (now l) t'\<rparr>" using Suc.prems(1) by (auto split: list.splits)
      then show ?thesis using Suc.prems flash_stage_stop [of i t l t'] by (simp add: none_overdue_def ordered_def)
    qed
  qed simp
  have all: "flash_stage i t l' \<and> ordered l'"
    using run [OF _ assms(1,2)] l' unfolding wait_def by blast
  then show "flash_stage i t (flash_wait t' l)" by (simp add: is_l')
  show "now (flash_wait t' l) = t'" using flash.wait_now [OF l'] assms(3) by (simp add: is_l')
  show "t' < d" if "(d, a) \<in> set (timers (flash_wait t' l))" for d a
    using ordered_later [OF _ flash.wait_done [OF l']] all that by (auto simp: is_l')
qed

text \<open>Wiring puts every message at the first stage.\<close>

lemma flash_wire_fold:
  "world (fold (\<lambda>i. setTimeout (FadeOut i) (g i)) is l) = world l"
  "now (fold (\<lambda>i. setTimeout (FadeOut i) (g i)) is l) = now l"
  by (induction "is" arbitrary: l) (simp_all add: setTimeout_def)

lemma flash_wire_overdue:
  "none_overdue l \<Longrightarrow> none_overdue (fold (\<lambda>i. setTimeout (FadeOut i) (g i)) is l)"
  by (induction "is" arbitrary: l) (auto simp: none_overdue_def ordered_setTimeout setTimeout_def ordered_def sorted_insert_timer)

lemma flash_wire_queue:
  "distinct is \<Longrightarrow> i \<in> set is \<Longrightarrow> flash_queue i l = [] \<Longrightarrow>
     flash_queue i (fold (\<lambda>i. setTimeout (FadeOut i) (g i)) is l) = [(now l + g i, FadeOut i)]"
proof (induction "is" arbitrary: l)
  case (Cons j js)
  show ?case
  proof (cases "j = i")
    case True
    have stay: "i \<notin> set ks \<Longrightarrow> flash_queue i (fold (\<lambda>i. setTimeout (FadeOut i) (g i)) ks m) = flash_queue i m" for ks m
      by (induction ks arbitrary: m) (auto simp: setTimeout_def)
    show ?thesis using Cons.prems True stay [of js] by simp
  next
    case False
    then show ?thesis using Cons.prems Cons.IH [of "setTimeout (FadeOut j) (g j) l"] by auto
  qed
qed simp

lemma flash_wire_stage:
  assumes "timers l = []" and "i < length (world l)"
    and "\<not> faded (world l ! i)" and "attached (world l ! i)"
  shows "flash_stage i (now l + flash_delay (autohide (world l ! i))) (flash_wire l)"
    and "none_overdue (flash_wire l)" and "now (flash_wire l) = now l"
proof -
  have empty: "flash_queue i l = []" using assms(1) by simp
  show "flash_stage i (now l + flash_delay (autohide (world l ! i))) (flash_wire l)"
    using assms flash_wire_queue [OF _ _ empty, of "[0..<length (world l)]" "\<lambda>i. flash_delay (autohide (world l ! i))"]
    by (simp add: flash_stage_def flash_wire_def flash_wire_fold)
  show "none_overdue (flash_wire l)" unfolding flash_wire_def
    by (rule flash_wire_overdue) (simp add: none_overdue_def ordered_def assms(1))
  show "now (flash_wire l) = now l" by (simp add: flash_wire_def flash_wire_fold)
qed

section \<open>Properties\<close>

text \<open>
  C20 (the timetable of the flash messages). Whatever other messages the page shows, a message whose \<open>data-autohide\<close> asks
  for \<open>d\<close> ms (4000 when it is empty, 0 when it is no number) is shown until \<open>d\<close> ms after the
  page is ready, fades then, and is in the document until 400 ms later and never after.
\<close>

theorem flash_timetable:
  assumes "timers l = []" and "i < length (world l)"
    and "\<not> faded (world l ! i)" and "attached (world l ! i)"
  shows "faded (world (flash_wait (now l + t) (flash_wire l)) ! i) = (flash_delay (autohide (world l ! i)) \<le> t) \<and>
    attached (world (flash_wait (now l + t) (flash_wire l)) ! i) = (t < flash_delay (autohide (world l ! i)) + 400)"
proof -
  let ?d = "now l + flash_delay (autohide (world l ! i))" and ?l = "flash_wait (now l + t) (flash_wire l)"
  note wire = flash_wire_stage [OF assms]
  note wait = flash_wait_stage [OF wire(1,2), of "now l + t", unfolded wire(3), OF le_add1]
  have later: "da \<in> set (flash_queue i ?l) \<Longrightarrow> now l + t < fst da" for da
    using wait(3) [of "fst da" "snd da"] in_timers_of by fastforce
  show ?thesis using wait(1,2) later by (auto simp: flash_stage_def)
qed

definition example_flash :: flash_loop where
  "example_flash = \<lparr>now = 10, timers = [],
     world = [\<lparr>autohide = ''x'', faded = False, attached = True\<rparr>,
              \<lparr>autohide = '''', faded = False, attached = True\<rparr>]\<rparr>"

lemma flash_delay_default: "flash_delay [] = 4000"
  by (simp add: flash_delay_def timeout_delay_def eval_simps)

theorem flash_timetable_witness:
  "faded (world (flash_wait 4010 (flash_wire example_flash)) ! 1) \<and>
   \<not> faded (world (flash_wait 4009 (flash_wire example_flash)) ! 1) \<and>
   \<not> attached (world (flash_wait 4410 (flash_wire example_flash)) ! 1)"
  using flash_timetable [of example_flash 1 4000] flash_timetable [of example_flash 1 3999]
    flash_timetable [of example_flash 1 4400]
  by (simp add: example_flash_def flash_delay_default)

end
