(* ===== verification/PwaInstall.thy ===== *)
theory PwaInstall
  imports Prelude
begin

text \<open>
  The install button of \<^verbatim>\<open>src/server/tmpl/static/js/app.js\<close>. Every
  \<open>beforeinstallprompt\<close> event of the browser is kept in \<open>deferredInstallPrompt\<close> and adds a
  click handler to the button; a click runs every handler that was added. An event is
  represented by its number. Calls of \<open>prompt()\<close> are logged, and the callbacks on
  \<open>userChoice\<close> run when the user has answered that event.
\<close>

record pwa_page =
  has_button :: bool
  deferredInstallPrompt :: "nat option"
  button_shown :: bool
  click_handlers :: nat
  prompts :: "nat list"
  choice_callbacks :: "nat list"      \<comment> \<open>the events whose \<open>userChoice\<close> has a callback\<close>
  type_errors :: nat

datatype pwa_event = BeforeInstallPrompt nat | ClickInstall | UserChoice nat

text \<open>One click handler: \<open>prompt()\<close> on null throws, and no callback is set.\<close>

definition install_handler :: "pwa_page \<Rightarrow> pwa_page" where
  "install_handler p =
     (case deferredInstallPrompt p of
        None \<Rightarrow> p\<lparr>type_errors := type_errors p + 1\<rparr>
      | Some e \<Rightarrow> p\<lparr>prompts := prompts p @ [e], choice_callbacks := choice_callbacks p @ [e]\<rparr>)"

fun pwa_step :: "pwa_page \<Rightarrow> pwa_event \<Rightarrow> pwa_page" where
  "pwa_step p (BeforeInstallPrompt e) =
     (let p1 = p\<lparr>deferredInstallPrompt := Some e\<rparr>
      in if has_button p1
         then p1\<lparr>button_shown := True, click_handlers := click_handlers p1 + 1\<rparr> else p1)"
| "pwa_step p ClickInstall = (install_handler ^^ click_handlers p) p"
| "pwa_step p (UserChoice e) =
     (if e \<in> set (choice_callbacks p)
      then p\<lparr>deferredInstallPrompt := None, button_shown := False,
             choice_callbacks := removeAll e (choice_callbacks p)\<rparr>
      else p)"

definition pwa_run :: "pwa_page \<Rightarrow> pwa_event list \<Rightarrow> pwa_page" where
  "pwa_run p es = foldl pwa_step p es"

definition pwa_start :: pwa_page where
  "pwa_start =
     \<lparr>has_button = True, deferredInstallPrompt = None, button_shown = False, click_handlers = 0,
      prompts = [], choice_callbacks = [], type_errors = 0\<rparr>"

definition is_offer :: "pwa_event \<Rightarrow> bool" where
  "is_offer ev = (case ev of BeforeInstallPrompt _ \<Rightarrow> True | _ \<Rightarrow> False)"

lemma pwa_run_simps [simp]:
  "pwa_run p [] = p" "pwa_run p (es @ [e]) = pwa_step (pwa_run p es) e"
  by (simp_all add: pwa_run_def)

lemma install_handlers:
  "deferredInstallPrompt p = Some e \<Longrightarrow>
     (install_handler ^^ n) p = p\<lparr>prompts := prompts p @ replicate n e,
       choice_callbacks := choice_callbacks p @ replicate n e\<rparr>"
proof (induction n)
  case (Suc n)
  have "(install_handler ^^ Suc n) p = install_handler ((install_handler ^^ n) p)" by simp
  also have "\<dots> = p\<lparr>prompts := prompts p @ replicate (Suc n) e,
      choice_callbacks := choice_callbacks p @ replicate (Suc n) e\<rparr>"
    unfolding Suc.IH [OF Suc.prems] by (simp add: install_handler_def Suc.prems replicate_append_same)
  finally show ?case .
qed simp

lemma install_handlers_null:
  "deferredInstallPrompt p = None \<Longrightarrow> (install_handler ^^ n) p = p\<lparr>type_errors := type_errors p + n\<rparr>"
proof (induction n)
  case (Suc n)
  have "(install_handler ^^ Suc n) p = install_handler ((install_handler ^^ n) p)" by simp
  also have "\<dots> = p\<lparr>type_errors := type_errors p + Suc n\<rparr>"
    unfolding Suc.IH [OF Suc.prems] by (simp add: install_handler_def Suc.prems)
  finally show ?case .
qed simp

lemma install_handlers_keep:
  "has_button ((install_handler ^^ n) p) = has_button p"
  "click_handlers ((install_handler ^^ n) p) = click_handlers p"
  "button_shown ((install_handler ^^ n) p) = button_shown p"
  "deferredInstallPrompt ((install_handler ^^ n) p) = deferredInstallPrompt p"
  by (cases "deferredInstallPrompt p"; simp add: install_handlers install_handlers_null)+

lemma pwa_run_facts:
  "has_button (pwa_run pwa_start es) \<and>
   click_handlers (pwa_run pwa_start es) = length (filter is_offer es) \<and>
   (button_shown (pwa_run pwa_start es) \<longleftrightarrow> deferredInstallPrompt (pwa_run pwa_start es) \<noteq> None)"
proof (induction es rule: rev_induct)
  case (snoc e es)
  then show ?case by (cases e) (auto simp: is_offer_def install_handlers_keep Let_def)
qed (simp add: pwa_start_def)

text \<open>
  C27 (one click, as many prompts as offers). Whatever has happened before, the button is shown exactly while an offer is held,
  and a click calls \<open>prompt()\<close> on that offer once for every offer the browser has ever made on
  the page: exactly once when this is the first.
\<close>

theorem install_click:
  "let p = pwa_run pwa_start es; n = length (filter is_offer es)
   in button_shown p = (deferredInstallPrompt p \<noteq> None) \<and>
      (case deferredInstallPrompt p of
         Some e \<Rightarrow> prompts (pwa_step p ClickInstall) = prompts p @ replicate n e \<and>
           type_errors (pwa_step p ClickInstall) = type_errors p
       | None \<Rightarrow> prompts (pwa_step p ClickInstall) = prompts p \<and>
           type_errors (pwa_step p ClickInstall) = type_errors p + n)"
  using pwa_run_facts [of es]
  by (auto simp: Let_def install_handlers install_handlers_null split: option.splits)

text \<open>
  When the user answers an offer that a click has prompted, the button is hidden and
  no offer is held, until the browser makes another.
\<close>

theorem install_answered:
  assumes "deferredInstallPrompt p = Some e" and "click_handlers p \<noteq> 0"
  shows "let q = pwa_step (pwa_step p ClickInstall) (UserChoice e)
    in \<not> button_shown q \<and> deferredInstallPrompt q = None \<and>
       e \<in> set (prompts q) \<and> e \<notin> set (choice_callbacks q)"
  using assms by (simp add: Let_def install_handlers)

theorem install_answered_witness:
  "\<not> button_shown (pwa_step (pwa_step (pwa_step pwa_start (BeforeInstallPrompt 7)) ClickInstall) (UserChoice 7))"
  using install_answered [of "pwa_step pwa_start (BeforeInstallPrompt 7)" 7]
  by (simp add: Let_def pwa_start_def)

end
