(* ===== verification/Validate.thy ===== *)
theory Validate
  imports GoStrings
begin

text \<open>
  The name rules of \<^verbatim>\<open>src/server/validate\<close>: organisation slugs (slug.go), user names, the
  reserved names both share, and e-mail addresses (username.go). The regular expressions are
  written out as predicates; an error is a value of the type that names its message.
\<close>

section \<open>Reserved names\<close>

definition UsernameBlocklist :: "string list" where
  "UsernameBlocklist = [
    ''admin'', ''administrator'', ''root'', ''system'', ''sysadmin'', ''superuser'', ''master'',
    ''owner'', ''operator'', ''manager'', ''moderator'', ''mod'', ''staff'', ''support'',
    ''helpdesk'', ''help'', ''service'', ''daemon'', ''server'', ''host'', ''node'', ''cluster'',
    ''api'', ''www'', ''web'', ''mail'', ''email'', ''smtp'', ''ftp'', ''ssh'', ''dns'', ''proxy'',
    ''gateway'', ''router'', ''firewall'', ''localhost'', ''local'', ''internal'', ''external'',
    ''public'', ''private'', ''network'', ''database'', ''db'', ''cache'', ''redis'', ''mysql'',
    ''postgres'', ''mongodb'', ''elastic'', ''nginx'', ''apache'', ''docker'', ''app'',
    ''application'', ''bot'', ''robot'', ''crawler'', ''spider'', ''scraper'', ''webhook'',
    ''callback'', ''cron'', ''scheduler'', ''worker'', ''queue'', ''job'', ''task'', ''process'',
    ''service'', ''microservice'', ''lambda'', ''function'', ''auth'', ''authentication'',
    ''login'', ''logout'', ''signin'', ''signout'', ''signup'', ''register'', ''password'',
    ''passwd'', ''token'', ''oauth'', ''sso'', ''saml'', ''ldap'', ''kerberos'', ''security'',
    ''secure'', ''ssl'', ''tls'', ''certificate'', ''cert'', ''key'', ''secret'', ''credential'',
    ''session'', ''guest'', ''anonymous'', ''anon'', ''user'', ''users'', ''member'', ''members'',
    ''subscriber'', ''editor'', ''author'', ''contributor'', ''reviewer'', ''auditor'', ''analyst'',
    ''developer'', ''dev'', ''devops'', ''engineer'', ''architect'', ''designer'', ''tester'',
    ''qa'', ''billing'', ''finance'', ''legal'', ''hr'', ''sales'', ''marketing'', ''ceo'', ''cto'',
    ''cfo'', ''coo'', ''founder'', ''cofounder'', ''account'', ''accounts'', ''profile'',
    ''profiles'', ''settings'', ''config'', ''configuration'', ''dashboard'', ''panel'',
    ''console'', ''portal'', ''home'', ''index'', ''main'', ''default'', ''null'', ''nil'',
    ''undefined'', ''void'', ''true'', ''false'', ''test'', ''testing'', ''debug'', ''demo'',
    ''example'', ''sample'', ''temp'', ''temporary'', ''tmp'', ''backup'', ''archive'', ''log'',
    ''logs'', ''audit'', ''report'', ''reports'', ''analytics'', ''stats'', ''status'', ''api'',
    ''rest'', ''graphql'', ''grpc'', ''websocket'', ''ws'', ''wss'', ''http'', ''https'',
    ''endpoint'', ''endpoints'', ''route'', ''routes'', ''path'', ''url'', ''uri'', ''callback'',
    ''hook'', ''hooks'', ''event'', ''events'', ''stream'', ''blog'', ''news'', ''article'',
    ''articles'', ''post'', ''posts'', ''page'', ''pages'', ''feed'', ''rss'', ''atom'',
    ''sitemap'', ''robots'', ''favicon'', ''static'', ''assets'', ''images'', ''image'', ''img'',
    ''media'', ''upload'', ''uploads'', ''download'', ''downloads'', ''file'', ''files'',
    ''document'', ''documents'', ''contact'', ''message'', ''messages'', ''chat'', ''notification'',
    ''notifications'', ''alert'', ''alerts'', ''inbox'', ''outbox'', ''sent'', ''draft'',
    ''drafts'', ''spam'', ''abuse'', ''report'', ''flag'', ''block'', ''mute'', ''ban'', ''shop'',
    ''store'', ''cart'', ''checkout'', ''order'', ''orders'', ''invoice'', ''invoices'',
    ''payment'', ''payments'', ''subscription'', ''subscriptions'', ''plan'', ''plans'',
    ''pricing'', ''billing'', ''refund'', ''coupon'', ''discount'', ''follow'', ''follower'',
    ''followers'', ''following'', ''friend'', ''friends'', ''like'', ''likes'', ''share'',
    ''shares'', ''comment'', ''comments'', ''reply'', ''mention'', ''mentions'', ''tag'', ''tags'',
    ''group'', ''groups'', ''team'', ''teams'', ''community'', ''communities'', ''forum'',
    ''forums'', ''channel'', ''channels'', ''official'', ''verified'', ''trusted'', ''partner'',
    ''affiliate'', ''sponsor'', ''brand'', ''trademark'', ''copyright'', ''legal'', ''terms'',
    ''privacy'', ''policy'', ''policies'', ''tos'', ''eula'', ''gdpr'', ''dmca'', ''abuse'',
    ''fuck'', ''shit'', ''ass'', ''bitch'', ''bastard'', ''damn'', ''cunt'', ''dick'', ''penis'',
    ''vagina'', ''sex'', ''porn'', ''xxx'', ''nude'', ''naked'', ''nsfw'', ''kill'', ''murder'',
    ''death'', ''die'', ''suicide'', ''hate'', ''nazi'', ''hitler'', ''racist'', ''racism'',
    ''terrorist'', ''terrorism'', ''isis'', ''alqaeda'', ''0'', ''1'', ''123'', ''1234'', ''12345'',
    ''000'', ''111'', ''666'', ''911'', ''420'', ''69'', ''info'', ''noreply'', ''no-reply'',
    ''donotreply'', ''mailer'', ''postmaster'', ''webmaster'', ''hostmaster'', ''abuse'', ''spam'',
    ''junk'', ''trash'', ''caslink'', ''webappsgo'']"

definition criticalTerms :: "string list" where
  "criticalTerms = [''admin'', ''root'', ''system'', ''mod'', ''official'', ''verified'']"

text \<open>The first blocked name that equals the given one: what the loops look for.\<close>

definition blocked_name :: "string \<Rightarrow> string option" where
  "blocked_name name = List.find (\<lambda>blocked. name = ToLower blocked) UsernameBlocklist"

definition critical_term :: "string \<Rightarrow> string option" where
  "critical_term name = List.find (\<lambda>critical. Contains name (ToLower critical)) criticalTerms"

text \<open>
  The list is in lower case already: bit 5 of a capital's code is clear, and it is set in
  every character of the list.
\<close>

lemma bit5_not_upper: "digit5 c \<Longrightarrow> \<not> is_upper c"
proof
  assume "digit5 c" and upper: "is_upper c"
  then have "odd (code c div 32 :: nat)" by (cases c) (simp add: of_char_Char)
  moreover have "code c div 32 = (2::nat)"
    using upper by (intro div_nat_eqI) (auto simp: is_upper_def)
  ultimately show False by simp
qed

lemma blocklist_bit5: "list_all (list_all digit5) UsernameBlocklist"
  by (simp add: UsernameBlocklist_def)

lemma blocklist_lower: "w \<in> set UsernameBlocklist \<Longrightarrow> ToLower w = w"
proof -
  assume "w \<in> set UsernameBlocklist"
  then have "list_all digit5 w" using blocklist_bit5 by (simp add: list_all_iff)
  then show "ToLower w = w" using bit5_not_upper by (intro ToLower_id) (auto simp: list_all_iff)
qed

lemma blocked_name_None:
  "blocked_name name = None \<longleftrightarrow> name \<notin> set UsernameBlocklist"
  by (auto simp: blocked_name_def find_None_iff blocklist_lower)

lemma critical_term_None:
  "critical_term name = None \<longleftrightarrow> (\<forall>t\<in>set criticalTerms. \<not> sublist (ToLower t) name)"
  by (auto simp: critical_term_def find_None_iff Contains_def)

section \<open>Organisation slugs\<close>

text \<open>\<open>^[a-z0-9]([a-z0-9-]*[a-z0-9])?$\<close>\<close>

definition orgSlugRegex :: "string \<Rightarrow> bool" where
  "orgSlugRegex s \<longleftrightarrow> s \<noteq> [] \<and> is_slug_char (hd s) \<and> is_slug_char (last s) \<and>
     list_all (\<lambda>c. is_slug_char c \<or> c = hyphen) s"

datatype slug_error =
    Slug_Length
  | Slug_Format
  | Slug_Double_Hyphen
  | Slug_Reserved string

definition ValidateOrgSlug :: "string \<Rightarrow> slug_error option" where
  "ValidateOrgSlug slug0 =
     (let slug = ToLower (TrimSpace slug0)
      in if length slug < 2 \<or> length slug > 39 then Some Slug_Length
         else if \<not> orgSlugRegex slug then Some Slug_Format
         else if Contains slug ''--'' then Some Slug_Double_Hyphen
         else map_option Slug_Reserved (blocked_name slug))"

section \<open>User names\<close>

text \<open>\<open>^[a-z][a-z0-9_-]*[a-z0-9]$\<close> and \<open>__|--|_-|-_\<close>\<close>

definition usernameRegex :: "string \<Rightarrow> bool" where
  "usernameRegex s \<longleftrightarrow> length s \<ge> 2 \<and> is_lower (hd s) \<and> is_slug_char (last s) \<and>
     list_all (\<lambda>c. is_slug_char c \<or> c = hyphen \<or> c = CHR ''_'') s"

definition consecutiveRegex :: "string \<Rightarrow> bool" where
  "consecutiveRegex s \<longleftrightarrow>
     Contains s ''__'' \<or> Contains s ''--'' \<or> Contains s ''_-'' \<or> Contains s ''-_''"

datatype username_error =
    Name_Too_Short
  | Name_Too_Long
  | Name_Format
  | Name_Consecutive
  | Name_Blocked string

definition ValidateUsername :: "string \<Rightarrow> bool \<Rightarrow> username_error option" where
  "ValidateUsername username0 isAdmin =
     (if isAdmin then None
      else
        let username = ToLower (TrimSpace username0)
        in if length username < 3 then Some Name_Too_Short
           else if length username > 32 then Some Name_Too_Long
           else if \<not> usernameRegex username then Some Name_Format
           else if consecutiveRegex username then Some Name_Consecutive
           else case blocked_name username of
                  Some blocked \<Rightarrow> Some (Name_Blocked blocked)
                | None \<Rightarrow> map_option Name_Blocked (critical_term username))"

section \<open>E-mail addresses\<close>

text \<open>
  \<open>^[a-z0-9._%+-]+@[a-z0-9.-]+\.[a-z]{2,}$\<close>: neither class has the character \<open>@\<close>, and the
  last part has no dot, so the text splits at its \<open>@\<close> and at its last dot.
\<close>

definition email_local_char :: "char \<Rightarrow> bool" where
  "email_local_char c \<longleftrightarrow> is_slug_char c \<or> c \<in> set ''._%+-''"

definition email_domain_char :: "char \<Rightarrow> bool" where
  "email_domain_char c \<longleftrightarrow> is_slug_char c \<or> c = CHR ''.'' \<or> c = hyphen"

definition emailRegex :: "string \<Rightarrow> bool" where
  "emailRegex s =
     (let (user, domain) = Cut s (CHR ''@'')
      in user \<noteq> [] \<and> list_all email_local_char user \<and>
         (case LastIndex domain (CHR ''.'') of
            None \<Rightarrow> False
          | Some i \<Rightarrow>
              i > 0 \<and> list_all email_domain_char (take i domain) \<and>
              length (drop (Suc i) domain) \<ge> 2 \<and> list_all is_lower (drop (Suc i) domain)))"

datatype email_error = Email_Required | Email_Invalid

definition ValidateEmail :: "string \<Rightarrow> email_error option" where
  "ValidateEmail email0 =
     (let email = ToLower (TrimSpace email0)
      in if length email = 0 then Some Email_Required
         else if \<not> emailRegex email then Some Email_Invalid
         else None)"

declare orgSlugRegex_def [eval_simps] ValidateOrgSlug_def [eval_simps] usernameRegex_def [eval_simps]
  consecutiveRegex_def [eval_simps] ValidateUsername_def [eval_simps] critical_term_def [eval_simps] criticalTerms_def [eval_simps]
  email_local_char_def [eval_simps] email_domain_char_def [eval_simps] emailRegex_def [eval_simps]
  ValidateEmail_def [eval_simps]

section \<open>What an accepted name looks like\<close>

lemma ValidateOrgSlug_canonical: "ValidateOrgSlug (ToLower (TrimSpace s)) = ValidateOrgSlug s"
  if "\<And>c. c \<in> set (TrimSpace s) \<Longrightarrow> \<not> go_space c"
proof -
  have "TrimSpace (ToLower (TrimSpace s)) = ToLower (TrimSpace s)"
  proof (rule TrimSpace_id)
    fix c
    assume "c \<in> set (ToLower (TrimSpace s))"
    then obtain d where "d \<in> set (TrimSpace s)" "c = (if is_upper d then char_of (code d + 32) else d)"
      by (auto simp: ToLower_def)
    then show "\<not> go_space c" using that lower_upper [of d] by (auto simp: go_space_def is_lower_def)
  qed
  then show ?thesis by (simp add: ValidateOrgSlug_def)
qed

text \<open>A slug in canonical form: what the database is meant to hold.\<close>

definition canonical_slug :: "string \<Rightarrow> bool" where
  "canonical_slug s \<longleftrightarrow> 2 \<le> length s \<and> length s \<le> 39 \<and> orgSlugRegex s \<and> no_double hyphen s \<and>
     s \<notin> set UsernameBlocklist"

lemma slug_text_plain:
  assumes "list_all (\<lambda>c. is_slug_char c \<or> c = hyphen) s"
  shows "TrimSpace s = s" and "ToLower s = s"
proof -
  have plain: "\<not> go_space c" "\<not> is_upper c" if "c \<in> set s" for c
    using that assms slug_char_not_space slug_char_not_upper
    by (auto simp: list_all_iff go_space_def is_upper_def)
  show "TrimSpace s = s" by (rule TrimSpace_id) (rule plain(1))
  show "ToLower s = s" by (rule ToLower_id) (rule plain(2))
qed

lemma ValidateOrgSlug_None_iff: "ValidateOrgSlug s = None \<longleftrightarrow> canonical_slug (ToLower (TrimSpace s))"
  by (auto simp: ValidateOrgSlug_def canonical_slug_def Let_def Contains_def sublist_double_iff
      blocked_name_None)

lemma canonical_slug_valid: "canonical_slug s \<Longrightarrow> ValidateOrgSlug s = None"
  using slug_text_plain [of s] by (simp add: ValidateOrgSlug_None_iff canonical_slug_def orgSlugRegex_def)

text \<open>
  C12 (an accepted slug is canonical up to case and space). The server accepts exactly the slugs whose lower-case trimmed
  form has 2 to 39 characters of \<open>[a-z0-9-]\<close>, begins and ends with a letter or digit, has no
  two hyphens in a row and is not reserved.
\<close>

theorem org_slug_accepted_iff:
  "ValidateOrgSlug s = None \<longleftrightarrow>
     (let t = ToLower (TrimSpace s)
      in 2 \<le> length t \<and> length t \<le> 39 \<and> set t \<subseteq> {c. is_slug_char c \<or> c = hyphen} \<and>
         hd t \<noteq> hyphen \<and> last t \<noteq> hyphen \<and> \<not> sublist ''--'' t \<and>
         t \<notin> set UsernameBlocklist)"
proof -
  let ?t = "ToLower (TrimSpace s)"
  have "orgSlugRegex ?t \<longleftrightarrow> set ?t \<subseteq> {c. is_slug_char c \<or> c = hyphen} \<and> hd ?t \<noteq> hyphen \<and> last ?t \<noteq> hyphen"
    if "2 \<le> length ?t"
  proof -
    have "?t \<noteq> []" using that by (metis list.size(3) not_numeral_le_zero)
    then have "hd ?t \<in> set ?t" "last ?t \<in> set ?t" by simp_all
    then show ?thesis using \<open>?t \<noteq> []\<close> hyphen_not_slug_char
      unfolding orgSlugRegex_def list_all_iff subset_iff mem_Collect_eq by metis
  qed
  then show ?thesis
    by (auto simp: ValidateOrgSlug_None_iff canonical_slug_def Let_def sublist_double_iff)
qed

text \<open>
  C13 (an accepted user name). A name that is accepted for a regular user has 3 to 32 characters of \<open>[a-z0-9_-]\<close> in its
  canonical form, begins with a letter, ends with a letter or digit, is not reserved, and
  contains none of the critical terms.
\<close>

theorem username_accepted:
  assumes "ValidateUsername u False = None"
  shows "let t = ToLower (TrimSpace u)
    in 3 \<le> length t \<and> length t \<le> 32 \<and> is_lower (hd t) \<and> is_slug_char (last t) \<and>
       \<not> sublist ''--'' t \<and> \<not> sublist ''__'' t \<and> \<not> sublist ''_-'' t \<and> \<not> sublist ''-_'' t \<and>
       t \<notin> set UsernameBlocklist \<and>
       (\<forall>term\<in>set criticalTerms. \<not> sublist (ToLower term) t)"
  using assms
  by (auto simp: ValidateUsername_def Let_def usernameRegex_def consecutiveRegex_def Contains_def
      blocked_name_None critical_term_None split: if_splits option.splits)

theorem username_accepted_witness:
  "let t = ToLower (TrimSpace '' jane_doe '')
    in 3 \<le> length t \<and> \<not> sublist ''__'' t \<and> t \<notin> set UsernameBlocklist"
proof -
  have "blocked_name ''jane_doe'' = None" by (simp add: blocked_name_None UsernameBlocklist_def)
  then have "ValidateUsername '' jane_doe '' False = None" by (simp add: eval_simps Let_def)
  from username_accepted [OF this] show ?thesis by (simp add: Let_def)
qed

end
