(* ===== verification/OrgSlug.thy ===== *)
theory OrgSlug
  imports Validate JSStrings
begin

text \<open>
  Where organisation slugs come from: \<open>generateSlug\<close> of \<^verbatim>\<open>src/server/service/org.go\<close>
  and the form of \<^verbatim>\<open>src/server/tmpl/static/js/app.js\<close> that fills in the slug while the
  name is typed, until the user edits the slug. Both are sources of slugs for the validation
  of \<^verbatim>\<open>src/server/validate/slug.go\<close>. The language selector, the other field of the script
  that acts on a change event, is here too.
\<close>

section \<open>The interface of a source of slugs\<close>

locale slug_source =
  fixes make :: "string \<Rightarrow> string"
    and limit :: nat
  assumes made_chars: "c \<in> set (make name) \<Longrightarrow> is_slug_char c \<or> c = hyphen"
    and made_no_double: "no_double hyphen (make name)"
    and made_short: "length (make name) \<le> limit"
    and made_start: "make name \<noteq> [] \<Longrightarrow> hd (make name) \<noteq> hyphen"
begin

lemma made_plain: "TrimSpace (make name) = make name" "ToLower (make name) = make name"
  using slug_text_plain [of "make name"] made_chars by (auto simp: list_all_iff)

lemma made_regex:
  assumes "make name \<noteq> []" and "last (make name) \<noteq> hyphen"
  shows "orgSlugRegex (make name)"
  using assms made_chars made_start [OF assms(1)]
  unfolding orgSlugRegex_def list_all_iff by (metis last_in_set list.set_sel(1))

text \<open>What the server's validation says to a generated slug.\<close>

lemma made_validated:
  assumes "2 \<le> length (make name)" and "length (make name) \<le> 39"
    and "last (make name) \<noteq> hyphen"
  shows "ValidateOrgSlug (make name) = map_option Slug_Reserved (blocked_name (make name))"
proof -
  have "make name \<noteq> []" using assms(1) by auto
  then show ?thesis using assms made_regex made_no_double
    by (simp add: ValidateOrgSlug_def Let_def made_plain Contains_def sublist_double_iff)
qed

lemma made_too_long: "39 < length (make name) \<Longrightarrow> ValidateOrgSlug (make name) = Some Slug_Length"
  by (simp add: ValidateOrgSlug_def Let_def made_plain)

lemma made_too_short: "length (make name) < 2 \<Longrightarrow> ValidateOrgSlug (make name) = Some Slug_Length"
  by (simp add: ValidateOrgSlug_def Let_def made_plain)

end

locale trimmed_slug_source = slug_source +
  assumes made_end: "make name \<noteq> [] \<Longrightarrow> last (make name) \<noteq> hyphen"
begin

lemma made_accepted:
  assumes "limit \<le> 39" and "2 \<le> length (make name)" and "make name \<notin> set UsernameBlocklist"
  shows "ValidateOrgSlug (make name) = None"
proof -
  have "make name \<noteq> []" using assms(2) by auto
  then show ?thesis
    using made_validated [OF assms(2) _ made_end] made_short [of name] assms(1,3)
    by (simp add: blocked_name_None [symmetric])
qed

end

section \<open>The server's generator\<close>

definition hyphenate :: "string \<Rightarrow> string" where
  "hyphenate s = strip (\<lambda>c. c = hyphen) (replace_runs (\<lambda>c. \<not> is_slug_char c) [hyphen] s)"

definition generateSlug :: "string \<Rightarrow> string" where
  "generateSlug name =
     (let slug1 = ToLower name;
          slug2 = replace_runs (\<lambda>c. \<not> is_slug_char c) [hyphen] slug1;
          slug3 = replace_runs (\<lambda>c. c = hyphen) [hyphen] slug2;
          slug4 = strip (\<lambda>c. c = hyphen) slug3
      in if length slug4 > 39 then strip (\<lambda>c. c = hyphen) (take 39 slug4) else slug4)"

lemma hyphenate_no_double: "no_double hyphen (hyphenate s)"
  unfolding hyphenate_def by (intro no_double_strip replace_runs_no_double) simp

lemma hyphenate_chars: "c \<in> set (hyphenate s) \<Longrightarrow> is_slug_char c \<or> c = hyphen"
  using set_strip set_replace_runs [of "\<lambda>c. \<not> is_slug_char c" "[hyphen]" s]
  unfolding hyphenate_def by fastforce

text \<open>The collapsing step finds nothing to do.\<close>

lemma generateSlug_eq:
  "generateSlug name =
     (let s = hyphenate (ToLower name)
      in if length s > 39 then strip (\<lambda>c. c = hyphen) (take 39 s) else s)"
proof -
  have "replace_runs (\<lambda>c. c = hyphen) [hyphen] (replace_runs (\<lambda>c. \<not> is_slug_char c) [hyphen] (ToLower name))
      = replace_runs (\<lambda>c. \<not> is_slug_char c) [hyphen] (ToLower name)"
    by (rule replace_runs_idem, rule replace_runs_no_double) simp
  then show ?thesis by (simp add: generateSlug_def hyphenate_def Let_def)
qed

lemma strip_ends:
  "strip (\<lambda>c. c = hyphen) s \<noteq> [] \<Longrightarrow>
     hd (strip (\<lambda>c. c = hyphen) s) \<noteq> hyphen \<and> last (strip (\<lambda>c. c = hyphen) s) \<noteq> hyphen"
  using strip_hd [of "\<lambda>c. c = hyphen" s] strip_last [of "\<lambda>c. c = hyphen" s] by simp

lemma hyphenate_ends: "hyphenate s \<noteq> [] \<Longrightarrow> hd (hyphenate s) \<noteq> hyphen \<and> last (hyphenate s) \<noteq> hyphen"
  unfolding hyphenate_def by (rule strip_ends)

lemma generateSlug_cases:
  assumes "\<And>x. x = hyphenate (ToLower s) \<Longrightarrow> length x \<le> 39 \<Longrightarrow> P x"
    and "\<And>x. x = hyphenate (ToLower s) \<Longrightarrow> 39 < length x \<Longrightarrow> P (strip (\<lambda>c. c = hyphen) (take 39 x))"
  shows "P (generateSlug s)"
  using assms by (simp add: generateSlug_eq Let_def)

lemma generateSlug_ends:
  "generateSlug s \<noteq> [] \<Longrightarrow> hd (generateSlug s) \<noteq> hyphen \<and> last (generateSlug s) \<noteq> hyphen"
  by (rule generateSlug_cases [where P = "\<lambda>x. x \<noteq> [] \<longrightarrow> hd x \<noteq> hyphen \<and> last x \<noteq> hyphen", rule_format])
    (use hyphenate_ends strip_ends in blast)+

lemma generateSlug_chars: "c \<in> set (generateSlug s) \<Longrightarrow> is_slug_char c \<or> c = hyphen"
  by (rule generateSlug_cases [where P = "\<lambda>x. c \<in> set x \<longrightarrow> is_slug_char c \<or> c = hyphen", rule_format])
    (auto dest!: hyphenate_chars set_strip [THEN subsetD] in_set_takeD)

interpretation server_slug: trimmed_slug_source generateSlug 39
proof unfold_locales
  fix name c
  show "c \<in> set (generateSlug name) \<Longrightarrow> is_slug_char c \<or> c = hyphen" by (rule generateSlug_chars)
  show "no_double hyphen (generateSlug name)"
    by (rule generateSlug_cases [where P = "\<lambda>x. no_double hyphen x"])
      (blast intro: hyphenate_no_double no_double_strip no_double_take)+
  show "length (generateSlug name) \<le> 39"
    by (rule generateSlug_cases) (auto intro: order_trans [OF length_strip])
  show "generateSlug name \<noteq> [] \<Longrightarrow> hd (generateSlug name) \<noteq> hyphen"
    "generateSlug name \<noteq> [] \<Longrightarrow> last (generateSlug name) \<noteq> hyphen"
    using generateSlug_ends by blast+
qed

section \<open>The form\<close>

definition client_slug :: "string \<Rightarrow> string" where
  "client_slug value =
     take 40 (strip (\<lambda>c. c = hyphen)
       (replace_runs (\<lambda>c. \<not> is_slug_char c) [hyphen] (toLowerCase value)))"

lemma client_slug_eq: "client_slug v = take 40 (hyphenate (toLowerCase v))"
  by (simp add: client_slug_def hyphenate_def)

interpretation client_form: slug_source client_slug 40
proof unfold_locales
  fix name c
  show "c \<in> set (client_slug name) \<Longrightarrow> is_slug_char c \<or> c = hyphen"
    unfolding client_slug_eq by (metis hyphenate_chars in_set_takeD)
  show "no_double hyphen (client_slug name)"
    unfolding client_slug_eq by (intro no_double_take hyphenate_no_double)
  show "length (client_slug name) \<le> 40" by (simp add: client_slug_eq)
  show "client_slug name \<noteq> [] \<Longrightarrow> hd (client_slug name) \<noteq> hyphen"
    using hyphenate_ends by (auto simp: client_slug_eq)
qed

record slug_form =
  source_value :: string
  slug_value :: string
  slug_edited :: bool

datatype slug_event = TypeName string | TypeSlug string

fun slug_step :: "slug_form \<Rightarrow> slug_event \<Rightarrow> slug_form" where
  "slug_step f (TypeName v) =
     (let f1 = f\<lparr>source_value := v\<rparr>
      in if \<not> slug_edited f1 then f1\<lparr>slug_value := client_slug (source_value f1)\<rparr> else f1)"
| "slug_step f (TypeSlug v) = f\<lparr>slug_value := v, slug_edited := True\<rparr>"

definition slug_run :: "slug_form \<Rightarrow> slug_event list \<Rightarrow> slug_form" where
  "slug_run f es = foldl slug_step f es"

text \<open>The language selector: a change submits the form the element is in, if any.\<close>

definition autosubmit_change :: "'form option \<Rightarrow> 'form list \<Rightarrow> 'form list" where
  "autosubmit_change form submitted = (case form of Some f \<Rightarrow> submitted @ [f] | None \<Rightarrow> submitted)"

text \<open>On ASCII names both case conversions agree.\<close>

lemma toLowerCase_ascii: "list_all is_ascii s \<Longrightarrow> toLowerCase s = ToLower s"
  by (auto simp: toLowerCase_def ToLower_def js_lower_def is_ascii_def list_all_iff)

lemma slug_run_Nil [simp]: "slug_run f [] = f"
  by (simp add: slug_run_def)

lemma slug_run_snoc [simp]: "slug_run f (es @ [e]) = slug_step (slug_run f es) e"
  by (simp add: slug_run_def)

definition typed_slugs :: "slug_event list \<Rightarrow> string list" where
  "typed_slugs es = List.map_filter (\<lambda>e. case e of TypeSlug v \<Rightarrow> Some v | TypeName _ \<Rightarrow> None) es"

definition typed_names :: "slug_event list \<Rightarrow> string list" where
  "typed_names es = List.map_filter (\<lambda>e. case e of TypeName v \<Rightarrow> Some v | TypeSlug _ \<Rightarrow> None) es"

lemma typed_snoc [simp]:
  "typed_slugs (es @ [TypeSlug v]) = typed_slugs es @ [v]" "typed_slugs (es @ [TypeName v]) = typed_slugs es"
  "typed_names (es @ [TypeName v]) = typed_names es @ [v]" "typed_names (es @ [TypeSlug v]) = typed_names es"
  by (simp_all add: typed_slugs_def typed_names_def List.map_filter_def)

lemma typed_Nil [simp]: "typed_slugs [] = []" "typed_names [] = []"
  by (simp_all add: typed_slugs_def typed_names_def List.map_filter_def)

section \<open>Properties\<close>

text \<open>
  C32 (a generated slug is accepted). The slug the server derives from a name passes its own validation whenever it has two
  characters and is not a reserved name, and it is at most 39 characters long.
\<close>

theorem generated_slug_accepted:
  assumes "2 \<le> length (generateSlug name)" and "generateSlug name \<notin> set UsernameBlocklist"
  shows "ValidateOrgSlug (generateSlug name) = None"
  using assms by (intro server_slug.made_accepted) simp_all

theorem generated_slug_accepted_witness:
  "ValidateOrgSlug (generateSlug ''  my team -- 2 '') = None"
proof -
  have "generateSlug ''  my team -- 2 '' = ''my-team-2''" by (simp add: generateSlug_def eval_simps Let_def)
  moreover have "''my-team-2'' \<notin> set UsernameBlocklist" by (simp add: UsernameBlocklist_def)
  ultimately show ?thesis using generated_slug_accepted [of "''  my team -- 2 ''"] by simp
qed

text \<open>
  C40 (the form and the server agree up to the limit). For an ASCII name, the slug the form fills in is the slug the server
  would generate when that needs no cutting; when the uncut slug has 40 or more characters
  the form fills in 40 of them, which the server rejects for their length.
\<close>

theorem client_and_server_slug:
  assumes "list_all is_ascii name"
  shows "if length (hyphenate (ToLower name)) \<le> 39 then client_slug name = generateSlug name
    else ValidateOrgSlug (client_slug name) = Some Slug_Length"
proof (cases "length (hyphenate (ToLower name)) \<le> 39")
  case True
  then show ?thesis by (simp add: client_slug_eq generateSlug_eq toLowerCase_ascii [OF assms] Let_def)
next
  case False
  then have "39 < length (client_slug name)" by (simp add: client_slug_eq toLowerCase_ascii [OF assms])
  then show ?thesis using client_form.made_too_long False by simp
qed

theorem client_and_server_slug_witness:
  "ValidateOrgSlug (client_slug (replicate 40 (CHR ''x''))) = Some Slug_Length"
proof -
  have x: "is_slug_char (CHR ''x'')" "ToLower (replicate 40 (CHR ''x'')) = replicate 40 (CHR ''x'')"
    by (simp_all add: eval_simps)
  have "replace_runs (\<lambda>c. \<not> is_slug_char c) [hyphen] (replicate n (CHR ''x'')) = replicate n (CHR ''x'')" for n
    using x(1) by (induction n) simp_all
  then have "hyphenate (ToLower (replicate 40 (CHR ''x''))) = replicate 40 (CHR ''x'')"
    unfolding hyphenate_def x(2) by (subst strip_none) auto
  then show ?thesis
    using client_and_server_slug [of "replicate 40 (CHR ''x'')"] by (simp add: list_all_iff is_ascii_def)
qed

text \<open>
  C11 (the form never overwrites an edited slug). After any typing into a form that starts empty, the slug field holds what
  the user last typed into it, if anything, and otherwise the slug of the name last typed.
\<close>

theorem slug_field_after_typing:
  "slug_value (slug_run \<lparr>source_value = [], slug_value = [], slug_edited = False\<rparr> es) =
     (if typed_slugs es \<noteq> [] then last (typed_slugs es)
      else if typed_names es \<noteq> [] then client_slug (last (typed_names es)) else [])"
proof -
  let ?f = "\<lparr>source_value = [], slug_value = [], slug_edited = False\<rparr>"
  have "slug_edited (slug_run ?f es) = (typed_slugs es \<noteq> []) \<and>
    slug_value (slug_run ?f es) =
      (if typed_slugs es \<noteq> [] then last (typed_slugs es)
       else if typed_names es \<noteq> [] then client_slug (last (typed_names es)) else [])"
  proof (induction es rule: rev_induct)
    case (snoc e es)
    then show ?case by (cases e) (auto simp: Let_def)
  qed simp
  then show ?thesis by simp
qed

end
