(* ===== verification/CreateForm.thy ===== *)
theory CreateForm
  imports EventLoop JSON
begin

text \<open>
  The short-link form of the dashboard (\<^verbatim>\<open>src/server/tmpl/static/js/app.js\<close>): the request
  it sends, what it does with each possible outcome, and the toasts it shows. The outcome of
  the \<open>fetch\<close> is the environment's: a failure, or the text of a response. The dash of the
  last message is an em dash in the source.
\<close>

section \<open>State and handlers\<close>

record create_page =
  f_long_url :: string
  f_custom_code :: string
  short_link :: "string option"         \<comment> \<open>\<open>href\<close> and text of \<open>short-link\<close>\<close>
  copy_text :: string                   \<comment> \<open>\<open>data-copy-text\<close> of \<open>copy-btn\<close>\<close>
  result_hidden :: bool
  toasts :: "(nat \<times> string \<times> string) list"   \<comment> \<open>number, text, type\<close>
  next_toast :: nat

datatype toast_action = RemoveToast nat

type_synonym create_loop = "(create_page, toast_action) event_loop"

text \<open>The request body: \<open>JSON.stringify(data)\<close>.\<close>

definition create_body :: "create_page \<Rightarrow> string" where
  "create_body p =
     stringify (JObj ([(''long_url'', JStr (f_long_url p))] @
       (if f_custom_code p \<noteq> [] then [(''custom_code'', JStr (f_custom_code p))] else [])))"

definition showToast :: "string \<Rightarrow> string \<Rightarrow> create_loop \<Rightarrow> create_loop" where
  "showToast msg type l =
     (let i = next_toast (world l)
      in setTimeout (RemoveToast i) 5000
           (change_world (\<lambda>p. p\<lparr>toasts := toasts p @ [(i, msg, type)], next_toast := i + 1\<rparr>) l))"

fun create_exec :: "toast_action \<Rightarrow> create_loop \<Rightarrow> create_loop" where
  "create_exec (RemoveToast i) l = change_world (\<lambda>p. p\<lparr>toasts := filter (\<lambda>t. fst t \<noteq> i) (toasts p)\<rparr>) l"

text \<open>
  What the second \<open>then\<close> finds: \<open>None\<close> when it throws, \<open>Some (Inl url)\<close> for a created link,
  \<open>Some (Inr message)\<close> otherwise.
\<close>

definition create_failed :: string where
  "create_failed = ''Failed to create link''"

definition error_text :: "json \<Rightarrow> string option" where
  "error_text j =
     (case get_prop j ''message'' of
        None \<Rightarrow> None
      | Some m \<Rightarrow>
          if truthy_opt m then Some (js_text (the m))
          else (case get_prop j ''error'' of
                  None \<Rightarrow> None
                | Some e \<Rightarrow> Some (if truthy_opt e then js_text (the e) else create_failed)))"

definition create_answer :: "json \<Rightarrow> (string + string) option" where
  "create_answer j =
     (case get_prop j ''ok'' of
        None \<Rightarrow> None
      | Some ok \<Rightarrow>
          if \<not> truthy_opt ok then map_option Inr (error_text j)
          else
            (case get_prop j ''data'' of
               None \<Rightarrow> None
             | Some d \<Rightarrow>
                 if \<not> truthy_opt d then map_option Inr (error_text j)
                 else
                   (case get_prop (the d) ''short_url'' of
                      None \<Rightarrow> None
                    | Some u \<Rightarrow>
                        if truthy_opt u then Some (Inl (js_text (the u)))
                        else map_option Inr (error_text j))))"

definition network_error :: string where
  "network_error = ''Network error - check your connection''"

text \<open>The whole chain; a JSON text outside the model of \<open>JSON_parse\<close> gives no statement.\<close>

definition create_outcome :: "fetch_outcome \<Rightarrow> (string + string) option" where
  "create_outcome out =
     (case out of
        Network_Failure \<Rightarrow> Some (Inr network_error)
      | Response_Text s \<Rightarrow>
          (case JSON_parse s of
             JSON_Beyond \<Rightarrow> None
           | JSON_SyntaxError \<Rightarrow> Some (Inr network_error)
           | JSON_Value j \<Rightarrow>
               (case create_answer j of None \<Rightarrow> Some (Inr network_error) | Some a \<Rightarrow> Some a)))"

definition create_submit :: "fetch_outcome \<Rightarrow> create_loop \<Rightarrow> create_loop" where
  "create_submit out l =
     (case create_outcome out of
        None \<Rightarrow> l
      | Some (Inl url) \<Rightarrow>
          change_world (\<lambda>p. p\<lparr>short_link := Some url, copy_text := url, result_hidden := False,
            f_long_url := [], f_custom_code := []\<rparr>) l
      | Some (Inr msg) \<Rightarrow> showToast msg ''danger'' l)"

interpretation create: one_shot_client create_exec
proof unfold_locales
  fix a :: toast_action and l :: create_loop
  show "timers (create_exec a l) = timers l" and "now (create_exec a l) = now l" by (cases a; simp)+
qed

definition create_wait :: "nat \<Rightarrow> create_loop \<Rightarrow> create_loop" where
  "create_wait t l = the (wait create_exec one_shot_weight t l)"

fun create_session :: "(nat \<times> fetch_outcome) list \<Rightarrow> create_loop \<Rightarrow> create_loop" where
  "create_session [] l = l"
| "create_session ((t, out) # es) l = create_session es (create_submit out (create_wait t l))"

section \<open>Toasts\<close>

text \<open>Every toast on the page has a timer that removes it, due by \<open>d\<close>.\<close>

definition toasts_due :: "nat \<Rightarrow> create_loop \<Rightarrow> bool" where
  "toasts_due d l \<longleftrightarrow> (\<forall>x\<in>set (timers l). fst x \<le> d) \<and>
     (\<forall>t\<in>set (toasts (world l)). \<exists>e. (e, RemoveToast (fst t)) \<in> set (timers l))"

lemma toasts_due_wait:
  assumes "toasts_due d l"
  shows "toasts_due d (create_wait t l)"
    and "d \<le> t \<Longrightarrow> toasts (world (create_wait t l)) = []"
    and "now (create_wait t l) = max (now l) t"
proof -
  obtain l' where l': "wait create_exec one_shot_weight t l = Some l'" using create.wait_returns by blast
  have eq: "create_wait t l = l'" using l' by (simp add: create_wait_def)
  have due: "toasts_due d l'"
  proof (rule create.wait_invariant [OF l', where P = "toasts_due d"])
    show "toasts_due d (create_exec a (m\<lparr>now := max (now m) e, timers := q\<rparr>))"
      if "toasts_due d m" "timers m = (e, a) # q" for m e a q
    proof (cases a)
      case (RemoveToast x)
      have "\<exists>e. (e, RemoveToast (fst s)) \<in> set q" if "s \<in> set (toasts (world m))" "fst s \<noteq> x" for s
        using that \<open>toasts_due d m\<close> \<open>timers m = (e, a) # q\<close> RemoveToast by (fastforce simp: toasts_due_def)
      then show ?thesis using that RemoveToast by (auto simp: toasts_due_def)
    qed
  qed (use assms in \<open>auto simp: toasts_due_def\<close>)
  show "toasts_due d (create_wait t l)" using due eq by simp
  show "now (create_wait t l) = max (now l) t" using create.wait_now [OF l'] eq by simp
  show "toasts (world (create_wait t l)) = []" if "d \<le> t"
  proof -
    have "timers l' = []" using create.wait_done [OF l'] due that
      by (cases "timers l'") (auto simp: toasts_due_def)
    then show ?thesis using due eq by (cases "toasts (world l')") (auto simp: toasts_due_def)
  qed
qed

lemma toasts_due_mono: "toasts_due d l \<Longrightarrow> d \<le> e \<Longrightarrow> toasts_due e l"
  by (force simp: toasts_due_def)

lemma toasts_due_submit:
  "toasts_due (now l + 5000) l \<Longrightarrow> toasts_due (now (create_submit out l) + 5000) (create_submit out l)"
  by (auto simp: create_submit_def toasts_due_def showToast_def Let_def split: option.splits sum.splits)

lemma toasts_due_session:
  "toasts_due (now l + 5000) l \<Longrightarrow>
     toasts_due (now (create_session es l) + 5000) (create_session es l)"
proof (induction es arbitrary: l)
  case (Cons te es)
  obtain t out where te: "te = (t, out)" by force
  have "toasts_due (now (create_wait t l) + 5000) (create_wait t l)"
    using toasts_due_mono [OF toasts_due_wait(1) [OF Cons.prems], of "now (create_wait t l) + 5000" t]
    by (simp add: toasts_due_wait(3) [OF Cons.prems])
  then show ?case using Cons.IH toasts_due_submit te by simp
qed simp

section \<open>Properties\<close>

text \<open>
  C23 (a link is shown exactly when the server made one). A response that is a JSON object shows its short link if and only if it has a true
  \<open>ok\<close> and a \<open>data\<close> object with a non-empty \<open>short_url\<close>; otherwise one toast appears and the
  form keeps what the user typed.
\<close>

theorem create_form_outcome:
  assumes "ok = map_of (rev ms) ''ok''" and "map_of (rev ms) ''data'' = Some (JObj ds)"
    and "short = map_of (rev ds) ''short_url''"
  shows "let l1 = create_submit (Response_Text (stringify (JObj ms))) l
    in if truthy_opt ok \<and> truthy_opt short
       then short_link (world l1) = Some (js_text (the short)) \<and> \<not> result_hidden (world l1) \<and>
         toasts (world l1) = toasts (world l) \<and> f_long_url (world l1) = []
       else short_link (world l1) = short_link (world l) \<and> f_long_url (world l1) = f_long_url (world l) \<and>
         length (toasts (world l1)) = length (toasts (world l)) + 1"
  using assms JSON_parse_stringify [of "JObj ms"]
  by (auto simp: create_submit_def create_outcome_def create_answer_def error_text_def showToast_def
      truthy_opt_def [of "Some (JObj ds)"] Let_def simp del: stringify.simps)

definition example_create :: create_loop where
  "example_create =
     \<lparr>now = 0, timers = [],
      world = \<lparr>f_long_url = ''https://a.example'', f_custom_code = [], short_link = None, copy_text = [],
               result_hidden = True, toasts = [], next_toast = 0\<rparr>\<rparr>"

theorem create_form_outcome_witness:
  "short_link (world (create_submit (Response_Text (stringify
     (JObj [(''ok'', JBool True), (''data'', JObj [(''short_url'', JStr ''/x1'')])]))) example_create)) = Some ''/x1''"
  using create_form_outcome [of "Some (JBool True)"
      "[(''ok'', JBool True), (''data'', JObj [(''short_url'', JStr ''/x1'')])]"
      "[(''short_url'', JStr ''/x1'')]" "Some (JStr ''/x1'')" example_create]
  by (simp add: Let_def truthy_opt_def del: stringify.simps)

text \<open>
  C24 (no toast stays). Whatever the outcomes of the submits and their times, the page shows no toast five seconds
  after the last of them.
\<close>

theorem toasts_go_away:
  assumes "timers l = []" and "toasts (world l) = []" and "now (create_session es l) + 5000 \<le> t"
  shows "toasts (world (create_wait t (create_session es l))) = []"
proof -
  have "toasts_due (now l + 5000) l" using assms(1,2) by (simp add: toasts_due_def)
  then show ?thesis using toasts_due_wait(2) [OF toasts_due_session] assms(3) by blast
qed

theorem toasts_go_away_witness:
  "toasts (world (create_wait 9000 (create_session [(100, Network_Failure), (200, Network_Failure)] example_create))) = []"
proof -
  have due: "toasts_due 5000 example_create" by (simp add: toasts_due_def example_create_def)
  have n1: "now (create_submit Network_Failure l) = now l" for l
    by (simp add: create_submit_def create_outcome_def showToast_def Let_def)
  have d1: "toasts_due 5100 (create_wait 100 example_create)" "now (create_wait 100 example_create) = 100"
    using toasts_due_mono [OF toasts_due_wait(1) [OF due], of 5100 100] toasts_due_wait(3) [OF due, of 100]
    by (simp_all add: example_create_def)
  have "toasts_due 5100 (create_submit Network_Failure (create_wait 100 example_create))"
    using toasts_due_submit [of "create_wait 100 example_create" Network_Failure] d1 by (simp add: n1)
  then have "now (create_session [(100, Network_Failure), (200, Network_Failure)] example_create) = 200"
    using toasts_due_wait(3) d1(2) by (simp add: n1)
  then show ?thesis
    using toasts_go_away [of example_create "[(100, Network_Failure), (200, Network_Failure)]" 9000]
    by (simp add: example_create_def)
qed

text \<open>
  The body of the request is a JSON object with the URL under \<open>long_url\<close>, and a
  custom code exactly when one was typed.
\<close>

theorem create_body_decodes:
  "\<exists>ms. JSON_parse (create_body p) = JSON_Value (JObj ms) \<and>
    map_of (rev ms) ''long_url'' = Some (JStr (f_long_url p)) \<and>
    map_of (rev ms) ''custom_code'' = (if f_custom_code p = [] then None else Some (JStr (f_custom_code p))) \<and>
    map_of (rev ms) ''url'' = None"
proof -
  let ?ms = "[(''long_url'', JStr (f_long_url p))] @
    (if f_custom_code p \<noteq> [] then [(''custom_code'', JStr (f_custom_code p))] else [])"
  have "JSON_parse (create_body p) = JSON_Value (JObj ?ms)" unfolding create_body_def by (rule JSON_parse_stringify)
  then show ?thesis by (intro exI [of _ ?ms]) auto
qed

end
