(* ===== verification/RecoveryKeys.thy ===== *)
theory RecoveryKeys
  imports EventLoop JSON
begin

text \<open>
  The recovery keys page of \<^verbatim>\<open>src/server/tmpl/static/js/app.js\<close>: the keys arrive as a
  JSON island, are numbered into one text, and can be downloaded or copied; the Continue
  button follows the checkbox.
\<close>

section \<open>The text of the keys\<close>

abbreviation newline :: char where
  "newline \<equiv> CHR 0x0A"

definition numbered :: "nat \<Rightarrow> string \<Rightarrow> string" where
  "numbered i k = show_nat (i + 1) @ ''. '' @ k"

definition keys_text :: "json list \<Rightarrow> string" where
  "keys_text ks = join_with [newline] (map (\<lambda>i. numbered i (js_text (ks ! i))) [0..<length ks])"

section \<open>State and handlers\<close>

record recovery_env =
  island :: "string option"          \<comment> \<open>\<open>recovery-keys-data\<close>\<close>
  has_download :: bool
  has_copy :: bool
  has_confirm :: bool                \<comment> \<open>the checkbox and the Continue button\<close>
  clipboard_writes :: bool           \<comment> \<open>\<open>navigator.clipboard\<close> exists and \<open>writeText\<close> resolves\<close>

record recovery_page =
  downloads :: "(string \<times> string) list"
  copied :: "string option"
  copy_label :: string
  confirmed_checked :: bool
  continue_disabled :: bool

datatype recovery_action = RestoreLabel

datatype recovery_event = ClickDownload | ClickCopy | ToggleConfirmed

type_synonym recovery_loop = "(recovery_page, recovery_action) event_loop"

text \<open>
  The wiring: \<open>None\<close> when the handlers are not installed, which is when an element is
  missing, the island is not JSON, or it is no array (\<open>keys.map\<close> throws).
\<close>

definition recovery_wire :: "recovery_env \<Rightarrow> string option" where
  "recovery_wire env =
     (case island env of
        None \<Rightarrow> None
      | Some s \<Rightarrow>
          if \<not> has_download env then None
          else (case JSON_parse s of
                  JSON_Value (JArr ks) \<Rightarrow> Some (keys_text ks)
                | _ \<Rightarrow> None))"

definition all_keys_label :: string where
  "all_keys_label = ''Copy All Keys''"

fun recovery_exec :: "recovery_action \<Rightarrow> recovery_loop \<Rightarrow> recovery_loop" where
  "recovery_exec RestoreLabel l = change_world (\<lambda>w. w\<lparr>copy_label := all_keys_label\<rparr>) l"

fun recovery_handle :: "recovery_env \<Rightarrow> recovery_event \<Rightarrow> recovery_loop \<Rightarrow> recovery_loop" where
  "recovery_handle env ClickDownload l =
     (case recovery_wire env of
        None \<Rightarrow> l
      | Some text \<Rightarrow>
          change_world (\<lambda>w. w\<lparr>downloads := downloads w @ [(''caslink-recovery-keys.txt'', text)]\<rparr>) l)"
| "recovery_handle env ClickCopy l =
     (case recovery_wire env of
        None \<Rightarrow> l
      | Some text \<Rightarrow>
          if has_copy env \<and> clipboard_writes env
          then setTimeout RestoreLabel 2000
                 (change_world (\<lambda>w. w\<lparr>copied := Some text, copy_label := ''Copied!''\<rparr>) l)
          else l)"
| "recovery_handle env ToggleConfirmed l =
     (let l1 = change_world (\<lambda>w. w\<lparr>confirmed_checked := \<not> confirmed_checked w\<rparr>) l
      in if recovery_wire env \<noteq> None \<and> has_confirm env
         then change_world (\<lambda>w. w\<lparr>continue_disabled := \<not> confirmed_checked w\<rparr>) l1 else l1)"

interpretation recovery: one_shot_client recovery_exec
proof unfold_locales
  fix a :: recovery_action and l :: recovery_loop
  show "timers (recovery_exec a l) = timers l" and "now (recovery_exec a l) = now l" by (cases a; simp)+
qed

definition recovery_wait :: "nat \<Rightarrow> recovery_loop \<Rightarrow> recovery_loop" where
  "recovery_wait t l = the (wait recovery_exec one_shot_weight t l)"

fun recovery_session :: "recovery_env \<Rightarrow> (nat \<times> recovery_event) list \<Rightarrow> recovery_loop \<Rightarrow> recovery_loop" where
  "recovery_session env [] l = l"
| "recovery_session env ((t, e) # es) l =
     recovery_session env es (recovery_handle env e (recovery_wait t l))"

section \<open>Reading the text back\<close>

text \<open>One line of the text, without its number.\<close>

definition line_key :: "string \<Rightarrow> string" where
  "line_key s = drop 2 (dropWhile is_digit s)"

lemma line_key_numbered [simp]: "line_key (numbered i k) = k"
proof -
  have "dropWhile is_digit (show_nat (i + 1) @ ''. '' @ k) = ''. '' @ k"
    using show_nat_digits by (subst dropWhile_append2) (auto simp: is_digit_def)
  then show ?thesis by (simp add: line_key_def numbered_def)
qed

lemma numbered_no_newline: "newline \<notin> set k \<Longrightarrow> newline \<notin> set (numbered i k)"
  using show_nat_digits [of newline "i + 1"] by (auto simp: numbered_def is_digit_def)

lemma keys_text_lines:
  assumes "ks \<noteq> []" and "\<forall>k\<in>set ks. newline \<notin> set k"
  shows "split_on newline (keys_text (map JStr ks)) = map (\<lambda>i. numbered i (ks ! i)) [0..<length ks]"
proof -
  have eq: "keys_text (map JStr ks) = join_with [newline] (map (\<lambda>i. numbered i (ks ! i)) [0..<length ks])"
    unfolding keys_text_def by (rule arg_cong [where f = "join_with [newline]"]) simp
  show ?thesis unfolding eq
  proof (rule split_join)
    show "newline \<notin> set x" if "x \<in> set (map (\<lambda>i. numbered i (ks ! i)) [0..<length ks])" for x
      using that assms(2) numbered_no_newline by (metis (no_types, lifting) atLeastLessThan_iff imageE list.set_map nth_mem set_upt)
  qed (use assms(1) in simp)
qed

section \<open>The copy button\<close>

text \<open>After a copy at \<open>t\<close>, either the text is back or a timer due by \<open>t + 2000\<close> will bring it back.\<close>

definition label_due :: "nat \<Rightarrow> recovery_loop \<Rightarrow> bool" where
  "label_due d l \<longleftrightarrow> (\<forall>x\<in>set (timers l). fst x \<le> d) \<and>
     (timers l = [] \<longrightarrow> copy_label (world l) = all_keys_label)"

lemma label_due_wait:
  assumes "label_due d l"
  shows "label_due d (recovery_wait t l)"
    and "d \<le> t \<Longrightarrow> copy_label (world (recovery_wait t l)) = all_keys_label"
proof -
  obtain l' where l': "wait recovery_exec one_shot_weight t l = Some l'" using recovery.wait_returns by blast
  have eq: "recovery_wait t l = l'" using l' by (simp add: recovery_wait_def)
  have "label_due d l'"
  proof (rule recovery.wait_invariant [OF l', where P = "label_due d"])
    show "label_due d (recovery_exec a (m\<lparr>now := max (now m) e, timers := q\<rparr>))"
      if "label_due d m" "timers m = (e, a) # q" for m e a q
      using that by (cases a) (simp add: label_due_def)
  qed (use assms in \<open>simp_all add: label_due_def\<close>)
  then show "label_due d (recovery_wait t l)" and "d \<le> t \<Longrightarrow> copy_label (world (recovery_wait t l)) = all_keys_label"
    using recovery.wait_done [OF l'] by (auto simp: eq label_due_def) (cases "timers l'"; fastforce)
qed

lemma recovery_wait_now: "now (recovery_wait t l) = max (now l) t"
  using recovery.wait_returns recovery.wait_now by (metis option.sel recovery_wait_def)

lemma label_due_mono: "label_due d l \<Longrightarrow> d \<le> e \<Longrightarrow> label_due e l"
  by (auto simp: label_due_def)

lemma label_due_handle:
  "label_due (now l + 2000) l \<Longrightarrow>
     label_due (now (recovery_handle env e l) + 2000) (recovery_handle env e l)"
  by (cases e) (auto simp: label_due_def Let_def split: option.splits)

lemma label_due_session:
  "label_due (now l + 2000) l \<Longrightarrow> label_due (now (recovery_session env es l) + 2000) (recovery_session env es l)"
proof (induction es arbitrary: l)
  case (Cons te es)
  obtain t e where te: "te = (t, e)" by force
  have "label_due (now (recovery_wait t l) + 2000) (recovery_wait t l)"
    using label_due_mono [OF label_due_wait(1) [OF Cons.prems], of "now (recovery_wait t l) + 2000"]
    by (simp add: recovery_wait_now)
  then show ?case using Cons.IH label_due_handle te by simp
qed simp

section \<open>Properties\<close>

text \<open>
  C39 (no key is lost on the way to the file). When the island holds the server's keys as JSON, a click on Download saves one
  file whose lines, without their numbers, are the keys in order, whatever characters other
  than a line break they contain.
\<close>

theorem download_has_every_key:
  assumes "island env = Some (stringify (JArr (map JStr ks)))" and "has_download env"
    and "ks \<noteq> []" and "\<forall>k\<in>set ks. newline \<notin> set k"
  shows "\<exists>text. downloads (world (recovery_handle env ClickDownload l))
      = downloads (world l) @ [(''caslink-recovery-keys.txt'', text)] \<and>
    map line_key (split_on newline text) = ks"
proof -
  have wire: "recovery_wire env = Some (keys_text (map JStr ks))"
    using assms(1,2) JSON_parse_stringify [of "JArr (map JStr ks)"] by (simp add: recovery_wire_def del: stringify.simps)
  have "map line_key (split_on newline (keys_text (map JStr ks))) = ks"
    unfolding keys_text_lines [OF assms(3,4)] by (simp add: o_def map_nth)
  then show ?thesis using wire by simp
qed

definition example_recovery_env :: recovery_env where
  "example_recovery_env =
     \<lparr>island = Some (stringify (JArr (map JStr [''a1-b2'', ''c3-d4'']))), has_download = True,
      has_copy = True, has_confirm = True, clipboard_writes = True\<rparr>"

definition example_recovery_page :: recovery_loop where
  "example_recovery_page =
     \<lparr>now = 0, timers = [],
      world = \<lparr>downloads = [], copied = None, copy_label = ''Copy All Keys'',
               confirmed_checked = False, continue_disabled = True\<rparr>\<rparr>"

theorem download_has_every_key_witness:
  "\<exists>text. downloads (world (recovery_handle example_recovery_env ClickDownload example_recovery_page))
      = [(''caslink-recovery-keys.txt'', text)] \<and>
    map line_key (split_on newline text) = [''a1-b2'', ''c3-d4'']"
  using download_has_every_key [of example_recovery_env "[''a1-b2'', ''c3-d4'']" example_recovery_page]
  by (simp add: example_recovery_env_def example_recovery_page_def)

text \<open>
  C22 (the copy button always recovers). Whatever is clicked and whenever, two seconds after the last event at the latest
  the button reads Copy All Keys again: its label is a constant, so quick clicks do no harm
  here.
\<close>

theorem copy_all_keys_recovers:
  assumes "timers l = []" and "copy_label (world l) = all_keys_label"
    and "now (recovery_session env es l) + 2000 \<le> t"
  shows "copy_label (world (recovery_wait t (recovery_session env es l))) = all_keys_label"
proof -
  have "label_due (now l + 2000) l" using assms(1,2) by (simp add: label_due_def)
  then show ?thesis using label_due_wait(2) [OF label_due_session] assms(3) by blast
qed

theorem copy_all_keys_recovers_witness:
  "copy_label (world (recovery_wait 9999
     (recovery_session example_recovery_env [(100, ClickCopy), (300, ClickCopy)] example_recovery_page))) = ''Copy All Keys''"
proof -
  have "now (recovery_session example_recovery_env [(100, ClickCopy), (300, ClickCopy)] example_recovery_page) = 300"
    by (simp add: recovery_wait_now example_recovery_page_def split: option.splits)
  then show ?thesis
    using copy_all_keys_recovers [of example_recovery_page example_recovery_env "[(100, ClickCopy), (300, ClickCopy)]" 9999]
    by (simp add: example_recovery_page_def all_keys_label_def)
qed

end
