(* ===== verification/Base64.thy ===== *)
theory Base64
  imports Codec JSStrings "HOL-Library.Word"
begin

text \<open>
  \<open>btoa\<close> and \<open>atob\<close> of the browser, and the base64url conversions \<open>bufferEncode\<close> and
  \<open>bufferDecode\<close> that \<^verbatim>\<open>src/server/tmpl/static/js/app.js\<close> builds on them for the
  passkey messages. The bytes of a buffer are words of 8 bits, a binary string is a string.
\<close>

section \<open>Digits\<close>

text \<open>The alphabet: A to Z, a to z, 0 to 9, plus and slash.\<close>

definition b64_digit :: "nat \<Rightarrow> char" where
  "b64_digit n =
     (if n < 26 then char_of (65 + n)
      else if n < 52 then char_of (71 + n)
      else if n < 62 then char_of (n - 4)
      else if n = 62 then CHR ''+''
      else CHR ''/'')"

definition b64_value :: "char \<Rightarrow> nat option" where
  "b64_value c =
     (if is_upper c then Some (code c - 65)
      else if is_lower c then Some (code c - 71)
      else if is_digit c then Some (code c + 4)
      else if c = CHR ''+'' then Some 62
      else if c = CHR ''/'' then Some 63
      else None)"

section \<open>btoa\<close>

fun btoa :: "string \<Rightarrow> string" where
  "btoa (a # b # c # s) =
     b64_digit (code a div 4) # b64_digit (code a mod 4 * 16 + code b div 16) #
     b64_digit (code b mod 16 * 4 + code c div 64) # b64_digit (code c mod 64) # btoa s"
| "btoa [a, b] =
     [b64_digit (code a div 4), b64_digit (code a mod 4 * 16 + code b div 16),
      b64_digit (code b mod 16 * 4), CHR ''='']"
| "btoa [a] = [b64_digit (code a div 4), b64_digit (code a mod 4 * 16), CHR ''='', CHR ''='']"
| "btoa [] = []"

section \<open>atob\<close>

text \<open>\<open>None\<close> is the InvalidCharacterError.\<close>

definition b64_space :: "char \<Rightarrow> bool" where
  "b64_space c \<longleftrightarrow> code c \<in> {9, 10, 12, 13, 32}"

definition drop_padding :: "string \<Rightarrow> string" where
  "drop_padding s =
     (if length s mod 4 \<noteq> 0 \<or> s = [] \<or> last s \<noteq> CHR ''='' then s
      else if butlast s \<noteq> [] \<and> last (butlast s) = CHR ''='' then butlast (butlast s)
      else butlast s)"

fun b64_groups :: "nat list \<Rightarrow> string" where
  "b64_groups (a # b # c # d # s) =
     char_of (a * 4 + b div 16) # char_of (b mod 16 * 16 + c div 4) # char_of (c mod 4 * 64 + d) # b64_groups s"
| "b64_groups [a, b, c] = [char_of (a * 4 + b div 16), char_of (b mod 16 * 16 + c div 4)]"
| "b64_groups [a, b] = [char_of (a * 4 + b div 16)]"
| "b64_groups _ = []"

definition atob :: "string \<Rightarrow> string option" where
  "atob s0 =
     (let s = drop_padding (filter (\<lambda>c. \<not> b64_space c) s0)
      in if length s mod 4 = 1 then None else map_option b64_groups (those (map b64_value s)))"

section \<open>The buffer conversions\<close>

definition subst_char :: "char \<Rightarrow> char \<Rightarrow> string \<Rightarrow> string" where
  "subst_char a b s = map (\<lambda>c. if c = a then b else c) s"

definition bufferDecode :: "string \<Rightarrow> 8 word list option" where
  "bufferDecode value' =
     map_option (map (\<lambda>c. word_of_nat (code c)))
       (atob (subst_char (CHR ''_'') (CHR ''/'') (subst_char hyphen (CHR ''+'') value')))"

definition bufferEncode :: "8 word list \<Rightarrow> string" where
  "bufferEncode bs =
     filter (\<lambda>c. c \<noteq> CHR ''='')
       (subst_char (CHR ''/'') (CHR ''_'') (subst_char (CHR ''+'') hyphen
         (btoa (map (\<lambda>b. char_of (unat b)) bs))))"

section \<open>Decoding what was encoded\<close>

lemma b64_value_digit: "n < 64 \<Longrightarrow> b64_value (b64_digit n) = Some n"
  by (auto simp: b64_value_def b64_digit_def is_upper_def is_lower_def is_digit_def of_char_of)

text \<open>The base64 text without padding.\<close>

fun b64_plain :: "string \<Rightarrow> nat list" where
  "b64_plain (a # b # c # s) =
     code a div 4 # (code a mod 4 * 16 + code b div 16) # (code b mod 16 * 4 + code c div 64) #
     code c mod 64 # b64_plain s"
| "b64_plain [a, b] = [code a div 4, code a mod 4 * 16 + code b div 16, code b mod 16 * 4]"
| "b64_plain [a] = [code a div 4, code a mod 4 * 16]"
| "b64_plain [] = []"

lemma b64_small:
  "code c div 4 < (64::nat)" "code a mod 4 * 16 + code b div 16 < (64::nat)"
  "code b mod 16 * 4 + code c div 64 < (64::nat)" "code b mod 16 * 4 < (64::nat)"
  "code a mod 4 * 16 < (64::nat)" "code c mod 64 < (64::nat)"
proof -
  have "code x < (256::nat)" for x by simp
  then have "code b div 16 < (16::nat)" "code c div 64 < (4::nat)" "code c div 4 < (64::nat)"
    by (simp_all add: less_mult_imp_div_less)
  moreover have "code a mod 4 \<le> (3::nat)" "code b mod 16 \<le> (15::nat)" by (simp_all add: mod_less_eq_dividend less_Suc_eq_le [symmetric])
  ultimately show "code c div 4 < (64::nat)" "code a mod 4 * 16 + code b div 16 < (64::nat)"
    "code b mod 16 * 4 + code c div 64 < (64::nat)" "code b mod 16 * 4 < (64::nat)"
    "code a mod 4 * 16 < (64::nat)" "code c mod 64 < (64::nat)" by simp_all
qed

lemma b64_plain_small: "n \<in> set (b64_plain s) \<Longrightarrow> n < 64"
  by (induction s rule: b64_plain.induct) (auto simp: b64_small)

lemma digit_not_padding: "n < 64 \<Longrightarrow> b64_digit n \<noteq> CHR ''=''"
  using b64_value_digit [of n] by (auto simp: b64_value_def is_upper_def is_lower_def is_digit_def split: if_splits)

lemma btoa_plain: "filter (\<lambda>c. c \<noteq> CHR ''='') (btoa s) = map b64_digit (b64_plain s)"
  by (induction s rule: btoa.induct) (simp_all add: digit_not_padding b64_small)

lemma groups_plain: "b64_groups (b64_plain s) = s"
proof -
  have 1: "code a div 4 * 4 + (code a mod 4 * 16 + r) div 16 = (code a :: nat)" if "r < 16" for a r
    using that by simp
  have 2: "(x * 16 + code b div 16) mod 16 * 16 + (code b mod 16 * 4 + r) div 4 = (code b :: nat)" if "r < 4" for x b r
  proof -
    have "code b div 16 < (16::nat)" by (simp add: less_mult_imp_div_less)
    then show ?thesis using that by simp
  qed
  have 3: "(x * 4 + code c div 64) mod 4 * 64 + code c mod 64 = (code c :: nat)" for x c
  proof -
    have "code c div 64 < (4::nat)" by (simp add: less_mult_imp_div_less)
    then show ?thesis by simp
  qed
  have lt: "code b div 16 < (16::nat)" "code c div 64 < (4::nat)" for b c by (simp_all add: less_mult_imp_div_less)
  show ?thesis
    by (induction s rule: b64_plain.induct)
      (simp_all only: b64_plain.simps b64_groups.simps 1 2 3 lt 1 [of 0, simplified add_0_right] 2 [of 0, simplified add_0_right]
        char_of_char zero_less_numeral list.inject)
qed

lemma length_b64_plain: "length (b64_plain s) mod 4 \<noteq> 1"
  by (induction s rule: b64_plain.induct) simp_all

text \<open>The characters of the alphabet, and the two that are replaced for URLs.\<close>

definition url_safe :: "char \<Rightarrow> bool" where
  "url_safe c \<longleftrightarrow> is_lower c \<or> is_upper c \<or> is_digit c \<or> c = hyphen \<or> c = CHR ''_''"

lemma b64_digit_char:
  assumes "n < 64"
  shows "is_lower (b64_digit n) \<or> is_upper (b64_digit n) \<or> is_digit (b64_digit n) \<or>
    b64_digit n = CHR ''+'' \<or> b64_digit n = CHR ''/''"
  using b64_value_digit [OF assms] by (auto simp: b64_value_def split: if_splits)

lemma b64_digit_not:
  assumes "n < 64"
  shows "b64_digit n \<noteq> hyphen" and "b64_digit n \<noteq> CHR ''_''" and "\<not> b64_space (b64_digit n)"
  using b64_digit_char [OF assms]
  by (auto simp: is_lower_def is_upper_def is_digit_def b64_space_def)

lemma atob_digits:
  assumes "\<And>n. n \<in> set ds \<Longrightarrow> n < 64" and "length ds mod 4 \<noteq> 1"
  shows "atob (map b64_digit ds) = Some (b64_groups ds)"
proof -
  have "filter (\<lambda>c. \<not> b64_space c) (map b64_digit ds) = map b64_digit ds"
    using assms(1) b64_digit_not(3) by (intro filter_True) auto
  moreover have "drop_padding (map b64_digit ds) = map b64_digit ds"
    using assms(1) digit_not_padding by (cases ds rule: rev_cases) (auto simp: drop_padding_def)
  moreover have "those (map b64_value (map b64_digit ds)) = Some ds"
    using assms(1) by (induction ds) (simp_all add: b64_value_digit)
  ultimately show ?thesis using assms(2) by (simp add: atob_def Let_def)
qed

lemma filter_subst_char:
  "a \<noteq> x \<Longrightarrow> b \<noteq> x \<Longrightarrow> filter (\<lambda>c. c \<noteq> x) (subst_char a b s) = subst_char a b (filter (\<lambda>c. c \<noteq> x) s)"
  by (induction s) (auto simp: subst_char_def)

lemma bufferEncode_digits:
  "bufferEncode bs = subst_char (CHR ''/'') (CHR ''_'') (subst_char (CHR ''+'') hyphen
     (map b64_digit (b64_plain (map (\<lambda>b. char_of (unat b)) bs))))"
  by (simp add: bufferEncode_def filter_subst_char btoa_plain)

lemma subst_back:
  "CHR ''_'' \<notin> set s \<Longrightarrow> hyphen \<notin> set s \<Longrightarrow>
     subst_char (CHR ''_'') (CHR ''/'') (subst_char hyphen (CHR ''+'')
       (subst_char (CHR ''/'') (CHR ''_'') (subst_char (CHR ''+'') hyphen s))) = s"
  by (induction s) (auto simp: subst_char_def)

lemma unat_byte: "unat (b :: 8 word) mod 256 = unat b"
proof -
  have "unat b < 2 ^ LENGTH(8)" by (rule unsigned_less)
  then show ?thesis by simp
qed

lemma plain_digits: "c \<in> set (map b64_digit (b64_plain s)) \<Longrightarrow> \<exists>n<64. c = b64_digit n"
  using b64_plain_small by auto

interpretation base64url: codec bufferEncode bufferDecode
proof unfold_locales
  fix bs :: "8 word list"
  let ?s = "map (\<lambda>b. char_of (unat b)) bs"
  let ?t = "map b64_digit (b64_plain ?s)"
  have "CHR ''_'' \<notin> set ?t" and "hyphen \<notin> set ?t"
    using plain_digits b64_digit_not(1,2) by metis+
  then have "bufferDecode (bufferEncode bs) = map_option (map (\<lambda>c. word_of_nat (code c))) (atob ?t)"
    by (simp add: bufferDecode_def bufferEncode_digits subst_back)
  also have "atob ?t = Some ?s"
    using atob_digits [OF b64_plain_small length_b64_plain, of ?s] groups_plain by simp
  finally show "bufferDecode (bufferEncode bs) = Some bs" by (simp add: o_def of_char_of unat_byte)
qed

lemma url_safe_digit:
  "n < 64 \<Longrightarrow> c = b64_digit n \<Longrightarrow>
     url_safe (if c = CHR ''+'' then hyphen else if c = CHR ''/'' then CHR ''_'' else c)"
  using b64_digit_char [of n] by (simp add: url_safe_def) blast

lemma bufferEncode_url_safe: "list_all url_safe (bufferEncode bs)"
proof -
  have eq: "bufferEncode bs = map (\<lambda>c. if c = CHR ''+'' then hyphen else if c = CHR ''/'' then CHR ''_'' else c)
      (map b64_digit (b64_plain (map (\<lambda>b. char_of (unat b)) bs)))"
    unfolding bufferEncode_digits subst_char_def map_map by (rule map_cong) simp_all
  show ?thesis unfolding eq list_all_iff
    using plain_digits url_safe_digit by (metis (no_types, lifting) imageE list.set_map)
qed

section \<open>Properties\<close>

text \<open>
  C28 (the passkey buffers survive the transport). Whatever the bytes, decoding the encoded buffer gives them back, and the encoding
  needs no escaping in a URL or a JSON text: it has letters, digits, hyphens and underscores
  only, and no padding.
\<close>

theorem buffer_roundtrip:
  "bufferDecode (bufferEncode bs) = Some bs \<and> list_all url_safe (bufferEncode bs)"
  using base64url.dec_enc bufferEncode_url_safe by blast

end
