(* ===== verification/Passkeys.thy ===== *)
theory Passkeys
  imports Base64 JSON EventLoop
begin

text \<open>
  The passkey registration of \<^verbatim>\<open>src/server/tmpl/static/js/app.js\<close>: the chain of promises
  that a click on the button starts. The two responses and the authenticator are the
  environment's; every message the engine itself throws (a TypeError, a refused credential, a
  failed fetch) is the environment's too. The ellipses of the texts are single characters in
  the source.
\<close>

section \<open>State\<close>

record credential =
  cred_id :: string
  raw_id :: "8 word list"
  cred_type :: string
  attestation_object :: "8 word list"
  client_data_json :: "8 word list"

record passkey_options =
  challenge :: "8 word list"
  user_id :: "8 word list"
  exclude :: "(8 word list \<times> json option \<times> json option) list option"

text \<open>What \<open>r.json()\<close> gives: the body, or a rejection with the engine's message.\<close>

type_synonym json_response = "string + json"

record passkey_env =
  has_webauthn :: bool
  begin_response :: json_response
  authenticator :: "passkey_options \<Rightarrow> string + credential"
  finish_response :: json_response
  engine_message :: string

record passkey_page =
  name_input :: string
  btn_disabled :: bool
  btn_label :: string
  reg_status :: "(string \<times> string) option"
  finish_requests :: "(string \<times> string) list"
  reloads :: nat

datatype passkey_action = Reload

type_synonym passkey_loop = "(passkey_page, passkey_action) event_loop"

section \<open>The promise chain\<close>

text \<open>\<open>v.k\<close> where \<open>v\<close> may be undefined.\<close>

definition js_prop :: "string \<Rightarrow> json option \<Rightarrow> string \<Rightarrow> string + json option" where
  "js_prop e v k =
     (case v of None \<Rightarrow> Inl e | Some j \<Rightarrow> (case get_prop j k of None \<Rightarrow> Inl e | Some x \<Rightarrow> Inr x))"

text \<open>\<open>if (!body.ok) throw new Error(body.message || body.error)\<close>\<close>

definition check_ok :: "string \<Rightarrow> json \<Rightarrow> string + json" where
  "check_ok e body =
     then_try (js_prop e (Some body) ''ok'') (\<lambda>ok.
       if truthy_opt ok then Inr body
       else then_try (js_prop e (Some body) ''message'') (\<lambda>m.
         if truthy_opt m then Inl (js_text (the m))
         else then_try (js_prop e (Some body) ''error'') (\<lambda>x.
           Inl (case x of None \<Rightarrow> [] | Some v \<Rightarrow> js_text v))))"

definition decode_field :: "string \<Rightarrow> json option \<Rightarrow> string + 8 word list" where
  "decode_field e v =
     (case v of
        Some (JStr s) \<Rightarrow> (case bufferDecode s of None \<Rightarrow> Inl e | Some b \<Rightarrow> Inr b)
      | _ \<Rightarrow> Inl e)"

fun decode_excluded :: "string \<Rightarrow> json list \<Rightarrow> string + (8 word list \<times> json option \<times> json option) list" where
  "decode_excluded e [] = Inr []"
| "decode_excluded e (c # cs) =
     then_try (js_prop e (Some c) ''id'') (\<lambda>i.
     then_try (decode_field e i) (\<lambda>b.
     then_try (js_prop e (Some c) ''type'') (\<lambda>t.
     then_try (js_prop e (Some c) ''transports'') (\<lambda>tr.
     then_try (decode_excluded e cs) (\<lambda>rest. Inr ((b, t, tr) # rest))))))"

definition decode_options :: "string \<Rightarrow> json \<Rightarrow> string + passkey_options" where
  "decode_options e body =
     then_try (js_prop e (Some body) ''data'') (\<lambda>opts.
     then_try (js_prop e opts ''publicKey'') (\<lambda>pk.
     then_try (js_prop e pk ''challenge'') (\<lambda>c.
     then_try (decode_field e c) (\<lambda>chal.
     then_try (js_prop e pk ''user'') (\<lambda>u.
     then_try (js_prop e u ''id'') (\<lambda>i.
     then_try (decode_field e i) (\<lambda>uid.
     then_try (js_prop e pk ''excludeCredentials'') (\<lambda>ex.
       if truthy_opt ex then
         (case the ex of
            JArr cs \<Rightarrow> then_try (decode_excluded e cs) (\<lambda>xs.
              Inr \<lparr>challenge = chal, user_id = uid, exclude = Some xs\<rparr>)
          | _ \<Rightarrow> Inl e)
       else Inr \<lparr>challenge = chal, user_id = uid, exclude = None\<rparr>))))))))"

definition finish_body :: "credential \<Rightarrow> json" where
  "finish_body cred =
     JObj [(''id'', JStr (cred_id cred)),
           (''rawId'', JStr (bufferEncode (raw_id cred))),
           (''type'', JStr (cred_type cred)),
           (''response'', JObj [
             (''attestationObject'', JStr (bufferEncode (attestation_object cred))),
             (''clientDataJSON'', JStr (bufferEncode (client_data_json cred)))])]"

definition finish_request :: "string \<Rightarrow> credential \<Rightarrow> string \<times> string" where
  "finish_request name cred =
     (''/users/passkeys/finish-register?name='' @ encodeURIComponent name, stringify (finish_body cred))"

text \<open>The requests sent to finish, and the end of the chain: success, or the caught message.\<close>

definition register_chain :: "passkey_env \<Rightarrow> string \<Rightarrow> (string \<times> string) list \<times> (string + unit)" where
  "register_chain env name =
     (let e = engine_message env
      in case then_try (begin_response env) (\<lambda>body.
                then_try (check_ok e body) (\<lambda>body.
                then_try (decode_options e body) (authenticator env))) of
           Inl msg \<Rightarrow> ([], Inl msg)
         | Inr cred \<Rightarrow>
             ([finish_request name cred],
              then_try (finish_response env) (\<lambda>body. then_try (check_ok e body) (\<lambda>_. Inr ()))))"

section \<open>The handlers\<close>

definition register_label :: string where
  "register_label = ''Register Passkey''"

definition show_status :: "string \<Rightarrow> string \<Rightarrow> passkey_page \<Rightarrow> passkey_page" where
  "show_status type msg p =
     p\<lparr>reg_status := Some (if type = ''error'' then ''danger'' else ''success'', msg)\<rparr>"

definition passkey_ready :: "passkey_env \<Rightarrow> passkey_page \<Rightarrow> passkey_page" where
  "passkey_ready env p =
     (if \<not> has_webauthn env
      then show_status ''error''
             ''Your browser does not support passkeys. Try Chrome, Safari 16+, Firefox 119+, or Edge.''
             (p\<lparr>btn_disabled := True\<rparr>)
      else p)"

definition register_click :: "passkey_env \<Rightarrow> passkey_loop \<Rightarrow> passkey_loop" where
  "register_click env l =
     (if btn_disabled (world l) then l
      else
        let name = js_or (Some (js_trim (name_input (world l)))) ''Passkey'';
            l1 = change_world (\<lambda>p. p\<lparr>btn_disabled := True, btn_label := ''Waiting for authenticator...''\<rparr>) l;
            (requests, result) = register_chain env name;
            l2 = change_world (\<lambda>p. p\<lparr>finish_requests := finish_requests p @ requests\<rparr>) l1
        in case result of
             Inr _ \<Rightarrow>
               setTimeout Reload 1200
                 (change_world (show_status ''success'' ''Passkey registered successfully. Refreshing...'') l2)
           | Inl msg \<Rightarrow>
               change_world (\<lambda>p. (show_status ''error''
                   (js_or (Some msg) ''Registration failed. Please try again.'') p)
                 \<lparr>btn_disabled := False, btn_label := register_label\<rparr>) l2)"

fun passkey_exec :: "passkey_action \<Rightarrow> passkey_loop \<Rightarrow> passkey_loop" where
  "passkey_exec Reload l = change_world (\<lambda>p. p\<lparr>reloads := reloads p + 1\<rparr>) l"

interpretation passkey: one_shot_client passkey_exec
proof unfold_locales
  fix a :: passkey_action and l :: passkey_loop
  show "timers (passkey_exec a l) = timers l" and "now (passkey_exec a l) = now l" by (cases a; simp)+
qed

definition passkey_wait :: "nat \<Rightarrow> passkey_loop \<Rightarrow> passkey_loop" where
  "passkey_wait t l = the (wait passkey_exec one_shot_weight t l)"

section \<open>The formats as codecs\<close>

interpretation uri_component: codec encodeURIComponent
  "\<lambda>s. case decodeURIComponent s of Decoded t \<Rightarrow> Some t | _ \<Rightarrow> None"
  by unfold_locales simp

definition json_string :: "json \<Rightarrow> string option" where
  "json_string j = (case j of JStr s \<Rightarrow> Some s | _ \<Rightarrow> None)"

interpretation buffer_field: codec_chain JStr json_string bufferEncode bufferDecode
  by unfold_locales (simp add: json_string_def)

text \<open>A credential as the receiver of the request reads it.\<close>

definition json_field :: "string \<Rightarrow> json \<Rightarrow> json option" where
  "json_field k j = (case get_prop j k of Some (Some v) \<Rightarrow> Some v | _ \<Rightarrow> None)"

definition bytes_field :: "string \<Rightarrow> json \<Rightarrow> 8 word list option" where
  "bytes_field k j = Option.bind (json_field k j) (\<lambda>v. Option.bind (json_string v) bufferDecode)"

definition read_credential :: "json \<Rightarrow> credential option" where
  "read_credential j =
     Option.bind (json_field ''response'' j) (\<lambda>r.
       case (Option.bind (json_field ''id'' j) json_string, bytes_field ''rawId'' j,
             Option.bind (json_field ''type'' j) json_string,
             bytes_field ''attestationObject'' r, bytes_field ''clientDataJSON'' r) of
         (Some i, Some raw, Some t, Some att, Some cl) \<Rightarrow>
           Some \<lparr>cred_id = i, raw_id = raw, cred_type = t, attestation_object = att, client_data_json = cl\<rparr>
       | _ \<Rightarrow> None)"

lemma read_finish_body: "read_credential (finish_body cred) = Some cred"
  by (simp add: read_credential_def finish_body_def json_field_def bytes_field_def json_string_def
      base64url.dec_enc)

text \<open>The options as the server sends them.\<close>

definition options_json :: "passkey_options \<Rightarrow> json" where
  "options_json o' =
     JObj [(''publicKey'', JObj ([
       (''challenge'', JStr (bufferEncode (challenge o'))),
       (''user'', JObj [(''id'', JStr (bufferEncode (user_id o')))])] @
       (case exclude o' of None \<Rightarrow> []
        | Some xs \<Rightarrow> [(''excludeCredentials'', JArr (map (\<lambda>(b, t, tr).
            JObj ([(''id'', JStr (bufferEncode b))] @
              (case t of None \<Rightarrow> [] | Some v \<Rightarrow> [(''type'', v)]) @
              (case tr of None \<Rightarrow> [] | Some v \<Rightarrow> [(''transports'', v)]))) xs))])))]"

lemma decode_field_encoded [simp]: "decode_field e (Some (JStr (bufferEncode b))) = Inr b"
  by (simp add: decode_field_def base64url.dec_enc)

lemma decode_excluded_sent:
  "decode_excluded e (map (\<lambda>(b, t, tr).
      JObj ([(''id'', JStr (bufferEncode b))] @
        (case t of None \<Rightarrow> [] | Some v \<Rightarrow> [(''type'', v)]) @
        (case tr of None \<Rightarrow> [] | Some v \<Rightarrow> [(''transports'', v)]))) xs) = Inr xs"
  by (induction xs) (auto simp: js_prop_def split: option.splits)

lemma decode_options_sent:
  "decode_options e (JObj [(''ok'', JBool True), (''data'', options_json o')]) = Inr o'"
proof (cases "exclude o'")
  case None
  then show ?thesis by (simp add: decode_options_def options_json_def js_prop_def truthy_opt_def)
next
  case (Some xs)
  then show ?thesis
    by (simp add: decode_options_def options_json_def js_prop_def truthy_opt_def decode_excluded_sent [simplified])
qed

section \<open>Properties\<close>


definition example_credential :: credential where
  "example_credential =
     \<lparr>cred_id = ''AQID'', raw_id = [1, 2, 3], cred_type = ''public-key'',
      attestation_object = [255, 0], client_data_json = [123, 125]\<rparr>"

definition example_passkey_env :: passkey_env where
  "example_passkey_env =
     \<lparr>has_webauthn = True,
      begin_response = Inr (JObj [(''ok'', JBool True),
        (''data'', options_json \<lparr>challenge = [7, 200], user_id = [9], exclude = None\<rparr>)]),
      authenticator = (\<lambda>o'. if challenge o' = [7, 200] then Inr example_credential else Inl ''no''),
      finish_response = Inr (JObj [(''ok'', JBool True)]), engine_message = ''TypeError''\<rparr>"

definition example_passkey :: passkey_loop where
  "example_passkey =
     \<lparr>now = 0, timers = [],
      world = \<lparr>name_input = '' my key '', btn_disabled = False, btn_label = ''Register Passkey'',
               reg_status = None, finish_requests = [], reloads = 0\<rparr>\<rparr>"


text \<open>
  C33 (a click ends in one of two ways). A click on the enabled button either ends in success, and then the button stays
  disabled, a success message is shown and the page reloads 1200 ms later, or it fails at some
  step, and then an error message that is not empty is shown, the button is enabled again under
  its own label and nothing is scheduled.
\<close>

theorem registration_click_ends:
  assumes "\<not> btn_disabled (world l)" and "timers l = []"
    and "name = js_or (Some (js_trim (name_input (world l)))) ''Passkey''"
  shows "case snd (register_chain env name) of
      Inr _ \<Rightarrow> btn_disabled (world (register_click env l)) \<and>
        fst (the (reg_status (world (register_click env l)))) = ''success'' \<and>
        reloads (world (passkey_wait (now l + 1200) (register_click env l))) = reloads (world l) + 1 \<and>
        (\<forall>t < now l + 1200. reloads (world (passkey_wait t (register_click env l))) = reloads (world l))
    | Inl msg \<Rightarrow> \<not> btn_disabled (world (register_click env l)) \<and>
        btn_label (world (register_click env l)) = ''Register Passkey'' \<and>
        reg_status (world (register_click env l)) = Some (''danger'', js_or (Some msg) ''Registration failed. Please try again.'') \<and>
        timers (register_click env l) = []"
proof (cases "snd (register_chain env name)")
  case (Inl msg)
  then show ?thesis using assms unfolding register_click_def assms(3) [symmetric]
    by (cases "register_chain env name") (simp add: Let_def show_status_def register_label_def)
next
  case (Inr u)
  let ?l = "register_click env l"
  have l: "btn_disabled (world ?l)" "timers ?l = [(now l + 1200, Reload)]" "reloads (world ?l) = reloads (world l)"
    "now ?l = now l" "fst (the (reg_status (world ?l))) = ''success''"
    using Inr assms unfolding register_click_def assms(3) [symmetric]
    by (cases "register_chain env name"; simp add: Let_def show_status_def)+
  have late: "reloads (world (passkey_wait (now l + 1200) ?l)) = reloads (world l) + 1"
    using passkey.wait_fires [OF l(2)] l(3) by (simp add: passkey_wait_def passkey.wait_idle)
  have early: "reloads (world (passkey_wait t ?l)) = reloads (world l)" if "t < now l + 1200" for t
    using passkey.wait_early [OF l(2) that] l(3) by (simp add: passkey_wait_def)
  show ?thesis using Inr l late early by simp
qed

theorem registration_click_ends_witness:
  "reloads (world (passkey_wait 1200 (register_click example_passkey_env example_passkey))) = 1"
proof -
  have "snd (register_chain example_passkey_env ''my key'') = Inr ()"
    by (simp add: register_chain_def example_passkey_env_def decode_options_sent check_ok_def js_prop_def
        truthy_opt_def Let_def)
  moreover have "js_or (Some (js_trim (name_input (world example_passkey)))) ''Passkey'' = ''my key''"
    by (simp add: example_passkey_def eval_simps)
  ultimately show ?thesis
    using registration_click_ends [of example_passkey "''my key''" example_passkey_env]
    by (simp add: example_passkey_def)
qed

end
