(* ===== verification/Consent.thy ===== *)
theory Consent
  imports CookieHeader GoURL JSON
begin

text \<open>
  Cookie consent, end to end: the banner's forms in \<^verbatim>\<open>src/server/tmpl/static/js/app.js\<close>,
  the handler \<open>Consent\<close> with its redirect guard in \<^verbatim>\<open>src/server/handler/pages.go\<close>, and the
  test of the cookie by which \<open>newPageData\<close> (\<^verbatim>\<open>src/server/handler/helpers.go\<close>) decides
  whether a page shows the banner again.
\<close>

section \<open>The server\<close>

record consentState =
  Essential :: bool
  Preferences :: bool
  Analytics :: bool
  Timestamp :: nat

definition consent_json :: "consentState \<Rightarrow> json" where
  "consent_json st =
     JObj [(''essential'', JBool (Essential st)), (''preferences'', JBool (Preferences st)),
           (''analytics'', JBool (Analytics st)), (''timestamp'', JNum (int (Timestamp st)))]"

definition consent_choice :: "(string \<times> string) list \<Rightarrow> nat \<Rightarrow> consentState" where
  "consent_choice form now' =
     (let state = \<lparr>Essential = True, Preferences = False, Analytics = False, Timestamp = now'\<rparr>;
          choice = form_value form ''choice''
      in if choice = ''accept'' then state\<lparr>Preferences := True, Analytics := True\<rparr>
         else if choice = ''save''
           then state\<lparr>Preferences := (form_value form ''preferences'' = ''on''),
                      Analytics := (form_value form ''analytics'' = ''on'')\<rparr>
         else state)"

definition safeConsentRedirect :: "string \<Rightarrow> string" where
  "safeConsentRedirect dest =
     (if list_ex (\<lambda>c. c = CHR 0x5C \<or> c = CHR 0x0D \<or> c = CHR 0x0A) dest then ''/''
      else
        (case Parse dest of
           None \<Rightarrow> ''/''
         | Some u \<Rightarrow>
             if Scheme u \<noteq> [] \<or> Host u \<noteq> [] \<or> \<not> HasPrefix (Path u) ''/'' \<or> HasPrefix (Path u) ''//''
             then ''/'' else RequestURI u))"

datatype consent_response =
    Bad_Request
  | See_Other string set_cookie   \<comment> \<open>the location passed to \<open>http.Redirect\<close>, and the cookie\<close>

definition Consent_handler :: "string \<Rightarrow> nat \<Rightarrow> bool \<Rightarrow> consent_response" where
  "Consent_handler body now' tls =
     (case ParseQuery body of
        None \<Rightarrow> Bad_Request
      | Some form \<Rightarrow>
          See_Other (safeConsentRedirect (form_value form ''redirect''))
            \<lparr>sc_name = ''cookie_consent'', sc_value = QueryEscape (stringify (consent_json (consent_choice form now'))),
             sc_path = ''/'', sc_max_age = 31536000, sc_http_only = False, sc_secure = tls,
             sc_same_site = ''Lax''\<rparr>)"

text \<open>\<open>HasConsentCookie\<close> of a page.\<close>

definition hasConsent :: "string \<Rightarrow> bool" where
  "hasConsent cookies = (request_cookie cookies ''cookie_consent'' \<noteq> None)"

section \<open>The browser\<close>

record banner_page =
  banner_shown :: bool
  plain_submits :: "string list"     \<comment> \<open>the bodies of the fallback navigations\<close>

definition consent_body :: "string \<Rightarrow> string \<Rightarrow> string" where
  "consent_body choice current_path = url_search_params [(''choice'', choice), (''redirect'', current_path)]"

text \<open>
  The submit of a banner form: \<open>reached\<close> tells whether the \<open>fetch\<close> gets a response, of
  whatever status.
\<close>

definition banner_submit :: "bool \<Rightarrow> string \<Rightarrow> string \<Rightarrow> banner_page \<Rightarrow> banner_page" where
  "banner_submit reached choice current_path p =
     (if reached then p\<lparr>banner_shown := False\<rparr>
      else p\<lparr>plain_submits := plain_submits p @ [consent_body choice current_path]\<rparr>)"

text \<open>The exchange: the page and the jar after the request.\<close>

definition consent_exchange :: "bool \<Rightarrow> nat \<Rightarrow> bool \<Rightarrow> string \<Rightarrow> string \<Rightarrow> banner_page \<times> cookie_jar \<Rightarrow> banner_page \<times> cookie_jar" where
  "consent_exchange reached now' tls choice current_path s =
     (banner_submit reached choice current_path (fst s),
      (if reached
       then (case Consent_handler (consent_body choice current_path) now' tls of
               Bad_Request \<Rightarrow> snd s
             | See_Other _ c \<Rightarrow> apply_set_cookie c (snd s))
       else snd s))"

section \<open>Lemmas\<close>

lemma consent_body_parses:
  "ParseQuery (consent_body choice path) = Some [(''choice'', utf8 choice), (''redirect'', utf8 path)]"
proof -
  have "utf8 ''choice'' = ''choice''" "utf8 ''redirect'' = ''redirect''"
    by (simp_all add: utf8_ascii is_ascii_def)
  then show ?thesis by (simp add: consent_body_def ParseQuery_params)
qed

lemma escaped_chars_plain:
  "x \<in> set (QueryEscape s) \<Longrightarrow> cookie_value_byte x \<and> \<not> text_space x \<and> x \<noteq> CHR '';''"
proof -
  assume "x \<in> set (QueryEscape s)"
  then have "is_alnum x \<or> x \<in> set ''-_.~+%''"
    using escape_byte_chars [of x "''-_.~''"] by (auto simp: QueryEscape_def)
  then show ?thesis
    by (auto simp: is_alnum_def is_lower_def is_upper_def is_digit_def cookie_value_byte_def text_space_def)
qed

lemma QueryEscape_plain: "s \<noteq> [] \<Longrightarrow> plain_value (QueryEscape s)"
proof -
  assume "s \<noteq> []"
  then obtain c cs where "s = c # cs" by (cases s) auto
  moreover have "escape_byte plain c \<noteq> []" for plain c by (simp add: escape_byte_def percent_def)
  ultimately show ?thesis using escaped_chars_plain [of _ s] by (auto simp: plain_value_def QueryEscape_def)
qed

lemma stringify_not_Nil: "stringify j \<noteq> []"
  using stringify_hd [of j] by auto

lemma consent_cookie_clean:
  "clean_cookie \<lparr>ck_name = ''cookie_consent'', ck_value = QueryEscape s, ck_http_only = h\<rparr>"
  using escaped_chars_plain [of "CHR '';''" s] by (auto simp: clean_cookie_def js_space_def)

lemma safeConsentRedirect_local: "safeConsentRedirect dest = ''/'' \<or> local_path (safeConsentRedirect dest)"
proof -
  have "local_path (RequestURI u)"
    if "Parse dest = Some u" "Scheme u = []" "prefix ''/'' (Path u)" "\<not> prefix ''//'' (Path u)" for u
  proof -
    note parsed = that
    obtain u0 f r where "parse_url (fst (Cut dest (CHR ''#''))) False = Some u0"
      "u = u0\<lparr>Fragment := f, RawFragment := r\<rparr>"
      using Parse_url [OF parsed(1)] by blast
    then show ?thesis using local_RequestURI [of _ False u0] parsed(2-4) by simp
  qed
  then show ?thesis
    by (auto simp: safeConsentRedirect_def HasPrefix_def split: option.splits)
qed

section \<open>Properties\<close>

text \<open>
  C30 (no open redirect). Whatever the form says, the consent handler redirects to a path of this site: the
  location begins with one slash that neither a slash nor a backslash follows, or with an
  escape, which a browser resolves as a relative path.
\<close>

theorem consent_redirect_is_local:
  "local_path (safeConsentRedirect dest)"
  using safeConsentRedirect_local [of dest] by (auto simp: local_path_def)

text \<open>
  C31 (a choice is remembered). When the request of a banner form gets through, the banner is gone, the jar's cookie
  decodes to the visitor's choice, with the essential cookies always allowed, and the next
  page finds the cookie and shows no banner.
\<close>

theorem consent_remembered:
  assumes "good_jar jr" and "choice = ''accept'' \<or> choice = ''decline''"
    and "(p1, jr1) = consent_exchange True now' tls choice path (p, jr)"
  shows "\<not> banner_shown p1 \<and> hasConsent (cookie_header jr1) \<and>
    (\<exists>v. jar_get jr1 ''cookie_consent'' = Some (v, False) \<and>
      Option.bind (QueryUnescape v) (\<lambda>t. case JSON_parse t of JSON_Value j \<Rightarrow> Some j | _ \<Rightarrow> None)
      = Some (consent_json \<lparr>Essential = True, Preferences = (choice = ''accept''),
                            Analytics = (choice = ''accept''), Timestamp = now'\<rparr>))"
proof -
  let ?st = "\<lparr>Essential = True, Preferences = (choice = ''accept''), Analytics = (choice = ''accept''), Timestamp = now'\<rparr>"
  let ?v = "QueryEscape (stringify (consent_json ?st))"
  have ascii: "utf8 choice = choice"
    using assms(2) by (auto simp: utf8_ascii is_ascii_def)
  have state: "consent_choice [(''choice'', utf8 choice), (''redirect'', utf8 path)] now' = ?st"
    using assms(2) by (auto simp: consent_choice_def form_value_def ascii Let_def)
  have jr1: "jr1 = jar_set ''cookie_consent'' (?v, False) jr" and p1: "\<not> banner_shown p1"
    using assms(3) by (simp_all add: consent_exchange_def Consent_handler_def consent_body_parses state
        apply_set_cookie_def banner_submit_def)
  have get: "jar_get jr1 ''cookie_consent'' = Some (?v, False)" by (simp add: jr1 cookies.get_put)
  have good: "list_all clean_cookie jr1" "distinct_names jr1"
    using assms(1) by (simp_all add: jr1 jar_set_def good_jar_def clean_jar_store consent_cookie_clean distinct_jar_store)
  have "list_all token_char ''cookie_consent''" by (simp add: eval_simps)
  then have "hasConsent (cookie_header jr1)"
    using request_cookie_jar [OF good get QueryEscape_plain [OF stringify_not_Nil]] by (simp add: hasConsent_def)
  moreover have "QueryUnescape ?v = Some (stringify (consent_json ?st))" by (rule query_component.dec_enc)
  ultimately show ?thesis using p1 get JSON_parse_stringify by simp
qed

theorem consent_remembered_witness:
  "hasConsent (cookie_header (snd (consent_exchange True 1700000000 True ''accept'' ''/'' (\<lparr>banner_shown = True, plain_submits = []\<rparr>, []))))"
proof -
  let ?s = "consent_exchange True 1700000000 True ''accept'' ''/'' (\<lparr>banner_shown = True, plain_submits = []\<rparr>, [])"
  have "good_jar []" by (simp add: good_jar_def)
  from consent_remembered [OF this, of "''accept''" "fst ?s" "snd ?s" 1700000000 True "''/''"
      "\<lparr>banner_shown = True, plain_submits = []\<rparr>"]
  show ?thesis by simp
qed

end
