(* ===== verification/ServiceWorker.thy ===== *)
theory ServiceWorker
  imports KeyStore
begin

text \<open>
  The service worker \<^verbatim>\<open>src/server/tmpl/static/sw.js\<close>: its three event handlers over the
  browser's cache storage, a list of named caches in the order they were opened, each of which
  maps a URL to the stored response. The network is a function that says what a fetch of a
  URL gets at the time, \<open>None\<close> when it fails. The writes a handler leaves running
  (\<open>c.put\<close> in the fetch handler) are taken to be done when the next event comes.
\<close>

section \<open>State\<close>

record response =
  status :: nat
  body :: string

record sw_request =
  r_method :: string
  r_url :: string
  r_path :: string

type_synonym cache = "(string \<times> response) list"
type_synonym cache_storage = "(string \<times> cache) list"
type_synonym network = "string \<Rightarrow> response option"

definition CACHE :: string where
  "CACHE = ''caslink-v1''"

definition PRECACHE :: "string list" where
  "PRECACHE = [''/static/css/app.css'', ''/static/js/app.js'']"

section \<open>The cache interface\<close>

definition caches_open :: "string \<Rightarrow> cache_storage \<Rightarrow> cache_storage" where
  "caches_open name cs = (if map_of cs name = None then AList.update name [] cs else cs)"

definition cached_in :: "cache_storage \<Rightarrow> string \<Rightarrow> cache" where
  "cached_in cs name = (case map_of cs name of None \<Rightarrow> [] | Some c \<Rightarrow> c)"

text \<open>\<open>c.put\<close>: a partial response (206) is refused.\<close>

definition cache_put :: "string \<Rightarrow> string \<Rightarrow> response \<Rightarrow> cache_storage \<Rightarrow> cache_storage" where
  "cache_put name url r cs =
     (if status r = 206 then cs else AList.update name (AList.update url r (cached_in cs name)) cs)"

text \<open>\<open>c.addAll\<close>: all the responses, or nothing when one fetch fails or one status is not a success.\<close>

fun fetch_all :: "network \<Rightarrow> string list \<Rightarrow> (string \<times> response) list option" where
  "fetch_all net [] = Some []"
| "fetch_all net (u # us) =
     (case net u of
        None \<Rightarrow> None
      | Some r \<Rightarrow>
          if 200 \<le> status r \<and> status r \<le> 299 \<and> status r \<noteq> 206
          then map_option (Cons (u, r)) (fetch_all net us) else None)"

fun caches_match :: "cache_storage \<Rightarrow> string \<Rightarrow> response option" where
  "caches_match [] url = None"
| "caches_match ((name, c) # cs) url =
     (case map_of c url of Some r \<Rightarrow> Some r | None \<Rightarrow> caches_match cs url)"

section \<open>The handlers\<close>

text \<open>\<open>install\<close>: whether the precaching succeeded is what \<open>waitUntil\<close> reports to the browser.\<close>

definition sw_install :: "string \<Rightarrow> network \<Rightarrow> cache_storage \<Rightarrow> cache_storage \<times> bool" where
  "sw_install origin net cs =
     (let cs1 = caches_open CACHE cs
      in case fetch_all net (map (\<lambda>p. origin @ p) PRECACHE) of
           None \<Rightarrow> (cs1, False)
         | Some rs \<Rightarrow> (fold (\<lambda>(u, r). cache_put CACHE u r) rs cs1, True))"

definition sw_activate :: "cache_storage \<Rightarrow> cache_storage" where
  "sw_activate cs = fold AList.delete (filter (\<lambda>k. k \<noteq> CACHE) (map fst cs)) cs"

definition handled :: "sw_request \<Rightarrow> bool" where
  "handled req \<longleftrightarrow> r_method req = ''GET'' \<and> prefix ''/static/'' (r_path req)"

definition sw_fetch :: "network \<Rightarrow> sw_request \<Rightarrow> cache_storage \<Rightarrow> cache_storage \<times> response option" where
  "sw_fetch net req cs =
     (if r_method req \<noteq> ''GET'' then (cs, net (r_url req))
      else if \<not> prefix ''/static/'' (r_path req) then (cs, net (r_url req))
      else
        case caches_match cs (r_url req) of
          Some r \<Rightarrow> (cs, Some r)
        | None \<Rightarrow>
            (case net (r_url req) of
               None \<Rightarrow> (cs, None)
             | Some r \<Rightarrow> (cache_put CACHE (r_url req) r (caches_open CACHE cs), Some r)))"

datatype sw_event = Activate | Fetch sw_request network

fun sw_step :: "cache_storage \<Rightarrow> sw_event \<Rightarrow> cache_storage" where
  "sw_step cs Activate = sw_activate cs"
| "sw_step cs (Fetch req net) = fst (sw_fetch net req cs)"

definition sw_run :: "cache_storage \<Rightarrow> sw_event list \<Rightarrow> cache_storage" where
  "sw_run cs es = foldl sw_step cs es"

lemma sw_run_simps [simp]: "sw_run cs [] = cs" "sw_run cs (e # es) = sw_run (sw_step cs e) es"
  by (simp_all add: sw_run_def)

section \<open>What the cache holds\<close>

text \<open>The entry of a URL in the worker's own cache; caches opened earlier are searched first.\<close>

definition own :: "cache_storage \<Rightarrow> string \<Rightarrow> response option" where
  "own cs url = map_of (cached_in cs CACHE) url"

definition only_own :: "cache_storage \<Rightarrow> string \<Rightarrow> bool" where
  "only_own cs url \<longleftrightarrow> distinct (map fst cs) \<and> (\<forall>(n, c)\<in>set cs. n \<noteq> CACHE \<longrightarrow> map_of c url = None)"

lemma map_of_open: "map_of (caches_open name cs) n = (if n = name \<and> map_of cs name = None then Some [] else map_of cs n)"
  by (auto simp: caches_open_def assoc_list.get_put)

lemma own_open: "own (caches_open CACHE cs) = own cs"
  by (auto simp: own_def cached_in_def map_of_open split: option.splits)

lemma own_put:
  "own (cache_put CACHE u r cs) url = (if url = u \<and> status r \<noteq> 206 then Some r else own cs url)"
  by (auto simp: cache_put_def own_def cached_in_def assoc_list.get_put)

lemma distinct_open: "distinct (map fst cs) \<Longrightarrow> distinct (map fst (caches_open n cs))"
  by (simp add: caches_open_def distinct_update)

lemma distinct_put: "distinct (map fst cs) \<Longrightarrow> distinct (map fst (cache_put n u r cs))"
  by (simp add: cache_put_def distinct_update)

lemma only_own_iff:
  "only_own cs url \<longleftrightarrow> distinct (map fst cs) \<and> (\<forall>n c. n \<noteq> CACHE \<longrightarrow> map_of cs n = Some c \<longrightarrow> map_of c url = None)"
  unfolding only_own_def by (auto dest: map_of_SomeD)

lemma only_own_open: "only_own cs url \<Longrightarrow> only_own (caches_open CACHE cs) url"
  by (auto simp: only_own_iff distinct_open map_of_open split: if_splits)

lemma only_own_put: "only_own cs url \<Longrightarrow> only_own (cache_put CACHE u r cs) url"
  by (auto simp: only_own_iff distinct_put cache_put_def assoc_list.get_put distinct_update simp del: map_of_eq_Some_iff split: if_splits)

lemma delete_all:
  "map_of (fold AList.delete ks cs) n = (if n \<in> set ks then None else map_of cs n)"
  by (induction ks arbitrary: cs) (auto simp: assoc_list.get_del)

lemma distinct_delete_all: "distinct (map fst cs) \<Longrightarrow> distinct (map fst (fold AList.delete ks cs))"
  by (induction ks arbitrary: cs) (auto simp: distinct_delete)

lemma map_of_activate: "map_of (sw_activate cs) n = (if n = CACHE then map_of cs n else None)"
  by (auto simp: sw_activate_def delete_all map_of_eq_None_iff image_iff)

lemma own_activate: "own (sw_activate cs) = own cs"
  by (simp add: own_def cached_in_def map_of_activate fun_eq_iff)

lemma only_own_activate: "distinct (map fst cs) \<Longrightarrow> only_own (sw_activate cs) url"
  unfolding only_own_iff map_of_activate by (simp add: sw_activate_def distinct_delete_all)

lemma match_only_own: "only_own cs url \<Longrightarrow> caches_match cs url = own cs url"
proof (induction cs)
  case Nil
  then show ?case by (simp add: own_def cached_in_def)
next
  case (Cons nc cs)
  obtain n c where nc: "nc = (n, c)" by force
  have rest: "only_own cs url" using Cons.prems by (auto simp: only_own_def)
  show ?case
  proof (cases "n = CACHE")
    case True
    then have "map_of cs CACHE = None" using Cons.prems nc by (auto simp: only_own_def map_of_eq_None_iff)
    then have "own cs url = None" by (simp add: own_def cached_in_def)
    then show ?thesis using True nc Cons.IH [OF rest]
      by (simp add: own_def cached_in_def split: option.splits)
  next
    case False
    then have "map_of c url = None" using Cons.prems nc by (auto simp: only_own_def)
    then show ?thesis using False nc Cons.IH [OF rest] by (simp add: own_def cached_in_def)
  qed
qed

text \<open>Events keep a URL's entry, and keep it out of the other caches.\<close>

lemma sw_step_own:
  assumes "only_own cs url" and "own cs url = Some r"
  shows "only_own (sw_step cs e) url \<and> own (sw_step cs e) url = Some r"
proof (cases e)
  case Activate
  then show ?thesis using assms by (simp add: own_activate only_own_activate only_own_def [of cs])
next
  case (Fetch req net)
  have "r_url req = url \<Longrightarrow> caches_match cs (r_url req) = Some r"
    using assms match_only_own by metis
  then show ?thesis using Fetch assms
    by (auto simp: sw_fetch_def only_own_put only_own_open own_put own_open split: option.splits)
qed

lemma sw_run_own:
  "only_own cs url \<Longrightarrow> own cs url = Some r \<Longrightarrow>
     only_own (sw_run cs es) url \<and> own (sw_run cs es) url = Some r"
  by (induction es arbitrary: cs) (auto dest: sw_step_own)

lemma match_None: "caches_match cs url = None \<Longrightarrow> (n, c) \<in> set cs \<Longrightarrow> map_of c url = None"
  by (induction cs url rule: caches_match.induct) (auto split: option.splits)

section \<open>Properties\<close>

text \<open>
  C38 (a static asset is fetched once). Once the network has answered a GET for a static URL, whatever its status (206 apart,
  which cannot be cached), every later GET for it is answered with that same response,
  without the network, through any activations and other requests in between.
\<close>

theorem static_answer_is_kept:
  assumes "distinct (map fst cs)" and "handled req" and "sw_fetch net req cs = (cs1, Some r)"
    and "caches_match cs (r_url req) = None" and "status r \<noteq> 206"
  shows "sw_fetch net2 req (sw_run cs1 es) = (sw_run cs1 es, Some r)"
proof -
  have cs1: "cs1 = cache_put CACHE (r_url req) r (caches_open CACHE cs)"
    using assms(2-4) by (auto simp: sw_fetch_def handled_def split: option.splits)
  have "only_own cs (r_url req)"
    using assms(1) match_None [OF assms(4)] by (auto simp: only_own_def)
  then have "only_own cs1 (r_url req)" and "own cs1 (r_url req) = Some r"
    using assms(5) by (simp_all add: cs1 only_own_put only_own_open own_put)
  then have "caches_match (sw_run cs1 es) (r_url req) = Some r"
    using sw_run_own match_only_own by metis
  then show ?thesis using assms(2) by (simp add: sw_fetch_def handled_def)
qed

definition example_req :: sw_request where
  "example_req = \<lparr>r_method = ''GET'', r_url = ''https://c.example/static/a.css'', r_path = ''/static/a.css''\<rparr>"

theorem static_answer_is_kept_witness:
  "snd (sw_fetch (\<lambda>_. None) example_req
     (sw_run (fst (sw_fetch (\<lambda>_. Some \<lparr>status = 404, body = ''not found''\<rparr>) example_req [])) [Activate]))
   = Some \<lparr>status = 404, body = ''not found''\<rparr>"
proof -
  have h: "handled example_req" by (simp add: handled_def example_req_def)
  let ?net = "\<lambda>_. Some \<lparr>status = 404, body = ''not found''\<rparr> :: response option"
  have "sw_fetch ?net example_req []
      = (fst (sw_fetch ?net example_req []), Some \<lparr>status = 404, body = ''not found''\<rparr>)"
    using h by (simp add: sw_fetch_def handled_def)
  from static_answer_is_kept [OF _ h this, of "\<lambda>_. None" "[Activate]"] show ?thesis by simp
qed

text \<open>
  C39 (the shell is available offline). After an installation that succeeded and the activation, the worker's cache is the
  only one, and both precached files are served, with the responses of the installation,
  even if the network never answers again.
\<close>

theorem shell_served_offline:
  assumes "sw_install origin net cs = (cs1, True)" and "distinct (map fst cs)"
    and "path \<in> set PRECACHE" and "r_method req = ''GET''" and "r_url req = origin @ path" and "r_path req = path"
  shows "(\<forall>n. map_of (sw_activate cs1) n \<noteq> None \<longrightarrow> n = CACHE) \<and>
    snd (sw_fetch (\<lambda>_. None) req (sw_run (sw_activate cs1) es)) = net (origin @ path) \<and>
    net (origin @ path) \<noteq> None"
proof -
  define a b where "a = origin @ ''/static/css/app.css''" and "b = origin @ ''/static/js/app.js''"
  have ne: "a \<noteq> b" by (simp add: a_def b_def)
  have urls: "map (\<lambda>p. origin @ p) PRECACHE = [a, b]" by (simp add: PRECACHE_def a_def b_def)
  obtain ra rb where r: "net a = Some ra" "net b = Some rb" "status ra \<noteq> 206" "status rb \<noteq> 206"
    and cs1: "cs1 = cache_put CACHE b rb (cache_put CACHE a ra (caches_open CACHE cs))"
    using assms(1) unfolding sw_install_def urls by (auto simp: Let_def split: option.splits if_splits)
  have url: "r_url req = a \<or> r_url req = b" using assms(3,5) by (auto simp: PRECACHE_def a_def b_def)
  then obtain r where "net (r_url req) = Some r" "own cs1 (r_url req) = Some r"
    using r ne by (auto simp: cs1 own_put)
  moreover have "distinct (map fst cs1)" using assms(2) by (simp add: cs1 distinct_put distinct_open)
  ultimately have "caches_match (sw_run (sw_activate cs1) es) (r_url req) = Some r"
    and net: "net (origin @ path) = Some r"
    using sw_run_own [of "sw_activate cs1" "r_url req" r es] match_only_own
    by (auto simp: own_activate only_own_activate assms(5))
  moreover have "prefix ''/static/'' (r_path req)" using assms(3,6) by (auto simp: PRECACHE_def)
  ultimately show ?thesis using assms(4) by (simp add: sw_fetch_def map_of_activate)
qed

theorem shell_served_offline_witness:
  "snd (sw_fetch (\<lambda>_. None)
      \<lparr>r_method = ''GET'', r_url = ''https://c.example/static/js/app.js'', r_path = ''/static/js/app.js''\<rparr>
      (sw_activate (fst (sw_install ''https://c.example'' (\<lambda>u. Some \<lparr>status = 200, body = u\<rparr>) [(''old'', [])]))))
   = Some \<lparr>status = 200, body = ''https://c.example/static/js/app.js''\<rparr>"
proof -
  let ?net = "\<lambda>u. Some \<lparr>status = 200, body = u\<rparr> :: response option"
  have "sw_install ''https://c.example'' ?net [(''old'', [])]
      = (fst (sw_install ''https://c.example'' ?net [(''old'', [])]), True)"
    by (simp add: sw_install_def PRECACHE_def Let_def)
  from shell_served_offline [OF this, of "''/static/js/app.js''"
      "\<lparr>r_method = ''GET'', r_url = ''https://c.example/static/js/app.js'', r_path = ''/static/js/app.js''\<rparr>" "[]"]
  show ?thesis by (simp add: PRECACHE_def)
qed

text \<open>
  A request that is not a GET, or is not for a path under \<open>/static/\<close>, gets what the
  network says and leaves every cache as it is.
\<close>

theorem other_requests_pass:
  assumes "\<not> handled req"
  shows "sw_fetch net req cs = (cs, net (r_url req))"
  using assms by (simp add: sw_fetch_def handled_def)

theorem other_requests_pass_witness:
  "sw_fetch (\<lambda>_. None) \<lparr>r_method = ''GET'', r_url = ''https://c.example/abc'', r_path = ''/abc''\<rparr> [] = ([], None)"
  using other_requests_pass [of "\<lparr>r_method = ''GET'', r_url = ''https://c.example/abc'', r_path = ''/abc''\<rparr>" "\<lambda>_. None" "[]"]
  by (simp add: handled_def)

end
