(* ===== verification/RateLimit.thy ===== *)
theory RateLimit
  imports KeyStore CsrfServer
begin

text \<open>
  The rate limiter and the client address of \<^verbatim>\<open>src/server/middleware.go\<close>. Times are integers
  in seconds; the two readings of the clock in \<open>allow\<close> are two arguments. A bucket that is
  absent from the map is created empty. Which peers are trusted proxies is an argument.
\<close>

section \<open>Client addresses\<close>

record addressed_request = http_request +
  remote_addr :: string

definition realIP :: "addressed_request \<Rightarrow> string" where
  "realIP r =
     (if rq_header r ''x-forwarded-for'' \<noteq> [] then TrimSpace (fst (Cut (rq_header r ''x-forwarded-for'') (CHR '','')))
      else if rq_header r ''x-real-ip'' \<noteq> [] then rq_header r ''x-real-ip''
      else
        (case LastIndex (remote_addr r) (CHR '':'') of
           Some i \<Rightarrow> take i (remote_addr r)
         | None \<Rightarrow> remote_addr r))"

definition realIPMiddleware :: "(string \<Rightarrow> bool) \<Rightarrow> addressed_request \<Rightarrow> addressed_request" where
  "realIPMiddleware trusted r =
     (if trusted (remote_addr r) then (if realIP r \<noteq> [] then r\<lparr>remote_addr := realIP r\<rparr> else r)
      else r\<lparr>rq_header := (rq_header r)(''x-forwarded-for'' := [], ''x-real-ip'' := [])\<rparr>)"

section \<open>Buckets\<close>

definition allow :: "int \<Rightarrow> int \<Rightarrow> nat \<Rightarrow> int \<Rightarrow> int list \<Rightarrow> bool \<times> int list" where
  "allow now1 now2 limit window requests =
     (let valid = filter (\<lambda>t. t > now1 - window) requests
      in if length valid \<ge> limit then (False, valid) else (True, valid @ [now2]))"

type_synonym limiter = "(string \<times> int list) list"

definition bucket :: "string \<Rightarrow> limiter \<Rightarrow> int list" where
  "bucket key rl = (case map_of rl key of None \<Rightarrow> [] | Some b \<Rightarrow> b)"

definition Allow :: "int \<Rightarrow> int \<Rightarrow> string \<Rightarrow> nat \<Rightarrow> int \<Rightarrow> limiter \<Rightarrow> bool \<times> limiter" where
  "Allow now1 now2 key limit window rl =
     (let (ok, b) = allow now1 now2 limit window (bucket key rl) in (ok, AList.update key b rl))"

definition stale :: "int \<Rightarrow> int list \<Rightarrow> bool" where
  "stale cutoff requests \<longleftrightarrow> requests = [] \<or> last requests < cutoff"

definition gc :: "int \<Rightarrow> limiter \<Rightarrow> limiter" where
  "gc now' rl = filter (\<lambda>kb. \<not> stale (now' - 2 * 3600) (snd kb)) rl"

section \<open>The middleware\<close>

text \<open>Limit, window and key for the path of a request.\<close>

definition rate_rule :: "string \<Rightarrow> string \<Rightarrow> (nat \<times> int \<times> string) option" where
  "rate_rule ip path =
     (if HasSuffix path ''/domains'' then Some (10, 3600, ip @ ''|domain_add'')
      else if Contains path ''/domains/'' \<and> HasSuffix path ''/verify'' then Some (15, 3600, ip @ ''|domain_verify'')
      else if Contains path ''/login'' then Some (5, 15 * 60, ip @ path)
      else if Contains path ''/register'' then Some (5, 3600, ip @ path)
      else if Contains path ''/password'' then Some (3, 3600, ip @ path)
      else if Contains path ''/2fa'' then Some (5, 15 * 60, ip @ path)
      else None)"

text \<open>Whether the next handler runs; otherwise the answer is 429.\<close>

definition RateLimitMiddleware :: "int \<Rightarrow> int \<Rightarrow> addressed_request \<Rightarrow> limiter \<Rightarrow> bool \<times> limiter" where
  "RateLimitMiddleware now1 now2 r rl =
     (if rq_method r = ''GET'' then (True, rl)
      else
        (case rate_rule (realIP r) (rq_path r) of
           None \<Rightarrow> (True, rl)
         | Some (limit, window, key) \<Rightarrow> Allow now1 now2 key limit window rl))"

end
