(* ===== verification/LimiterLog.thy ===== *)
theory LimiterLog
  imports RateLimit
begin

text \<open>
  The reference of the rate limiter: a log that forgets nothing. The buckets of
  \<^verbatim>\<open>RateLimit\<close>, pruned on every attempt and thrown away by the collector, decide every
  attempt as the log would.
\<close>

section \<open>The log\<close>

datatype limiter_event =
    Attempt string int int   \<comment> \<open>key and the two readings of the clock\<close>
  | Collect int

text \<open>Each key has its limit and window, \<open>rules key\<close>.\<close>

fun limiter_step :: "(string \<Rightarrow> nat \<times> int) \<Rightarrow> limiter \<Rightarrow> limiter_event \<Rightarrow> bool option \<times> limiter" where
  "limiter_step rules rl (Attempt key n1 n2) =
     (let (ok, rl') = Allow n1 n2 key (fst (rules key)) (snd (rules key)) rl in (Some ok, rl'))"
| "limiter_step rules rl (Collect n) = (None, gc n rl)"

fun limiter_run :: "(string \<Rightarrow> nat \<times> int) \<Rightarrow> limiter \<Rightarrow> limiter_event list \<Rightarrow> bool option list" where
  "limiter_run rules rl [] = []"
| "limiter_run rules rl (e # es) = (let (ok, rl') = limiter_step rules rl e in ok # limiter_run rules rl' es)"

text \<open>The log keeps the time of every accepted attempt of every key.\<close>

fun log_step :: "(string \<Rightarrow> nat \<times> int) \<Rightarrow> (string \<Rightarrow> int list) \<Rightarrow> limiter_event \<Rightarrow> bool option \<times> (string \<Rightarrow> int list)" where
  "log_step rules lg (Attempt key n1 n2) =
     (if length (filter (\<lambda>t. t > n1 - snd (rules key)) (lg key)) < fst (rules key)
      then (Some True, lg(key := lg key @ [n2])) else (Some False, lg))"
| "log_step rules lg (Collect n) = (None, lg)"

fun log_run :: "(string \<Rightarrow> nat \<times> int) \<Rightarrow> (string \<Rightarrow> int list) \<Rightarrow> limiter_event list \<Rightarrow> bool option list" where
  "log_run rules lg [] = []"
| "log_run rules lg (e # es) = (let (ok, lg') = log_step rules lg e in ok # log_run rules lg' es)"

fun log_after :: "(string \<Rightarrow> nat \<times> int) \<Rightarrow> (string \<Rightarrow> int list) \<Rightarrow> limiter_event list \<Rightarrow> string \<Rightarrow> int list" where
  "log_after rules lg [] = lg"
| "log_after rules lg (e # es) = log_after rules (snd (log_step rules lg e)) es"

text \<open>The clock does not go back.\<close>

fun clock_ok :: "int \<Rightarrow> limiter_event list \<Rightarrow> bool" where
  "clock_ok n [] = True"
| "clock_ok n (Attempt key n1 n2 # es) = (n \<le> n1 \<and> n1 \<le> n2 \<and> clock_ok n2 es)"
| "clock_ok n (Collect m # es) = (n \<le> m \<and> clock_ok m es)"

text \<open>
  The limiter agrees with the log at time \<open>n\<close>: from now on both count the same attempts, and
  the bucket is in the order of time.
\<close>

definition agrees :: "(string \<Rightarrow> nat \<times> int) \<Rightarrow> int \<Rightarrow> limiter \<Rightarrow> (string \<Rightarrow> int list) \<Rightarrow> bool" where
  "agrees rules n rl lg \<longleftrightarrow>
     (\<forall>key. (\<forall>m\<ge>n. filter (\<lambda>t. t > m - snd (rules key)) (bucket key rl) = filter (\<lambda>t. t > m - snd (rules key)) (lg key)) \<and>
        sorted (bucket key rl) \<and> (\<forall>t \<in> set (bucket key rl). t \<le> n))"

lemma bucket_update [simp]: "bucket k (AList.update key b rl) = (if k = key then b else bucket k rl)"
  by (simp add: bucket_def assoc_list.get_put)

lemma filter_twice_later:
  fixes w :: int
  assumes "n1 \<le> m"
  shows "filter (\<lambda>t. t > m - w) (filter (\<lambda>t. t > n1 - w) xs) = filter (\<lambda>t. t > m - w) xs"
  using assms by (auto simp: filter_filter intro: filter_cong)

lemma agrees_attempt:
  assumes "agrees rules n rl lg" and "n \<le> n1" and "n1 \<le> n2"
  shows "fst (limiter_step rules rl (Attempt key n1 n2)) = fst (log_step rules lg (Attempt key n1 n2))"
    and "agrees rules n2 (snd (limiter_step rules rl (Attempt key n1 n2))) (snd (log_step rules lg (Attempt key n1 n2)))"
proof -
  let ?w = "snd (rules key)" and ?l = "fst (rules key)"
  let ?v = "filter (\<lambda>t. t > n1 - ?w) (bucket key rl)"
  have same: "filter (\<lambda>t. t > m - snd (rules k)) (bucket k rl) = filter (\<lambda>t. t > m - snd (rules k)) (lg k)" if "n \<le> m" for m k
    using assms(1) that unfolding agrees_def by blast
  have srt: "sorted (bucket k rl)" "t \<in> set (bucket k rl) \<Longrightarrow> t \<le> n" for k t
    using assms(1) unfolding agrees_def by blast+
  have v: "?v = filter (\<lambda>t. t > n1 - ?w) (lg key)" using same [OF assms(2)] .
  have later: "filter (\<lambda>t. t > m - ?w) ?v = filter (\<lambda>t. t > m - ?w) (lg key)" if "n2 \<le> m" for m
  proof -
    have "n1 \<le> m" using that assms(3) by simp
    from filter_twice_later [OF this, of ?w "lg key"] show ?thesis unfolding v .
  qed
  have sv: "sorted ?v" "\<forall>t \<in> set ?v. t \<le> n2" using srt assms(2,3) by (auto intro: sorted_wrt_filter dest: srt(2))
  show "fst (limiter_step rules rl (Attempt key n1 n2)) = fst (log_step rules lg (Attempt key n1 n2))"
    by (simp add: Allow_def allow_def v Let_def)
  have others: "\<forall>m\<ge>n2. filter (\<lambda>t. t > m - snd (rules k)) (bucket k rl) = filter (\<lambda>t. t > m - snd (rules k)) (lg k)"
    "\<forall>t \<in> set (bucket k rl). t \<le> n2" for k
    using same [of _ k] srt(2) [of _ k] assms(2,3) by fastforce+
  show "agrees rules n2 (snd (limiter_step rules rl (Attempt key n1 n2))) (snd (log_step rules lg (Attempt key n1 n2)))"
  proof (cases "length ?v < ?l")
    case True
    then have "snd (limiter_step rules rl (Attempt key n1 n2)) = AList.update key (?v @ [n2]) rl"
      "snd (log_step rules lg (Attempt key n1 n2)) = lg(key := lg key @ [n2])"
      using v by (simp_all add: Allow_def allow_def Let_def)
    then show ?thesis using others later sv srt unfolding agrees_def
      by (simp only: bucket_update fun_upd_apply filter_append) (auto simp: sorted_append)
  next
    case False
    then have "snd (limiter_step rules rl (Attempt key n1 n2)) = AList.update key ?v rl"
      "snd (log_step rules lg (Attempt key n1 n2)) = lg"
      using v by (simp_all add: Allow_def allow_def Let_def)
    then show ?thesis using others later sv srt unfolding agrees_def by simp
  qed
qed


lemma map_of_filter_snd: "distinct (map fst rl) \<Longrightarrow>
    map_of (filter (\<lambda>kb. P (snd kb)) rl) k = (case map_of rl k of None \<Rightarrow> None | Some b \<Rightarrow> if P b then Some b else None)"
  by (induction rl) (auto split: option.splits simp: weak_map_of_SomeI dest: map_of_SomeD intro!: map_of_eq_None_iff [THEN iffD2])

lemma bucket_gc:
  assumes "distinct (map fst rl)"
  shows "bucket k (gc n rl) = (if stale (n - 2 * 3600) (bucket k rl) then [] else bucket k rl)"
  unfolding bucket_def gc_def
    map_of_filter_snd [OF assms, of "\<lambda>b. \<not> stale (n - 2 * 3600) b"]
  by (cases "map_of rl k") (simp_all add: stale_def)

lemma distinct_gc: "distinct (map fst rl) \<Longrightarrow> distinct (map fst (gc n rl))"
  by (simp add: gc_def distinct_map_filter)

lemma distinct_step: "distinct (map fst rl) \<Longrightarrow> distinct (map fst (snd (limiter_step rules rl e)))"
  by (cases e) (auto simp: distinct_gc Allow_def distinct_update split: prod.splits)

lemma stale_counts_nothing:
  assumes "stale cutoff b" and "sorted b" and "cutoff \<le> c"
  shows "filter (\<lambda>t. t > c) b = []"
proof -
  have "t \<le> last b" if "t \<in> set b" for t
    using that assms(2) by (induction b) (auto split: if_splits)
  then show ?thesis using assms by (fastforce simp: stale_def filter_empty_conv)
qed

lemma agrees_collect:
  assumes "agrees rules n rl lg" and "n \<le> m0" and "distinct (map fst rl)" and win: "\<And>k. snd (rules k) \<le> 2 * 3600"
  shows "agrees rules m0 (gc m0 rl) lg"
proof -
  have "filter (\<lambda>t. t > m - snd (rules k)) (bucket k (gc m0 rl)) = filter (\<lambda>t. t > m - snd (rules k)) (lg k)" if "m0 \<le> m" for m k
  proof -
    have same: "filter (\<lambda>t. t > m - snd (rules k)) (bucket k rl) = filter (\<lambda>t. t > m - snd (rules k)) (lg k)"
      using assms(1,2) that unfolding agrees_def by auto
    have "sorted (bucket k rl)" using assms(1) unfolding agrees_def by blast
    moreover have "m0 - 2 * 3600 \<le> m - snd (rules k)" using that win [of k] by simp
    ultimately have "stale (m0 - 2 * 3600) (bucket k rl) \<Longrightarrow> filter (\<lambda>t. t > m - snd (rules k)) (bucket k rl) = []"
      by (rule stale_counts_nothing [rotated])
    then show ?thesis using same by (simp add: bucket_gc [OF assms(3)])
  qed
  moreover have "sorted (bucket k (gc m0 rl)) \<and> (\<forall>t \<in> set (bucket k (gc m0 rl)). t \<le> m0)" for k
  proof -
    have "sorted (bucket k rl)" "\<forall>t \<in> set (bucket k rl). t \<le> n" using assms(1) unfolding agrees_def by blast+
    then show ?thesis using assms(2) unfolding bucket_gc [OF assms(3)] by auto
  qed
  ultimately show ?thesis unfolding agrees_def by blast
qed

lemma runs_agree:
  assumes "agrees rules n rl lg" and "distinct (map fst rl)" and "clock_ok n es" and "\<And>k. snd (rules k) \<le> 2 * 3600"
  shows "limiter_run rules rl es = log_run rules lg es"
  using assms(1-3)
proof (induction es arbitrary: n rl lg)
  case (Cons e es)
  show ?case
  proof (cases e)
    case (Attempt key n1 n2)
    then have c: "n \<le> n1" "n1 \<le> n2" "clock_ok n2 es" using Cons.prems(3) by auto
    note a = agrees_attempt [OF Cons.prems(1) c(1,2), of key]
    note d = distinct_step [OF Cons.prems(2), of rules "Attempt key n1 n2"]
    show ?thesis using a(1) Cons.IH [OF a(2) d c(3)] unfolding Attempt
      by (simp only: limiter_run.simps log_run.simps split_beta Let_def)
  next
    case (Collect m)
    then have c: "n \<le> m" "clock_ok m es" using Cons.prems(3) by auto
    show ?thesis
      using Cons.IH [OF agrees_collect [OF Cons.prems(1) c(1) Cons.prems(2) assms(4)] distinct_gc [OF Cons.prems(2)] c(2)] Collect
      by simp
  qed
qed simp

section \<open>What the limiter decides\<close>

lemma agrees_start: "agrees rules n [] (\<lambda>k. [])"
  by (simp add: agrees_def bucket_def)

text \<open>
  C15 (limiter_matches_log). Pruning and collecting cannot be noticed. As long as no window is longer than the
  two hours after which the collector drops a bucket, and the clock does not go back, the limiter
  answers every sequence of attempts and collections as the log does that keeps everything.
\<close>

theorem limiter_matches_log:
  assumes "clock_ok n es" and "\<And>k. snd (rules k) \<le> 2 * 3600"
  shows "limiter_run rules [] es = log_run rules (\<lambda>k. []) es"
  by (rule runs_agree [OF agrees_start _ assms]) simp

text \<open>The times at which attempts of \<open>key\<close> were let through, by the answers of a run.\<close>

definition let_through :: "string \<Rightarrow> limiter_event list \<Rightarrow> bool option list \<Rightarrow> int list" where
  "let_through key es answers =
     List.map_filter (\<lambda>(e, a). case e of Attempt k n1 n2 \<Rightarrow> if k = key \<and> a = Some True then Some n2 else None | Collect m \<Rightarrow> None)
       (zip es answers)"

lemma let_through_simps [simp]:
  "let_through key [] as = []"
  "let_through key (Attempt k n1 n2 # es) (a # as) =
     (if k = key \<and> a = Some True then n2 # let_through key es as else let_through key es as)"
  "let_through key (Collect m # es) (a # as) = let_through key es as"
  by (simp_all add: let_through_def map_filter_simps)

lemma log_after_let_through: "log_after rules lg es key = lg key @ let_through key es (log_run rules lg es)"
proof (induction es arbitrary: lg)
  case (Cons e es)
  show ?case by (cases e) (auto simp: Cons.IH simp flip: fun_upd_def)
qed simp

lemma length_filter_le: "(\<And>x. x \<in> set xs \<Longrightarrow> P x \<Longrightarrow> Q x) \<Longrightarrow> length (filter P xs) \<le> length (filter Q xs)"
  by (induction xs) (auto intro: le_SucI)

text \<open>In the log, no span of a window's length holds more than the limit.\<close>

definition within_limit :: "(string \<Rightarrow> nat \<times> int) \<Rightarrow> (string \<Rightarrow> int list) \<Rightarrow> bool" where
  "within_limit rules lg \<longleftrightarrow>
     (\<forall>key a. length (filter (\<lambda>t. a < t \<and> t \<le> a + snd (rules key)) (lg key)) \<le> fst (rules key))"

lemma within_limit_step:
  assumes "within_limit rules lg" and "\<And>key n1 n2. e = Attempt key n1 n2 \<Longrightarrow> n1 \<le> n2"
  shows "within_limit rules (snd (log_step rules lg e))"
proof (cases e)
  case (Attempt key n1 n2)
  let ?w = "snd (rules key)"
  have "length (filter (\<lambda>t. a < t \<and> t \<le> a + ?w) (lg key @ [n2])) \<le> fst (rules key)"
    if room: "length (filter (\<lambda>t. t > n1 - ?w) (lg key)) < fst (rules key)" for a
  proof (cases "a < n2 \<and> n2 \<le> a + ?w")
    case True
    then have "n1 - ?w \<le> a" using assms(2) [OF Attempt] by simp
    then have "length (filter (\<lambda>t. a < t \<and> t \<le> a + ?w) (lg key)) \<le> length (filter (\<lambda>t. t > n1 - ?w) (lg key))"
      by (intro length_filter_le) auto
    then show ?thesis using room True by simp
  next
    case False
    then show ?thesis using assms(1) unfolding within_limit_def by auto
  qed
  then show ?thesis using assms(1) Attempt unfolding within_limit_def by auto
qed (use assms(1) in simp)

lemma within_limit_after: "within_limit rules lg \<Longrightarrow> clock_ok n es \<Longrightarrow> within_limit rules (log_after rules lg es)"
proof (induction es arbitrary: n lg)
  case (Cons e es)
  then obtain m where "clock_ok m es" by (cases e) auto
  moreover have "within_limit rules (snd (log_step rules lg e))"
    using Cons.prems by (intro within_limit_step) auto
  ultimately show ?case by (simp add: Cons.IH)
qed simp

text \<open>
  C16 (attempts_within_limit). The bound the limiter is there for. However the attempts of a key arrive, and
  whenever the collector runs between them, no span of \<open>window\<close> seconds holds more than
  \<open>limit\<close> attempts that were let through.
\<close>

theorem attempts_within_limit:
  assumes "clock_ok n es" and "\<And>k. snd (rules k) \<le> 2 * 3600"
  shows "length (filter (\<lambda>t. a < t \<and> t \<le> a + snd (rules key)) (let_through key es (limiter_run rules [] es)))
     \<le> fst (rules key)"
proof -
  have "within_limit rules (log_after rules (\<lambda>k. []) es)"
    by (rule within_limit_after [OF _ assms(1)]) (simp add: within_limit_def)
  then show ?thesis
    unfolding within_limit_def log_after_let_through runs_agree [OF agrees_start _ assms, simplified] by simp
qed

text \<open>Three attempts under a limit of two, a collection, and a fourth after the window.\<close>

definition busy_hour :: "limiter_event list" where
  "busy_hour = [Attempt ''a'' 10 10, Attempt ''a'' 20 21, Attempt ''a'' 30 30, Collect 9000, Attempt ''a'' 9001 9001]"

lemma limiter_matches_log_witness:
  "clock_ok 0 busy_hour \<and> limiter_run (\<lambda>k. (2, 900)) [] busy_hour = log_run (\<lambda>k. (2, 900)) (\<lambda>k. []) busy_hour \<and>
   limiter_run (\<lambda>k. (2, 900)) [] busy_hour = [Some True, Some True, Some False, None, Some True]"
proof -
  have ok: "clock_ok 0 busy_hour" by (simp add: busy_hour_def)
  have same: "limiter_run (\<lambda>k. (2, 900)) [] busy_hour = log_run (\<lambda>k. (2, 900)) (\<lambda>k. []) busy_hour"
    by (rule limiter_matches_log [OF ok]) simp
  show ?thesis using ok same by (simp only: same conj_ac) (simp add: busy_hour_def Let_def)
qed

lemma attempts_within_limit_witness:
  "length (filter (\<lambda>t. 5 < t \<and> t \<le> 905) (let_through ''a'' busy_hour (limiter_run (\<lambda>k. (2, 900)) [] busy_hour))) \<le> 2"
  using attempts_within_limit [of 0 busy_hour "\<lambda>k. (2, 900)" 5 "''a''"] by (simp add: busy_hour_def)

section \<open>Whose address is counted\<close>

lemma remote_addr_header [simp]: "remote_addr (r\<lparr>rq_header := h\<rparr>) = remote_addr r"
  by (cases r) simp

definition peer_address :: "string \<Rightarrow> string" where
  "peer_address a = (case LastIndex a (CHR '':'') of Some i \<Rightarrow> take i a | None \<Rightarrow> a)"

lemma realIP_no_headers: "rq_header r ''x-forwarded-for'' = [] \<Longrightarrow> rq_header r ''x-real-ip'' = [] \<Longrightarrow>
    realIP r = peer_address (remote_addr r)"
  by (simp add: realIP_def peer_address_def)

lemma peer_address_cut: "CHR '':'' \<notin> set port \<Longrightarrow> peer_address (host @ '':'' @ port) = host"
  by (simp add: peer_address_def LastIndex_def takeWhile_append)

lemma realIP_untrusted: "\<not> trusted (remote_addr r) \<Longrightarrow> realIP (realIPMiddleware trusted r) = peer_address (remote_addr r)"
  by (subst realIP_no_headers) (simp_all add: realIPMiddleware_def)

text \<open>
  A client that is not a trusted proxy cannot choose whom it is counted as: after
  the middleware its address is the peer's without the port, and the limiter answers the request
  as it answers the same request with any other headers.
\<close>

theorem untrusted_headers_ignored:
  assumes "\<not> trusted (remote_addr r)"
  shows "realIP (realIPMiddleware trusted r) = peer_address (remote_addr r) \<and>
    RateLimitMiddleware now1 now2 (realIPMiddleware trusted r) rl =
      RateLimitMiddleware now1 now2 (realIPMiddleware trusted (r\<lparr>rq_header := h\<rparr>)) rl"
proof -
  have "realIP (realIPMiddleware trusted (r\<lparr>rq_header := h\<rparr>)) = realIP (realIPMiddleware trusted r)"
    by (simp add: realIP_untrusted assms)
  moreover have "rq_method (realIPMiddleware trusted q) = rq_method q" "rq_path (realIPMiddleware trusted q) = rq_path q" for q
    by (cases q; simp add: realIPMiddleware_def)+
  ultimately show ?thesis
    by (simp add: RateLimitMiddleware_def realIP_untrusted assms)
qed

definition spoofed :: addressed_request where
  "spoofed = \<lparr>rq_method = ''POST'', rq_path = ''/auth/login'', rq_header = (\<lambda>h. if h = ''x-forwarded-for'' then ''1.1.1.1'' else []),
     rq_cookies = [], rq_form = (\<lambda>f. []), rq_tls = True, remote_addr = ''8.8.8.8:55''\<rparr>"

lemma untrusted_headers_ignored_witness:
  "realIP spoofed = ''1.1.1.1'' \<and> realIP (realIPMiddleware (\<lambda>a. HasPrefix a ''10.'') spoofed) = ''8.8.8.8''"
proof -
  have u: "\<not> HasPrefix (remote_addr spoofed) ''10.''" by (simp add: spoofed_def HasPrefix_def)
  have "peer_address ''8.8.8.8:55'' = ''8.8.8.8''" by (simp add: peer_address_def eval_simps)
  then show ?thesis using untrusted_headers_ignored [of "\<lambda>a. HasPrefix a ''10.''" spoofed, OF u]
    by (simp add: spoofed_def realIP_def eval_simps)
qed

text \<open>
  A trusted peer that forwards for nobody and connects over IPv6 loses the end of its
  address: the middleware strips the port of \<open>[fd00::5]:1234\<close>, and the limiter, which strips a port
  again, cuts at the last colon that is left. Peers that differ only in the last group are counted
  as one.
\<close>

theorem trusted_ipv6_peer_cut:
  assumes "trusted (remote_addr r)" and "remote_addr r = ''['' @ net @ '':'' @ last_group @ '']:'' @ port"
    and "CHR '':'' \<notin> set last_group" and "CHR '':'' \<notin> set port"
    and "rq_header r ''x-forwarded-for'' = []" and "rq_header r ''x-real-ip'' = []"
  shows "realIP (realIPMiddleware trusted r) = ''['' @ net"
proof -
  have "peer_address (remote_addr r) = ''['' @ net @ '':'' @ last_group @ '']''"
    using peer_address_cut [of port "''['' @ net @ '':'' @ last_group @ '']''"] assms(2,4) by simp
  moreover have "peer_address (''['' @ net @ '':'' @ last_group @ '']'') = ''['' @ net"
    using peer_address_cut [of "last_group @ '']''" "''['' @ net"] assms(3) by simp
  moreover have "realIP r = peer_address (remote_addr r)" using realIP_no_headers assms(5,6) .
  ultimately show ?thesis using assms(1,5,6)
    by (subst realIP_no_headers) (simp_all add: realIPMiddleware_def)
qed

lemma trusted_ipv6_peer_cut_witness:
  "realIP (realIPMiddleware (\<lambda>a. HasPrefix a ''[fd'') (spoofed\<lparr>rq_header := \<lambda>h. [], remote_addr := ''[fd00::5]:1234''\<rparr>)) = ''[fd00:''"
  by (rule trusted_ipv6_peer_cut [of _ _ "''fd00:''" "''5''" "''1234''", simplified]) (simp_all add: eval_simps)

end
