(* ===== verification/GoTime.thy ===== *)
theory GoTime
  imports GoStrings
begin

text \<open>
  What the scheduler uses of Go's \<open>strconv\<close> and \<open>time\<close>: \<open>Atoi\<close>, \<open>ParseDuration\<close>,
  and the fields of a local time. A time is its nanosecond of the Unix era, a duration a number
  of nanoseconds. A location is the offset from UTC, in seconds, that the time zone database
  gives for a second of the Unix era; the database itself is not part of the program.
\<close>

section \<open>Integers of 64 bits\<close>

text \<open>Two's complement wrap-around of \<open>int\<close>.\<close>

definition wrap64 :: "int \<Rightarrow> int" where
  "wrap64 x = (x + 2 ^ 63) mod 2 ^ 64 - 2 ^ 63"

text \<open>The values of the type \<open>int\<close>.\<close>

definition in_int64 :: "int \<Rightarrow> bool" where
  "in_int64 x \<longleftrightarrow> - (2 ^ 63) \<le> x \<and> x < 2 ^ 63"

declare wrap64_def [eval_simps] in_int64_def [eval_simps]

lemma wrap64_id: "in_int64 x \<Longrightarrow> wrap64 x = x"
  by (simp add: wrap64_def in_int64_def)

lemma wrap64_over: "2 ^ 63 \<le> x \<Longrightarrow> x < 2 ^ 64 \<Longrightarrow> wrap64 x = x - 2 ^ 64"
proof -
  assume "2 ^ 63 \<le> x" "x < 2 ^ 64"
  then have "(x - 2 ^ 63) mod 2 ^ 64 = x - 2 ^ 63" by simp
  moreover have "(x + 2 ^ 63) mod 2 ^ 64 = (x - 2 ^ 63) mod 2 ^ 64"
    using mod_add_self2 [of "x - 2 ^ 63" "2 ^ 64 :: int"] by (simp add: add.commute)
  ultimately show ?thesis unfolding wrap64_def by simp
qed

text \<open>\<open>strconv.Atoi\<close>: an optional sign, decimal digits, within 64 bits; \<open>None\<close> is an error.\<close>

definition Atoi :: "string \<Rightarrow> int option" where
  "Atoi s =
     (let neg = (s \<noteq> [] \<and> hd s = CHR ''-'');
          ds = (if s \<noteq> [] \<and> (hd s = CHR ''-'' \<or> hd s = CHR ''+'') then tl s else s);
          n = (if neg then - int (digits_value ds) else int (digits_value ds))
      in if ds = [] \<or> \<not> list_all is_digit ds then None
         else if in_int64 n then Some n else None)"

declare Atoi_def [eval_simps]

lemma Atoi_range: "Atoi s = Some n \<Longrightarrow> in_int64 n"
  by (auto simp: Atoi_def Let_def split: if_splits)

lemma Atoi_show_nat: "n < 2 ^ 63 \<Longrightarrow> Atoi (show_nat n) = Some (int n)"
proof -
  assume n: "n < 2 ^ 63"
  then have "int n < int (2 ^ 63)" unfolding of_nat_less_iff .
  then have small: "int n < 2 ^ 63" by simp
  have ds: "list_all is_digit (show_nat n)" using show_nat_digits by (simp add: list_all_iff)
  have "is_digit (hd (show_nat n))" by (rule show_nat_digits [OF list.set_sel(1)]) simp
  then have "hd (show_nat n) \<noteq> CHR ''-''" "hd (show_nat n) \<noteq> CHR ''+''" by (auto simp: is_digit_def)
  then show ?thesis using ds small by (simp add: Atoi_def Let_def in_int64_def)
qed

section \<open>Durations\<close>

text \<open>The units of \<open>ParseDuration\<close>; the micro sign has two encodings.\<close>

definition duration_unit :: "string \<Rightarrow> nat option" where
  "duration_unit u =
     (if u = ''ns'' then Some 1
      else if u = ''us'' \<or> u = [char_of (194::nat), char_of (181::nat), CHR ''s''] \<or>
              u = [char_of (206::nat), char_of (188::nat), CHR ''s''] then Some 1000
      else if u = ''ms'' then Some 1000000
      else if u = ''s'' then Some 1000000000
      else if u = ''m'' then Some 60000000000
      else if u = ''h'' then Some 3600000000000
      else None)"

text \<open>
  One or more of number and unit. \<open>None\<close> is an error, which the totals beyond 64 bits are. The
  fraction is computed exactly and rounded down, where the library multiplies in floating point.
\<close>

function parse_duration_units :: "nat \<Rightarrow> string \<Rightarrow> nat option" where
  "parse_duration_units d s =
     (if s = [] then Some d
      else
        (let whole = takeWhile is_digit s; s1 = dropWhile is_digit s;
             point = (s1 \<noteq> [] \<and> hd s1 = CHR ''.'');
             frac = (if point then takeWhile is_digit (tl s1) else []);
             s2 = (if point then dropWhile is_digit (tl s1) else s1);
             u = takeWhile (\<lambda>c. c \<noteq> CHR ''.'' \<and> \<not> is_digit c) s2;
             s3 = dropWhile (\<lambda>c. c \<noteq> CHR ''.'' \<and> \<not> is_digit c) s2
         in if whole = [] \<and> frac = [] then None
            else
              (case duration_unit u of
                 None \<Rightarrow> None
               | Some unit \<Rightarrow>
                   let v = digits_value whole * unit + digits_value frac * unit div 10 ^ length frac
                   in if v > 2 ^ 63 \<or> d + v > 2 ^ 63 then None else parse_duration_units (d + v) s3)))"
  by pat_completeness auto

text \<open>Every round reads at least a digit: what is left is shorter.\<close>

lemma dropWhile_shorter: "xs \<noteq> [] \<Longrightarrow> P (hd xs) \<Longrightarrow> length (dropWhile P xs) < length xs"
  by (cases xs) (simp_all add: le_imp_less_Suc length_dropWhile_le)

lemma duration_round_shorter:
  assumes "s1 = dropWhile is_digit s" and "s2 = (if s1 \<noteq> [] \<and> hd s1 = CHR ''.'' then dropWhile is_digit (tl s1) else s1)"
    and "takeWhile is_digit s \<noteq> [] \<or> (s1 \<noteq> [] \<and> hd s1 = CHR ''.'')"
  shows "length (dropWhile P s2) < length s"
proof -
  have "length (dropWhile P s2) \<le> length s2" by (rule length_dropWhile_le)
  also have "length s2 \<le> length s1"
    using length_dropWhile_le [of is_digit "tl s1"] unfolding assms(2) by auto
  finally have le: "length (dropWhile P s2) \<le> length s1" .
  show ?thesis
  proof (cases "takeWhile is_digit s = []")
    case False
    then have "length s1 < length s" unfolding assms(1) by (cases s) (auto simp: le_imp_less_Suc length_dropWhile_le split: if_splits)
    then show ?thesis using le by simp
  next
    case True
    then have pt: "s1 \<noteq> []" "hd s1 = CHR ''.''" using assms(3) by auto
    then have "length s2 < length s1" unfolding assms(2)
      using length_dropWhile_le [of is_digit "tl s1"] by (cases s1) auto
    moreover have "length s1 \<le> length s" unfolding assms(1) by (rule length_dropWhile_le)
    ultimately show ?thesis using length_dropWhile_le [of P s2] by simp
  qed
qed

termination parse_duration_units
  by (relation "measure (\<lambda>(d, s). length s)") (auto intro!: duration_round_shorter split: if_splits)

declare parse_duration_units.simps [simp del] parse_duration_units.simps [eval_simps]

definition ParseDuration :: "string \<Rightarrow> int option" where
  "ParseDuration s =
     (let neg = (s \<noteq> [] \<and> hd s = CHR ''-'');
          r = (if s \<noteq> [] \<and> (hd s = CHR ''-'' \<or> hd s = CHR ''+'') then tl s else s)
      in if r = ''0'' then Some 0
         else if r = [] then None
         else
           (case parse_duration_units 0 r of
              None \<Rightarrow> None
            | Some d \<Rightarrow> if neg then Some (- int d) else if d > 2 ^ 63 - 1 then None else Some (int d)))"

declare duration_unit_def [eval_simps] ParseDuration_def [eval_simps]

section \<open>The calendar\<close>

text \<open>
  The Gregorian calendar, in years that begin on 1 March, so that the leap day is the last day of
  the year. Year 0 is the one that begins on 1 March of the year 0.
\<close>

definition leap_end :: "nat \<Rightarrow> bool" where
  "leap_end y \<longleftrightarrow> (let z = Suc y in z mod 4 = 0 \<and> (z mod 100 \<noteq> 0 \<or> z mod 400 = 0))"

definition march_year_length :: "nat \<Rightarrow> nat" where
  "march_year_length y = (if leap_end y then 366 else 365)"

text \<open>The year of a day, and the day in it.\<close>

function march_year :: "nat \<Rightarrow> nat \<Rightarrow> nat \<times> nat" where
  "march_year y d = (if d < march_year_length y then (y, d) else march_year (Suc y) (d - march_year_length y))"
  by pat_completeness auto
termination by (relation "measure snd") (auto simp: march_year_length_def split: if_splits)

declare march_year.simps [simp del] march_year.simps [eval_simps]
declare leap_end_def [eval_simps] march_year_length_def [eval_simps]

text \<open>The months from March on with their lengths.\<close>

fun month_walk :: "(nat \<times> nat) list \<Rightarrow> nat \<Rightarrow> nat \<times> nat" where
  "month_walk [] d = (2, Suc d)"
| "month_walk ((m, n) # ms) d = (if d < n then (m, Suc d) else month_walk ms (d - n))"

definition march_months :: "(nat \<times> nat) list" where
  "march_months = [(3, 31), (4, 30), (5, 31), (6, 30), (7, 31), (8, 31), (9, 30), (10, 31), (11, 30), (12, 31), (1, 31)]"

text \<open>Month and day of month; day 0 is 1 January 1970, and 719468 days lie between the two origins.\<close>

definition month_day :: "int \<Rightarrow> nat \<times> nat" where
  "month_day day =
     (let z = nat ((day + 719468) mod 146097) in month_walk march_months (snd (march_year 0 z)))"

declare march_months_def [eval_simps] month_day_def [eval_simps]

lemma march_year_day: "snd (march_year y d) < 366"
proof (induction y d rule: march_year.induct)
  case (1 y d)
  then show ?case by (subst march_year.simps) (auto simp: march_year_length_def)
qed

text \<open>A month of the list, whose days are those of its length, or February with what is left.\<close>

lemma month_walk_cases:
  "(\<exists>n. (fst (month_walk ms d), n) \<in> set ms \<and> 1 \<le> snd (month_walk ms d) \<and> snd (month_walk ms d) \<le> n) \<or>
   (month_walk ms d = (2, Suc (d - sum_list (map snd ms))) \<and> sum_list (map snd ms) \<le> d)"
  by (induction ms d rule: month_walk.induct) auto

lemma month_walk_bounds:
  assumes "d < 366"
  shows "1 \<le> fst (month_walk march_months d) \<and> fst (month_walk march_months d) \<le> 12 \<and>
    1 \<le> snd (month_walk march_months d) \<and> snd (month_walk march_months d) \<le> 31 \<and>
    (fst (month_walk march_months d) = 2 \<longrightarrow> snd (month_walk march_months d) \<le> 29)"
  using month_walk_cases [of march_months d]
proof (elim disjE exE conjE)
  fix n
  assume n: "(fst (month_walk march_months d), n) \<in> set march_months"
    "1 \<le> snd (month_walk march_months d)" "snd (month_walk march_months d) \<le> n"
  have "\<forall>(m, n) \<in> set march_months. 1 \<le> m \<and> m \<le> 12 \<and> n \<le> 31 \<and> m \<noteq> 2" by (simp add: march_months_def)
  then show ?thesis using n by fastforce
next
  assume "month_walk march_months d = (2, Suc (d - sum_list (map snd march_months)))"
  moreover have "sum_list (map snd march_months) = 337" by (simp add: march_months_def)
  moreover have "d - 337 \<le> 28" using assms by arith
  ultimately show ?thesis by simp
qed

lemma month_day_bounds:
  "1 \<le> fst (month_day day)" "fst (month_day day) \<le> 12" "1 \<le> snd (month_day day)" "snd (month_day day) \<le> 31"
  "fst (month_day day) = 2 \<Longrightarrow> snd (month_day day) \<le> 29"
  unfolding month_day_def Let_def using month_walk_bounds [OF march_year_day] by blast+

section \<open>Local times\<close>

type_synonym location = "int \<Rightarrow> int"

definition UTC :: location where
  "UTC = (\<lambda>s. 0)"

definition local_second :: "location \<Rightarrow> int \<Rightarrow> int" where
  "local_second loc t = (let s = t div 1000000000 in s + loc s)"

definition Minute :: "location \<Rightarrow> int \<Rightarrow> nat" where
  "Minute loc t = nat (local_second loc t div 60 mod 60)"

definition Hour :: "location \<Rightarrow> int \<Rightarrow> nat" where
  "Hour loc t = nat (local_second loc t div 3600 mod 24)"

definition Day :: "location \<Rightarrow> int \<Rightarrow> nat" where
  "Day loc t = snd (month_day (local_second loc t div 86400))"

definition Month :: "location \<Rightarrow> int \<Rightarrow> nat" where
  "Month loc t = fst (month_day (local_second loc t div 86400))"

text \<open>Sunday is 0; 1 January 1970 was a Thursday.\<close>

definition Weekday :: "location \<Rightarrow> int \<Rightarrow> nat" where
  "Weekday loc t = nat ((local_second loc t div 86400 + 4) mod 7)"

abbreviation a_minute :: int where
  "a_minute \<equiv> 60000000000"

text \<open>\<open>Truncate(time.Minute)\<close>.\<close>

definition Truncate_minute :: "int \<Rightarrow> int" where
  "Truncate_minute t = t - t mod a_minute"

declare UTC_def [eval_simps] local_second_def [eval_simps] Minute_def [eval_simps] Hour_def [eval_simps]
  Day_def [eval_simps] Month_def [eval_simps] Weekday_def [eval_simps] Truncate_minute_def [eval_simps]

lemma time_field_bounds: "Minute loc t < 60" "Hour loc t < 24" "Day loc t < 32" "Month loc t < 13" "Weekday loc t < 7"
  using month_day_bounds [of "local_second loc t div 86400"]
  by (simp_all add: Minute_def Hour_def Day_def Month_def Weekday_def nat_less_iff)

end
