(* ===== verification/Cron.thy ===== *)
theory Cron
  imports GoTime
begin

text \<open>
  The cron expressions of \<^verbatim>\<open>src/scheduler/cronexpr.go\<close>: the parser, which fills an array of
  flags per field, and the search for the next time. The flags are lists indexed by the value. An
  index out of range is a panic of the server.
\<close>

section \<open>Parsing\<close>

datatype 'a cron_result =
    Cron_Schedule 'a
  | Cron_Error
  | Cron_Panic

record cronSchedule =
  every :: int
  minutes :: "bool list"
  hours :: "bool list"
  days :: "bool list"
  months :: "bool list"
  weekdays :: "bool list"

text \<open>
  The loop that sets every step-th flag from \<open>v\<close> to \<open>hi\<close>; adding the step wraps around. It is
  entered with a positive step only, and the last conjuncts of its condition say no more than
  that and that \<open>hi\<close> and \<open>step\<close> are integers of 64 bits.
\<close>

function set_bits :: "int \<Rightarrow> int \<Rightarrow> int \<Rightarrow> bool list \<Rightarrow> bool list cron_result" where
  "set_bits v hi step bits =
     (if v \<le> hi \<and> 0 < step \<and> in_int64 step \<and> in_int64 hi then
        (if v < int (length bits) then
           (if v < 0 then Cron_Panic else set_bits (wrap64 (v + step)) hi step (bits[nat v := True]))
         else set_bits (wrap64 (v + step)) hi step bits)
      else Cron_Schedule bits)"
  by pat_completeness auto

lemma wrap64_later:
  assumes "0 \<le> v" and "v \<le> hi" and "in_int64 hi" and "0 < step" and "in_int64 step"
  shows "wrap64 (v + step) = v + step \<or> wrap64 (v + step) < 0"
proof (cases "v + step < 2 ^ 63")
  case True
  then show ?thesis using assms by (intro disjI1 wrap64_id) (simp add: in_int64_def)
next
  case False
  then show ?thesis using assms wrap64_over [of "v + step"] by (simp add: in_int64_def)
qed

text \<open>An index in the array moves up, or wraps to a negative one, which ends the loop.\<close>

termination set_bits
proof (relation "measure (\<lambda>(v, hi, step, bits). if v < 0 then 0 else nat (hi + 1 - v))")
  fix v hi step :: int and bits :: "bool list"
  assume "v \<le> hi \<and> 0 < step \<and> in_int64 step \<and> in_int64 hi" "\<not> v < 0"
  then show "((wrap64 (v + step), hi, step, bits[nat v := True]), v, hi, step, bits)
      \<in> measure (\<lambda>(v, hi, step, bits). if v < 0 then 0 else nat (hi + 1 - v))"
    using wrap64_later [of v hi step] by auto
next
  fix v hi step :: int and bits :: "bool list"
  assume "v \<le> hi \<and> 0 < step \<and> in_int64 step \<and> in_int64 hi" "\<not> v < int (length bits)"
  then show "((wrap64 (v + step), hi, step, bits), v, hi, step, bits)
      \<in> measure (\<lambda>(v, hi, step, bits). if v < 0 then 0 else nat (hi + 1 - v))"
    using wrap64_later [of v hi step] by auto
qed simp

declare set_bits.simps [simp del] set_bits.simps [eval_simps]

definition cron_step :: "string \<Rightarrow> int option" where
  "cron_step part =
     (if CHR ''/'' \<in> set part then
        (case Atoi (snd (Cut part (CHR ''/''))) of
           None \<Rightarrow> None
         | Some n \<Rightarrow> if n \<le> 0 then None else Some n)
      else Some 1)"

definition cron_bounds :: "string \<Rightarrow> int \<Rightarrow> int \<Rightarrow> (int \<times> int) option" where
  "cron_bounds rangePart least greatest =
     (if rangePart = ''*'' then Some (least, greatest)
      else if CHR ''-'' \<in> set rangePart then
        (case (Atoi (fst (Cut rangePart (CHR ''-''))), Atoi (snd (Cut rangePart (CHR ''-'')))) of
           (Some l, Some h) \<Rightarrow> Some (l, h)
         | _ \<Rightarrow> None)
      else map_option (\<lambda>n. (n, n)) (Atoi rangePart))"

definition parseCronRange :: "string \<Rightarrow> int \<Rightarrow> int \<Rightarrow> bool list \<Rightarrow> bool list cron_result" where
  "parseCronRange part least greatest bits =
     (case (cron_step part, cron_bounds (fst (Cut part (CHR ''/''))) least greatest) of
        (Some step, Some (lo, hi)) \<Rightarrow>
          if lo < least \<or> hi > greatest \<or> lo > hi then Cron_Error else set_bits lo hi step bits
      | _ \<Rightarrow> Cron_Error)"

fun parse_parts :: "string list \<Rightarrow> int \<Rightarrow> int \<Rightarrow> bool list \<Rightarrow> bool list cron_result" where
  "parse_parts [] least greatest bits = Cron_Schedule bits"
| "parse_parts (p # ps) least greatest bits =
     (case parseCronRange p least greatest bits of
        Cron_Schedule b \<Rightarrow> parse_parts ps least greatest b
      | Cron_Error \<Rightarrow> Cron_Error
      | Cron_Panic \<Rightarrow> Cron_Panic)"

definition parseCronField :: "string \<Rightarrow> int \<Rightarrow> int \<Rightarrow> bool list \<Rightarrow> bool list cron_result" where
  "parseCronField field least greatest bits = parse_parts (split_on (CHR '','') field) least greatest bits"

text \<open>The next field of the expression; errors and panics skip the rest.\<close>

fun and_field :: "'a cron_result \<Rightarrow> ('a \<Rightarrow> 'b cron_result) \<Rightarrow> 'b cron_result" where
  "and_field (Cron_Schedule b) k = k b"
| "and_field Cron_Error k = Cron_Error"
| "and_field Cron_Panic k = Cron_Panic"

definition no_bits :: "nat \<Rightarrow> bool list" where
  "no_bits n = replicate n False"

definition five_fields :: "string \<Rightarrow> cronSchedule cron_result" where
  "five_fields expr =
     (case Fields expr of
        [f0, f1, f2, f3, f4] \<Rightarrow>
          and_field (parseCronField f0 0 59 (no_bits 60)) (\<lambda>mi.
          and_field (parseCronField f1 0 23 (no_bits 24)) (\<lambda>ho.
          and_field (parseCronField f2 1 31 (no_bits 32)) (\<lambda>da.
          and_field (parseCronField f3 1 12 (no_bits 13)) (\<lambda>mo.
          and_field (parseCronField f4 0 6 (no_bits 7)) (\<lambda>we.
            Cron_Schedule \<lparr>every = 0, minutes = mi, hours = ho, days = da, months = mo, weekdays = we\<rparr>)))))
      | _ \<Rightarrow> Cron_Error)"

text \<open>The short forms call the parser again, on an expression of five fields.\<close>

definition parseCronSchedule :: "string \<Rightarrow> cronSchedule cron_result" where
  "parseCronSchedule expr0 =
     (let expr = TrimSpace expr0
      in if HasPrefix expr ''@every '' then
           (case ParseDuration (TrimSpace (drop 7 expr)) of
              None \<Rightarrow> Cron_Error
            | Some d \<Rightarrow>
                if d \<le> 0 then Cron_Error
                else Cron_Schedule \<lparr>every = d, minutes = no_bits 60, hours = no_bits 24, days = no_bits 32,
                       months = no_bits 13, weekdays = no_bits 7\<rparr>)
         else if expr = ''@hourly'' then five_fields ''0 * * * *''
         else if expr = ''@daily'' \<or> expr = ''@midnight'' then five_fields ''0 0 * * *''
         else if expr = ''@weekly'' then five_fields ''0 0 * * 0''
         else if expr = ''@monthly'' then five_fields ''0 0 1 * *''
         else five_fields expr)"

section \<open>The next time\<close>

definition cron_matches :: "cronSchedule \<Rightarrow> location \<Rightarrow> int \<Rightarrow> bool" where
  "cron_matches cs loc t \<longleftrightarrow>
     minutes cs ! Minute loc t \<and> hours cs ! Hour loc t \<and> days cs ! Day loc t \<and>
     months cs ! Month loc t \<and> weekdays cs ! Weekday loc t"

text \<open>The loop of \<open>Next\<close>: at most \<open>n\<close> minutes are tried.\<close>

fun next_search :: "nat \<Rightarrow> cronSchedule \<Rightarrow> location \<Rightarrow> int \<Rightarrow> int option" where
  "next_search 0 cs loc t = None"
| "next_search (Suc n) cs loc t = (if cron_matches cs loc t then Some t else next_search n cs loc (t + a_minute))"

definition search_minutes :: nat where
  "search_minutes = 366 * 24 * 60 + 1"

definition cron_Next :: "cronSchedule \<Rightarrow> location \<Rightarrow> int \<Rightarrow> int" where
  "cron_Next cs loc from_t =
     (if every cs > 0 then from_t + every cs
      else
        (case next_search search_minutes cs loc (Truncate_minute from_t + a_minute) of
           Some t \<Rightarrow> t
         | None \<Rightarrow> from_t + a_minute))"

declare cron_step_def [eval_simps] cron_bounds_def [eval_simps] parseCronRange_def [eval_simps] parseCronField_def [eval_simps] no_bits_def [eval_simps]
  five_fields_def [eval_simps] parseCronSchedule_def [eval_simps] cron_matches_def [eval_simps]
  cron_Next_def [eval_simps]

lemma next_search_numeral [eval_simps]:
  "next_search (numeral k) cs loc t =
     (if cron_matches cs loc t then Some t else next_search (pred_numeral k) cs loc (t + a_minute))"
  by (simp add: numeral_eq_Suc)

end
