(* ===== verification/CronParse.thy ===== *)
theory CronParse
  imports Cron
begin

text \<open>
  What the cron parser accepts: the shape of every schedule it returns, the flags a range sets,
  and the steps on which it panics.
\<close>

section \<open>Setting flags\<close>

text \<open>\<open>within lo hi bits b\<close>: flags were only added, in the range, and at its start.\<close>

definition within_range :: "int \<Rightarrow> int \<Rightarrow> bool list \<Rightarrow> bool list \<Rightarrow> bool" where
  "within_range lo hi bits b \<longleftrightarrow>
     length b = length bits \<and> (\<forall>i < length bits. bits ! i \<longrightarrow> b ! i) \<and>
     (\<forall>i < length bits. b ! i \<longrightarrow> bits ! i \<or> (lo \<le> int i \<and> int i \<le> hi))"

lemma within_range_refl: "within_range lo hi bits bits"
  by (simp add: within_range_def)

lemma within_range_trans:
  "within_range lo hi a b \<Longrightarrow> within_range lo hi b c \<Longrightarrow> within_range lo hi a c"
  unfolding within_range_def by auto

lemma within_range_wider: "within_range lo hi a b \<Longrightarrow> lo' \<le> lo \<Longrightarrow> hi \<le> hi' \<Longrightarrow> within_range lo' hi' a b"
  unfolding within_range_def by fastforce

lemma within_range_update: "0 \<le> v \<Longrightarrow> v \<le> hi \<Longrightarrow> lo \<le> v \<Longrightarrow> within_range lo hi bits (bits[nat v := True])"
  unfolding within_range_def by (cases "nat v < length bits") (auto simp: nth_list_update)

lemma set_bits_stop: "hi < v \<Longrightarrow> set_bits v hi step bits = Cron_Schedule bits"
  by (subst set_bits.simps) simp

abbreviation loop_args :: "int \<Rightarrow> int \<Rightarrow> bool" where
  "loop_args hi step \<equiv> 0 < step \<and> in_int64 step \<and> in_int64 hi"

lemma set_bits_negative: "v < 0 \<Longrightarrow> 0 \<le> hi \<Longrightarrow> loop_args hi step \<Longrightarrow> set_bits v hi step bits = Cron_Panic"
  by (subst set_bits.simps) simp

lemma set_bits_round:
  "0 \<le> v \<Longrightarrow> v \<le> hi \<Longrightarrow> loop_args hi step \<Longrightarrow>
   set_bits v hi step bits = set_bits (wrap64 (v + step)) hi step (bits[nat v := True])"
  by (subst set_bits.simps) (simp add: list_update_beyond nat_le_iff not_less)

lemma set_bits_refused: "\<not> loop_args hi step \<Longrightarrow> set_bits v hi step bits = Cron_Schedule bits"
  by (subst set_bits.simps) auto

text \<open>Induction over the rounds of the loop.\<close>

lemma set_bits_induct [consumes 2, case_names stop wrap round]:
  assumes "loop_args hi step" and "0 \<le> v"
    and "\<And>v bits. hi < v \<Longrightarrow> P v bits"
    and "\<And>v bits. 0 \<le> v \<Longrightarrow> v \<le> hi \<Longrightarrow> 2 ^ 63 \<le> v + step \<Longrightarrow> P v bits"
    and "\<And>v bits. 0 \<le> v \<Longrightarrow> v \<le> hi \<Longrightarrow> wrap64 (v + step) = v + step \<Longrightarrow> P (v + step) (bits[nat v := True]) \<Longrightarrow> P v bits"
  shows "P v bits"
  using assms(2)
proof (induction "nat (hi + 1 - v)" arbitrary: v bits rule: less_induct)
  case less
  consider "hi < v" | "v \<le> hi" "2 ^ 63 \<le> v + step" | "v \<le> hi" "v + step < 2 ^ 63" by linarith
  then show ?case
  proof cases
    case 3
    then have "wrap64 (v + step) = v + step"
      using less.prems assms(1) by (intro wrap64_id) (simp add: in_int64_def)
    then show ?thesis using less 3 assms(1,5) by simp
  qed (use assms(3,4) less.prems in auto)
qed

lemma set_bits_wrap:
  assumes "loop_args hi step" and "0 \<le> v" and "v \<le> hi" and "2 ^ 63 \<le> v + step"
  shows "set_bits v hi step bits = Cron_Panic"
proof -
  have "wrap64 (v + step) < 0"
    using wrap64_over [of "v + step"] assms by (simp add: in_int64_def)
  then show ?thesis using assms set_bits_negative [of "wrap64 (v + step)"] by (simp add: set_bits_round)
qed

lemma set_bits_within:
  assumes "set_bits v hi step bits = Cron_Schedule b" and "0 \<le> v"
  shows "within_range v hi bits b"
proof (cases "loop_args hi step")
  case True
  then show ?thesis using assms(2,1)
  proof (induction v bits rule: set_bits_induct)
    case (round v bits)
    have "within_range v hi bits (bits[nat v := True])" using round(1,2) by (intro within_range_update) auto
    moreover have "within_range v hi (bits[nat v := True]) b"
      using round True by (intro within_range_wider [OF round(4)]) (simp_all add: set_bits_round)
    ultimately show ?case by (rule within_range_trans)
  qed (use True in \<open>simp_all add: set_bits_stop set_bits_wrap within_range_refl\<close>)
qed (use assms in \<open>simp add: set_bits_refused within_range_refl\<close>)

text \<open>Without wrap-around every step-th flag from \<open>v\<close> to \<open>hi\<close> is set, and no other.\<close>

lemma set_bits_steps:
  assumes "loop_args hi step" and "hi + step < 2 ^ 63" and "0 \<le> v"
  shows "set_bits v hi step bits =
    Cron_Schedule (map (\<lambda>i. bits ! i \<or> (v \<le> int i \<and> int i \<le> hi \<and> step dvd int i - v)) [0..<length bits])"
  using assms(1,3)
proof (induction v bits rule: set_bits_induct)
  case (stop v bits)
  then have "map (\<lambda>i. bits ! i \<or> (v \<le> int i \<and> int i \<le> hi \<and> step dvd int i - v)) [0..<length bits] = bits"
    by (intro nth_equalityI) auto
  then show ?case using stop by (simp add: set_bits_stop)
next
  case (wrap v bits)
  then show ?case using assms by simp
next
  case (round v bits)
  have iff: "(v + step \<le> int i \<and> int i \<le> hi \<and> step dvd int i - (v + step)) \<or> int i = v \<longleftrightarrow>
      v \<le> int i \<and> int i \<le> hi \<and> step dvd int i - v" for i
  proof -
    have "step dvd int i - (v + step) \<longleftrightarrow> step dvd int i - v"
      using dvd_add_right_iff [of step "- step" "int i - v"] by (simp add: algebra_simps)
    moreover have "step dvd int i - v \<Longrightarrow> v < int i \<Longrightarrow> v + step \<le> int i"
      using zdvd_imp_le [of step "int i - v"] by simp
    ultimately show ?thesis using round(2) assms(1) by (auto simp: order_le_less)
  qed
  have "bits[nat v := True] ! i \<longleftrightarrow> bits ! i \<or> int i = v" if "i < length bits" for i
    using that round(1) by (cases "int i = v") (auto simp: nth_list_update)
  then have "map (\<lambda>i. bits[nat v := True] ! i \<or> (v + step \<le> int i \<and> int i \<le> hi \<and> step dvd int i - (v + step))) [0..<length bits]
      = map (\<lambda>i. bits ! i \<or> (v \<le> int i \<and> int i \<le> hi \<and> step dvd int i - v)) [0..<length bits]"
    using iff by (intro map_cong) auto
  then show ?case using round assms(1) by (simp add: set_bits_round)
qed

lemma set_bits_first:
  assumes "set_bits v hi step bits = Cron_Schedule b" and "loop_args hi step" and "0 \<le> v" and "v \<le> hi"
    and "hi < int (length bits)"
  shows "b ! nat v"
proof -
  have nw: "v + step < 2 ^ 63" using set_bits_wrap assms by (metis cron_result.distinct(3) not_less)
  then have "wrap64 (v + step) = v + step" using assms by (intro wrap64_id) (simp add: in_int64_def)
  then have "set_bits (v + step) hi step (bits[nat v := True]) = Cron_Schedule b"
    using assms by (simp add: set_bits_round)
  then have "within_range (v + step) hi (bits[nat v := True]) b" using assms by (intro set_bits_within) auto
  then show ?thesis using assms(3-5) unfolding within_range_def by (auto simp: nat_less_iff)
qed

section \<open>Fields\<close>

text \<open>A field adds flags between its bounds, and at least one.\<close>

definition field_set :: "int \<Rightarrow> int \<Rightarrow> bool list \<Rightarrow> bool list \<Rightarrow> bool" where
  "field_set lo hi bits b \<longleftrightarrow> within_range lo hi bits b \<and> (\<exists>i. lo \<le> int i \<and> int i \<le> hi \<and> i < length b \<and> b ! i)"

lemma cron_step_args: "cron_step p = Some st \<Longrightarrow> 0 < st \<and> in_int64 st"
  by (auto simp: cron_step_def in_int64_def dest!: Atoi_range split: if_splits option.splits)

lemma parseCronRange_set:
  assumes "parseCronRange p lo hi bits = Cron_Schedule b" and "0 \<le> lo" and "hi < int (length bits)" and "in_int64 hi"
  shows "field_set lo hi bits b"
proof -
  from assms(1) have "\<exists>st l h. cron_step p = Some st \<and> \<not> l < lo \<and> \<not> h > hi \<and> \<not> l > h \<and> set_bits l h st bits = Cron_Schedule b"
    unfolding parseCronRange_def by (auto split: option.splits if_splits, blast)
  then obtain st l h where st: "cron_step p = Some st" and r: "lo \<le> l" "l \<le> h" "h \<le> hi" "set_bits l h st bits = Cron_Schedule b"
    unfolding not_less by blast
  have l: "loop_args h st" using cron_step_args [OF st] r assms(2,4) by (auto simp: in_int64_def)
  have w0: "within_range l h bits b" using r(1) assms(2) by (intro set_bits_within [OF r(4)]) simp
  have w: "within_range lo hi bits b" by (rule within_range_wider [OF w0 r(1,3)])
  have "b ! nat l" using r assms(2,3) by (intro set_bits_first [OF r(4) l]) simp_all
  moreover have "length b = length bits" using w by (simp add: within_range_def)
  then have "nat l < length b" "lo \<le> int (nat l)" "int (nat l) \<le> hi" using r assms(2,3) by (simp_all add: nat_less_iff)
  ultimately show ?thesis using w unfolding field_set_def by blast
qed

lemma parse_parts_set:
  assumes "parse_parts ps lo hi bits = Cron_Schedule b" and "ps \<noteq> []" and "0 \<le> lo" and "hi < int (length bits)"
    and "in_int64 hi"
  shows "field_set lo hi bits b"
  using assms
proof (induction ps arbitrary: bits)
  case (Cons p ps)
  then obtain b1 where b1: "parseCronRange p lo hi bits = Cron_Schedule b1" "parse_parts ps lo hi b1 = Cron_Schedule b"
    by (auto split: cron_result.splits)
  then have s1: "field_set lo hi bits b1" using Cons.prems parseCronRange_set by blast
  show ?case
  proof (cases "ps = []")
    case True
    then show ?thesis using s1 b1(2) by simp
  next
    case False
    have len: "length b1 = length bits" using s1 unfolding field_set_def within_range_def by blast
    then have "field_set lo hi b1 b" using Cons.IH [OF b1(2) False] Cons.prems by simp
    then show ?thesis using s1 unfolding field_set_def by (blast intro: within_range_trans)
  qed
qed simp

lemma parseCronField_set:
  "parseCronField f lo hi bits = Cron_Schedule b \<Longrightarrow> 0 \<le> lo \<Longrightarrow> hi < int (length bits) \<Longrightarrow> in_int64 hi \<Longrightarrow>
   field_set lo hi bits b"
  unfolding parseCronField_def using parse_parts_set by simp

text \<open>The flags of a field that starts with an empty array.\<close>

definition field_shape :: "nat \<Rightarrow> nat \<Rightarrow> bool list \<Rightarrow> bool" where
  "field_shape lo n b \<longleftrightarrow> length b = n \<and> (\<forall>i < lo. \<not> b ! i) \<and> (\<exists>i < n. b ! i)"

lemma field_shape_parsed:
  assumes "parseCronField f (int lo) hi (no_bits n) = Cron_Schedule b" and "hi < int n" and "in_int64 hi" and "lo \<le> n"
  shows "field_shape lo n b"
proof -
  have "field_set (int lo) hi (no_bits n) b" using parseCronField_set assms by (simp add: no_bits_def)
  then have b: "length b = n" "\<forall>i < n. b ! i \<longrightarrow> int lo \<le> int i" "\<exists>i < n. b ! i"
    unfolding field_set_def within_range_def no_bits_def by auto
  moreover have "\<not> b ! i" if "i < lo" for i using b(2) that assms(4) by (metis of_nat_le_iff not_less order_less_le_trans)
  ultimately show ?thesis unfolding field_shape_def by blast
qed

lemma and_field_Schedule: "and_field r k = Cron_Schedule x \<longleftrightarrow> (\<exists>b. r = Cron_Schedule b \<and> k b = Cron_Schedule x)"
  by (cases r) auto

lemma five_fields_shape:
  assumes "five_fields e = Cron_Schedule cs"
  shows "every cs = 0 \<and> field_shape 0 60 (minutes cs) \<and> field_shape 0 24 (hours cs) \<and> field_shape 1 32 (days cs) \<and>
    field_shape 1 13 (months cs) \<and> field_shape 0 7 (weekdays cs)"
proof -
  obtain f0 f1 f2 f3 f4 mi ho da mo we where p:
    "parseCronField f0 0 59 (no_bits 60) = Cron_Schedule mi" "parseCronField f1 0 23 (no_bits 24) = Cron_Schedule ho"
    "parseCronField f2 1 31 (no_bits 32) = Cron_Schedule da" "parseCronField f3 1 12 (no_bits 13) = Cron_Schedule mo"
    "parseCronField f4 0 6 (no_bits 7) = Cron_Schedule we"
    "cs = \<lparr>every = 0, minutes = mi, hours = ho, days = da, months = mo, weekdays = we\<rparr>"
    using assms unfolding five_fields_def by (auto simp: and_field_Schedule split: list.splits)
  show ?thesis
    using field_shape_parsed [of f0 0] field_shape_parsed [of f1 0] field_shape_parsed [of f2 1]
      field_shape_parsed [of f3 1] field_shape_parsed [of f4 0] p
    by (simp add: in_int64_def)
qed

text \<open>
  C36 (cron_schedule_shape). Every schedule the parser returns is either an interval of positive length or has
  all five arrays of the size their index needs, with no flag at day 0 or month 0 and at least
  one flag in every field. So no lookup of a time is out of range and no field matches nothing.
\<close>

theorem cron_schedule_shape:
  assumes "parseCronSchedule e = Cron_Schedule cs"
  shows "0 < every cs \<or>
    (every cs = 0 \<and> field_shape 0 60 (minutes cs) \<and> field_shape 0 24 (hours cs) \<and> field_shape 1 32 (days cs) \<and>
     field_shape 1 13 (months cs) \<and> field_shape 0 7 (weekdays cs))"
  using assms unfolding parseCronSchedule_def Let_def
  by (auto split: if_splits option.splits dest: five_fields_shape)

lemma cron_schedule_shape_witness:
  "\<exists>cs. parseCronSchedule ''@every 90m'' = Cron_Schedule cs \<and>
    (0 < every cs \<or>
    (every cs = 0 \<and> field_shape 0 60 (minutes cs) \<and> field_shape 0 24 (hours cs) \<and> field_shape 1 32 (days cs) \<and>
     field_shape 1 13 (months cs) \<and> field_shape 0 7 (weekdays cs)))"
proof -
  have "\<exists>cs. parseCronSchedule ''@every 90m'' = Cron_Schedule cs" by (simp add: eval_simps)
  then show ?thesis using cron_schedule_shape by blast
qed

section \<open>Steps beyond the range\<close>

text \<open>
  A step is only checked to be positive. When adding it to the first value of the
  range passes the largest integer, the sum is negative, still below the end of the range, and
  used as an index: the parser panics instead of rejecting the expression. Such a schedule, set
  in the configuration, stops the server at its start.
\<close>

theorem cron_step_panics:
  assumes "lo < n" and "lo \<le> hi" and "hi < 2 ^ 63" and "n < 2 ^ 63" and "2 ^ 63 \<le> lo + n"
    and "lo \<le> greatest" and "least \<le> lo" and "hi \<le> greatest"
  shows "parseCronRange (show_nat lo @ ''-'' @ show_nat hi @ ''/'' @ show_nat n) (int least) (int greatest) bits = Cron_Panic"
proof -
  have nodash: "CHR ''-'' \<notin> set (show_nat k)" "CHR ''/'' \<notin> set (show_nat k)" for k
    by (auto simp: is_digit_def dest: show_nat_digits)
  have c1: "Cut (show_nat lo @ ''-'' @ show_nat hi @ ''/'' @ show_nat n) (CHR ''/'') = (show_nat lo @ ''-'' @ show_nat hi, show_nat n)"
    using Cut_append [of "CHR ''/''" "show_nat lo @ ''-'' @ show_nat hi" "show_nat n"] nodash by simp
  have c2: "Cut (show_nat lo @ ''-'' @ show_nat hi) (CHR ''-'') = (show_nat lo, show_nat hi)"
    using Cut_append [of "CHR ''-''" "show_nat lo" "show_nat hi"] nodash by simp
  have star: "show_nat lo @ ''-'' @ show_nat hi \<noteq> ''*''" by (cases "show_nat lo") auto
  have big: "int hi < 2 ^ 63" "int n < 2 ^ 63" "2 ^ 63 \<le> int lo + int n"
    using assms(3-5) by (simp_all flip: of_nat_less_iff of_nat_le_iff [where 'a = int])
  have "set_bits (int lo) (int hi) (int n) bits = Cron_Panic"
    using assms big by (intro set_bits_wrap) (simp_all add: in_int64_def)
  then show ?thesis
    using assms c1 c2 star by (simp add: parseCronRange_def cron_step_def cron_bounds_def Atoi_show_nat)
qed

lemma cron_step_panics_witness:
  "parseCronRange ''1-31/9223372036854775807'' 1 31 (no_bits 32) = Cron_Panic"
  using cron_step_panics [of 1 9223372036854775807 31 31 1 "no_bits 32"] by (simp add: show_nat.simps eval_simps)

end
