(* ===== verification/CronNext.thy ===== *)
theory CronNext
  imports CronParse
begin

text \<open>
  When a schedule fires: the search of \<open>Next\<close> finds the first matching minute, a daily expression
  fires within a day, and what happens to an expression that matches nothing within a year.
\<close>

section \<open>The search\<close>

lemma next_search_None: "next_search n cs loc t = None \<longleftrightarrow> (\<forall>k<n. \<not> cron_matches cs loc (t + int k * a_minute))"
proof (induction n arbitrary: t)
  case (Suc n)
  have "(\<forall>k<Suc n. \<not> cron_matches cs loc (t + int k * a_minute)) \<longleftrightarrow>
      \<not> cron_matches cs loc t \<and> (\<forall>k<n. \<not> cron_matches cs loc (t + a_minute + int k * a_minute))"
    by (simp add: All_less_Suc2 algebra_simps)
  then show ?case using Suc by simp
qed simp

lemma next_search_Some:
  "next_search n cs loc t = Some r \<Longrightarrow>
   \<exists>k<n. r = t + int k * a_minute \<and> cron_matches cs loc r \<and> (\<forall>j<k. \<not> cron_matches cs loc (t + int j * a_minute))"
proof (induction n arbitrary: t)
  case (Suc n)
  show ?case
  proof (cases "cron_matches cs loc t")
    case True
    then show ?thesis using Suc.prems by (intro exI [of _ 0]) simp
  next
    case False
    then have "next_search n cs loc (t + a_minute) = Some r" using Suc.prems by simp
    then obtain k where k: "k < n" "r = t + a_minute + int k * a_minute" "cron_matches cs loc r"
      "\<forall>j<k. \<not> cron_matches cs loc (t + a_minute + int j * a_minute)"
      using Suc.IH by blast
    have "\<forall>j<Suc k. \<not> cron_matches cs loc (t + int j * a_minute)"
      using k(4) False by (simp add: All_less_Suc2 algebra_simps)
    then show ?thesis using k by (intro exI [of _ "Suc k"]) (simp add: algebra_simps)
  qed
qed simp

text \<open>The minutes after a time are those of the search.\<close>

lemma later_minute:
  assumes "t mod a_minute = 0" and "from_t < t"
  shows "\<exists>k. t = Truncate_minute from_t + a_minute + int k * a_minute"
proof -
  have "Truncate_minute from_t = a_minute * (from_t div a_minute)"
    by (simp add: Truncate_minute_def minus_mod_eq_mult_div)
  moreover have t: "t = a_minute * (t div a_minute)" using assms(1) by (metis add.right_neutral mult_div_mod_eq)
  moreover have "a_minute * (from_t div a_minute) \<le> from_t"
    using mult_div_mod_eq [of a_minute from_t] pos_mod_sign [of a_minute from_t] by simp
  then have "from_t div a_minute < t div a_minute" using assms(2) t by linarith
  ultimately show ?thesis
    by (intro exI [of _ "nat (t div a_minute - from_t div a_minute - 1)"]) (simp add: algebra_simps)
qed

text \<open>
  C37 (cron_next_first). The search is right about every minute it looks at: the answer is the first whole minute
  after the given time, in any location, that all five fields match; if none of the 527041
  minutes after it does, the answer is a minute later than the given time.
\<close>

theorem cron_next_first:
  assumes "every cs = 0" and "r = cron_Next cs loc from_t"
  shows "(r mod a_minute = 0 \<and> from_t < r \<and> cron_matches cs loc r \<and>
      (\<forall>t. from_t < t \<longrightarrow> t < r \<longrightarrow> t mod a_minute = 0 \<longrightarrow> \<not> cron_matches cs loc t)) \<or>
    (r = from_t + a_minute \<and>
      (\<forall>t. from_t < t \<longrightarrow> t \<le> Truncate_minute from_t + 527041 * a_minute \<longrightarrow> t mod a_minute = 0 \<longrightarrow> \<not> cron_matches cs loc t))"
proof (cases "next_search search_minutes cs loc (Truncate_minute from_t + a_minute)")
  case None
  then have r: "r = from_t + a_minute" using assms by (simp add: cron_Next_def)
  have "\<not> cron_matches cs loc t"
    if t: "from_t < t" "t \<le> Truncate_minute from_t + 527041 * a_minute" "t mod a_minute = 0" for t
  proof -
    obtain k where k: "t = Truncate_minute from_t + a_minute + int k * a_minute" using later_minute [OF t(3,1)] by blast
    then have "k < search_minutes" using t(2) by (simp add: search_minutes_def)
    then show ?thesis using None k unfolding next_search_None by blast
  qed
  then show ?thesis using r by blast
next
  case (Some r')
  let ?t0 = "Truncate_minute from_t + a_minute"
  have r: "r' = r" using assms Some by (simp add: cron_Next_def)
  obtain k where k: "r = ?t0 + int k * a_minute" "cron_matches cs loc r" "\<forall>j<k. \<not> cron_matches cs loc (?t0 + int j * a_minute)"
    using next_search_Some [OF Some] unfolding r by blast
  have t0: "from_t < ?t0" "?t0 mod a_minute = 0" by (simp_all add: Truncate_minute_def)
  have "\<not> cron_matches cs loc t" if t: "from_t < t" "t < r" "t mod a_minute = 0" for t
  proof -
    obtain j where "t = ?t0 + int j * a_minute" using later_minute [OF t(3,1)] by blast
    then show ?thesis using k t(2) by simp
  qed
  moreover have "r mod a_minute = 0" unfolding k(1) using t0(2) by simp
  moreover have "from_t < r" unfolding k(1) using t0(1) by simp
  ultimately show ?thesis using k(2) by blast
qed

section \<open>Expressions of numbers\<close>

lemma length_no_bits [simp]: "length (no_bits n) = n"
  by (simp add: no_bits_def)

lemma parse_number:
  assumes "int k < int (length bits)" and "lo \<le> int k" and "int k \<le> hi" and "length bits < 2 ^ 62"
  shows "parseCronField (show_nat k) lo hi bits = Cron_Schedule (bits[k := True])"
proof -
  have digits: "c \<notin> set (show_nat k)" if "c \<in> set '',/-*''" for c
    using that by (auto simp: is_digit_def dest: show_nat_digits)
  have small: "k < 2 ^ 62" using assms(1,4) by simp
  then have "int k < int (2 ^ 62)" unfolding of_nat_less_iff .
  then have k63: "int k < 2 ^ 62" by simp
  have "set_bits (int k) (int k) 1 bits = set_bits (wrap64 (int k + 1)) (int k) 1 (bits[nat (int k) := True])"
    using k63 by (intro set_bits_round) (simp_all add: in_int64_def)
  also have "wrap64 (int k + 1) = int k + 1" using k63 by (intro wrap64_id) (simp add: in_int64_def)
  finally have bits: "set_bits (int k) (int k) 1 bits = Cron_Schedule (bits[k := True])" by (simp add: set_bits_stop)
  have "show_nat k \<noteq> ''*''" using digits [of "CHR ''*''"] by auto
  moreover have "Atoi (show_nat k) = Some (int k)" using small by (intro Atoi_show_nat) simp
  moreover have "fst (Cut (show_nat k) (CHR ''/'')) = show_nat k"
    using digits by (auto simp: Cut_def takeWhile_eq_all_conv)
  ultimately have "parseCronRange (show_nat k) lo hi bits = Cron_Schedule (bits[k := True])"
    using digits assms(2,3) bits by (simp add: parseCronRange_def cron_step_def cron_bounds_def)
  then show ?thesis using digits by (simp add: parseCronField_def split_on_no_sep)
qed

lemma Fields_word: "w \<noteq> [] \<Longrightarrow> (\<And>c. c \<in> set w \<Longrightarrow> \<not> go_space c) \<Longrightarrow> Fields (w @ CHR '' '' # s) = w # Fields s"
proof -
  assume w: "w \<noteq> []" "\<And>c. c \<in> set w \<Longrightarrow> \<not> go_space c"
  have sp: "go_space (CHR '' '')" by (simp add: go_space_def)
  have 1: "dropWhile go_space (w @ CHR '' '' # s) = w @ CHR '' '' # s" using w by (cases w) auto
  have 2: "takeWhile (\<lambda>c. \<not> go_space c) (w @ CHR '' '' # s) = w" using w(2) sp by (simp add: takeWhile_append)
  have 3: "dropWhile (\<lambda>c. \<not> go_space c) (w @ CHR '' '' # s) = CHR '' '' # s" using w(2) sp by (simp add: dropWhile_append)
  have 4: "Fields (CHR '' '' # s) = Fields s" using sp by (simp add: Fields.simps [of "CHR '' '' # s"] Fields.simps [of s])
  show ?thesis using w(1) 4 by (subst Fields.simps) (simp add: 1 2 3)
qed

lemma number_no_space: "c \<in> set (show_nat k) \<Longrightarrow> \<not> go_space c"
  by (drule show_nat_digits) (auto simp: is_digit_def go_space_def)

definition all_bits :: "int \<Rightarrow> int \<Rightarrow> nat \<Rightarrow> bool list" where
  "all_bits lo hi n = map (\<lambda>i. lo \<le> int i \<and> int i \<le> hi) [0..<n]"

lemma parse_star:
  assumes "0 \<le> lo" and "lo \<le> hi" and "hi < 2 ^ 62"
  shows "parseCronField ''*'' lo hi (no_bits n) = Cron_Schedule (all_bits lo hi n)"
proof -
  have "set_bits lo hi 1 (no_bits n) = Cron_Schedule (map (\<lambda>i. no_bits n ! i \<or> (lo \<le> int i \<and> int i \<le> hi \<and> 1 dvd int i - lo))
      [0..<length (no_bits n)])"
    using assms by (intro set_bits_steps) (simp_all add: in_int64_def)
  also have "map (\<lambda>i. no_bits n ! i \<or> (lo \<le> int i \<and> int i \<le> hi \<and> 1 dvd int i - lo)) [0..<length (no_bits n)] = all_bits lo hi n"
    by (simp add: all_bits_def no_bits_def)
  finally show ?thesis
    using assms by (simp add: parseCronField_def parseCronRange_def cron_step_def cron_bounds_def Cut_def)
qed

lemma all_bits_nth: "i < n \<Longrightarrow> all_bits lo hi n ! i \<longleftrightarrow> lo \<le> int i \<and> int i \<le> hi"
  by (simp add: all_bits_def)

lemma one_bit_nth: "i < n \<Longrightarrow> k < n \<Longrightarrow> (no_bits n)[k := True] ! i \<longleftrightarrow> i = k"
  by (auto simp: no_bits_def nth_list_update)

section \<open>Every day at a time\<close>

definition daily :: "nat \<Rightarrow> nat \<Rightarrow> string" where
  "daily m h = show_nat m @ '' '' @ show_nat h @ '' * * *''"

lemma parse_daily:
  assumes "m < 60" and "h < 24"
  shows "parseCronSchedule (daily m h) = Cron_Schedule
    \<lparr>every = 0, minutes = (no_bits 60)[m := True], hours = (no_bits 24)[h := True],
     days = all_bits 1 31 32, months = all_bits 1 12 13, weekdays = all_bits 0 6 7\<rparr>"
proof -
  have at: "CHR ''@'' \<notin> set (daily m h)" by (auto simp: daily_def is_digit_def dest: show_nat_digits)
  have "TrimSpace (daily m h) = daily m h"
    unfolding TrimSpace_def
  proof (rule strip_id)
    have "hd (daily m h) = hd (show_nat m)" by (simp add: daily_def)
    then show "\<not> go_space (hd (daily m h))" using number_no_space [OF list.set_sel(1)] by simp
    show "\<not> go_space (last (daily m h))" by (simp add: daily_def go_space_def)
  qed
  moreover have "Fields (daily m h) = [show_nat m, show_nat h, ''*'', ''*'', ''*'']"
    using Fields_word [of "show_nat m" "show_nat h @ '' * * *''"] Fields_word [of "show_nat h" "''* * *''"] number_no_space
    by (simp add: daily_def) (simp add: Fields.simps go_space_def)
  moreover have "\<not> HasPrefix (daily m h) ''@every ''" "daily m h \<notin> {''@hourly'', ''@daily'', ''@midnight'', ''@weekly'', ''@monthly''}"
    using at by (auto simp: HasPrefix_def prefix_def)
  ultimately show ?thesis
    using assms by (simp add: parseCronSchedule_def five_fields_def parse_number parse_star)
qed

lemma utc_second: "local_second UTC (a_minute * M) = 60 * M"
proof -
  have "a_minute * M = 1000000000 * (60 * M)" by simp
  then have "a_minute * M div 1000000000 = 60 * M" by (metis nonzero_mult_div_cancel_left zero_neq_numeral)
  then show ?thesis by (simp add: local_second_def UTC_def)
qed

lemma utc_clock: "Minute UTC (a_minute * M) = nat (M mod 60)" "Hour UTC (a_minute * M) = nat (M div 60 mod 24)"
proof -
  have "60 * M div 3600 = M div 60" using div_mult_mult1 [of 60 M 60] by simp
  then show "Minute UTC (a_minute * M) = nat (M mod 60)" "Hour UTC (a_minute * M) = nat (M div 60 mod 24)"
    unfolding Minute_def Hour_def utc_second by simp_all
qed

lemma day_minute: "(M :: int) mod 1440 = 60 * (M div 60 mod 24) + M mod 60"
  using zmod_zmult2_eq [of 24 M 60] by simp

lemma sixty_unique:
  fixes q r h m :: int
  assumes "60 * q + r = 60 * h + m" and "0 \<le> r" and "r < 60" and "0 \<le> m" and "m < 60"
  shows "r = m \<and> q = h"
proof -
  have "(60 * q + r) div 60 = q" "(60 * h + m) div 60 = h" using assms(2-5) by simp_all
  then have "q = h" using assms(1) by simp
  then show ?thesis using assms(1) by simp
qed

lemma daily_matches:
  assumes "m < 60" and "h < 24" and "M mod 1440 = 60 * int h + int m"
    and "minutes cs = (no_bits 60)[m := True]" and "hours cs = (no_bits 24)[h := True]"
    and "days cs = all_bits 1 31 32" and "months cs = all_bits 1 12 13" and "weekdays cs = all_bits 0 6 7"
  shows "cron_matches cs UTC (a_minute * M)"
proof -
  let ?t = "a_minute * M"
  have "60 * (M div 60 mod 24) + M mod 60 = 60 * int h + int m" using assms(3) day_minute [of M] by simp
  moreover have "0 \<le> M mod 60" "M mod 60 < 60" by simp_all
  ultimately have "M mod 60 = int m" "M div 60 mod 24 = int h"
    using sixty_unique [of _ _ "int h" "int m"] assms(1) by auto
  then have "Minute UTC ?t = m" "Hour UTC ?t = h" by (simp_all add: utc_clock)
  moreover have "1 \<le> Day UTC ?t \<and> Day UTC ?t \<le> 31" "1 \<le> Month UTC ?t \<and> Month UTC ?t \<le> 12" "Weekday UTC ?t \<le> 6"
    using month_day_bounds [of "local_second UTC ?t div 86400"] time_field_bounds(5) [of UTC ?t]
    unfolding Day_def Month_def by simp_all
  ultimately show ?thesis using assms
    by (simp add: cron_matches_def one_bit_nth all_bits_nth)
qed

text \<open>The next minute with a given remainder is less than a day away.\<close>

lemma minute_of_day:
  assumes "0 \<le> q" and "q < 1440"
  shows "\<exists>k < 1440. (M0 + int k) mod 1440 = q"
proof (intro exI conjI)
  let ?k = "nat ((q - M0) mod 1440)"
  have k: "int ?k = (q - M0) mod 1440" by simp
  show "?k < 1440" by (simp add: nat_less_iff)
  have "(M0 + (q - M0) mod 1440) mod 1440 = (M0 + (q - M0)) mod 1440" by (rule mod_add_right_eq)
  then show "(M0 + int ?k) mod 1440 = q" unfolding k using assms by simp
qed

text \<open>
  A daily expression, a minute and an hour followed by three stars, is parsed and fires within
  the next 24 hours, on the full minute, at that hour and minute of Coordinated Universal Time.
\<close>

theorem daily_fires:
  assumes "m < 60" and "h < 24"
  shows "\<exists>cs. parseCronSchedule (daily m h) = Cron_Schedule cs \<and>
    from_t < cron_Next cs UTC from_t \<and> cron_Next cs UTC from_t \<le> from_t + 1440 * a_minute \<and>
    cron_Next cs UTC from_t mod a_minute = 0 \<and>
    Minute UTC (cron_Next cs UTC from_t) = m \<and> Hour UTC (cron_Next cs UTC from_t) = h"
proof -
  define cs where "cs = \<lparr>every = 0, minutes = (no_bits 60)[m := True], hours = (no_bits 24)[h := True],
     days = all_bits 1 31 32, months = all_bits 1 12 13, weekdays = all_bits 0 6 7\<rparr>"
  let ?r = "cron_Next cs UTC from_t"
  let ?M = "from_t div a_minute + 1"
  have start: "Truncate_minute from_t + a_minute = a_minute * ?M"
    by (simp add: Truncate_minute_def minus_mod_eq_mult_div algebra_simps)
  obtain k where k: "k < 1440" "(?M + int k) mod 1440 = 60 * int h + int m"
    using minute_of_day [of "60 * int h + int m" ?M] assms by auto
  have hit: "cron_matches cs UTC (a_minute * (?M + int k))"
    by (rule daily_matches [OF assms k(2)]) (simp_all add: cs_def)
  have "next_search search_minutes cs UTC (a_minute * ?M) \<noteq> None"
    using hit k(1) unfolding next_search_None
    by (auto simp: search_minutes_def algebra_simps intro!: exI [of _ k])
  then obtain r where r: "next_search search_minutes cs UTC (a_minute * ?M) = Some r" by blast
  then have is_r: "?r = r" using start by (simp add: cron_Next_def cs_def)
  obtain j where j: "r = a_minute * ?M + int j * a_minute" "cron_matches cs UTC r"
    "\<forall>i<j. \<not> cron_matches cs UTC (a_minute * ?M + int i * a_minute)"
    using next_search_Some [OF r] by blast
  have "j \<le> k"
  proof (rule ccontr)
    assume "\<not> j \<le> k"
    then have "\<not> cron_matches cs UTC (a_minute * ?M + int k * a_minute)" using j(3) by simp
    then show False using hit by (simp add: algebra_simps)
  qed
  moreover have "a_minute * ?M = from_t - from_t mod a_minute + a_minute" using start by (simp add: Truncate_minute_def)
  moreover have "0 \<le> from_t mod a_minute" "from_t mod a_minute < a_minute" by simp_all
  ultimately have range: "from_t < r" "r \<le> from_t + 1440 * a_minute" using j(1) k(1) by simp_all
  have "minutes cs ! Minute UTC r" "hours cs ! Hour UTC r" using j(2) by (simp_all add: cron_matches_def)
  then have "Minute UTC r = m" "Hour UTC r = h"
    using assms time_field_bounds [of UTC r] by (simp_all add: cs_def one_bit_nth)
  moreover have "r mod a_minute = 0" using j(1) by simp
  moreover have "parseCronSchedule (daily m h) = Cron_Schedule cs" unfolding cs_def by (rule parse_daily [OF assms])
  ultimately show ?thesis using range is_r by (intro exI [of _ cs]) simp
qed

section \<open>The 29th of February\<close>

lemma number_texts: "show_nat 0 = ''0''" "show_nat 2 = ''2''" "show_nat 29 = ''29''"
  by (simp_all add: show_nat.simps char_of_eq)

definition leap_day :: cronSchedule where
  "leap_day = \<lparr>every = 0, minutes = (no_bits 60)[0 := True], hours = (no_bits 24)[0 := True],
     days = (no_bits 32)[29 := True], months = (no_bits 13)[2 := True], weekdays = all_bits 0 6 7\<rparr>"

lemma parse_leap_day: "parseCronSchedule ''0 0 29 2 *'' = Cron_Schedule leap_day"
proof -
  have "parseCronField ''0'' 0 59 (no_bits 60) = Cron_Schedule ((no_bits 60)[0 := True])"
    "parseCronField ''0'' 0 23 (no_bits 24) = Cron_Schedule ((no_bits 24)[0 := True])"
    "parseCronField ''29'' 1 31 (no_bits 32) = Cron_Schedule ((no_bits 32)[29 := True])"
    "parseCronField ''2'' 1 12 (no_bits 13) = Cron_Schedule ((no_bits 13)[2 := True])"
    using parse_number [of 0 "no_bits 60" 0 59] parse_number [of 0 "no_bits 24" 0 23]
      parse_number [of 29 "no_bits 32" 1 31] parse_number [of 2 "no_bits 13" 1 12]
    by (simp_all add: number_texts)
  moreover have "Fields ''0 0 29 2 *'' = [''0'', ''0'', ''29'', ''2'', ''*'']" by (simp add: Fields.simps go_space_def)
  moreover have "TrimSpace ''0 0 29 2 *'' = ''0 0 29 2 *''" by (simp add: TrimSpace_def strip_def go_space_def)
  ultimately show ?thesis
    by (simp add: parseCronSchedule_def five_fields_def parse_star leap_day_def HasPrefix_def)
qed

text \<open>The two years after 1 March 2026, which is day 20513.\<close>

lemma march_2026: "march_year 0 (9496 + e) = march_year 26 e"
  by (simp add: march_year.simps [of _ "_ + e"] march_year_length_def leap_end_def, simp add: eval_nat_numeral)

lemma march_year_ordinary:
  assumes "e < 730"
  shows "snd (march_year 26 e) < 365"
proof (cases "e < 365")
  case True
  then show ?thesis by (subst march_year.simps) (simp add: march_year_length_def leap_end_def)
next
  case False
  then have "march_year 26 e = march_year 27 (e - 365)"
    by (subst march_year.simps) (simp add: march_year_length_def leap_end_def)
  moreover have "e - 365 < 366" using assms by arith
  then have "march_year 27 (e - 365) = (27, e - 365)" by (subst march_year.simps) (simp add: march_year_length_def leap_end_def)
  moreover have "e - 365 < 365" using assms by arith
  ultimately show ?thesis by simp
qed

lemma no_leap_day:
  assumes "20513 \<le> d" and "d < 21243"
  shows "month_day d \<noteq> (2, 29)"
proof -
  define e where "e = nat (d - 20513)"
  have e: "d = 20513 + int e" "e < 730" using assms by (simp_all add: e_def)
  have "(d + 719468) mod 146097 = 9496 + int e"
  proof -
    have "(d + 719468) mod 146097 = (9496 + int e + 5 * 146097) mod 146097" by (simp add: e(1))
    also have "\<dots> = (9496 + int e) mod 146097" by (rule mod_mult_self1)
    finally show ?thesis using e(2) by simp
  qed
  then have "month_day d = month_walk march_months (snd (march_year 26 e))"
    by (simp add: month_day_def nat_add_distrib march_2026)
  moreover have "month_walk march_months y \<noteq> (2, 29)" if "y < 365" for y
    using month_walk_cases [of march_months y]
  proof (elim disjE exE conjE)
    fix n
    assume "(fst (month_walk march_months y), n) \<in> set march_months"
    moreover have "\<forall>(m, n) \<in> set march_months. m \<noteq> 2" by (simp add: march_months_def)
    ultimately show ?thesis by force
  next
    assume "month_walk march_months y = (2, Suc (y - sum_list (map snd march_months)))"
    moreover have "sum_list (map snd march_months) = 337" by (simp add: march_months_def)
    ultimately show ?thesis using that by auto
  qed
  ultimately show ?thesis using march_year_ordinary [OF e(2)] by metis
qed

lemma leap_day_matches: "cron_matches leap_day loc t \<Longrightarrow> month_day (local_second loc t div 86400) = (2, 29)"
  using time_field_bounds [of loc t] unfolding cron_matches_def leap_day_def
  by (simp add: one_bit_nth) (simp add: Day_def Month_def prod_eq_iff)

text \<open>
  The comment at the end of \<open>Next\<close> says that every valid expression matches within a
  year. An expression for the 29th of February does not in the years between, and the fallback
  then is the next minute: from 1 March 2026 (day 20513) on, for almost a year, a task scheduled
  with \<open>0 0 29 2 *\<close> is due every minute.
\<close>

theorem leap_day_every_minute:
  assumes "20513 * 86400000000000 \<le> from_t" and "from_t < 20876 * 86400000000000"
  shows "parseCronSchedule ''0 0 29 2 *'' = Cron_Schedule leap_day \<and> cron_Next leap_day UTC from_t = from_t + a_minute"
proof -
  have "\<not> cron_matches leap_day UTC (Truncate_minute from_t + a_minute + int k * a_minute)" (is "\<not> cron_matches _ _ ?t")
    if k: "k < search_minutes" for k
  proof
    assume m: "cron_matches leap_day UTC ?t"
    have "Truncate_minute from_t \<le> from_t" "from_t < Truncate_minute from_t + a_minute"
      using pos_mod_sign [of a_minute from_t] pos_mod_bound [of a_minute from_t] unfolding Truncate_minute_def by linarith+
    then have "20513 * 86400000000000 \<le> ?t" "?t < 21243 * 86400000000000"
      using k assms by (simp_all add: search_minutes_def)
    then have "20513 \<le> ?t div 86400000000000" "?t div 86400000000000 < 21243" by simp_all
    moreover have "local_second UTC ?t div 86400 = ?t div 86400000000000"
      by (simp add: local_second_def UTC_def div_mult2_eq' flip: zdiv_zmult2_eq)
    ultimately show False using no_leap_day leap_day_matches [OF m] by metis
  qed
  then have "next_search search_minutes leap_day UTC (Truncate_minute from_t + a_minute) = None"
    unfolding next_search_None by blast
  then show ?thesis by (simp add: cron_Next_def parse_leap_day) (simp add: leap_day_def)
qed

lemma leap_day_every_minute_witness: "cron_Next leap_day UTC (1785412980 * 1000000000) = 1785413040 * 1000000000"
  using leap_day_every_minute [of "1785412980 * 1000000000"] by simp

lemma cron_next_first_witness:
  "every leap_day = 0 \<and>
   (cron_Next leap_day UTC 7 = 7 + a_minute \<or>
    (cron_matches leap_day UTC (cron_Next leap_day UTC 7) \<and> \<not> (cron_matches leap_day UTC a_minute \<and> a_minute < cron_Next leap_day UTC 7)))"
  using cron_next_first [of leap_day "cron_Next leap_day UTC 7" UTC 7] by (auto simp: leap_day_def)

lemma daily_fires_witness:
  "\<exists>cs. parseCronSchedule (daily 0 3) = Cron_Schedule cs \<and> cron_Next cs UTC 7 \<le> 1440 * a_minute + 7 \<and> Hour UTC (cron_Next cs UTC 7) = 3"
  using daily_fires [of 0 3 7] by auto

end
