(* ===== verification/Scheduler.thy ===== *)
theory Scheduler
  imports Cron
begin

text \<open>
  The scheduler of \<^verbatim>\<open>src/scheduler/scheduler.go\<close> and its admin operations in
  \<^verbatim>\<open>src/scheduler/admin.go\<close>: the task list in memory, the tables \<open>scheduler_tasks\<close> and
  \<open>scheduler_history\<close>, and one definition per operation. Clock readings are arguments, as are
  the outcomes of the task bodies; the database does not fail. Times are nanoseconds, the tables
  hold seconds.
\<close>

section \<open>State\<close>

record task =
  t_id :: string
  t_name :: string
  taskType :: string
  t_schedule :: string
  cron :: "cronSchedule"
  enabled :: bool
  maxRetries :: int
  retryDelay :: int
  running :: bool
  nextRun :: int
  attempt :: int

text \<open>A row of \<open>scheduler_tasks\<close>; NULL is \<open>None\<close>.\<close>

record task_row =
  r_name :: string
  r_type :: string
  r_enabled :: bool
  r_schedule :: string
  last_run :: "int option"
  next_run :: int
  last_status :: "string option"
  last_error :: "string option"
  run_count :: int
  fail_count :: int
  locked_by :: "string option"
  locked_at :: "int option"

record history_row =
  h_task :: string
  started_at :: int
  finished_at :: int
  h_status :: string
  h_error :: "string option"
  duration_ms :: int

record server_db =
  task_rows :: "string \<Rightarrow> task_row option"
  history :: "history_row list"    \<comment> \<open>in the order of insertion\<close>

definition Unix :: "int \<Rightarrow> int" where
  "Unix t = t div 1000000000"

text \<open>\<open>UPDATE scheduler_tasks SET ... WHERE id = ?\<close>.\<close>

definition update_row :: "string \<Rightarrow> (task_row \<Rightarrow> task_row) \<Rightarrow> server_db \<Rightarrow> server_db" where
  "update_row i f db = db\<lparr>task_rows := (task_rows db)(i := map_option f (task_rows db i))\<rparr>"

section \<open>Configuration\<close>

text \<open>The configured schedule and switch of every task, by its id.\<close>

record scheduler_config =
  sc_cron :: "string \<Rightarrow> string"
  sc_enabled :: "string \<Rightarrow> bool"
  MaxRetries :: int
  RetryDelay :: string

definition nonSkippableTasks :: "string set" where
  "nonSkippableTasks =
     {''session_cleanup'', ''token_cleanup'', ''log_rotation'', ''ssl_renewal'', ''healthcheck_self'',
      ''tor_health'', ''cluster_heartbeat''}"

definition retryPolicy :: "scheduler_config \<Rightarrow> int \<times> int" where
  "retryPolicy cfg =
     (if MaxRetries cfg \<le> 0 then 3 else MaxRetries cfg,
      case ParseDuration (RetryDelay cfg) of
        Some d \<Rightarrow> if d \<le> 0 then 5 * a_minute else d
      | None \<Rightarrow> 5 * a_minute)"

text \<open>Id, name, type and whether failed runs are retried.\<close>

definition builtin_tasks :: "(string \<times> string \<times> string \<times> bool) list" where
  "builtin_tasks =
     [(''session_cleanup'', ''Session Cleanup'', ''local'', False),
      (''token_cleanup'', ''Token Cleanup'', ''local'', False),
      (''expire_urls'', ''Expire URLs'', ''local'', False),
      (''log_rotation'', ''Log Rotation'', ''local'', False),
      (''backup_daily'', ''Backup Daily'', ''global'', True),
      (''backup_hourly'', ''Backup Hourly'', ''global'', False),
      (''ssl_renewal'', ''SSL Renewal'', ''global'', True),
      (''geoip_update'', ''GeoIP Update'', ''global'', True),
      (''blocklist_update'', ''Blocklist Update'', ''global'', True),
      (''cve_update'', ''CVE Update'', ''global'', True),
      (''update_check'', ''Update Check'', ''global'', False),
      (''healthcheck_self'', ''Self Health Check'', ''local'', False),
      (''tor_health'', ''Tor Health'', ''local'', False),
      (''cluster_heartbeat'', ''Cluster Heartbeat'', ''local'', False),
      (''domain_verification'', ''Domain Verification'', ''global'', True)]"

text \<open>A task with a schedule that is no cron expression is left out.\<close>

definition new_task :: "scheduler_config \<Rightarrow> string \<times> string \<times> string \<times> bool \<Rightarrow> task option" where
  "new_task cfg d =
     (case d of (i, name, ty, retried) \<Rightarrow>
        (case parseCronSchedule (sc_cron cfg i) of
           Cron_Schedule cs \<Rightarrow>
             Some \<lparr>t_id = i, t_name = name, taskType = ty, t_schedule = sc_cron cfg i, cron = cs,
               enabled = (sc_enabled cfg i \<or> i \<in> nonSkippableTasks),
               maxRetries = (if retried then fst (retryPolicy cfg) else 0),
               retryDelay = (if retried then snd (retryPolicy cfg) else 0),
               running = False, nextRun = 0, attempt = 0\<rparr>
         | _ \<Rightarrow> None))"

text \<open>\<open>None\<close> when the parser panics on one of the schedules.\<close>

definition addTasks :: "scheduler_config \<Rightarrow> task list option" where
  "addTasks cfg =
     (if \<exists>d \<in> set builtin_tasks. parseCronSchedule (sc_cron cfg (fst d)) = Cron_Panic then None
      else Some (List.map_filter (new_task cfg) builtin_tasks))"

section \<open>Start\<close>

definition loadOrInitTaskState :: "location \<Rightarrow> int \<Rightarrow> int \<Rightarrow> task \<Rightarrow> server_db \<Rightarrow> task \<times> server_db" where
  "loadOrInitTaskState loc catchUpWindow now' t db =
     (case task_rows db (t_id t) of
        None \<Rightarrow>
          let next' = cron_Next (cron t) loc now'
          in (t\<lparr>nextRun := next'\<rparr>,
              db\<lparr>task_rows := (task_rows db)(t_id t \<mapsto>
                \<lparr>r_name = t_name t, r_type = taskType t, r_enabled = enabled t, r_schedule = t_schedule t,
                 last_run = None, next_run = Unix next', last_status = None, last_error = None,
                 run_count = 0, fail_count = 0, locked_by = None, locked_at = None\<rparr>)\<rparr>)
      | Some row \<Rightarrow>
          let on = (r_enabled row \<or> t_id t \<in> nonSkippableTasks);
              t1 = t\<lparr>enabled := on\<rparr>;
              db1 = update_row (t_id t) (\<lambda>r. r\<lparr>r_name := t_name t, r_type := taskType t, r_schedule := t_schedule t,
                r_enabled := on, locked_by := None, locked_at := None\<rparr>) db;
              stored = next_run row * 1000000000;
              overdue = now' - stored
          in if overdue \<le> 0 then (t1\<lparr>nextRun := stored\<rparr>, db1)
             else if overdue \<le> catchUpWindow then (t1\<lparr>nextRun := now'\<rparr>, db1)
             else
               (t1\<lparr>nextRun := cron_Next (cron t) loc now'\<rparr>,
                update_row (t_id t) (\<lambda>r. r\<lparr>next_run := Unix (cron_Next (cron t) loc now')\<rparr>) db1))"

text \<open>The loop over the tasks in \<open>Start\<close>.\<close>

fun load_tasks :: "location \<Rightarrow> int \<Rightarrow> int \<Rightarrow> task list \<Rightarrow> server_db \<Rightarrow> task list \<times> server_db" where
  "load_tasks loc window now' [] db = ([], db)"
| "load_tasks loc window now' (t # ts) db =
     (let (t', db1) = loadOrInitTaskState loc window now' t db; (ts', db2) = load_tasks loc window now' ts db1
      in (t' # ts', db2))"

definition Scheduler_Start :: "scheduler_config \<Rightarrow> location \<Rightarrow> int \<Rightarrow> int \<Rightarrow> server_db \<Rightarrow> (task list \<times> server_db) option" where
  "Scheduler_Start cfg loc window now' db = map_option (\<lambda>ts. load_tasks loc window now' ts db) (addTasks cfg)"

section \<open>Runs\<close>

definition ready :: "int \<Rightarrow> task \<Rightarrow> bool" where
  "ready now' t \<longleftrightarrow> enabled t \<and> \<not> running t \<and> \<not> now' < nextRun t"

text \<open>\<open>tick\<close>: the tasks that are due start to run.\<close>

definition tick :: "int \<Rightarrow> task list \<Rightarrow> task list" where
  "tick now' ts = map (\<lambda>t. if ready now' t then t\<lparr>running := True\<rparr> else t) ts"

definition acquireLock :: "int \<Rightarrow> int \<Rightarrow> string \<Rightarrow> string \<Rightarrow> server_db \<Rightarrow> bool \<times> server_db" where
  "acquireLock now1 now2 nodeID i db =
     (case task_rows db i of
        None \<Rightarrow> (False, db)
      | Some r \<Rightarrow>
          if locked_by r = None \<or> locked_by r = Some [] \<or>
             (case locked_at r of Some a \<Rightarrow> a < Unix (now1 - 5 * a_minute) | None \<Rightarrow> False)
          then (True, update_row i (\<lambda>r. r\<lparr>locked_by := Some nodeID, locked_at := Some (Unix now2)\<rparr>) db)
          else (False, db))"

definition releaseLock :: "string \<Rightarrow> string \<Rightarrow> server_db \<Rightarrow> server_db" where
  "releaseLock nodeID i db =
     update_row i (\<lambda>r. if locked_by r = Some nodeID then r\<lparr>locked_by := None, locked_at := None\<rparr> else r) db"

text \<open>What \<open>Stop\<close> leaves in the database, once the runs have ended or half a minute is over.\<close>

definition Scheduler_Stop :: "string \<Rightarrow> server_db \<Rightarrow> server_db" where
  "Scheduler_Stop nodeID db =
     db\<lparr>task_rows := (\<lambda>i. map_option
       (\<lambda>r. if locked_by r = Some nodeID then r\<lparr>locked_by := None, locked_at := None\<rparr> else r) (task_rows db i))\<rparr>"

definition nullIfEmpty :: "string \<Rightarrow> string option" where
  "nullIfEmpty s = (if s = [] then None else Some s)"

definition recordRun :: "task \<Rightarrow> int \<Rightarrow> int \<Rightarrow> string \<Rightarrow> string \<Rightarrow> int \<Rightarrow> server_db \<Rightarrow> server_db" where
  "recordRun t started finished status errMsg next' db =
     update_row (t_id t)
       (\<lambda>r. r\<lparr>last_run := Some (Unix finished), last_status := Some status, last_error := nullIfEmpty errMsg,
          next_run := Unix next',
          run_count := run_count r + (if status = ''success'' then 1 else 0),
          fail_count := fail_count r + (if status = ''success'' then 0 else 1)\<rparr>)
       (db\<lparr>history := history db @
          [\<lparr>h_task = t_id t, started_at = Unix started, finished_at = Unix finished, h_status = status,
            h_error = nullIfEmpty errMsg, duration_ms = (finished - started) div 1000000\<rparr>]\<rparr>)"

text \<open>The retry delay, doubled once per earlier failure; durations wrap around at 64 bits.\<close>

fun backoff :: "nat \<Rightarrow> int \<Rightarrow> int" where
  "backoff 0 d = d"
| "backoff (Suc n) d = backoff n (wrap64 (d * 2))"

text \<open>The state of a task after a run, \<open>err\<close> being the error of its body.\<close>

definition after_run :: "location \<Rightarrow> int \<Rightarrow> string option \<Rightarrow> task \<Rightarrow> task" where
  "after_run loc finished err t =
     (case err of
        Some e \<Rightarrow>
          let a = attempt t + 1
          in t\<lparr>attempt := a,
               nextRun := (if maxRetries t > 0 \<and> a \<le> maxRetries t then finished + backoff (nat (a - 1)) (retryDelay t)
                           else cron_Next (cron t) loc finished)\<rparr>
      | None \<Rightarrow> t\<lparr>attempt := 0, nextRun := cron_Next (cron t) loc finished\<rparr>)"

text \<open>What a run reads from the outside.\<close>

record run_input =
  lock_now1 :: int
  lock_now2 :: int
  skip_now :: int
  run_started :: int
  run_finished :: int
  run_error :: "string option"

definition runTask :: "location \<Rightarrow> string \<Rightarrow> run_input \<Rightarrow> task \<Rightarrow> server_db \<Rightarrow> task \<times> server_db" where
  "runTask loc nodeID x t db =
     (let (got, db1) = (if taskType t = ''global'' then acquireLock (lock_now1 x) (lock_now2 x) nodeID (t_id t) db else (True, db))
      in if \<not> got then (t\<lparr>nextRun := cron_Next (cron t) loc (skip_now x), running := False\<rparr>, db1)
         else
           let t1 = after_run loc (run_finished x) (run_error x) t;
               db2 = recordRun t (run_started x) (run_finished x)
                 (if run_error x = None then ''success'' else ''failed'') (case run_error x of Some e \<Rightarrow> e | None \<Rightarrow> []) (nextRun t1) db1;
               db3 = (if taskType t = ''global'' then releaseLock nodeID (t_id t) db2 else db2)
           in (t1\<lparr>running := False\<rparr>, db3))"

section \<open>Admin operations\<close>

datatype admin_error = ErrTaskNotFound | ErrTaskRunning | ErrTaskNotSkippable

definition findTask :: "string \<Rightarrow> task list \<Rightarrow> task option" where
  "findTask i ts = find (\<lambda>t. t_id t = i) ts"

text \<open>A change of the task with the given id.\<close>

definition change_task :: "string \<Rightarrow> (task \<Rightarrow> task) \<Rightarrow> task list \<Rightarrow> task list" where
  "change_task i f ts = map (\<lambda>t. if t_id t = i then f t else t) ts"

definition SetTaskEnabled :: "string \<Rightarrow> bool \<Rightarrow> task list \<times> server_db \<Rightarrow> admin_error option \<times> task list \<times> server_db" where
  "SetTaskEnabled i on s =
     (if \<not> on \<and> i \<in> nonSkippableTasks then (Some ErrTaskNotSkippable, s)
      else
        (case findTask i (fst s) of
           None \<Rightarrow> (Some ErrTaskNotFound, s)
         | Some t \<Rightarrow>
             (None, change_task i (\<lambda>t. t\<lparr>enabled := on\<rparr>) (fst s), update_row i (\<lambda>r. r\<lparr>r_enabled := on\<rparr>) (snd s))))"

definition RunNow :: "string \<Rightarrow> task list \<Rightarrow> admin_error option \<times> task list" where
  "RunNow i ts =
     (case findTask i ts of
        None \<Rightarrow> (Some ErrTaskNotFound, ts)
      | Some t \<Rightarrow>
          if running t then (Some ErrTaskRunning, ts)
          else (None, change_task i (\<lambda>t. t\<lparr>running := True\<rparr>) ts))"

text \<open>Newest first by the start; later insertions first among equal ones.\<close>

definition TaskHistory :: "string \<Rightarrow> int \<Rightarrow> task list \<Rightarrow> server_db \<Rightarrow> admin_error + history_row list" where
  "TaskHistory i limit ts db =
     (if findTask i ts = None then Inl ErrTaskNotFound
      else
        let n = (if limit \<le> 0 \<or> limit > 100 then 100 else nat limit);
            own = filter (\<lambda>h. h_task h = i) (history db)
        in Inr (take n (sort_key (\<lambda>h. - started_at h) (rev own))))"

end
