(* ===== verification/SchedulerRuns.thy ===== *)
theory SchedulerRuns
  imports Scheduler
begin

text \<open>
  One node of the scheduler over time: the steps of the ticker, of finished runs, of the admin
  page and of restarts, the invariant they keep, the retries of a failing task, and what a
  restart finds of the schedule.
\<close>

section \<open>Steps\<close>

text \<open>A run appears as one step, at its end.\<close>

inductive node_step :: "string \<Rightarrow> task list \<times> server_db \<Rightarrow> task list \<times> server_db \<Rightarrow> bool" for nodeID where
  tick_step: "node_step nodeID (ts, db) (tick now' ts, db)"
| run_step: "findTask i ts = Some t \<Longrightarrow> running t \<Longrightarrow> runTask loc nodeID x t db = (t', db') \<Longrightarrow>
    node_step nodeID (ts, db) (change_task i (\<lambda>_. t') ts, db')"
| enable_step: "SetTaskEnabled i on s = (e, s') \<Longrightarrow> node_step nodeID s s'"
| run_now_step: "RunNow i ts = (e, ts') \<Longrightarrow> node_step nodeID (ts, db) (ts', db)"
| stop_step: "node_step nodeID (ts, db) (ts, Scheduler_Stop nodeID db)"
| restart_step: "Scheduler_Start cfg loc window now' db = Some s' \<Longrightarrow> node_step nodeID (ts, db) s'"

definition no_rows :: server_db where
  "no_rows = \<lparr>task_rows = (\<lambda>_. None), history = []\<rparr>"

inductive node_reachable :: "string \<Rightarrow> task list \<times> server_db \<Rightarrow> bool" for nodeID where
  installed: "node_reachable nodeID ([], no_rows)"
| node_steps: "node_reachable nodeID s \<Longrightarrow> node_step nodeID s s' \<Longrightarrow> node_reachable nodeID s'"

section \<open>The invariant\<close>

definition runs_of :: "string \<Rightarrow> server_db \<Rightarrow> nat" where
  "runs_of i db = length (filter (\<lambda>h. h_task h = i) (history db))"

text \<open>The counters of every task add up to the runs in the history.\<close>

definition counted_row :: "task_row option \<Rightarrow> nat \<Rightarrow> bool" where
  "counted_row row n \<longleftrightarrow> (case row of
      Some r \<Rightarrow> 0 \<le> run_count r \<and> 0 \<le> fail_count r \<and> run_count r + fail_count r = int n
    | None \<Rightarrow> n = 0)"

definition counted :: "server_db \<Rightarrow> bool" where
  "counted db \<longleftrightarrow> (\<forall>i. counted_row (task_rows db i) (runs_of i db))"

text \<open>A task in memory has a row that says whether it is enabled, and a critical task is.\<close>

definition mirrored :: "server_db \<Rightarrow> task \<Rightarrow> bool" where
  "mirrored db t \<longleftrightarrow> (\<exists>r. task_rows db (t_id t) = Some r \<and> r_enabled r = enabled t) \<and>
     (t_id t \<in> nonSkippableTasks \<longrightarrow> enabled t)"

definition node_inv :: "task list \<times> server_db \<Rightarrow> bool" where
  "node_inv s \<longleftrightarrow> distinct (map t_id (fst s)) \<and> (\<forall>t \<in> set (fst s). mirrored (snd s) t) \<and> counted (snd s)"

lemma task_rows_update [simp]: "task_rows (update_row i f db) k = (if k = i then map_option f (task_rows db k) else task_rows db k)"
  by (simp add: update_row_def)

lemma history_update [simp]: "history (update_row i f db) = history db"
  by (simp add: update_row_def)

lemma runs_of_update [simp]: "runs_of k (update_row i f db) = runs_of k db"
  by (simp add: runs_of_def)

lemma counted_update:
  assumes "counted db" and "\<And>r. run_count (f r) = run_count r \<and> fail_count (f r) = fail_count r"
  shows "counted (update_row i f db)"
  unfolding counted_def
proof
  fix k
  have "counted_row (task_rows db k) (runs_of k db)" using assms(1) unfolding counted_def by blast
  then show "counted_row (task_rows (update_row i f db) k) (runs_of k (update_row i f db))"
    using assms(2) by (auto simp: counted_row_def split: option.splits)
qed

lemma mirrored_update:
  assumes "mirrored db t" and "\<And>r. t_id t = i \<Longrightarrow> r_enabled (f r) = r_enabled r"
  shows "mirrored (update_row i f db) t"
  using assms unfolding mirrored_def by auto

subsection \<open>Runs\<close>

lemma acquireLock_keeps:
  "counted db \<Longrightarrow> counted (snd (acquireLock n1 n2 node i db))"
  "mirrored db t \<Longrightarrow> mirrored (snd (acquireLock n1 n2 node i db)) t"
  by (auto simp: acquireLock_def intro!: counted_update mirrored_update split: option.splits)

lemma releaseLock_keeps:
  "counted db \<Longrightarrow> counted (releaseLock node i db)"
  "mirrored db t \<Longrightarrow> mirrored (releaseLock node i db) t"
  unfolding releaseLock_def by (rule counted_update mirrored_update; simp)+

lemma Stop_keeps:
  "counted db \<Longrightarrow> counted (Scheduler_Stop node db)"
  "mirrored db t \<Longrightarrow> mirrored (Scheduler_Stop node db) t"
proof -
  show "counted (Scheduler_Stop node db)" if "counted db"
    unfolding counted_def
  proof
    fix k
    have "counted_row (task_rows db k) (runs_of k db)" using that unfolding counted_def by blast
    then show "counted_row (task_rows (Scheduler_Stop node db) k) (runs_of k (Scheduler_Stop node db))"
      by (auto simp: Scheduler_Stop_def counted_row_def runs_of_def split: option.splits)
  qed
  show "mirrored (Scheduler_Stop node db) t" if m: "mirrored db t"
  proof -
    obtain r where r: "task_rows db (t_id t) = Some r" "r_enabled r = enabled t" using m unfolding mirrored_def by blast
    then show ?thesis using m by (simp add: Scheduler_Stop_def mirrored_def)
  qed
qed

lemma recordRun_keeps:
  assumes "task_rows db (t_id t) \<noteq> None"
  shows "counted db \<Longrightarrow> counted (recordRun t s f st e n db)"
    and "mirrored db t' \<Longrightarrow> mirrored (recordRun t s f st e n db) t'"
proof -
  obtain r where r: "task_rows db (t_id t) = Some r" using assms by blast
  show "counted (recordRun t s f st e n db)" if c: "counted db"
    unfolding counted_def
  proof
    fix k
    have "counted_row (task_rows db k) (runs_of k db)" using c unfolding counted_def by blast
    then show "counted_row (task_rows (recordRun t s f st e n db) k) (runs_of k (recordRun t s f st e n db))"
      using r by (cases "k = t_id t") (auto simp: recordRun_def counted_row_def runs_of_def)
  qed
  show "mirrored (recordRun t s f st e n db) t'" if "mirrored db t'"
    using that by (auto simp: recordRun_def mirrored_def)
qed

lemma after_run_fields [simp]: "t_id (after_run loc f e t) = t_id t" "enabled (after_run loc f e t) = enabled t"
  by (simp_all add: after_run_def Let_def split: option.splits)

lemma runTask_keeps:
  assumes "runTask loc node x t db = (t', db')" and "mirrored db t"
  shows "t_id t' = t_id t" "enabled t' = enabled t" "counted db \<Longrightarrow> counted db'" "mirrored db u \<Longrightarrow> mirrored db' u"
proof -
  obtain got db1 where l: "(if taskType t = ''global'' then acquireLock (lock_now1 x) (lock_now2 x) node (t_id t) db else (True, db)) = (got, db1)"
    by fastforce
  have db1: "db1 = db \<or> db1 = snd (acquireLock (lock_now1 x) (lock_now2 x) node (t_id t) db)" using l by (auto split: if_splits)
  have k1: "counted db \<Longrightarrow> counted db1" "\<And>u. mirrored db u \<Longrightarrow> mirrored db1 u" using db1 acquireLock_keeps by auto
  have row: "task_rows db1 (t_id t) \<noteq> None" using k1(2) [OF assms(2)] unfolding mirrored_def by auto
  show "t_id t' = t_id t" "enabled t' = enabled t" "counted db \<Longrightarrow> counted db'" "mirrored db u \<Longrightarrow> mirrored db' u"
    using assms(1) k1 recordRun_keeps [of db1 t] row releaseLock_keeps unfolding runTask_def l
    by (auto simp: Let_def split: if_splits)
qed

subsection \<open>Starts\<close>

lemma loadOrInit_keeps:
  assumes "loadOrInitTaskState loc w now' t db = (t', db')" and "t_id t \<in> nonSkippableTasks \<longrightarrow> enabled t" and "counted db"
  shows "t_id t' = t_id t" "mirrored db' t'" "counted db'" "mirrored db u \<Longrightarrow> t_id u \<noteq> t_id t \<Longrightarrow> mirrored db' u"
proof -
  have "t_id t' = t_id t \<and> mirrored db' t' \<and> counted db' \<and> (mirrored db u \<longrightarrow> t_id u \<noteq> t_id t \<longrightarrow> mirrored db' u)"
  proof (cases "task_rows db (t_id t)")
    case None
    have "counted_row (task_rows db (t_id t)) (runs_of (t_id t) db)" using assms(3) unfolding counted_def by blast
    then have none: "runs_of (t_id t) db = 0" using None by (simp add: counted_row_def)
    from None obtain row where r: "t_id t' = t_id t" "enabled t' = enabled t" "db' = db\<lparr>task_rows := (task_rows db)(t_id t \<mapsto> row)\<rparr>"
      "r_enabled row = enabled t" "run_count row = 0" "fail_count row = 0"
      using assms(1) unfolding loadOrInitTaskState_def by (auto simp: Let_def)
    have "counted db'"
      unfolding counted_def
    proof
      fix k
      have "counted_row (task_rows db k) (runs_of k db)" using assms(3) unfolding counted_def by blast
      moreover have "runs_of k db' = runs_of k db" using r(3) by (simp add: runs_of_def)
      ultimately show "counted_row (task_rows db' k) (runs_of k db')"
        using r(3,5,6) none by (cases "k = t_id t") (simp_all add: counted_row_def)
    qed
    then show ?thesis using r assms(2) by (simp add: mirrored_def)
  next
    case (Some row)
    let ?on = "r_enabled row \<or> t_id t \<in> nonSkippableTasks"
    define f where "f = (\<lambda>r :: task_row. r\<lparr>r_name := t_name t, r_type := taskType t, r_schedule := t_schedule t,
                r_enabled := ?on, locked_by := None, locked_at := None\<rparr>)"
    have shape: "t_id t' = t_id t \<and> enabled t' = ?on \<and>
        (db' = update_row (t_id t) f db \<or> (\<exists>n. db' = update_row (t_id t) (\<lambda>r. r\<lparr>next_run := n\<rparr>) (update_row (t_id t) f db)))"
      using assms(1) Some unfolding loadOrInitTaskState_def f_def by (auto simp: Let_def split: if_splits)
    have "counted (update_row (t_id t) f db)" by (rule counted_update [OF assms(3)]) (simp add: f_def)
    then have "counted db'" using shape by (auto intro: counted_update)
    moreover have "mirrored db' t'" using shape Some by (auto simp: mirrored_def f_def)
    moreover have "mirrored db u \<longrightarrow> t_id u \<noteq> t_id t \<longrightarrow> mirrored db' u" using shape by (auto simp: mirrored_def)
    ultimately show ?thesis using shape by blast
  qed
  then show "t_id t' = t_id t" "mirrored db' t'" "counted db'" "mirrored db u \<Longrightarrow> t_id u \<noteq> t_id t \<Longrightarrow> mirrored db' u"
    by blast+
qed

lemma load_tasks_keeps:
  assumes "load_tasks loc w now' ts db = (ts', db')" and "\<And>t. t \<in> set ts \<Longrightarrow> t_id t \<in> nonSkippableTasks \<Longrightarrow> enabled t"
    and "distinct (map t_id ts)" and "counted db"
  shows "map t_id ts' = map t_id ts \<and> (\<forall>t \<in> set ts'. mirrored db' t) \<and> counted db' \<and>
    (\<forall>u. mirrored db u \<longrightarrow> t_id u \<notin> t_id ` set ts \<longrightarrow> mirrored db' u)"
  using assms
proof (induction ts arbitrary: db ts' db')
  case (Cons t ts)
  obtain t1 db1 where 1: "loadOrInitTaskState loc w now' t db = (t1, db1)" by fastforce
  obtain ts2 db2 where 2: "load_tasks loc w now' ts db1 = (ts2, db2)" by fastforce
  have r: "ts' = t1 # ts2" "db' = db2" using Cons.prems(1) 1 2 by auto
  have crit: "t_id t \<in> nonSkippableTasks \<longrightarrow> enabled t" using Cons.prems(2) by simp
  note k = loadOrInit_keeps [OF 1 crit Cons.prems(4)]
  have rest: "map t_id ts2 = map t_id ts \<and> (\<forall>t \<in> set ts2. mirrored db2 t) \<and> counted db2 \<and>
      (\<forall>u. mirrored db1 u \<longrightarrow> t_id u \<notin> t_id ` set ts \<longrightarrow> mirrored db2 u)"
    by (rule Cons.IH [OF 2]) (use Cons.prems k in auto)
  moreover have "t_id t1 \<notin> t_id ` set ts" using Cons.prems(3) k(1) by simp
  ultimately show ?case using k r by auto
qed simp

lemma builtin_ids: "distinct (map fst builtin_tasks)"
  by (simp add: builtin_tasks_def)

lemma new_task_id: "new_task cfg d = Some t \<Longrightarrow> t_id t = fst d \<and> (t_id t \<in> nonSkippableTasks \<longrightarrow> enabled t)"
  by (auto simp: new_task_def split: prod.splits cron_result.splits)

lemma new_tasks_ids: "distinct (map fst ds) \<Longrightarrow> distinct (map t_id (List.map_filter (new_task cfg) ds))"
proof (induction ds)
  case (Cons d ds)
  have "t_id ` set (List.map_filter (new_task cfg) ds) \<subseteq> fst ` set ds"
    by (force simp: map_filter_def dest: new_task_id)
  then show ?case using Cons new_task_id [of cfg d]
    by (auto simp: map_filter_simps split: option.splits)
qed (simp add: map_filter_simps)

lemma addTasks_ids:
  assumes "addTasks cfg = Some ts"
  shows "distinct (map t_id ts)" "t \<in> set ts \<Longrightarrow> t_id t \<in> nonSkippableTasks \<Longrightarrow> enabled t"
  using assms new_tasks_ids [OF builtin_ids] new_task_id
  by (auto simp: addTasks_def map_filter_def split: if_splits)

lemma start_keeps:
  assumes "Scheduler_Start cfg loc w now' db = Some s'" and "counted db"
  shows "node_inv s'"
proof -
  obtain ts where ts: "addTasks cfg = Some ts" "load_tasks loc w now' ts db = s'"
    using assms(1) by (auto simp: Scheduler_Start_def)
  then have l: "load_tasks loc w now' ts db = (fst s', snd s')" by simp
  from load_tasks_keeps [OF l] addTasks_ids [OF ts(1)] assms(2) show ?thesis
    unfolding node_inv_def by (metis (no_types, lifting))
qed

subsection \<open>Changes of one task\<close>

lemma findTask_Some: "findTask i ts = Some t \<Longrightarrow> t \<in> set ts \<and> t_id t = i"
  by (auto simp: findTask_def find_Some_iff)

lemma change_task_ids: "(\<And>t. t \<in> set ts \<Longrightarrow> t_id t = i \<Longrightarrow> t_id (f t) = i) \<Longrightarrow> map t_id (change_task i f ts) = map t_id ts"
  by (auto simp: change_task_def)

lemma change_task_inv:
  assumes "node_inv (ts, db)" and "\<And>t. t \<in> set ts \<Longrightarrow> t_id t = i \<Longrightarrow> t_id (f t) = i \<and> mirrored db' (f t)"
    and "\<And>t. t \<in> set ts \<Longrightarrow> t_id t \<noteq> i \<Longrightarrow> mirrored db' t" and "counted db'"
  shows "node_inv (change_task i f ts, db')"
proof -
  have "map t_id (change_task i f ts) = map t_id ts" using assms(2) by (intro change_task_ids) simp
  moreover have "\<forall>t \<in> set (change_task i f ts). mirrored db' t" using assms(2,3) by (auto simp: change_task_def)
  ultimately show ?thesis using assms(1,4) unfolding node_inv_def by simp
qed

lemma SetTaskEnabled_inv:
  assumes "node_inv s" and "SetTaskEnabled i on s = (e, s')"
  shows "node_inv s'"
proof (cases "(\<not> on \<and> i \<in> nonSkippableTasks) \<or> findTask i (fst s) = None")
  case True
  then have "s' = s" using assms(2) by (auto simp: SetTaskEnabled_def split: if_splits)
  then show ?thesis using assms(1) by simp
next
  case False
  then have s': "s' = (change_task i (\<lambda>t. t\<lparr>enabled := on\<rparr>) (fst s), update_row i (\<lambda>r. r\<lparr>r_enabled := on\<rparr>) (snd s))"
    using assms(2) by (auto simp: SetTaskEnabled_def split: if_splits option.splits)
  have m: "mirrored (snd s) t" if "t \<in> set (fst s)" for t using assms(1) that unfolding node_inv_def by blast
  show ?thesis unfolding s'
  proof (rule change_task_inv)
    show "node_inv (fst s, snd s)" using assms(1) by simp
    show "counted (update_row i (\<lambda>r. r\<lparr>r_enabled := on\<rparr>) (snd s))"
      using assms(1) unfolding node_inv_def by (intro counted_update) auto
  next
    fix t assume t: "t \<in> set (fst s)" "t_id t = i"
    obtain r where "task_rows (snd s) i = Some r" using m [OF t(1)] t(2) unfolding mirrored_def by blast
    then show "t_id (t\<lparr>enabled := on\<rparr>) = i \<and> mirrored (update_row i (\<lambda>r. r\<lparr>r_enabled := on\<rparr>) (snd s)) (t\<lparr>enabled := on\<rparr>)"
      using t False by (auto simp: mirrored_def)
  next
    fix t assume t: "t \<in> set (fst s)" "t_id t \<noteq> i"
    then show "mirrored (update_row i (\<lambda>r. r\<lparr>r_enabled := on\<rparr>) (snd s)) t" using m [OF t(1)] unfolding mirrored_def by simp
  qed
qed

lemma node_step_inv: "node_step nodeID s s' \<Longrightarrow> node_inv s \<Longrightarrow> node_inv s'"
proof (induction rule: node_step.induct)
  case (tick_step ts db now')
  then show ?case by (auto simp: node_inv_def tick_def mirrored_def o_def if_distrib [of t_id] cong: if_cong)
next
  case (run_step i ts t loc x db t' db')
  have t: "t \<in> set ts" "t_id t = i" using findTask_Some [OF run_step(1)] by auto
  have m: "mirrored db u" if "u \<in> set ts" for u using run_step.prems that unfolding node_inv_def by simp
  note k = runTask_keeps [OF run_step(3) m [OF t(1)]]
  have "mirrored db' t'" using k(4) [OF m [OF t(1)]] k(1,2) unfolding mirrored_def by simp
  then show ?case
    using run_step.prems k(1,3) k(4) [OF m] t(2) by (intro change_task_inv) (auto simp: node_inv_def)
next
  case (enable_step i on s e s')
  then show ?case using SetTaskEnabled_inv by blast
next
  case (run_now_step i ts e ts' db)
  then show ?case
    by (auto simp: RunNow_def node_inv_def mirrored_def split: option.splits if_splits intro!: change_task_inv)
      (auto simp: change_task_def o_def if_distrib [of t_id] cong: if_cong)
next
  case (stop_step ts db)
  then show ?case using Stop_keeps(1) [of db nodeID] Stop_keeps(2) [of db _ nodeID] by (simp add: node_inv_def)
next
  case (restart_step cfg loc window now' db s' ts)
  then show ?case using start_keeps unfolding node_inv_def by simp
qed

lemma node_reachable_inv: "node_reachable nodeID s \<Longrightarrow> node_inv s"
proof (induction rule: node_reachable.induct)
  case installed
  then show ?case by (simp add: node_inv_def no_rows_def counted_def counted_row_def runs_of_def)
qed (rule node_step_inv)

text \<open>
  C14 (scheduler_invariant). Whatever ticks, runs, admin switches, stops and restarts with whatever configurations come
  after the installation: no two tasks share an id, every task in memory has a row in the
  database that agrees whether it is enabled, a critical task is enabled, and the two counters of
  every row add up to the number of its runs in the history.
\<close>

theorem scheduler_invariant:
  assumes "node_reachable nodeID (ts, db)"
  shows "distinct (map t_id ts) \<and>
    (\<forall>t \<in> set ts. (\<exists>r. task_rows db (t_id t) = Some r \<and> r_enabled r = enabled t) \<and> (t_id t \<in> nonSkippableTasks \<longrightarrow> enabled t)) \<and>
    (\<forall>i r. task_rows db i = Some r \<longrightarrow> run_count r + fail_count r = int (runs_of i db))"
proof -
  have inv: "node_inv (ts, db)" using node_reachable_inv [OF assms] .
  have c: "counted_row (task_rows db i) (runs_of i db)" for i using inv unfolding node_inv_def counted_def by simp
  then have "run_count r + fail_count r = int (runs_of i db)" if "task_rows db i = Some r" for i r
    using c [of i] that by (simp add: counted_row_def)
  then show ?thesis using inv unfolding node_inv_def mirrored_def by simp
qed

section \<open>Retries\<close>

lemma backoff_doubles: "0 \<le> d \<Longrightarrow> d * 2 ^ n < 2 ^ 63 \<Longrightarrow> backoff n d = d * 2 ^ n"
proof (induction n arbitrary: d)
  case (Suc n)
  have "d * 2 \<le> d * 2 * 2 ^ n" using Suc.prems(1) mult_left_mono [of 1 "2 ^ n" "d * 2"] by simp
  then have "wrap64 (d * 2) = d * 2" using Suc.prems by (intro wrap64_id) (simp add: in_int64_def mult.assoc)
  then show ?case using Suc by (simp add: mult.assoc)
qed simp

text \<open>A task after runs that all failed, with the times at which they ended and their errors.\<close>

definition failed_runs :: "location \<Rightarrow> (int \<times> string) list \<Rightarrow> task \<Rightarrow> task" where
  "failed_runs loc fs t = foldl (\<lambda>t (f, e). after_run loc f (Some e) t) t fs"

lemma failed_runs_fields:
  "attempt (failed_runs loc fs t) = attempt t + int (length fs) \<and> maxRetries (failed_runs loc fs t) = maxRetries t \<and>
   retryDelay (failed_runs loc fs t) = retryDelay t \<and> cron (failed_runs loc fs t) = cron t"
  by (induction fs rule: rev_induct) (auto simp: failed_runs_def after_run_def Let_def)

text \<open>
  A task that keeps failing is retried with delays that double, as often as its policy says, and
  then goes back to its schedule, on which it stays, without further retries, until a run
  succeeds: then the count starts again. The delays are exact as long as the last one fits in 64
  bits, which five minutes do for 24 retries.
\<close>

theorem retry_backoff:
  assumes "attempt t = 0" and "fs \<noteq> []" and "0 \<le> retryDelay t" and "retryDelay t * 2 ^ nat (maxRetries t) < 2 ^ 63"
  shows "nextRun (failed_runs loc fs t) =
      (if int (length fs) \<le> maxRetries t then fst (last fs) + retryDelay t * 2 ^ (length fs - 1)
       else cron_Next (cron t) loc (fst (last fs))) \<and>
    attempt (after_run loc f None (failed_runs loc fs t)) = 0 \<and>
    nextRun (after_run loc f None (failed_runs loc fs t)) = cron_Next (cron t) loc f"
proof -
  obtain gs f' e where fs: "fs = gs @ [(f', e)]" using assms(2) by (metis rev_exhaust surj_pair)
  note u = failed_runs_fields [of loc gs t]
  have run: "failed_runs loc fs t = after_run loc f' (Some e) (failed_runs loc gs t)" by (simp add: fs failed_runs_def)
  have "backoff (length gs) (retryDelay t) = retryDelay t * 2 ^ length gs" if "int (length fs) \<le> maxRetries t"
  proof (rule backoff_doubles [OF assms(3)])
    have "retryDelay t * 2 ^ length gs \<le> retryDelay t * 2 ^ nat (maxRetries t)"
      using that fs assms(3) by (intro mult_left_mono power_increasing) auto
    then show "retryDelay t * 2 ^ length gs < 2 ^ 63" using assms(4) by simp
  qed
  then have "nextRun (failed_runs loc fs t) =
      (if int (length fs) \<le> maxRetries t then f' + retryDelay t * 2 ^ length gs else cron_Next (cron t) loc f')"
    using u assms(1) unfolding run after_run_def by (simp add: Let_def fs)
  then show ?thesis using failed_runs_fields [of loc fs t] by (simp add: fs after_run_def)
qed

section \<open>Restarts\<close>

text \<open>
  A restart finds the schedule again. When a run has been recorded, with or without an
  error, and the process comes back at a later time: before the next run was due it is still due
  at that second; up to the catch-up window after it, it is run at once; later than that, it is
  skipped for the next time of the schedule.
\<close>

theorem restart_keeps_schedule:
  assumes "task_rows db (t_id t) = Some r" and "taskType t \<noteq> ''global'' \<or> locked_by r = None"
    and "runTask loc nodeID x t db = (t', db')" and "t_id u = t_id t"
    and "loadOrInitTaskState loc window now' u db' = (u', db'')" and "due = Unix (nextRun t') * 1000000000"
  shows "nextRun u' = (if now' \<le> due then due else if now' \<le> due + window then now' else cron_Next (cron u) loc now') \<and>
    due \<le> nextRun t' \<and> nextRun t' < due + 1000000000"
proof -
  have "\<exists>row. task_rows db' (t_id t) = Some row \<and> next_run row = Unix (nextRun t')"
    using assms(1-3) unfolding runTask_def
    by (auto simp: acquireLock_def recordRun_def releaseLock_def Let_def split: if_splits)
  then obtain row where row: "task_rows db' (t_id u) = Some row" "next_run row * 1000000000 = due"
    unfolding assms(4,6) by auto
  have "nextRun u' = (if now' \<le> due then due else if now' \<le> due + window then now' else cron_Next (cron u) loc now')"
    using assms(5) row unfolding loadOrInitTaskState_def by (auto simp: Let_def split: if_splits)
  moreover have "due \<le> nextRun t'" "nextRun t' < due + 1000000000"
    using pos_mod_sign [of 1000000000 "nextRun t'"] pos_mod_bound [of 1000000000 "nextRun t'"]
      div_mult_mod_eq [of "nextRun t'" 1000000000] unfolding assms(6) Unix_def by linarith+
  ultimately show ?thesis by blast
qed

section \<open>Concrete runs\<close>

definition every_hour :: scheduler_config where
  "every_hour = \<lparr>sc_cron = (\<lambda>i. ''@every 1h''), sc_enabled = (\<lambda>i. False), MaxRetries = 0, RetryDelay = []\<rparr>"

definition hourly :: cronSchedule where
  "hourly = \<lparr>every = 3600000000000, minutes = no_bits 60, hours = no_bits 24, days = no_bits 32, months = no_bits 13,
     weekdays = no_bits 7\<rparr>"

lemma parse_hourly: "parseCronSchedule ''@every 1h'' = Cron_Schedule hourly"
  by (simp add: eval_simps hourly_def)

lemma load_tasks_length: "load_tasks loc w n ts db = (ts', db') \<Longrightarrow> length ts' = length ts"
  by (induction ts arbitrary: ts' db db') (auto split: prod.splits)

lemma hourly_starts: "\<exists>ts db. Scheduler_Start every_hour UTC 0 0 no_rows = Some (ts, db) \<and> length ts = 15"
proof -
  have len: "length (List.map_filter (new_task every_hour) ds) = length ds" for ds
    by (induction ds) (auto simp: map_filter_simps new_task_def every_hour_def parse_hourly split: prod.splits)
  obtain ts where ts: "addTasks every_hour = Some ts" "length ts = 15"
    using len [of builtin_tasks] by (simp add: addTasks_def every_hour_def parse_hourly) (simp add: builtin_tasks_def)
  obtain ts' db where l: "load_tasks UTC 0 0 ts no_rows = (ts', db)" by fastforce
  have "length ts' = length ts" using load_tasks_length [OF l] .
  then show ?thesis using ts l by (simp add: Scheduler_Start_def)
qed

lemma scheduler_invariant_witness:
  "\<exists>ts db. node_reachable ''host-1'' (ts, db) \<and> length ts = 15 \<and>
    (\<forall>t \<in> set ts. t_id t \<in> nonSkippableTasks \<longrightarrow> enabled t)"
proof -
  obtain ts db where s: "Scheduler_Start every_hour UTC 0 0 no_rows = Some (ts, db)" "length ts = 15"
    using hourly_starts by blast
  have r: "node_reachable ''host-1'' (ts, db)"
    by (rule node_steps [OF installed restart_step [OF s(1)]])
  show ?thesis using scheduler_invariant [OF r] r s(2) by blast
qed

definition nightly_backup :: task where
  "nightly_backup = \<lparr>t_id = ''backup_daily'', t_name = ''Backup Daily'', taskType = ''local'', t_schedule = ''@every 1h'',
     cron = hourly, enabled = True, maxRetries = 3, retryDelay = 5 * a_minute, running = True, nextRun = 0, attempt = 0\<rparr>"

lemma retry_backoff_witness:
  "nextRun (failed_runs UTC [(100, ''disk full''), (200, ''disk full'')] nightly_backup) = 200 + 10 * a_minute"
  using retry_backoff [of nightly_backup "[(100, ''disk full''), (200, ''disk full'')]" UTC 0]
  by (simp add: nightly_backup_def)

definition backup_row :: task_row where
  "backup_row = \<lparr>r_name = ''Backup Daily'', r_type = ''local'', r_enabled = True, r_schedule = ''@every 1h'', last_run = None,
     next_run = 0, last_status = None, last_error = None, run_count = 0, fail_count = 0, locked_by = None, locked_at = None\<rparr>"

lemma restart_keeps_schedule_witness:
  "\<exists>t' db' u' db''. runTask UTC ''host-1'' \<lparr>lock_now1 = 0, lock_now2 = 0, skip_now = 0, run_started = 5, run_finished = 7, run_error = None\<rparr>
      nightly_backup \<lparr>task_rows = [''backup_daily'' \<mapsto> backup_row], history = []\<rparr> = (t', db') \<and>
    nextRun t' = 3600000000007 \<and>
    loadOrInitTaskState UTC (60 * a_minute) 9 nightly_backup db' = (u', db'') \<and> nextRun u' = 3600000000000"
proof -
  let ?x = "\<lparr>lock_now1 = 0, lock_now2 = 0, skip_now = 0, run_started = 5, run_finished = 7, run_error = None\<rparr> :: run_input"
  let ?db = "\<lparr>task_rows = [''backup_daily'' \<mapsto> backup_row], history = []\<rparr>"
  obtain t' db' where run: "runTask UTC ''host-1'' ?x nightly_backup ?db = (t', db')" by fastforce
  obtain u' db'' where start: "loadOrInitTaskState UTC (60 * a_minute) 9 nightly_backup db' = (u', db'')" by fastforce
  have n: "nextRun t' = 3600000000007"
    using run by (auto simp: runTask_def nightly_backup_def after_run_def cron_Next_def hourly_def)
  have "nextRun u' = 3600000000000"
    using restart_keeps_schedule [OF _ _ run _ start refl, of backup_row] n
    by (simp add: nightly_backup_def Unix_def)
  then show ?thesis using run start n by blast
qed

end
