(* ===== verification/SchedulerLock.thy ===== *)
theory SchedulerLock
  imports SchedulerRuns
begin

text \<open>
  The lock of the scheduler's global tasks among the nodes of a cluster. The interface is a lease:
  whoever takes it holds it until it gives it back or the lease runs out. The lock columns of
  \<open>scheduler_tasks\<close> are one, with a lease of five minutes, and keep two nodes from running a task
  at a time as long as no run takes longer and no node restarts.
\<close>

section \<open>Nodes that share a lease\<close>

text \<open>
  The store with the lease, the time in nanoseconds, and the nodes that run the task with the
  time at which each took the lease.
\<close>

record ('n, 'd) cluster =
  lease_store :: "'d"
  clock :: int
  runners :: "'n \<Rightarrow> int option"

inductive lease_step ::
    "(int \<Rightarrow> 'n \<Rightarrow> 'd \<Rightarrow> bool \<times> 'd) \<Rightarrow> ('n \<Rightarrow> 'd \<Rightarrow> 'd) \<Rightarrow> int \<Rightarrow> ('n, 'd) cluster \<Rightarrow> ('n, 'd) cluster \<Rightarrow> bool"
  for acquire release limit where
  time_passes: "0 \<le> d \<Longrightarrow> (\<And>n s. runners c n = Some s \<Longrightarrow> clock c + d \<le> s + limit) \<Longrightarrow>
    lease_step acquire release limit c (c\<lparr>clock := clock c + d\<rparr>)"
| run_starts: "runners c n = None \<Longrightarrow> acquire (clock c) n (lease_store c) = (True, d') \<Longrightarrow>
    lease_step acquire release limit c (c\<lparr>lease_store := d', runners := (runners c)(n \<mapsto> clock c)\<rparr>)"
| run_refused: "runners c n = None \<Longrightarrow> acquire (clock c) n (lease_store c) = (False, d') \<Longrightarrow>
    lease_step acquire release limit c (c\<lparr>lease_store := d'\<rparr>)"
| run_ends: "runners c n = Some s \<Longrightarrow>
    lease_step acquire release limit c (c\<lparr>lease_store := release n (lease_store c), runners := (runners c)(n := None)\<rparr>)"

inductive_cases lease_stepE: "lease_step acquire release limit c c'"

inductive lease_reachable ::
    "(int \<Rightarrow> 'n \<Rightarrow> 'd \<Rightarrow> bool \<times> 'd) \<Rightarrow> ('n \<Rightarrow> 'd \<Rightarrow> 'd) \<Rightarrow> int \<Rightarrow> ('n, 'd) cluster \<Rightarrow> ('n, 'd) cluster \<Rightarrow> bool"
  for acquire release limit c where
  lease_start: "lease_reachable acquire release limit c c"
| lease_next: "lease_reachable acquire release limit c c1 \<Longrightarrow> lease_step acquire release limit c1 c2 \<Longrightarrow>
    lease_reachable acquire release limit c c2"

section \<open>The interface\<close>

text \<open>
  Nodes are known to the store by their names. \<open>holder\<close> is who has the lease and since which second. It is granted when nobody has it or its
  second is more than \<open>limit\<close> old, and given back by its holder only.
\<close>

locale lease =
  fixes acquire :: "int \<Rightarrow> 'n \<Rightarrow> 'd \<Rightarrow> bool \<times> 'd"
    and release :: "'n \<Rightarrow> 'd \<Rightarrow> 'd"
    and node_name :: "'n \<Rightarrow> 'k"
    and holder :: "'d \<Rightarrow> ('k \<times> int) option"
    and limit :: int
  assumes names: "node_name n = node_name m \<Longrightarrow> n = m"
    and granted: "acquire now' n d = (True, d') \<Longrightarrow> holder d' = Some (node_name n, Unix now')"
    and granted_free: "acquire now' n d = (True, d') \<Longrightarrow> holder d = Some (node_name m, s) \<Longrightarrow> s < Unix (now' - limit)"
    and refused: "acquire now' n d = (False, d') \<Longrightarrow> holder d' = holder d"
    and given_back: "holder d = Some (node_name n, s) \<Longrightarrow> holder (release n d) = None"
begin

text \<open>Every runner is the holder of the lease since it started.\<close>

definition runners_hold :: "('n, 'd) cluster \<Rightarrow> bool" where
  "runners_hold c \<longleftrightarrow>
     (\<forall>n s. runners c n = Some s \<longrightarrow> holder (lease_store c) = Some (node_name n, Unix s) \<and> s \<le> clock c \<and> clock c \<le> s + limit)"

lemma runner_only: "runners_hold c \<Longrightarrow> runners c n = Some s \<Longrightarrow> runners c m = Some u \<Longrightarrow> n = m"
proof -
  assume a: "runners_hold c" "runners c n = Some s" "runners c m = Some u"
  then have "holder (lease_store c) = Some (node_name n, Unix s)" "holder (lease_store c) = Some (node_name m, Unix u)"
    unfolding runners_hold_def by blast+
  then show "n = m" using names by simp
qed

lemma runners_hold_step:
  assumes "lease_step acquire release limit c c'" and "runners_hold c" and "0 \<le> limit"
  shows "runners_hold c'"
  using assms(1)
proof (rule lease_stepE)
  fix d
  assume d: "c' = c\<lparr>clock := clock c + d\<rparr>" "0 \<le> d" "\<And>n s. runners c n = Some s \<Longrightarrow> clock c + d \<le> s + limit"
  have "s \<le> clock c + d" if "runners c n = Some s" for n s
    using assms(2) that d(2) unfolding runners_hold_def by force
  then show ?thesis using assms(2) d by (auto simp: runners_hold_def)
next
  fix n d'
  assume c': "c' = c\<lparr>lease_store := d', runners := (runners c)(n \<mapsto> clock c)\<rparr>" and got: "acquire (clock c) n (lease_store c) = (True, d')"
  have "runners c m = None" for m
  proof (rule ccontr)
    assume "runners c m \<noteq> None"
    then obtain s where s: "runners c m = Some s" by blast
    then have "holder (lease_store c) = Some (node_name m, Unix s)" "clock c \<le> s + limit"
      using assms(2) unfolding runners_hold_def by blast+
    then have "Unix s < Unix (clock c - limit)" "clock c - limit \<le> s" using granted_free [OF got] by simp_all
    then show False unfolding Unix_def using zdiv_mono1 [of "clock c - limit" s 1000000000] by simp
  qed
  then show ?thesis using c' granted [OF got] assms(3) by (auto simp: runners_hold_def)
next
  fix n d'
  assume "c' = c\<lparr>lease_store := d'\<rparr>" "acquire (clock c) n (lease_store c) = (False, d')"
  then show ?thesis using assms(2) refused by (auto simp: runners_hold_def)
next
  fix n s
  assume c': "c' = c\<lparr>lease_store := release n (lease_store c), runners := (runners c)(n := None)\<rparr>" and n: "runners c n = Some s"
  have "runners c m = None" if "m \<noteq> n" for m
    using runner_only [OF assms(2) n] that by (metis not_None_eq)
  then show ?thesis using c' by (auto simp: runners_hold_def)
qed

lemma runners_hold_reachable:
  "lease_reachable acquire release limit c c' \<Longrightarrow> runners_hold c \<Longrightarrow> 0 \<le> limit \<Longrightarrow> runners_hold c'"
  by (induction rule: lease_reachable.induct) (auto intro: runners_hold_step)

end

section \<open>The lock columns\<close>

text \<open>The id of a node, from its host name (\<open>localhost\<close> when the system has none) and process id.\<close>

definition nodeID :: "string \<times> nat \<Rightarrow> string" where
  "nodeID hp = fst hp @ ''-'' @ show_nat (snd hp)"

text \<open>Who holds the lock of a task; an empty \<open>locked_by\<close> is nobody.\<close>

definition lock_holder :: "string \<Rightarrow> server_db \<Rightarrow> (string \<times> int) option" where
  "lock_holder i db =
     (case task_rows db i of
        Some r \<Rightarrow>
          (case (locked_by r, locked_at r) of
             (Some n, Some a) \<Rightarrow> if n = [] then None else Some (n, a)
           | _ \<Rightarrow> None)
      | None \<Rightarrow> None)"

abbreviation take_lock :: "string \<Rightarrow> int \<Rightarrow> string \<Rightarrow> server_db \<Rightarrow> bool \<times> server_db" where
  "take_lock i now' n db \<equiv> acquireLock now' now' n i db"

abbreviation lock_limit :: int where
  "lock_limit \<equiv> 5 * a_minute"

lemma show_nat_inj: "show_nat m = show_nat n \<Longrightarrow> m = n"
  by (metis digits_value_show_nat)

lemma last_dash: "CHR ''-'' \<notin> set u \<Longrightarrow> CHR ''-'' \<notin> set v \<Longrightarrow> s @ CHR ''-'' # u = t @ CHR ''-'' # v \<Longrightarrow> s = t \<and> u = v"
proof -
  assume d: "CHR ''-'' \<notin> set u" "CHR ''-'' \<notin> set v" "s @ CHR ''-'' # u = t @ CHR ''-'' # v"
  have u: "takeWhile (\<lambda>c. c \<noteq> CHR ''-'') (rev (s @ CHR ''-'' # u)) = rev u" using d(1) by (simp add: takeWhile_append)
  have v: "takeWhile (\<lambda>c. c \<noteq> CHR ''-'') (rev (t @ CHR ''-'' # v)) = rev v" using d(2) by (simp add: takeWhile_append)
  have "rev u = rev v" using u v unfolding d(3) by simp
  then show "s = t \<and> u = v" using d(3) by simp
qed

lemma nodeID_inj:
  assumes "nodeID a = nodeID b"
  shows "a = b"
proof -
  have "CHR ''-'' \<notin> set (show_nat k)" for k by (auto simp: is_digit_def dest: show_nat_digits)
  then have "fst a = fst b \<and> show_nat (snd a) = show_nat (snd b)"
    using assms last_dash [of "show_nat (snd a)" "show_nat (snd b)" "fst a" "fst b"] by (simp add: nodeID_def)
  then show ?thesis using show_nat_inj by (simp add: prod_eq_iff)
qed

lemma nodeID_not_Nil [simp]: "nodeID a \<noteq> []"
  by (simp add: nodeID_def)

interpretation task_lock: lease "\<lambda>now' n d. take_lock i now' (nodeID n) d" "\<lambda>n d. releaseLock (nodeID n) i d"
    nodeID "lock_holder i" lock_limit for i
proof unfold_locales
  show "nodeID n = nodeID m \<Longrightarrow> n = m" for n m by (rule nodeID_inj)
  show "take_lock i now' (nodeID n) d = (True, d') \<Longrightarrow> lock_holder i d' = Some (nodeID n, Unix now')" for now' n d d'
    by (auto simp: acquireLock_def lock_holder_def split: option.splits if_splits)
  show "take_lock i now' (nodeID n) d = (True, d') \<Longrightarrow> lock_holder i d = Some (nodeID m, s) \<Longrightarrow> s < Unix (now' - lock_limit)"
    for now' n d d' m s
    by (auto simp: acquireLock_def lock_holder_def split: option.splits if_splits)
  show "take_lock i now' (nodeID n) d = (False, d') \<Longrightarrow> lock_holder i d' = lock_holder i d" for now' n d d'
    by (auto simp: acquireLock_def split: option.splits if_splits)
  show "lock_holder i d = Some (nodeID n, s) \<Longrightarrow> lock_holder i (releaseLock (nodeID n) i d) = None" for d n s
    by (auto simp: releaseLock_def lock_holder_def split: option.splits if_splits)
qed

abbreviation idle_cluster :: "server_db \<Rightarrow> int \<Rightarrow> (string \<times> nat, server_db) cluster" where
  "idle_cluster db now' \<equiv> \<lparr>lease_store = db, clock = now', runners = (\<lambda>_. None)\<rparr>"


text \<open>
  A start clears the lock of every task it finds in the database, whoever holds it, though
  the comment there speaks of a stale lock this node held itself. So when another node starts
  while a task runs, it takes the lock at once and runs the task a second time.
\<close>

theorem restart_breaks_lock:
  assumes "acquireLock now1 now1 (nodeID n) (t_id t) db = (True, db1)"
    and "loadOrInitTaskState loc window now2 t db1 = (t', db2)"
  shows "lock_holder (t_id t) db1 = Some (nodeID n, Unix now1) \<and> fst (acquireLock now3 now3 (nodeID m) (t_id t) db2)"
proof -
  have h: "lock_holder (t_id t) db1 = Some (nodeID n, Unix now1)" by (rule task_lock.granted [OF assms(1)])
  then obtain r where "task_rows db1 (t_id t) = Some r" by (auto simp: lock_holder_def split: option.splits)
  then have "\<exists>r'. task_rows db2 (t_id t) = Some r' \<and> locked_by r' = None"
    using assms(2) unfolding loadOrInitTaskState_def by (auto simp: Let_def split: if_splits)
  then show ?thesis using h by (auto simp: acquireLock_def)
qed

section \<open>Two nodes\<close>

abbreviation backup_db :: server_db where
  "backup_db \<equiv> \<lparr>task_rows = [''backup_daily'' \<mapsto> backup_row], history = []\<rparr>"

lemma backup_lock_free: "\<exists>db. acquireLock 0 0 (nodeID n) ''backup_daily'' backup_db = (True, db)"
  by (simp add: acquireLock_def backup_row_def)


lemma restart_breaks_lock_witness:
  "\<exists>db1 t' db2. acquireLock 0 0 (nodeID (''web1'', 12)) ''backup_daily'' backup_db = (True, db1) \<and>
    loadOrInitTaskState UTC a_minute 1000 nightly_backup db1 = (t', db2) \<and>
    fst (acquireLock 2000 2000 (nodeID (''web2'', 12)) ''backup_daily'' db2)"
proof -
  obtain db1 where db1: "acquireLock 0 0 (nodeID (''web1'', 12)) ''backup_daily'' backup_db = (True, db1)"
    using backup_lock_free by blast
  obtain t' db2 where l: "loadOrInitTaskState UTC a_minute 1000 nightly_backup db1 = (t', db2)" by fastforce
  have "t_id nightly_backup = ''backup_daily''" by (simp add: nightly_backup_def)
  then show ?thesis using restart_breaks_lock [of 0 "(''web1'', 12)" nightly_backup backup_db db1] db1 l by metis
qed

end
