(* ===== verification/Tokens.thy ===== *)
theory Tokens
  imports LinkApi
begin

text \<open>
  API tokens: \<^verbatim>\<open>src/server/service/token.go\<close>, the organisation tokens of
  \<^verbatim>\<open>src/server/service/org.go\<close>, the clean-up task of \<^verbatim>\<open>src/scheduler/scheduler.go\<close>
  and the bearer middlewares of \<^verbatim>\<open>src/server/middleware.go\<close>, over the table \<open>tokens\<close> with
  its unique columns. The hash is an argument, and so are the 32 random bytes of a new token.
  Times are integers.
\<close>

section \<open>The table\<close>

record token_row =
  owner_type :: string
  owner_id :: int
  token_name :: string
  token_hash :: string
  token_prefix :: string
  scope :: string
  expires_at_time :: "int option"
  created_time :: int
  last_used_at :: "int option"

text \<open>Rows by id, ids in the order of insertion; \<open>api_tokens\<close> is the older table, with expiry times.\<close>

record token_db =
  token_rows :: "(int \<times> token_row) list"
  next_token :: int
  api_tokens :: "(int \<times> int option) list"

datatype token_error =
    Token_Not_Stored   \<comment> \<open>a constraint of the table\<close>
  | Token_Invalid
  | Token_Expired
  | Token_Not_Owned

section \<open>New tokens\<close>

definition tokenAlphabet :: string where
  "tokenAlphabet = ''abcdefghijklmnopqrstuvwxyz0123456789''"

definition tokenPrefixForType :: "string \<Rightarrow> string" where
  "tokenPrefixForType ownerType =
     (if ToLower ownerType = ''admin'' then ''adm_''
      else if ToLower ownerType = ''org'' then ''org_''
      else ''usr_'')"

definition generateTokenRandom :: "nat list \<Rightarrow> string" where
  "generateTokenRandom buf = map (\<lambda>b. tokenAlphabet ! (b mod length tokenAlphabet)) buf"

text \<open>The INSERT, with the unique columns: the hash, and the name for each owner.\<close>

definition insert_token :: "token_row \<Rightarrow> token_db \<Rightarrow> token_db option" where
  "insert_token row db =
     (if list_ex (\<lambda>r. token_hash (snd r) = token_hash row \<or>
           (owner_type (snd r) = owner_type row \<and> owner_id (snd r) = owner_id row \<and> token_name (snd r) = token_name row))
         (token_rows db)
      then None
      else Some (db\<lparr>token_rows := token_rows db @ [(next_token db, row)], next_token := next_token db + 1\<rparr>))"

definition CreateToken ::
    "(string \<Rightarrow> string) \<Rightarrow> nat list \<Rightarrow> int \<Rightarrow> int \<Rightarrow> string \<Rightarrow> string \<Rightarrow> string list \<Rightarrow> int option \<Rightarrow> token_db \<Rightarrow>
     token_error + string \<times> token_db" where
  "CreateToken hash buf now' ownerID ownerType name scopes expiresAt db =
     (let plaintext = tokenPrefixForType ownerType @ generateTokenRandom buf
      in case insert_token
           \<lparr>owner_type = ownerType, owner_id = ownerID, token_name = (if name = [] then ''default'' else name),
            token_hash = hash plaintext,
            token_prefix = (if length plaintext > 8 then take 8 plaintext else plaintext),
            scope = (case scopes of [] \<Rightarrow> ''global'' | s # _ \<Rightarrow> s),
            expires_at_time = expiresAt, created_time = now', last_used_at = None\<rparr> db of
           None \<Rightarrow> Inl Token_Not_Stored
         | Some db' \<Rightarrow> Inr (plaintext, db'))"

definition CreateOrgToken ::
    "(string \<Rightarrow> string) \<Rightarrow> nat list \<Rightarrow> int \<Rightarrow> int \<Rightarrow> string \<Rightarrow> string list \<Rightarrow> token_db \<Rightarrow>
     token_error + string \<times> token_db" where
  "CreateOrgToken hash buf now' orgID name permissions db =
     (let plaintext = ''org_'' @ generateTokenRandom buf
      in case insert_token
           \<lparr>owner_type = ''org'', owner_id = orgID, token_name = (if name = [] then ''default'' else name),
            token_hash = hash plaintext,
            token_prefix = (if length plaintext > 8 then take 8 plaintext else plaintext),
            scope = (case permissions of [] \<Rightarrow> ''global'' | s # _ \<Rightarrow> s),
            expires_at_time = None, created_time = now', last_used_at = None\<rparr> db of
           None \<Rightarrow> Inl Token_Not_Stored
         | Some db' \<Rightarrow> Inr (plaintext, db'))"

section \<open>Validation\<close>

record TokenRecord = token +
  tok_id :: int
  tok_name :: string
  tok_prefix :: string
  tok_scope :: string
  tok_expires :: "int option"
  tok_created :: int
  tok_last_used :: "int option"

definition row_record :: "int \<Rightarrow> token_row \<Rightarrow> TokenRecord" where
  "row_record i r =
     \<lparr>tok_owner_type = owner_type r, tok_owner_id = owner_id r, tok_id = i, tok_name = token_name r,
      tok_prefix = token_prefix r, tok_scope = scope r, tok_expires = expires_at_time r, tok_created = created_time r,
      tok_last_used = last_used_at r\<rparr>"

definition find_token :: "string \<Rightarrow> token_db \<Rightarrow> (int \<times> token_row) option" where
  "find_token h db = List.find (\<lambda>r. token_hash (snd r) = h) (token_rows db)"

text \<open>The check; the time of use is written in the background.\<close>

definition ValidateToken :: "(string \<Rightarrow> string) \<Rightarrow> int \<Rightarrow> string \<Rightarrow> token_db \<Rightarrow> token_error + TokenRecord" where
  "ValidateToken hash now' plaintext db =
     (case find_token (hash plaintext) db of
        None \<Rightarrow> Inl Token_Invalid
      | Some (i, r) \<Rightarrow>
          if (case expires_at_time r of Some e \<Rightarrow> now' > e | None \<Rightarrow> False) then Inl Token_Expired
          else Inr (row_record i r))"

definition mark_used :: "int \<Rightarrow> int \<Rightarrow> token_db \<Rightarrow> token_db" where
  "mark_used now' i db =
     db\<lparr>token_rows := map (\<lambda>(j, r). (j, if j = i then r\<lparr>last_used_at := Some now'\<rparr> else r)) (token_rows db)\<rparr>"

section \<open>Lists, revocation, clean-up\<close>

definition ListTokens :: "string \<Rightarrow> int \<Rightarrow> token_db \<Rightarrow> TokenRecord list" where
  "ListTokens ownerType ownerID db =
     sort_key (\<lambda>r. - tok_created r)
       (map (\<lambda>(i, r). row_record i r) (filter (\<lambda>(i, r). owner_type r = ownerType \<and> owner_id r = ownerID) (token_rows db)))"

definition ListOrgTokens :: "int \<Rightarrow> token_db \<Rightarrow> TokenRecord list" where
  "ListOrgTokens orgID db = ListTokens ''org'' orgID db"

definition RevokeToken :: "int \<Rightarrow> string \<Rightarrow> int \<Rightarrow> token_db \<Rightarrow> token_error + token_db" where
  "RevokeToken i ownerType ownerID db =
     (let hit = (\<lambda>(j, r). j = i \<and> owner_type r = ownerType \<and> owner_id r = ownerID)
      in if \<not> list_ex hit (token_rows db) then Inl Token_Not_Owned
         else Inr (db\<lparr>token_rows := filter (\<lambda>x. \<not> hit x) (token_rows db)\<rparr>))"

definition RevokeOrgToken :: "int \<Rightarrow> int \<Rightarrow> token_db \<Rightarrow> token_error + token_db" where
  "RevokeOrgToken i orgID db = RevokeToken i ''org'' orgID db"

text \<open>The task \<open>token_cleanup\<close>.\<close>

definition cleanupTokens :: "int \<Rightarrow> token_db \<Rightarrow> token_db" where
  "cleanupTokens now' db =
     db\<lparr>api_tokens := filter (\<lambda>(i, e). case e of None \<Rightarrow> True | Some t \<Rightarrow> \<not> t < now') (api_tokens db)\<rparr>"

section \<open>Bearer middlewares\<close>

text \<open>The answer 401, or the record the next handler gets.\<close>

definition BearerAuthMiddleware :: "(string \<Rightarrow> string) \<Rightarrow> int \<Rightarrow> string \<Rightarrow> token_db \<Rightarrow> string + TokenRecord" where
  "BearerAuthMiddleware hash now' auth db =
     (if \<not> HasPrefix auth ''Bearer '' then Inl ''Bearer token required''
      else
        (case ValidateToken hash now' (drop 7 auth) db of
           Inl e \<Rightarrow> Inl ''Invalid or expired token''
         | Inr rec \<Rightarrow> Inr rec))"

text \<open>Whether the admin handler runs, for the record in the context.\<close>

definition RequireBearerAdmin :: "TokenRecord option \<Rightarrow> bool" where
  "RequireBearerAdmin rec = (case rec of None \<Rightarrow> False | Some r \<Rightarrow> EqualFold (tok_owner_type r) ''admin'')"

text \<open>The two in front of the admin API.\<close>

definition admin_api_runs :: "(string \<Rightarrow> string) \<Rightarrow> int \<Rightarrow> string \<Rightarrow> token_db \<Rightarrow> bool" where
  "admin_api_runs hash now' auth db =
     (case BearerAuthMiddleware hash now' auth db of Inl e \<Rightarrow> False | Inr rec \<Rightarrow> RequireBearerAdmin (Some rec))"

end
