(* ===== verification/TokenLife.thy ===== *)
theory TokenLife
  imports Tokens
begin

text \<open>
  The life of an API token: from its creation through whatever else happens to the table until
  it is revoked or expires, and who gets into the admin API. Nothing is assumed of the hash; that
  two tokens do not share one is the unique column's doing.
\<close>

section \<open>Steps\<close>

text \<open>The label is the id a step revokes, if any.\<close>

inductive token_step :: "(string \<Rightarrow> string) \<Rightarrow> int option \<Rightarrow> token_db \<Rightarrow> token_db \<Rightarrow> bool" for hash where
  created: "CreateToken hash buf now' o' ty n sc e db = Inr (p, db') \<Longrightarrow> token_step hash None db db'"
| org_created: "CreateOrgToken hash buf now' o' n sc db = Inr (p, db') \<Longrightarrow> token_step hash None db db'"
| used: "token_step hash None db (mark_used now' j db)"
| revoked: "RevokeToken j ty o' db = Inr db' \<Longrightarrow> token_step hash (Some j) db db'"
| cleaned: "token_step hash None db (cleanupTokens now' db)"

text \<open>Any number of steps, none of which revokes an id of \<open>spared\<close>.\<close>

inductive token_steps :: "(string \<Rightarrow> string) \<Rightarrow> int set \<Rightarrow> token_db \<Rightarrow> token_db \<Rightarrow> bool" for hash spared db where
  no_steps: "token_steps hash spared db db"
| more_steps: "token_steps hash spared db db1 \<Longrightarrow> token_step hash l db1 db2 \<Longrightarrow> (\<And>j. l = Some j \<Longrightarrow> j \<notin> spared) \<Longrightarrow>
    token_steps hash spared db db2"

definition no_tokens :: token_db where
  "no_tokens = \<lparr>token_rows = [], next_token = 1, api_tokens = []\<rparr>"

section \<open>The invariant\<close>

definition token_inv :: "token_db \<Rightarrow> bool" where
  "token_inv db \<longleftrightarrow> distinct (map (\<lambda>x. token_hash (snd x)) (token_rows db)) \<and>
     distinct (map fst (token_rows db)) \<and> (\<forall>x \<in> set (token_rows db). fst x < next_token db)"

lemma insert_token_Some:
  "insert_token row db = Some db' \<Longrightarrow> token_rows db' = token_rows db @ [(next_token db, row)] \<and>
     next_token db' = next_token db + 1 \<and> (\<forall>x \<in> set (token_rows db). token_hash (snd x) \<noteq> token_hash row)"
  by (auto simp: insert_token_def list_ex_iff split: if_splits)

lemma insert_token_inv: "insert_token row db = Some db' \<Longrightarrow> token_inv db \<Longrightarrow> token_inv db'"
  by (drule insert_token_Some) (force simp: token_inv_def)

lemma CreateToken_Inr:
  "CreateToken hash buf now' o' ty n sc e db = Inr (p, db') \<Longrightarrow>
   p = tokenPrefixForType ty @ generateTokenRandom buf \<and>
   (\<exists>row. insert_token row db = Some db' \<and> token_hash row = hash p \<and> owner_type row = ty \<and> owner_id row = o' \<and>
      expires_at_time row = e \<and> token_prefix row = (if length p > 8 then take 8 p else p))"
  by (fastforce simp: CreateToken_def Let_def split: option.splits)

lemma CreateOrgToken_Inr:
  "CreateOrgToken hash buf now' o' n sc db = Inr (p, db') \<Longrightarrow>
   (\<exists>row. insert_token row db = Some db' \<and> token_hash row = hash p \<and> owner_type row = ''org'' \<and> owner_id row = o' \<and>
      expires_at_time row = None)"
  by (fastforce simp: CreateOrgToken_def Let_def split: option.splits)

lemma mark_used_rows: "map (\<lambda>x. token_hash (snd x)) (token_rows (mark_used now' j db)) = map (\<lambda>x. token_hash (snd x)) (token_rows db)"
  "map fst (token_rows (mark_used now' j db)) = map fst (token_rows db)"
  by (auto simp: mark_used_def)

lemma distinct_map_filtered: "distinct (map f xs) \<Longrightarrow> distinct (map f (filter P xs))"
  by (rule distinct_map_filter)

lemma RevokeToken_Inr: "RevokeToken j ty o' db = Inr db' \<Longrightarrow>
    db' = db\<lparr>token_rows := filter (\<lambda>x. \<not> (fst x = j \<and> owner_type (snd x) = ty \<and> owner_id (snd x) = o')) (token_rows db)\<rparr>"
  by (auto simp: RevokeToken_def Let_def case_prod_beta split: if_splits)

lemma token_step_inv: "token_step hash l db db' \<Longrightarrow> token_inv db \<Longrightarrow> token_inv db'"
proof (induction rule: token_step.induct)
  case (created buf now' o' ty n sc e db p db')
  then show ?case using CreateToken_Inr [OF created(1)] insert_token_inv by blast
next
  case (org_created buf now' o' n sc db p db')
  then show ?case using CreateOrgToken_Inr [OF org_created(1)] insert_token_inv by blast
next
  case (used db now' j)
  have "fst ` set (token_rows (mark_used now' j db)) = fst ` set (token_rows db)"
    using arg_cong [OF mark_used_rows(2), of set] by simp
  moreover have "next_token (mark_used now' j db) = next_token db" by (simp add: mark_used_def)
  ultimately have "\<forall>i \<in> fst ` set (token_rows (mark_used now' j db)). i < next_token (mark_used now' j db)"
    using used unfolding token_inv_def by simp
  then show ?case using used unfolding token_inv_def mark_used_rows by simp
next
  case (revoked j ty o' db db')
  show ?case unfolding RevokeToken_Inr [OF revoked(1)] using revoked(2) by (auto simp: token_inv_def distinct_map_filtered)
next
  case (cleaned db now')
  then show ?case by (simp add: token_inv_def cleanupTokens_def)
qed

lemma token_steps_inv: "token_steps hash spared db db' \<Longrightarrow> token_inv db \<Longrightarrow> token_inv db'"
  by (induction rule: token_steps.induct) (auto intro: token_step_inv)

lemma no_tokens_inv: "token_inv no_tokens"
  by (simp add: token_inv_def no_tokens_def)

section \<open>A row through the steps\<close>

text \<open>The row of an id, up to its time of use.\<close>

definition has_row :: "int \<Rightarrow> token_row \<Rightarrow> token_db \<Rightarrow> bool" where
  "has_row i r db \<longleftrightarrow> (\<exists>t. (i, r\<lparr>last_used_at := t\<rparr>) \<in> set (token_rows db))"

lemma has_row_insert: "insert_token row db = Some db' \<Longrightarrow> has_row i r db \<Longrightarrow> has_row i r db'"
  using insert_token_Some [of row db db'] by (auto simp: has_row_def)

lemma has_row_step: "token_step hash l db db' \<Longrightarrow> (\<And>j. l = Some j \<Longrightarrow> j \<noteq> i) \<Longrightarrow> has_row i r db \<Longrightarrow> has_row i r db'"
proof (induction rule: token_step.induct)
  case (created buf now' o' ty n sc e db p db')
  then show ?case using CreateToken_Inr [OF created(1)] has_row_insert by blast
next
  case (org_created buf now' o' n sc db p db')
  then show ?case using CreateOrgToken_Inr [OF org_created(1)] has_row_insert by blast
next
  case (used db now' j)
  then obtain t where t: "(i, r\<lparr>last_used_at := t\<rparr>) \<in> set (token_rows db)" unfolding has_row_def by blast
  have "(i, if i = j then r\<lparr>last_used_at := Some now'\<rparr> else r\<lparr>last_used_at := t\<rparr>) \<in> set (token_rows (mark_used now' j db))"
    using imageI [OF t, of "\<lambda>(k, r). (k, if k = j then r\<lparr>last_used_at := Some now'\<rparr> else r)"]
    by (auto simp: mark_used_def split: if_splits)
  then show ?case unfolding has_row_def by (auto split: if_splits)
next
  case (revoked j ty o' db db')
  then show ?case unfolding RevokeToken_Inr [OF revoked(1)] has_row_def by auto
next
  case (cleaned db now')
  then show ?case by (simp add: has_row_def cleanupTokens_def)
qed

lemma has_row_steps: "token_steps hash spared db db' \<Longrightarrow> i \<in> spared \<Longrightarrow> has_row i r db \<Longrightarrow> has_row i r db'"
  by (induction rule: token_steps.induct) (auto intro: has_row_step)

text \<open>With distinct hashes the search finds the one row with the hash.\<close>

lemma find_token_Some: "find_token h db = Some x \<Longrightarrow> x \<in> set (token_rows db) \<and> token_hash (snd x) = h"
  by (auto simp: find_token_def find_Some_iff)

lemma find_token_row:
  assumes "token_inv db" and "(i, r) \<in> set (token_rows db)"
  shows "find_token (token_hash r) db = Some (i, r)"
proof -
  obtain x where x: "find_token (token_hash r) db = Some x"
    using assms(2) unfolding find_token_def by (cases "List.find (\<lambda>x. token_hash (snd x) = token_hash r) (token_rows db)")
      (auto simp: find_None_iff)
  then have "x \<in> set (token_rows db)" "token_hash (snd x) = token_hash r"
    using find_token_Some by blast+
  then have "x = (i, r)" using assms unfolding token_inv_def by (metis (mono_tags, lifting) distinct_map inj_onD snd_conv)
  then show ?thesis using x by simp
qed

lemma ValidateToken_row:
  assumes "token_inv db" and "(i, r) \<in> set (token_rows db)" and "token_hash r = hash p"
  shows "ValidateToken hash now' p db =
    (if (case expires_at_time r of Some e \<Rightarrow> now' > e | None \<Rightarrow> False) then Inl Token_Expired else Inr (row_record i r))"
  using find_token_row [OF assms(1,2)] assms(3) by (simp add: ValidateToken_def)

section \<open>What a token is good for\<close>

text \<open>
  C18 (token_works_until_revoked). A token that was handed out once works ever after: whatever tokens are created,
  used, revoked or cleaned up later, as long as this one is not revoked, the server recognises it,
  as a token of the owner it was made for, up to the second of its expiry; afterwards it says
  that it has expired. Two tokens with one hash cannot be, so nothing is assumed of the hash.
\<close>

theorem token_works_until_revoked:
  assumes "token_steps hash {} no_tokens db"
    and "CreateToken hash buf now' ownerID ownerType name scopes e db = Inr (p, db1)"
    and "token_steps hash {next_token db} db1 db2"
  shows "case ValidateToken hash t p db2 of
      Inl err \<Rightarrow> err = Token_Expired \<and> (\<exists>u. e = Some u \<and> u < t)
    | Inr rec \<Rightarrow> tok_id rec = next_token db \<and> tok_owner_type rec = ownerType \<and> tok_owner_id rec = ownerID \<and>
        (\<forall>u. e = Some u \<longrightarrow> t \<le> u)"
proof -
  have i1: "token_inv db1"
    using token_steps_inv [OF assms(1) no_tokens_inv] token_step_inv [OF token_step.created [OF assms(2)]] by blast
  obtain row where row: "insert_token row db = Some db1" "token_hash row = hash p" "owner_type row = ownerType"
    "owner_id row = ownerID" "expires_at_time row = e"
    using CreateToken_Inr [OF assms(2)] by blast
  have "has_row (next_token db) row db1"
    unfolding has_row_def using insert_token_Some [OF row(1)] by (intro exI [of _ "last_used_at row"]) simp
  then have "has_row (next_token db) row db2" using has_row_steps [OF assms(3)] by simp
  then obtain u where u: "(next_token db, row\<lparr>last_used_at := u\<rparr>) \<in> set (token_rows db2)" unfolding has_row_def by blast
  show ?thesis
    using ValidateToken_row [OF token_steps_inv [OF assms(3) i1] u, of hash p t] row by (auto simp: row_record_def split: option.splits)
qed

text \<open>
  C19 (admin_api_needs_admin_token). The admin handlers run exactly for the header \<open>Bearer\<close> with a token whose hash
  is stored in a row that has not expired and whose owner type is admin: no token of a user or an
  organisation gets there, and no guess that is not stored.
\<close>

theorem admin_api_needs_admin_token:
  assumes "token_steps hash {} no_tokens db"
  shows "admin_api_runs hash t auth db \<longleftrightarrow>
    (\<exists>p i r. auth = ''Bearer '' @ p \<and> (i, r) \<in> set (token_rows db) \<and> token_hash r = hash p \<and>
      EqualFold (owner_type r) ''admin'' \<and> (\<forall>u. expires_at_time r = Some u \<longrightarrow> t \<le> u))"
proof
  have inv: "token_inv db" using token_steps_inv [OF assms no_tokens_inv] .
  have len: "drop 7 (''Bearer '' @ p) = p" for p by simp
  show "admin_api_runs hash t auth db"
    if ex: "\<exists>p i r. auth = ''Bearer '' @ p \<and> (i, r) \<in> set (token_rows db) \<and> token_hash r = hash p \<and>
      EqualFold (owner_type r) ''admin'' \<and> (\<forall>u. expires_at_time r = Some u \<longrightarrow> t \<le> u)"
  proof -
    obtain p i r where p: "auth = ''Bearer '' @ p" "(i, r) \<in> set (token_rows db)" "token_hash r = hash p"
      "EqualFold (owner_type r) ''admin''" "\<forall>u. expires_at_time r = Some u \<longrightarrow> t \<le> u"
      using ex by blast
    have "ValidateToken hash t p db = Inr (row_record i r)"
      using ValidateToken_row [of db i r hash p t, OF inv p(2,3)] p(5) by (auto split: option.splits)
    then show ?thesis using p(1,4) len [of p]
      by (simp add: admin_api_runs_def BearerAuthMiddleware_def RequireBearerAdmin_def HasPrefix_def row_record_def)
  qed
  assume runs: "admin_api_runs hash t auth db"
  then obtain p where p: "auth = ''Bearer '' @ p"
    unfolding admin_api_runs_def BearerAuthMiddleware_def HasPrefix_def
    by (cases "prefix ''Bearer '' auth") (auto elim: prefixE)
  obtain i r where f: "find_token (hash p) db = Some (i, r)"
    using runs len [of p] unfolding admin_api_runs_def BearerAuthMiddleware_def ValidateToken_def p
    by (cases "find_token (hash p) db") (auto simp: HasPrefix_def)
  have "(i, r) \<in> set (token_rows db)" "token_hash r = hash p" using find_token_Some [OF f] by simp_all
  moreover have "EqualFold (owner_type r) ''admin'' \<and> (\<forall>u. expires_at_time r = Some u \<longrightarrow> t \<le> u)"
    using runs len [of p] f unfolding admin_api_runs_def BearerAuthMiddleware_def ValidateToken_def p
    by (auto simp: HasPrefix_def RequireBearerAdmin_def row_record_def split: if_splits option.splits)
  ultimately show "\<exists>p i r. auth = ''Bearer '' @ p \<and> (i, r) \<in> set (token_rows db) \<and> token_hash r = hash p \<and>
      EqualFold (owner_type r) ''admin'' \<and> (\<forall>u. expires_at_time r = Some u \<longrightarrow> t \<le> u)"
    using p by blast
qed

text \<open>
  A new token is four characters of prefix for the type of its owner and 32 more from the
  alphabet of lower-case letters and digits; the part that is stored readable is the prefix and
  four of them, so 28 stay secret.
\<close>

theorem token_shape:
  assumes "CreateToken hash buf now' ownerID ownerType name scopes e db = Inr (p, db1)" and "length buf = 32"
  shows "length p = 36 \<and> (\<forall>c \<in> set (drop 4 p). is_lower c \<or> is_digit c) \<and>
    take 4 p \<in> {''adm_'', ''org_'', ''usr_''} \<and> (\<exists>row. (next_token db, row) \<in> set (token_rows db1) \<and> token_prefix row = take 8 p)"
proof -
  have p: "p = tokenPrefixForType ownerType @ generateTokenRandom buf" using CreateToken_Inr [OF assms(1)] by blast
  have pre: "tokenPrefixForType ownerType \<in> {''adm_'', ''org_'', ''usr_''}" by (simp add: tokenPrefixForType_def)
  then have l4: "length (tokenPrefixForType ownerType) = 4" by auto
  have chars: "\<forall>c \<in> set tokenAlphabet. is_lower c \<or> is_digit c" by (simp add: tokenAlphabet_def is_lower_def is_digit_def)
  have "tokenAlphabet ! (b mod length tokenAlphabet) \<in> set tokenAlphabet" for b by (rule nth_mem) (simp add: tokenAlphabet_def)
  then have "\<forall>c \<in> set (generateTokenRandom buf). is_lower c \<or> is_digit c" using chars by (auto simp: generateTokenRandom_def)
  moreover have "length (generateTokenRandom buf) = 32" using assms(2) by (simp add: generateTokenRandom_def)
  moreover obtain row where "insert_token row db = Some db1" "token_prefix row = (if length p > 8 then take 8 p else p)"
    using CreateToken_Inr [OF assms(1)] by blast
  then have "(next_token db, row) \<in> set (token_rows db1) \<and> token_prefix row = (if length p > 8 then take 8 p else p)"
    using insert_token_Some by force
  ultimately show ?thesis using p pre l4 by auto
qed

section \<open>A concrete token\<close>

definition first_admin :: "string \<times> token_db" where
  "first_admin = (''adm_'' @ replicate 32 (CHR ''a''),
     no_tokens\<lparr>token_rows := [(1, \<lparr>owner_type = ''admin'', owner_id = 7, token_name = ''default'',
        token_hash = ''adm_'' @ replicate 32 (CHR ''a''), token_prefix = ''adm_aaaa'', scope = ''global'', expires_at_time = Some 500,
        created_time = 100, last_used_at = None\<rparr>)], next_token := 2\<rparr>)"

lemma first_admin_created:
  "CreateToken (\<lambda>s. s) (replicate 32 0) 100 7 ''admin'' [] [] (Some 500) no_tokens = Inr first_admin"
proof -
  have "generateTokenRandom (replicate 32 0) = replicate 32 (CHR ''a'')"
    by (simp add: generateTokenRandom_def tokenAlphabet_def map_replicate)
  moreover have "tokenPrefixForType ''admin'' = ''adm_''" by (simp add: tokenPrefixForType_def eval_simps)
  moreover have "take 8 (''adm_'' @ replicate 32 (CHR ''a'')) = ''adm_aaaa''" by (simp add: take_Cons' eval_nat_numeral)
  ultimately show ?thesis by (simp add: CreateToken_def insert_token_def no_tokens_def first_admin_def Let_def)
qed

lemma first_admin_steps: "token_steps (\<lambda>s. s) {} no_tokens (snd first_admin)"
proof (rule more_steps [OF no_steps token_step.created])
  show "CreateToken (\<lambda>s. s) (replicate 32 0) 100 7 ''admin'' [] [] (Some 500) no_tokens = Inr (fst first_admin, snd first_admin)"
    using first_admin_created by simp
qed simp

lemma token_works_until_revoked_witness:
  "case ValidateToken (\<lambda>s. s) 500 (fst first_admin) (mark_used 300 1 (snd first_admin)) of
     Inl err \<Rightarrow> False | Inr rec \<Rightarrow> tok_owner_type rec = ''admin''"
proof -
  have c: "CreateToken (\<lambda>s. s) (replicate 32 0) 100 7 ''admin'' [] [] (Some 500) no_tokens = Inr (fst first_admin, snd first_admin)"
    using first_admin_created by simp
  have s: "token_steps (\<lambda>s. s) {next_token no_tokens} (snd first_admin) (mark_used 300 1 (snd first_admin))"
    by (rule more_steps [OF no_steps token_step.used]) simp
  show ?thesis using token_works_until_revoked [OF no_steps c s, of 500] by (auto split: sum.splits)
qed

lemma admin_api_needs_admin_token_witness:
  "admin_api_runs (\<lambda>s. s) 200 (''Bearer '' @ fst first_admin) (snd first_admin) \<and>
   \<not> admin_api_runs (\<lambda>s. s) 200 ''Bearer adm_b'' (snd first_admin)"
proof -
  have "''b'' \<noteq> replicate 32 (CHR ''a'')" by (simp add: eval_nat_numeral)
  then show ?thesis using admin_api_needs_admin_token [OF first_admin_steps, of 200]
    by (simp add: first_admin_def EqualFold_def ToLower_def is_upper_def)
qed

lemma token_shape_witness: "length (fst first_admin) = 36 \<and> take 4 (fst first_admin) \<in> {''adm_'', ''org_'', ''usr_''}"
  using token_shape [of "\<lambda>s. s" "replicate 32 0" 100 7 "''admin''" "[]" "[]" "Some 500" no_tokens "fst first_admin" "snd first_admin"]
    first_admin_created by simp

end
