(* ===== verification/Orgs.thy ===== *)
theory Orgs
  imports KeyStore OrgSlug
begin

text \<open>
  Organisations: \<^verbatim>\<open>src/server/service/org.go\<close> and the shared namespace of
  \<^verbatim>\<open>src/server/service/namespace.go\<close> over the tables \<open>users\<close>, \<open>organizations\<close> and
  \<open>org_members\<close>, with their foreign keys and unique columns. Each operation is a transaction;
  a statement on the database fails only when it breaks a constraint. Times are left out.
\<close>

section \<open>Tables\<close>

record org_row =
  o_name :: string
  o_slug :: string
  o_owner :: int
  o_description :: string
  o_website :: string
  o_location :: string
  o_visibility :: string

text \<open>Users are the pairs of user name and email by id; members the roles by organisation and user.\<close>

record org_db =
  users :: "(int \<times> string \<times> string) list"
  orgs :: "(int \<times> org_row) list"
  members :: "((int \<times> int) \<times> string) list"
  next_org :: int

datatype org_error =
    Invalid_Org_Slug
  | Org_Slug_Exists
  | Org_Insert_Failed
  | Member_Insert_Failed
  | Org_Not_Found
  | Bad_Org_Field string
  | Not_Owner
  | New_Owner_Not_Member
  | Member_Not_Found
  | Is_Owner
  | Invalid_Role
  | No_Account
  | Already_A_Member
  | ErrAlreadyMember

abbreviation org_at :: "org_db \<Rightarrow> int \<Rightarrow> org_row option" where
  "org_at db \<equiv> map_of (orgs db)"

abbreviation role_of :: "org_db \<Rightarrow> int \<Rightarrow> int \<Rightarrow> string option" where
  "role_of db org user \<equiv> map_of (members db) (org, user)"

section \<open>The shared namespace\<close>

datatype name_error = ErrNameReserved | ErrNameTaken

definition CheckNameAvailable :: "org_db \<Rightarrow> string \<Rightarrow> name_error option" where
  "CheckNameAvailable db name0 =
     (let name = ToLower (TrimSpace name0)
      in if blocked_name name \<noteq> None then Some ErrNameReserved
         else if list_ex (\<lambda>u. fst (snd u) = name) (users db) then Some ErrNameTaken
         else if list_ex (\<lambda>r. o_slug (snd r) = name) (orgs db) then Some ErrNameTaken
         else None)"

section \<open>Organisations\<close>

definition set_role :: "int \<Rightarrow> int \<Rightarrow> string \<Rightarrow> org_db \<Rightarrow> org_db" where
  "set_role org user role db = db\<lparr>members := AList.update (org, user) role (members db)\<rparr>"

text \<open>The two inserts of a creation, with the foreign key of the owner and the unique slug.\<close>

definition insert_org :: "org_row \<Rightarrow> org_db \<Rightarrow> org_db option" where
  "insert_org row db =
     (if map_of (users db) (o_owner row) = None \<or> list_ex (\<lambda>r. o_slug (snd r) = o_slug row) (orgs db) then None
      else Some (db\<lparr>orgs := AList.update (next_org db) row (orgs db), next_org := next_org db + 1\<rparr>))"

definition insert_member :: "int \<Rightarrow> int \<Rightarrow> string \<Rightarrow> org_db \<Rightarrow> org_db option" where
  "insert_member org user role db =
     (if org_at db org = None \<or> map_of (users db) user = None \<or> role_of db org user \<noteq> None then None
      else Some (set_role org user role db))"

definition CreateOrganization :: "int \<Rightarrow> string \<Rightarrow> string \<Rightarrow> org_db \<Rightarrow> org_error + int \<times> org_db" where
  "CreateOrganization userID name slug0 db =
     (let slug = (if slug0 = [] then generateSlug name else slug0)
      in if ValidateOrgSlug slug \<noteq> None then Inl Invalid_Org_Slug
         else if CheckNameAvailable db slug \<noteq> None then Inl Org_Slug_Exists
         else
           (case insert_org \<lparr>o_name = name, o_slug = slug, o_owner = userID, o_description = [],
                             o_website = [], o_location = [], o_visibility = ''public''\<rparr> db of
              None \<Rightarrow> Inl Org_Insert_Failed
            | Some db1 \<Rightarrow>
                (case insert_member (next_org db) userID ''owner'' db1 of
                   None \<Rightarrow> Inl Member_Insert_Failed
                 | Some db2 \<Rightarrow> Inr (next_org db, db2))))"

definition NormalizeOrgVisibility :: "string \<Rightarrow> string" where
  "NormalizeOrgVisibility v = (if ToLower (TrimSpace v) = ''private'' then ''private'' else ''public'')"

record org_profile =
  p_name :: string
  p_description :: string
  p_website :: string
  p_location :: string
  p_visibility :: string

definition UpdateOrganization :: "int \<Rightarrow> org_profile \<Rightarrow> org_db \<Rightarrow> org_error + org_db" where
  "UpdateOrganization org inp db =
     (let name = TrimSpace (p_name inp); description = TrimSpace (p_description inp);
          website = TrimSpace (p_website inp); location = TrimSpace (p_location inp)
      in if length name < 3 \<or> length name > 40 then Inl (Bad_Org_Field ''name'')
         else if length description > 500 then Inl (Bad_Org_Field ''description'')
         else if length website > 255 then Inl (Bad_Org_Field ''website'')
         else if length location > 100 then Inl (Bad_Org_Field ''location'')
         else
           (case org_at db org of
              None \<Rightarrow> Inl Org_Not_Found
            | Some row \<Rightarrow>
                Inr (db\<lparr>orgs := AList.update org
                  (row\<lparr>o_name := name, o_description := description, o_website := website,
                       o_location := location, o_visibility := NormalizeOrgVisibility (p_visibility inp)\<rparr>) (orgs db)\<rparr>)))"

text \<open>The foreign key of the members cascades.\<close>

definition DeleteOrganization :: "int \<Rightarrow> org_db \<Rightarrow> org_error + org_db" where
  "DeleteOrganization org db =
     (if org_at db org = None then Inl Org_Not_Found
      else Inr (db\<lparr>orgs := AList.delete org (orgs db),
                   members := filter (\<lambda>m. fst (fst m) \<noteq> org) (members db)\<rparr>))"

section \<open>Membership\<close>

definition IsMember :: "org_db \<Rightarrow> int \<Rightarrow> int \<Rightarrow> bool \<times> string" where
  "IsMember db org user = (case role_of db org user of None \<Rightarrow> (False, []) | Some r \<Rightarrow> (True, r))"

definition CanViewOrg :: "org_db \<Rightarrow> int \<Rightarrow> org_row \<Rightarrow> int \<Rightarrow> bool" where
  "CanViewOrg db org row user =
     (if NormalizeOrgVisibility (o_visibility row) = ''public'' then True else fst (IsMember db org user))"

text \<open>An UPDATE of a role touches the row if there is one.\<close>

definition update_role :: "int \<Rightarrow> int \<Rightarrow> string \<Rightarrow> org_db \<Rightarrow> org_db" where
  "update_role org user role db =
     (if role_of db org user = None then db else set_role org user role db)"

definition TransferOwnership :: "int \<Rightarrow> int \<Rightarrow> int \<Rightarrow> org_db \<Rightarrow> org_error + org_db" where
  "TransferOwnership org currentOwner newOwner db =
     (case org_at db org of
        None \<Rightarrow> Inl Org_Not_Found
      | Some row \<Rightarrow>
          if o_owner row \<noteq> currentOwner then Inl Not_Owner
          else if role_of db org newOwner = None then Inl New_Owner_Not_Member
          else
            (let db1 = update_role org currentOwner ''admin'' db;
                 db2 = update_role org newOwner ''owner'' db1
             in Inr (db2\<lparr>orgs := AList.update org (row\<lparr>o_owner := newOwner\<rparr>) (orgs db2)\<rparr>)))"

definition RemoveMember :: "int \<Rightarrow> int \<Rightarrow> org_db \<Rightarrow> org_error + org_db" where
  "RemoveMember org user db =
     (case role_of db org user of
        None \<Rightarrow> Inl Member_Not_Found
      | Some role \<Rightarrow>
          if role = ''owner'' then Inl Is_Owner
          else Inr (db\<lparr>members := AList.delete (org, user) (members db)\<rparr>))"

definition ChangeMemberRole :: "int \<Rightarrow> int \<Rightarrow> string \<Rightarrow> org_db \<Rightarrow> org_error + org_db" where
  "ChangeMemberRole org user newRole db =
     (if newRole \<noteq> ''member'' \<and> newRole \<noteq> ''admin'' then Inl Invalid_Role
      else
        (case role_of db org user of
           None \<Rightarrow> Inl Member_Not_Found
         | Some role \<Rightarrow> if role = ''owner'' then Inl Is_Owner else Inr (update_role org user newRole db)))"

definition AddMemberByUserID :: "int \<Rightarrow> int \<Rightarrow> string \<Rightarrow> org_db \<Rightarrow> org_error + org_db" where
  "AddMemberByUserID org user role0 db =
     (let role = (if role0 \<noteq> ''member'' \<and> role0 \<noteq> ''admin'' then ''member'' else role0)
      in if role_of db org user \<noteq> None then Inl ErrAlreadyMember
         else
           (case insert_member org user role db of
              None \<Rightarrow> Inl Member_Insert_Failed
            | Some db' \<Rightarrow> Inr db'))"

definition user_by_email :: "org_db \<Rightarrow> string \<Rightarrow> int option" where
  "user_by_email db email = map_option fst (List.find (\<lambda>u. snd (snd u) = email) (users db))"

definition AddMemberByEmail :: "int \<Rightarrow> string \<Rightarrow> string \<Rightarrow> org_db \<Rightarrow> org_error + org_db" where
  "AddMemberByEmail org email role0 db =
     (case user_by_email db email of
        None \<Rightarrow> Inl No_Account
      | Some user \<Rightarrow>
         (case AddMemberByUserID org user role0 db of
            Inl e \<Rightarrow> Inl (if e = ErrAlreadyMember then Already_A_Member else e)
          | Inr db' \<Rightarrow> Inr db'))"

end
