(* ===== verification/Invites.thy ===== *)
theory Invites
  imports Tokens Orgs
begin

text \<open>
  Invites: \<^verbatim>\<open>src/server/service/invite.go\<close> over the table \<open>invites\<close>, and the handlers of
  \<^verbatim>\<open>src/server/handler/org.go\<close> that accept one and create an organisation with one. A
  consumption reads the invite and then updates it in a second statement, between which other
  requests may come; it is also given as its two phases. Times are nanoseconds, the table holds
  seconds.
\<close>

section \<open>The table\<close>

record invite_row =
  inv_hash :: string
  inv_kind :: string
  inv_email :: string
  inv_org :: "int option"
  inv_role :: string
  created_by :: int
  created_sec :: int
  expires_sec :: int
  max_uses :: int
  use_count :: int
  inv_revoked :: bool
  used_sec :: "int option"
  used_by :: "int option"

record invite_db =
  invite_rows :: "(int \<times> invite_row) list"
  next_invite :: int

datatype invite_error =
    ErrInviteInvalid
  | ErrInviteExpired
  | ErrInviteUsed
  | ErrInviteRevoked
  | ErrInviteKindMismatch
  | ErrInviteBadKind
  | Invite_Not_Stored

definition invite_kinds :: "string set" where
  "invite_kinds = {''admin_registration'', ''user_registration'', ''org_membership'', ''org_creation''}"

abbreviation a_second :: int where
  "a_second \<equiv> 1000000000"

text \<open>\<open>InviteDefaultTTL\<close>: seven days.\<close>

definition InviteDefaultTTL :: int where
  "InviteDefaultTTL = 7 * 24 * 3600 * a_second"

record invite_params =
  Kind :: string
  Email :: string
  OrgID_param :: int
  Role :: string
  CreatedBy :: int
  TTL :: int
  MaxUses :: int

definition CreateInvite ::
    "(string \<Rightarrow> string) \<Rightarrow> nat list \<Rightarrow> int \<Rightarrow> invite_params \<Rightarrow> invite_db \<Rightarrow> invite_error + string \<times> invite_db" where
  "CreateInvite hash buf now' p db =
     (if Kind p \<notin> invite_kinds then Inl ErrInviteBadKind
      else
        let ttl = (if TTL p \<le> 0 then InviteDefaultTTL else TTL p);
            uses = (if MaxUses p = 0 then 1 else if MaxUses p < 0 then 0 else MaxUses p);
            plaintext = generateTokenRandom buf
        in if list_ex (\<lambda>r. inv_hash (snd r) = hash plaintext) (invite_rows db) then Inl Invite_Not_Stored
           else
             Inr (plaintext, db\<lparr>invite_rows := invite_rows db @
               [(next_invite db,
                 \<lparr>inv_hash = hash plaintext, inv_kind = Kind p, inv_email = ToLower (TrimSpace (Email p)),
                  inv_org = (if OrgID_param p > 0 then Some (OrgID_param p) else None), inv_role = Role p,
                  created_by = CreatedBy p, created_sec = now' div a_second, expires_sec = (now' + ttl) div a_second,
                  max_uses = uses, use_count = 0, inv_revoked = False, used_sec = None, used_by = None\<rparr>)],
               next_invite := next_invite db + 1\<rparr>))"

section \<open>Checks\<close>

definition getByHash :: "string \<Rightarrow> invite_db \<Rightarrow> (int \<times> invite_row) option" where
  "getByHash h db = List.find (\<lambda>r. inv_hash (snd r) = h) (invite_rows db)"

definition checkUsable :: "int \<Rightarrow> invite_row \<Rightarrow> invite_error option" where
  "checkUsable now' iv =
     (if inv_revoked iv then Some ErrInviteRevoked
      else if \<not> now' < expires_sec iv * a_second then Some ErrInviteExpired
      else if max_uses iv \<noteq> 0 \<and> use_count iv \<ge> max_uses iv then Some ErrInviteUsed
      else None)"

definition ValidateInvite :: "(string \<Rightarrow> string) \<Rightarrow> int \<Rightarrow> string \<Rightarrow> string \<Rightarrow> invite_db \<Rightarrow> invite_error + invite_row" where
  "ValidateInvite hash now' plaintext kind db =
     (case getByHash (hash plaintext) db of
        None \<Rightarrow> Inl ErrInviteInvalid
      | Some (i, iv) \<Rightarrow>
          if kind \<noteq> [] \<and> inv_kind iv \<noteq> kind then Inl ErrInviteKindMismatch
          else (case checkUsable now' iv of Some e \<Rightarrow> Inl e | None \<Rightarrow> Inr iv))"

section \<open>Consumption\<close>

text \<open>
  The UPDATE of a consumption: the rows with the hash that are still usable count one use more.
  The result is whether there was one.
\<close>

definition takes_use :: "int \<Rightarrow> string \<Rightarrow> invite_row \<Rightarrow> bool" where
  "takes_use sec h r \<longleftrightarrow> inv_hash r = h \<and> \<not> inv_revoked r \<and> expires_sec r > sec \<and> (max_uses r = 0 \<or> use_count r < max_uses r)"

definition count_use :: "int \<Rightarrow> int \<Rightarrow> invite_row \<Rightarrow> invite_row" where
  "count_use sec usedBy r =
     r\<lparr>use_count := use_count r + 1, used_sec := (case used_sec r of None \<Rightarrow> Some sec | Some s \<Rightarrow> Some s), used_by := Some usedBy\<rparr>"

definition consume_update :: "int \<Rightarrow> string \<Rightarrow> int \<Rightarrow> invite_db \<Rightarrow> bool \<times> invite_db" where
  "consume_update sec h usedBy db =
     (list_ex (\<lambda>r. takes_use sec h (snd r)) (invite_rows db),
      db\<lparr>invite_rows := map (\<lambda>(i, r). (i, if takes_use sec h r then count_use sec usedBy r else r)) (invite_rows db)\<rparr>)"

text \<open>
  One consumption with no request in between: load, check, update, and the error when nothing was
  updated. The record returned is the loaded one with the new count.
\<close>

definition ConsumeInvite ::
    "(string \<Rightarrow> string) \<Rightarrow> int \<Rightarrow> int \<Rightarrow> string \<Rightarrow> string \<Rightarrow> int \<Rightarrow> invite_db \<Rightarrow> (invite_error + invite_row) \<times> invite_db" where
  "ConsumeInvite hash now' later plaintext kind usedBy db =
     (case ValidateInvite hash now' plaintext kind db of
        Inl e \<Rightarrow> (Inl e, db)
      | Inr iv \<Rightarrow>
          let (ok, db') = consume_update (now' div a_second) (hash plaintext) usedBy db
          in if ok then (Inr (count_use (now' div a_second) usedBy iv), db')
             else
               (case getByHash (hash plaintext) db' of
                  Some (i, fresh) \<Rightarrow> (case checkUsable later fresh of Some e \<Rightarrow> (Inl e, db') | None \<Rightarrow> (Inl ErrInviteUsed, db'))
                | None \<Rightarrow> (Inl ErrInviteUsed, db')))"

section \<open>Revocation, clean-up, lists\<close>

definition RevokeInvite :: "int \<Rightarrow> invite_db \<Rightarrow> invite_db" where
  "RevokeInvite i db = db\<lparr>invite_rows := map (\<lambda>(j, r). (j, if j = i then r\<lparr>inv_revoked := True\<rparr> else r)) (invite_rows db)\<rparr>"

definition RevokeUnusedByKind :: "string \<Rightarrow> invite_db \<Rightarrow> invite_db" where
  "RevokeUnusedByKind kind db =
     db\<lparr>invite_rows := map (\<lambda>(j, r). (j, if inv_kind r = kind \<and> \<not> inv_revoked r \<and> use_count r = 0
        then r\<lparr>inv_revoked := True\<rparr> else r)) (invite_rows db)\<rparr>"

definition CleanupExpired :: "int \<Rightarrow> invite_db \<Rightarrow> invite_db" where
  "CleanupExpired now' db = db\<lparr>invite_rows := filter (\<lambda>(j, r). \<not> expires_sec r < now' div a_second) (invite_rows db)\<rparr>"

definition ListInvitesByKind :: "int \<Rightarrow> string \<Rightarrow> int \<Rightarrow> invite_db \<Rightarrow> (int \<times> invite_row) list" where
  "ListInvitesByKind now' kind orgID db =
     sort_key (\<lambda>x. - created_sec (snd x))
       (filter (\<lambda>(j, r). inv_kind r = kind \<and> \<not> inv_revoked r \<and> expires_sec r > now' div a_second \<and>
          (orgID > 0 \<longrightarrow> inv_org r = Some orgID)) (invite_rows db))"

section \<open>Handlers\<close>

datatype invite_answer =
    Bad_Invite         \<comment> \<open>400\<close>
  | No_Org             \<comment> \<open>404\<close>
  | Join_Failed        \<comment> \<open>500\<close>
  | To_Org string      \<comment> \<open>a redirect to the dashboard of that slug\<close>

text \<open>\<open>OrgAcceptInvite\<close>, with a token, for the user of the session.\<close>

definition OrgAcceptInvite ::
    "(string \<Rightarrow> string) \<Rightarrow> int \<Rightarrow> int \<Rightarrow> string \<Rightarrow> int \<Rightarrow> invite_db \<Rightarrow> org_db \<Rightarrow> invite_answer \<times> invite_db \<times> org_db" where
  "OrgAcceptInvite hash now' later token user db odb =
     (case ConsumeInvite hash now' later token ''org_membership'' user db of
        (Inl e, db') \<Rightarrow> (Bad_Invite, db', odb)
      | (Inr iv, db') \<Rightarrow>
          let org = (case inv_org iv of Some i \<Rightarrow> i | None \<Rightarrow> 0)
          in case org_at odb org of
               None \<Rightarrow> (No_Org, db', odb)
             | Some row \<Rightarrow>
                 (case AddMemberByUserID org user (inv_role iv) odb of
                    Inl ErrAlreadyMember \<Rightarrow> (To_Org (o_slug row), db', odb)
                  | Inl e \<Rightarrow> (Join_Failed, db', odb)
                  | Inr odb' \<Rightarrow> (To_Org (o_slug row), db', odb')))"

text \<open>The policy of the configuration: the mode, whether invites count in it, and the limit per user.\<close>

record org_policy =
  authenticated_creation :: bool
  creation_invites :: bool
  max_per_user :: int

definition CountOwnedOrgs :: "int \<Rightarrow> org_db \<Rightarrow> int" where
  "CountOwnedOrgs user odb = int (length (filter (\<lambda>r. o_owner (snd r) = user) (orgs odb)))"

definition hasValidCreationInvite :: "(string \<Rightarrow> string) \<Rightarrow> org_policy \<Rightarrow> int \<Rightarrow> string \<Rightarrow> invite_db \<Rightarrow> bool" where
  "hasValidCreationInvite hash pol now' token db =
     (if token = [] then False
      else if \<not> creation_invites pol then False
      else (case ValidateInvite hash now' token ''org_creation'' db of Inl e \<Rightarrow> False | Inr iv \<Rightarrow> True))"

definition creation_blocked :: "org_policy \<Rightarrow> int \<Rightarrow> bool \<Rightarrow> org_db \<Rightarrow> bool" where
  "creation_blocked pol user hasInvite odb =
     (if \<not> authenticated_creation pol \<and> \<not> hasInvite then True
      else max_per_user pol > 0 \<and> CountOwnedOrgs user odb \<ge> max_per_user pol)"

text \<open>
  \<open>CreateOrg\<close> in the two parts between which other requests come: the checks up to the new
  organisation, and the consumption of the invite, whose outcome is ignored.
\<close>

definition CreateOrg_checked ::
    "(string \<Rightarrow> string) \<Rightarrow> org_policy \<Rightarrow> int \<Rightarrow> int \<Rightarrow> string \<Rightarrow> string \<Rightarrow> string \<Rightarrow> invite_db \<Rightarrow> org_db \<Rightarrow> (int \<times> org_db) option" where
  "CreateOrg_checked hash pol now' user name slug token0 db odb =
     (let token = TrimSpace token0; hasInvite = hasValidCreationInvite hash pol now' token db
      in if creation_blocked pol user hasInvite odb then None
         else if length name < 3 \<or> length name > 40 then None
         else if ValidateOrgSlug slug \<noteq> None then None
         else (case CreateOrganization user name slug odb of Inl e \<Rightarrow> None | Inr r \<Rightarrow> Some r))"

definition CreateOrg_consume :: "(string \<Rightarrow> string) \<Rightarrow> int \<Rightarrow> int \<Rightarrow> int \<Rightarrow> string \<Rightarrow> bool \<Rightarrow> invite_db \<Rightarrow> invite_db" where
  "CreateOrg_consume hash now' later user token0 hasInvite db =
     (if hasInvite then snd (ConsumeInvite hash now' later (TrimSpace token0) ''org_creation'' user db) else db)"

end
