(* ===== verification/OrgOwnership.thy ===== *)
theory OrgOwnership
  imports Orgs
begin

text \<open>
  Ownership of organisations over any sequence of requests: every organisation has exactly one
  member with the role owner, the one its row names; roles are one of three; slugs are valid
  and unique. And one case the checks miss: slugs that differ in case or in blanks.
\<close>

section \<open>The invariant\<close>

definition org_inv :: "org_db \<Rightarrow> bool" where
  "org_inv db \<longleftrightarrow>
     (\<forall>o1 row. org_at db o1 = Some row \<longrightarrow>
        o1 < next_org db \<and> ValidateOrgSlug (o_slug row) = None \<and> role_of db o1 (o_owner row) = Some ''owner'') \<and>
     (\<forall>o1 u r. role_of db o1 u = Some r \<longrightarrow>
        r \<in> {''owner'', ''admin'', ''member''} \<and> map_of (users db) u \<noteq> None \<and>
        (\<exists>row. org_at db o1 = Some row \<and> (r = ''owner'' \<longrightarrow> o_owner row = u))) \<and>
     (\<forall>o1 o2 r1 r2. org_at db o1 = Some r1 \<longrightarrow> org_at db o2 = Some r2 \<longrightarrow> o_slug r1 = o_slug r2 \<longrightarrow> o1 = o2)"

lemma org_invI:
  assumes "\<And>o1 row. org_at db o1 = Some row \<Longrightarrow>
        o1 < next_org db \<and> ValidateOrgSlug (o_slug row) = None \<and> role_of db o1 (o_owner row) = Some ''owner''"
    and "\<And>o1 u r. role_of db o1 u = Some r \<Longrightarrow>
        r \<in> {''owner'', ''admin'', ''member''} \<and> map_of (users db) u \<noteq> None \<and>
        (\<exists>row. org_at db o1 = Some row \<and> (r = ''owner'' \<longrightarrow> o_owner row = u))"
    and "\<And>o1 o2 r1 r2. org_at db o1 = Some r1 \<Longrightarrow> org_at db o2 = Some r2 \<Longrightarrow> o_slug r1 = o_slug r2 \<Longrightarrow> o1 = o2"
  shows "org_inv db"
  using assms unfolding org_inv_def by blast

lemma org_inv_org:
  assumes "org_inv db" and "org_at db o1 = Some row"
  shows "o1 < next_org db" and "ValidateOrgSlug (o_slug row) = None" and "role_of db o1 (o_owner row) = Some ''owner''"
  using assms unfolding org_inv_def by blast+

lemma org_inv_role:
  assumes "org_inv db" and "role_of db o1 u = Some r"
  obtains row where "r \<in> {''owner'', ''admin'', ''member''}" "map_of (users db) u \<noteq> None"
    "org_at db o1 = Some row" "r = ''owner'' \<Longrightarrow> o_owner row = u"
  using assms unfolding org_inv_def by blast

lemma org_inv_slug:
  assumes "org_inv db" and "org_at db o1 = Some r1" and "org_at db o2 = Some r2" and "o_slug r1 = o_slug r2"
  shows "o1 = o2"
  using assms unfolding org_inv_def by blast

section \<open>What each write does to the tables\<close>

lemma role_set_role [simp]:
  "role_of (set_role org user role db) o1 u = (if o1 = org \<and> u = user then Some role else role_of db o1 u)"
  by (simp add: set_role_def assoc_list.get_put)

lemma set_role_other [simp]:
  "users (set_role org user role db) = users db" "orgs (set_role org user role db) = orgs db"
  "next_org (set_role org user role db) = next_org db"
  by (simp_all add: set_role_def)

lemma role_update_role [simp]:
  "role_of (update_role org user role db) o1 u =
     (if o1 = org \<and> u = user \<and> role_of db org user \<noteq> None then Some role else role_of db o1 u)"
  by (auto simp: update_role_def)

lemma update_role_other [simp]:
  "users (update_role org user role db) = users db" "orgs (update_role org user role db) = orgs db"
  "next_org (update_role org user role db) = next_org db"
  by (simp_all add: update_role_def)

lemma map_of_filter_fst: "map_of (filter (\<lambda>m. P (fst m)) xs) k = (if P k then map_of xs k else None)"
  by (induction xs) auto

lemma insert_member_Some:
  "insert_member org user role db = Some db' \<longleftrightarrow>
     org_at db org \<noteq> None \<and> map_of (users db) user \<noteq> None \<and> role_of db org user = None \<and>
     db' = set_role org user role db"
  by (auto simp: insert_member_def)

lemma insert_org_Some:
  "insert_org row db = Some db' \<longleftrightarrow>
     map_of (users db) (o_owner row) \<noteq> None \<and> \<not> list_ex (\<lambda>r. o_slug (snd r) = o_slug row) (orgs db) \<and>
     db' = db\<lparr>orgs := AList.update (next_org db) row (orgs db), next_org := next_org db + 1\<rparr>"
  by (auto simp: insert_org_def)

lemma slug_unused:
  assumes "\<not> list_ex (\<lambda>r. o_slug (snd r) = s) (orgs db)" and "org_at db o1 = Some row"
  shows "o_slug row \<noteq> s"
  using assms map_of_SomeD [OF assms(2)] by (auto simp: list_ex_iff)

lemma CreateOrganization_Inr:
  assumes "CreateOrganization user name slug0 db = Inr (org, db')"
  obtains row where "org = next_org db" "o_owner row = user" "o_name row = name"
    "o_slug row = (if slug0 = [] then generateSlug name else slug0)" "ValidateOrgSlug (o_slug row) = None"
    "CheckNameAvailable db (o_slug row) = None" "map_of (users db) user \<noteq> None"
    "\<not> list_ex (\<lambda>r. o_slug (snd r) = o_slug row) (orgs db)" "role_of db org user = None"
    "db' = set_role org user ''owner'' (db\<lparr>orgs := AList.update org row (orgs db), next_org := next_org db + 1\<rparr>)"
proof -
  let ?slug = "if slug0 = [] then generateSlug name else slug0"
  let ?row = "\<lparr>o_name = name, o_slug = ?slug, o_owner = user, o_description = [],
     o_website = [], o_location = [], o_visibility = ''public''\<rparr>"
  have g: "ValidateOrgSlug ?slug = None" "CheckNameAvailable db ?slug = None"
    using assms by (auto simp: CreateOrganization_def Let_def split: if_splits)
  then obtain db1 where d: "insert_org ?row db = Some db1"
      "insert_member (next_org db) user ''owner'' db1 = Some db'" "org = next_org db"
    using assms by (simp add: CreateOrganization_def Let_def split: option.splits)
  show ?thesis
    using d g unfolding insert_org_Some insert_member_Some by (intro that [of ?row]) auto
qed

section \<open>Every operation keeps it\<close>

lemma inv_create:
  assumes "org_inv db" and "CreateOrganization user name slug0 db = Inr (org, db')"
  shows "org_inv db'"
  using assms(2)
proof (rule CreateOrganization_Inr)
  fix row
  assume org: "org = next_org db" and row: "o_owner row = user" "ValidateOrgSlug (o_slug row) = None"
    "\<not> list_ex (\<lambda>r. o_slug (snd r) = o_slug row) (orgs db)"
    and user: "map_of (users db) user \<noteq> None"
    and db': "db' = set_role org user ''owner'' (db\<lparr>orgs := AList.update org row (orgs db), next_org := next_org db + 1\<rparr>)"
  have at: "org_at db' o1 = (if o1 = org then Some row else org_at db o1)" for o1
    using db' by (simp add: assoc_list.get_put)
  have role: "role_of db' o1 u = (if o1 = org \<and> u = user then Some ''owner'' else role_of db o1 u)" for o1 u
    using db' by simp
  have fresh: "o1 \<noteq> org" if "org_at db o1 = Some r" for o1 r
    using org_inv_org(1) [OF assms(1) that] org by auto
  have no_role: "role_of db org u = None" for u
    using fresh org_inv_role [OF assms(1)] by (metis option.exhaust)
  show "org_inv db'"
  proof (rule org_invI)
    fix o1 r assume "org_at db' o1 = Some r"
    then show "o1 < next_org db' \<and> ValidateOrgSlug (o_slug r) = None \<and> role_of db' o1 (o_owner r) = Some ''owner''"
      using at role row org db' org_inv_org [OF assms(1), of o1 r] by (auto split: if_splits)
  next
    fix o1 u r assume a: "role_of db' o1 u = Some r"
    show "r \<in> {''owner'', ''admin'', ''member''} \<and> map_of (users db') u \<noteq> None \<and>
        (\<exists>row. org_at db' o1 = Some row \<and> (r = ''owner'' \<longrightarrow> o_owner row = u))"
    proof (cases "o1 = org")
      case True
      then show ?thesis using a role no_role at row user db' by (auto split: if_splits)
    next
      case False
      then have "role_of db o1 u = Some r" using a role by simp
      then obtain row0 where "r \<in> {''owner'', ''admin'', ''member''}" "map_of (users db) u \<noteq> None"
        "org_at db o1 = Some row0" "r = ''owner'' \<Longrightarrow> o_owner row0 = u"
        using org_inv_role [OF assms(1)] by metis
      moreover have "users db' = users db" using db' by simp
      ultimately show ?thesis using at False by auto
    qed
  next
    fix o1 o2 r1 r2
    assume "org_at db' o1 = Some r1" "org_at db' o2 = Some r2" "o_slug r1 = o_slug r2"
    then show "o1 = o2"
      using at slug_unused [OF row(3)] org_inv_slug [OF assms(1)] by (auto split: if_splits)
  qed
qed

text \<open>A change of one role between admin and member, of a fresh member, or of none.\<close>

lemma inv_set_role:
  assumes "org_inv db" and "org_at db org \<noteq> None" and "map_of (users db) user \<noteq> None"
    and "role_of db org user \<noteq> Some ''owner''" and "role \<in> {''admin'', ''member''}"
  shows "org_inv (set_role org user role db)"
proof (rule org_invI)
  fix o1 r assume a: "org_at (set_role org user role db) o1 = Some r"
  then have "role_of db o1 (o_owner r) = Some ''owner''" using org_inv_org [OF assms(1)] by simp
  then show "o1 < next_org (set_role org user role db) \<and> ValidateOrgSlug (o_slug r) = None \<and>
      role_of (set_role org user role db) o1 (o_owner r) = Some ''owner''"
    using a org_inv_org [OF assms(1)] assms(4) by auto
next
  fix o1 u r assume a: "role_of (set_role org user role db) o1 u = Some r"
  show "r \<in> {''owner'', ''admin'', ''member''} \<and> map_of (users (set_role org user role db)) u \<noteq> None \<and>
      (\<exists>row. org_at (set_role org user role db) o1 = Some row \<and> (r = ''owner'' \<longrightarrow> o_owner row = u))"
  proof (cases "o1 = org \<and> u = user")
    case True
    then show ?thesis using a assms(2,3,5) by auto
  next
    case False
    then have "role_of db o1 u = Some r" using a by auto
    then show ?thesis using org_inv_role [OF assms(1)] by (metis set_role_other(1,2))
  qed
next
  show "o1 = o2" if "org_at (set_role org user role db) o1 = Some r1" "org_at (set_role org user role db) o2 = Some r2"
    "o_slug r1 = o_slug r2" for o1 o2 r1 r2
    using that org_inv_slug [OF assms(1)] by simp
qed

lemma AddMember_Inr:
  "AddMemberByUserID org user role0 db = Inr db' \<longleftrightarrow>
     org_at db org \<noteq> None \<and> map_of (users db) user \<noteq> None \<and> role_of db org user = None \<and>
     db' = set_role org user (if role0 = ''admin'' then ''admin'' else ''member'') db"
  by (auto simp: AddMemberByUserID_def insert_member_def Let_def)

lemma inv_add: "org_inv db \<Longrightarrow> AddMemberByUserID org user role0 db = Inr db' \<Longrightarrow> org_inv db'"
  unfolding AddMember_Inr by (auto intro: inv_set_role)

lemma inv_add_email: "org_inv db \<Longrightarrow> AddMemberByEmail org email role0 db = Inr db' \<Longrightarrow> org_inv db'"
  using inv_add by (auto simp: AddMemberByEmail_def split: option.splits sum.splits)

lemma ChangeMemberRole_Inr:
  "ChangeMemberRole org user role db = Inr db' \<longleftrightarrow>
     role \<in> {''member'', ''admin''} \<and> (\<exists>r. role_of db org user = Some r \<and> r \<noteq> ''owner'') \<and>
     db' = set_role org user role db"
  by (auto simp: ChangeMemberRole_def update_role_def split: option.splits)

lemma inv_change:
  assumes "org_inv db" and "ChangeMemberRole org user role db = Inr db'"
  shows "org_inv db'"
proof -
  obtain r where r: "role_of db org user = Some r" "r \<noteq> ''owner''" "role \<in> {''member'', ''admin''}"
    and db': "db' = set_role org user role db"
    using assms(2) unfolding ChangeMemberRole_Inr by blast
  obtain row where "map_of (users db) user \<noteq> None" "org_at db org = Some row"
    using org_inv_role [OF assms(1) r(1)] by metis
  then show ?thesis unfolding db' using r by (intro inv_set_role [OF assms(1)]) auto
qed

lemma RemoveMember_Inr:
  "RemoveMember org user db = Inr db' \<longleftrightarrow>
     (\<exists>r. role_of db org user = Some r \<and> r \<noteq> ''owner'') \<and>
     db' = db\<lparr>members := AList.delete (org, user) (members db)\<rparr>"
  by (auto simp: RemoveMember_def split: option.splits)

lemma inv_remove:
  assumes "org_inv db" and "RemoveMember org user db = Inr db'"
  shows "org_inv db'"
proof -
  obtain r0 where r0: "role_of db org user = Some r0" "r0 \<noteq> ''owner''"
    and db': "db' = db\<lparr>members := AList.delete (org, user) (members db)\<rparr>"
    using assms(2) unfolding RemoveMember_Inr by blast
  have role: "role_of db' o1 u = (if o1 = org \<and> u = user then None else role_of db o1 u)" for o1 u
    using db' by (simp add: assoc_list.get_del)
  have same: "users db' = users db" "orgs db' = orgs db" "next_org db' = next_org db" using db' by simp_all
  show ?thesis
  proof (rule org_invI, unfold same)
    fix o1 r assume a: "org_at db o1 = Some r"
    show "o1 < next_org db \<and> ValidateOrgSlug (o_slug r) = None \<and> role_of db' o1 (o_owner r) = Some ''owner''"
      using org_inv_org [OF assms(1) a] r0 role by auto
  next
    fix o1 u r assume "role_of db' o1 u = Some r"
    then have "role_of db o1 u = Some r" using role by (auto split: if_splits)
    then show "r \<in> {''owner'', ''admin'', ''member''} \<and> map_of (users db) u \<noteq> None \<and>
        (\<exists>row. org_at db o1 = Some row \<and> (r = ''owner'' \<longrightarrow> o_owner row = u))"
      using org_inv_role [OF assms(1)] by metis
  qed (rule org_inv_slug [OF assms(1)])
qed

lemma DeleteOrganization_Inr:
  assumes "DeleteOrganization org db = Inr db'"
  shows "org_at db org \<noteq> None" and "org_at db' o1 = (if o1 = org then None else org_at db o1)"
    and "role_of db' o1 u = (if o1 = org then None else role_of db o1 u)"
    and "users db' = users db" and "next_org db' = next_org db"
  using assms map_of_filter_fst [of "\<lambda>k. fst k \<noteq> org" "members db" "(o1, u)"]
  by (auto simp: DeleteOrganization_def assoc_list.get_del split: if_splits)

lemma inv_delete:
  assumes "org_inv db" and "DeleteOrganization org db = Inr db'"
  shows "org_inv db'"
proof (rule org_invI)
  note del = DeleteOrganization_Inr [OF assms(2)]
  show "o1 < next_org db' \<and> ValidateOrgSlug (o_slug r) = None \<and> role_of db' o1 (o_owner r) = Some ''owner''"
    if "org_at db' o1 = Some r" for o1 r
    using that del org_inv_org [OF assms(1), of o1 r] by (auto split: if_splits)
  show "r \<in> {''owner'', ''admin'', ''member''} \<and> map_of (users db') u \<noteq> None \<and>
      (\<exists>row. org_at db' o1 = Some row \<and> (r = ''owner'' \<longrightarrow> o_owner row = u))"
    if "role_of db' o1 u = Some r" for o1 u r
  proof -
    have "o1 \<noteq> org" "role_of db o1 u = Some r" using that del(3) by (auto split: if_splits)
    then show ?thesis using org_inv_role [OF assms(1)] del(2,4) by metis
  qed
  show "o1 = o2" if "org_at db' o1 = Some r1" "org_at db' o2 = Some r2" "o_slug r1 = o_slug r2" for o1 o2 r1 r2
    using that del(2) org_inv_slug [OF assms(1)] by (auto split: if_splits)
qed

lemma UpdateOrganization_Inr:
  assumes "UpdateOrganization org inp db = Inr db'"
  obtains row row' where "org_at db org = Some row" "o_owner row' = o_owner row" "o_slug row' = o_slug row"
    "db' = db\<lparr>orgs := AList.update org row' (orgs db)\<rparr>"
proof -
  obtain row where row: "org_at db org = Some row"
    using assms by (auto simp: UpdateOrganization_def Let_def split: if_splits option.splits)
  let ?row = "row\<lparr>o_name := TrimSpace (p_name inp), o_description := TrimSpace (p_description inp),
    o_website := TrimSpace (p_website inp), o_location := TrimSpace (p_location inp),
    o_visibility := NormalizeOrgVisibility (p_visibility inp)\<rparr>"
  have "db' = db\<lparr>orgs := AList.update org ?row (orgs db)\<rparr>"
    using assms row by (simp add: UpdateOrganization_def Let_def split: if_splits)
  then show ?thesis by (intro that [OF row, of ?row]) simp_all
qed

lemma inv_update_org:
  assumes "org_inv db" and "org_at db org = Some row" and "o_slug row' = o_slug row"
    and "role_of db org (o_owner row') = Some ''owner''"
  shows "org_inv (db\<lparr>orgs := AList.update org row' (orgs db)\<rparr>)"
proof (rule org_invI)
  let ?db = "db\<lparr>orgs := AList.update org row' (orgs db)\<rparr>"
  have at: "org_at ?db o1 = (if o1 = org then Some row' else org_at db o1)" for o1
    by (simp add: assoc_list.get_put)
  have owner: "o_owner row' = o_owner row"
    using org_inv_role [OF assms(1,4)] assms(2) by (metis option.inject)
  show "o1 < next_org ?db \<and> ValidateOrgSlug (o_slug r) = None \<and> role_of ?db o1 (o_owner r) = Some ''owner''"
    if "org_at ?db o1 = Some r" for o1 r
    using that at assms(2,3,4) org_inv_org [OF assms(1), of o1] by (auto split: if_splits)
  show "r \<in> {''owner'', ''admin'', ''member''} \<and> map_of (users ?db) u \<noteq> None \<and>
      (\<exists>row. org_at ?db o1 = Some row \<and> (r = ''owner'' \<longrightarrow> o_owner row = u))"
    if "role_of ?db o1 u = Some r" for o1 u r
  proof -
    have "role_of db o1 u = Some r" using that by simp
    then obtain row0 where "r \<in> {''owner'', ''admin'', ''member''}" "map_of (users db) u \<noteq> None"
        "org_at db o1 = Some row0" "r = ''owner'' \<Longrightarrow> o_owner row0 = u"
      using org_inv_role [OF assms(1)] by metis
    then show ?thesis using at owner assms(2) by (auto split: if_splits)
  qed
  show "o1 = o2" if "org_at ?db o1 = Some r1" "org_at ?db o2 = Some r2" "o_slug r1 = o_slug r2" for o1 o2 r1 r2
    using that at assms(2,3) org_inv_slug [OF assms(1)] by (auto split: if_splits)
qed

lemma TransferOwnership_Inr:
  assumes "TransferOwnership org cur new db = Inr db'"
  obtains row where "org_at db org = Some row" "o_owner row = cur" "role_of db org new \<noteq> None"
    "\<And>o1. org_at db' o1 = (if o1 = org then Some (row\<lparr>o_owner := new\<rparr>) else org_at db o1)"
    "\<And>o1 u. role_of db' o1 u =
       (if o1 \<noteq> org then role_of db o1 u
        else if u = new then Some ''owner''
        else if u = cur \<and> role_of db org cur \<noteq> None then Some ''admin''
        else role_of db o1 u)"
    "users db' = users db" "next_org db' = next_org db"
proof -
  obtain row where row: "org_at db org = Some row" "o_owner row = cur" "role_of db org new \<noteq> None"
    using assms by (auto simp: TransferOwnership_def split: option.splits if_splits)
  define db2 where "db2 = update_role org new ''owner'' (update_role org cur ''admin'' db)"
  have db': "db' = db2\<lparr>orgs := AList.update org (row\<lparr>o_owner := new\<rparr>) (orgs db2)\<rparr>"
    using assms row by (simp add: TransferOwnership_def db2_def Let_def split: if_splits)
  have role: "role_of db2 o1 u =
       (if o1 \<noteq> org then role_of db o1 u
        else if u = new then Some ''owner''
        else if u = cur \<and> role_of db org cur \<noteq> None then Some ''admin''
        else role_of db o1 u)" for o1 u
    using row(3) by (auto simp: db2_def)
  have other: "orgs db2 = orgs db" "users db2 = users db" "next_org db2 = next_org db" by (simp_all add: db2_def)
  show ?thesis
    by (rule that [OF row]) (simp_all add: db' other role assoc_list.get_put)
qed

lemma inv_transfer:
  assumes "org_inv db" and "TransferOwnership org cur new db = Inr db'"
  shows "org_inv db'"
  using assms(2)
proof (rule TransferOwnership_Inr)
  fix row
  assume row: "org_at db org = Some row" "o_owner row = cur" "role_of db org new \<noteq> None"
    and at: "\<And>o1. org_at db' o1 = (if o1 = org then Some (row\<lparr>o_owner := new\<rparr>) else org_at db o1)"
    and role: "\<And>o1 u. role_of db' o1 u =
       (if o1 \<noteq> org then role_of db o1 u
        else if u = new then Some ''owner''
        else if u = cur \<and> role_of db org cur \<noteq> None then Some ''admin''
        else role_of db o1 u)"
    and same: "users db' = users db" "next_org db' = next_org db"
  have D: "r \<in> {''owner'', ''admin'', ''member''} \<and> map_of (users db) u \<noteq> None \<and>
      (\<exists>row. org_at db o1 = Some row \<and> (r = ''owner'' \<longrightarrow> o_owner row = u))" if "role_of db o1 u = Some r" for o1 u r
    using that assms(1) unfolding org_inv_def by blast
  show "org_inv db'"
  proof (rule org_invI, unfold same)
    fix o1 r assume "org_at db' o1 = Some r"
    then show "o1 < next_org db \<and> ValidateOrgSlug (o_slug r) = None \<and> role_of db' o1 (o_owner r) = Some ''owner''"
      using at role row org_inv_org [OF assms(1)] by (cases "o1 = org") auto
  next
    fix o1 u r assume a: "role_of db' o1 u = Some r"
    show "r \<in> {''owner'', ''admin'', ''member''} \<and> map_of (users db) u \<noteq> None \<and>
        (\<exists>row. org_at db' o1 = Some row \<and> (r = ''owner'' \<longrightarrow> o_owner row = u))"
    proof (cases "o1 = org")
      case False
      then show ?thesis using a role at D by simp
    next
      case True
      obtain r0 where r0: "role_of db org u = Some r0" "u \<noteq> new \<and> u \<noteq> cur \<Longrightarrow> r = r0"
        "u = new \<Longrightarrow> r = ''owner''" "u \<noteq> new \<and> u = cur \<Longrightarrow> r = ''admin''"
        using a role True row(3) org_inv_org(3) [OF assms(1) row(1)] row(2)
        by (cases "role_of db org u") (auto split: if_splits)
      have "r \<noteq> ''owner'' \<or> u = new" using r0 D [OF r0(1)] row(1,2) by (cases "u = cur") auto
      then show ?thesis using D [OF r0(1)] r0 at True by (cases "u = new"; cases "u = cur") auto
    qed
  next
    show "o1 = o2" if "org_at db' o1 = Some r1" "org_at db' o2 = Some r2" "o_slug r1 = o_slug r2" for o1 o2 r1 r2
      using that at row(1) org_inv_slug [OF assms(1)] by (auto split: if_splits)
  qed
qed

section \<open>Any sequence of requests\<close>

inductive org_step :: "org_db \<Rightarrow> org_db \<Rightarrow> bool" where
  "CreateOrganization user name slug db = Inr (org, db') \<Longrightarrow> org_step db db'"
| "UpdateOrganization org inp db = Inr db' \<Longrightarrow> org_step db db'"
| "DeleteOrganization org db = Inr db' \<Longrightarrow> org_step db db'"
| "TransferOwnership org cur new db = Inr db' \<Longrightarrow> org_step db db'"
| "RemoveMember org user db = Inr db' \<Longrightarrow> org_step db db'"
| "ChangeMemberRole org user role db = Inr db' \<Longrightarrow> org_step db db'"
| "AddMemberByUserID org user role db = Inr db' \<Longrightarrow> org_step db db'"
| "AddMemberByEmail org email role db = Inr db' \<Longrightarrow> org_step db db'"
| "map_of (users db) i = None \<Longrightarrow> org_step db (db\<lparr>users := (i, account) # users db\<rparr>)"

inductive_cases org_stepE: "org_step db db'"

abbreviation no_orgs :: org_db where
  "no_orgs \<equiv> \<lparr>users = [], orgs = [], members = [], next_org = 1\<rparr>"

abbreviation org_reachable :: "org_db \<Rightarrow> bool" where
  "org_reachable \<equiv> org_step\<^sup>*\<^sup>* no_orgs"

lemma inv_new_user: "org_inv db \<Longrightarrow> org_inv (db\<lparr>users := (i, account) # users db\<rparr>)"
proof (rule org_invI)
  fix o1 u r assume "org_inv db" "role_of (db\<lparr>users := (i, account) # users db\<rparr>) o1 u = Some r"
  then show "r \<in> {''owner'', ''admin'', ''member''} \<and> map_of (users (db\<lparr>users := (i, account) # users db\<rparr>)) u \<noteq> None \<and>
      (\<exists>row. org_at (db\<lparr>users := (i, account) # users db\<rparr>) o1 = Some row \<and> (r = ''owner'' \<longrightarrow> o_owner row = u))"
    using org_inv_role [of db o1 u r] by (cases "u = i") (simp, metis)+
qed (auto dest: org_inv_org org_inv_slug)

lemma inv_update: "org_inv db \<Longrightarrow> UpdateOrganization org inp db = Inr db' \<Longrightarrow> org_inv db'"
  using inv_update_org org_inv_org(3) by (metis UpdateOrganization_Inr)

lemma inv_step: "org_step db db' \<Longrightarrow> org_inv db \<Longrightarrow> org_inv db'"
  by (erule org_stepE)
    (auto intro: inv_create inv_update inv_delete inv_transfer inv_remove inv_change inv_add inv_add_email inv_new_user)

lemma reachable_inv: "org_reachable db \<Longrightarrow> org_inv db"
proof (induction rule: rtranclp_induct)
  case base
  show ?case by (simp add: org_inv_def)
qed (rule inv_step)

section \<open>Properties\<close>

text \<open>
  C12 (org_has_one_owner). After any requests, the owner of an organisation is its one member with the role
  owner; every other member is an admin or a plain member; and no two organisations have the
  same slug, which is a valid one.
\<close>

theorem org_has_one_owner:
  assumes "org_reachable db" and "org_at db org = Some row"
  shows "(\<forall>u. role_of db org u = Some ''owner'' \<longleftrightarrow> u = o_owner row) \<and>
    (\<forall>u r. role_of db org u = Some r \<longrightarrow> r \<in> {''owner'', ''admin'', ''member''}) \<and>
    ValidateOrgSlug (o_slug row) = None \<and>
    (\<forall>org2 row2. org_at db org2 = Some row2 \<longrightarrow> o_slug row2 = o_slug row \<longrightarrow> org2 = org)"
proof -
  have inv: "org_inv db" using assms(1) by (rule reachable_inv)
  have "u = o_owner row" if "role_of db org u = Some ''owner''" for u
    using org_inv_role [OF inv that] assms(2) by (metis option.inject)
  moreover have "r \<in> {''owner'', ''admin'', ''member''}" if "role_of db org u = Some r" for u r
    using org_inv_role [OF inv that] by metis
  ultimately show ?thesis
    using org_inv_org [OF inv assms(2)] org_inv_slug [OF inv _ assms(2)] by blast
qed

abbreviation two_users :: org_db where
  "two_users \<equiv> \<lparr>users = [(2, ''bob'', ''b@x.io''), (1, ''amy'', ''a@x.io'')], orgs = [], members = [], next_org = 1\<rparr>"

lemma two_users_reachable: "org_reachable two_users"
proof -
  have "org_step no_orgs (no_orgs\<lparr>users := (1, ''amy'', ''a@x.io'') # users no_orgs\<rparr>)" by (rule org_step.intros(9)) simp
  moreover have "org_step (no_orgs\<lparr>users := [(1, ''amy'', ''a@x.io'')]\<rparr>) two_users"
    using org_step.intros(9) [of "no_orgs\<lparr>users := [(1, ''amy'', ''a@x.io'')]\<rparr>" 2 "(''bob'', ''b@x.io'')"] by simp
  ultimately show ?thesis by simp
qed

definition amys_org :: org_row where
  "amys_org = \<lparr>o_name = ''The Acme'', o_slug = ''acme'', o_owner = 1, o_description = [], o_website = [],
     o_location = [], o_visibility = ''public''\<rparr>"

lemma acme_plain: "ToLower ''acme'' = ''acme''" "TrimSpace ''acme'' = ''acme''"
  by (simp_all add: eval_simps)

lemma acme_valid: "ValidateOrgSlug ''acme'' = None" "blocked_name ''acme'' = None"
  by (simp_all add: ValidateOrgSlug_def orgSlugRegex_def blocked_name_None UsernameBlocklist_def acme_plain eval_simps)

lemma sample_org:
  "CreateOrganization 1 ''The Acme'' ''acme'' two_users =
     Inr (1, two_users\<lparr>orgs := [(1, amys_org)], members := [((1, 1), ''owner'')], next_org := 2\<rparr>)"
  by (simp add: CreateOrganization_def acme_valid CheckNameAvailable_def acme_plain insert_org_def
      insert_member_def set_role_def amys_org_def)

theorem org_has_one_owner_witness:
  "\<exists>db. org_reachable db \<and> org_at db 1 = Some amys_org \<and> (\<forall>u. role_of db 1 u = Some ''owner'' \<longleftrightarrow> u = 1)"
proof -
  let ?db = "two_users\<lparr>orgs := [(1, amys_org)], members := [((1, 1), ''owner'')], next_org := 2\<rparr>"
  have r: "org_reachable ?db"
    using two_users_reachable org_step.intros(1) [OF sample_org] by (rule rtranclp.rtrancl_into_rtrancl)
  have a: "org_at ?db 1 = Some amys_org" by simp
  have "\<forall>u. role_of ?db 1 u = Some ''owner'' \<longleftrightarrow> u = 1"
    using conjunct1 [OF org_has_one_owner [OF r a]] unfolding amys_org_def org_row.simps .
  then show ?thesis using r a by blast
qed

text \<open>
  A transfer succeeds exactly when the caller is the owner and the
  new owner a member. Then the new owner is the owner, the old one an admin, all other members
  and organisations are as they were.
\<close>

theorem transfer_of_ownership:
  assumes "org_reachable db" and "org_at db org = Some row"
  shows "((\<exists>db'. TransferOwnership org cur new db = Inr db') \<longleftrightarrow> cur = o_owner row \<and> role_of db org new \<noteq> None) \<and>
    (\<forall>db'. TransferOwnership org cur new db = Inr db' \<longrightarrow>
      org_at db' org = Some (row\<lparr>o_owner := new\<rparr>) \<and> role_of db' org new = Some ''owner'' \<and>
      (cur \<noteq> new \<longrightarrow> role_of db' org cur = Some ''admin'') \<and>
      (\<forall>u. u \<noteq> cur \<longrightarrow> u \<noteq> new \<longrightarrow> role_of db' org u = role_of db org u) \<and>
      (\<forall>org2 u. org2 \<noteq> org \<longrightarrow> org_at db' org2 = org_at db org2 \<and> role_of db' org2 u = role_of db org2 u))"
proof (intro conjI allI impI)
  show "(\<exists>db'. TransferOwnership org cur new db = Inr db') \<longleftrightarrow> cur = o_owner row \<and> role_of db org new \<noteq> None"
    using assms(2) by (auto simp: TransferOwnership_def Let_def)
next
  fix db' assume t: "TransferOwnership org cur new db = Inr db'"
  have own: "role_of db org (o_owner row) = Some ''owner''"
    using org_inv_org(3) [OF reachable_inv [OF assms(1)] assms(2)] .
  show "org_at db' org = Some (row\<lparr>o_owner := new\<rparr>)" "role_of db' org new = Some ''owner''"
    "cur \<noteq> new \<Longrightarrow> role_of db' org cur = Some ''admin''"
    "\<And>u. u \<noteq> cur \<Longrightarrow> u \<noteq> new \<Longrightarrow> role_of db' org u = role_of db org u"
    "\<And>org2 u. org2 \<noteq> org \<Longrightarrow> org_at db' org2 = org_at db org2"
    "\<And>org2 u. org2 \<noteq> org \<Longrightarrow> role_of db' org2 u = role_of db org2 u"
    by (rule TransferOwnership_Inr [OF t]; use assms(2) own in simp)+
qed

theorem transfer_of_ownership_witness:
  "\<exists>db db'. org_reachable db \<and> TransferOwnership 1 1 2 db = Inr db' \<and>
     role_of db' 1 2 = Some ''owner'' \<and> role_of db' 1 1 = Some ''admin''"
proof -
  let ?db = "two_users\<lparr>orgs := [(1, amys_org)], members := [((1, 1), ''owner'')], next_org := 2\<rparr>"
  have r: "org_reachable ?db"
    using two_users_reachable org_step.intros(1) [OF sample_org] by (rule rtranclp.rtrancl_into_rtrancl)
  have add: "AddMemberByUserID 1 2 ''member'' ?db = Inr (set_role 1 2 ''member'' ?db)"
    unfolding AddMember_Inr by simp
  let ?db2 = "set_role 1 2 ''member'' ?db"
  have r2: "org_reachable ?db2"
    using r org_step.intros(7) [OF add] by (rule rtranclp.rtrancl_into_rtrancl)
  have a: "org_at ?db2 1 = Some amys_org" by simp
  have "role_of ?db2 1 2 \<noteq> None" "o_owner amys_org = 1" by (simp_all add: amys_org_def)
  then obtain db' where t: "TransferOwnership 1 1 2 ?db2 = Inr db'"
    using conjunct1 [OF transfer_of_ownership [OF r2 a, of 1 2]] by metis
  have "(1::int) \<noteq> 2" by simp
  then have "role_of db' 1 2 = Some ''owner'' \<and> role_of db' 1 1 = Some ''admin''"
    using conjunct2 [OF transfer_of_ownership [OF r2 a, of 1 2]] t by blast
  then show ?thesis using r2 t by blast
qed

text \<open>
  The check of a slug looks at its lower-case trimmed form, but the slug is stored as it
  was sent. So once an organisation has a slug with capitals or blanks around it, another one
  can still take the same slug in its canonical form: the two share one name.
\<close>

theorem slug_taken_in_another_spelling:
  assumes "org_reachable db" and "map_of (users db) i \<noteq> None"
    and "ValidateOrgSlug s = None" and "CheckNameAvailable db s = None"
    and "\<not> list_ex (\<lambda>r. o_slug (snd r) = s) (orgs db)" and "ToLower (TrimSpace s) \<noteq> s"
  shows "\<exists>org1 db1 org2 db2. CreateOrganization i name s db = Inr (org1, db1) \<and>
    CreateOrganization i name2 (ToLower (TrimSpace s)) db1 = Inr (org2, db2) \<and> org1 \<noteq> org2"
proof -
  let ?c = "ToLower (TrimSpace s)"
  have can: "canonical_slug ?c" using assms(3) by (simp add: ValidateOrgSlug_None_iff)
  then have plain: "TrimSpace ?c = ?c" "?c \<noteq> []" "ValidateOrgSlug ?c = None"
    using slug_text_plain [of ?c] canonical_slug_valid by (auto simp: canonical_slug_def orgSlugRegex_def)
  then have s: "s \<noteq> []" by (auto simp: TrimSpace_def strip_def ToLower_def)
  have no_role: "role_of db o1 u = None" if "next_org db \<le> o1" for o1 u
    using org_inv_role [OF reachable_inv [OF assms(1)]] org_inv_org(1) [OF reachable_inv [OF assms(1)]] that
    by (metis not_le option.exhaust)
  let ?row = "\<lambda>n t. \<lparr>o_name = n, o_slug = t, o_owner = i, o_description = [], o_website = [], o_location = [],
    o_visibility = ''public''\<rparr>"
  let ?db1 = "set_role (next_org db) i ''owner''
    (db\<lparr>orgs := AList.update (next_org db) (?row name s) (orgs db), next_org := next_org db + 1\<rparr>)"
  have one: "CreateOrganization i name s db = Inr (next_org db, ?db1)"
    using s assms(2-5) no_role [of "next_org db" i]
    by (auto simp: CreateOrganization_def insert_org_def insert_member_def assoc_list.get_put)
  have sub: "set (AList.update k v xs) \<subseteq> insert (k, v) (set xs)" for k :: int and v :: org_row and xs
    by (induction xs) auto
  have avail: "CheckNameAvailable ?db1 ?c = None"
    using assms(4,6) plain sub [of "next_org db" "?row name s" "orgs db"]
    by (fastforce simp: CheckNameAvailable_def list_ex_iff Let_def split: if_splits)
  then have unused: "\<not> list_ex (\<lambda>r. o_slug (snd r) = ?c) (orgs ?db1)"
    using plain by (auto simp: CheckNameAvailable_def Let_def split: if_splits)
  have "\<exists>db2. CreateOrganization i name2 ?c ?db1 = Inr (next_org db + 1, db2)"
    using avail unused plain(2,3) assms(2) no_role [of "next_org db + 1" i]
    by (auto simp: CreateOrganization_def insert_org_def insert_member_def assoc_list.get_put)
  then show ?thesis using one by (metis add.right_neutral add_left_cancel one_neq_zero)
qed

theorem slug_taken_in_another_spelling_witness:
  "\<exists>org1 db1 org2 db2. CreateOrganization 1 ''A'' '' acme'' two_users = Inr (org1, db1) \<and>
     CreateOrganization 1 ''B'' ''acme'' db1 = Inr (org2, db2) \<and> org1 \<noteq> org2"
proof -
  have c: "ToLower (TrimSpace '' acme'') = ''acme''" by (simp add: eval_simps)
  have v: "ValidateOrgSlug '' acme'' = None"
    using acme_valid(1) unfolding ValidateOrgSlug_None_iff c acme_plain .
  have n: "CheckNameAvailable two_users '' acme'' = None"
    by (simp add: CheckNameAvailable_def c acme_valid)
  show ?thesis
    using slug_taken_in_another_spelling [OF two_users_reachable _ v n, of 1 "''A''" "''B''"] unfolding c by simp
qed

end
