(* ===== verification/InviteUse.thy ===== *)
theory InviteUse
  imports Invites OrgOwnership
begin

text \<open>
  Invites under requests that interleave: a consumption loads and checks the invite, and counts
  its use in a second statement. No order of requests uses an invite more often than it allows;
  but what is done on the strength of the first check alone, as the creation of an organisation
  is, can be done more often.
\<close>

section \<open>Steps\<close>

text \<open>
  The table, the consumptions that wait for their second statement by client (with the hash, the
  second and the user they read), and the ids of the invites used, latest first.
\<close>

record invite_state =
  in_db :: invite_db
  pending :: "nat \<Rightarrow> (string \<times> int \<times> int) option"
  uses :: "int list"

definition hash_id :: "string \<Rightarrow> invite_db \<Rightarrow> int" where
  "hash_id h db = (case getByHash h db of Some (i, r) \<Rightarrow> i | None \<Rightarrow> 0)"

inductive invite_step :: "(string \<Rightarrow> string) \<Rightarrow> invite_state \<Rightarrow> invite_state \<Rightarrow> bool" for hash where
  issued: "CreateInvite hash buf now' p (in_db s) = Inr (t, db') \<Longrightarrow> invite_step hash s (s\<lparr>in_db := db'\<rparr>)"
| loaded: "ValidateInvite hash now' t kind (in_db s) = Inr iv \<Longrightarrow> pending s c = None \<Longrightarrow>
    invite_step hash s (s\<lparr>pending := (pending s)(c \<mapsto> (hash t, now' div a_second, user))\<rparr>)"
| counted_use: "pending s c = Some (h, sec, user) \<Longrightarrow> consume_update sec h user (in_db s) = (True, db') \<Longrightarrow>
    invite_step hash s (s\<lparr>in_db := db', pending := (pending s)(c := None), uses := hash_id h (in_db s) # uses s\<rparr>)"
| refused_use: "pending s c = Some (h, sec, user) \<Longrightarrow> consume_update sec h user (in_db s) = (False, db') \<Longrightarrow>
    invite_step hash s (s\<lparr>in_db := db', pending := (pending s)(c := None)\<rparr>)"
| withdrawn: "invite_step hash s (s\<lparr>in_db := RevokeInvite i (in_db s)\<rparr>)"
| kind_withdrawn: "invite_step hash s (s\<lparr>in_db := RevokeUnusedByKind kind (in_db s)\<rparr>)"
| expired_removed: "invite_step hash s (s\<lparr>in_db := CleanupExpired now' (in_db s)\<rparr>)"

definition no_invites :: invite_state where
  "no_invites = \<lparr>in_db = \<lparr>invite_rows = [], next_invite = 1\<rparr>, pending = (\<lambda>_. None), uses = []\<rparr>"

inductive invite_reachable :: "(string \<Rightarrow> string) \<Rightarrow> invite_state \<Rightarrow> bool" for hash where
  invites_start: "invite_reachable hash no_invites"
| invites_next: "invite_reachable hash s \<Longrightarrow> invite_step hash s s' \<Longrightarrow> invite_reachable hash s'"

section \<open>The invariant\<close>

definition row_ok :: "int list \<Rightarrow> int \<times> invite_row \<Rightarrow> bool" where
  "row_ok us x \<longleftrightarrow> use_count (snd x) = int (count_list us (fst x)) \<and> 0 \<le> max_uses (snd x) \<and>
     (max_uses (snd x) = 0 \<or> use_count (snd x) \<le> max_uses (snd x))"

definition invite_inv :: "invite_state \<Rightarrow> bool" where
  "invite_inv s \<longleftrightarrow> distinct (map (\<lambda>x. inv_hash (snd x)) (invite_rows (in_db s))) \<and>
     distinct (map fst (invite_rows (in_db s))) \<and>
     (\<forall>x \<in> set (invite_rows (in_db s)). fst x < next_invite (in_db s) \<and> row_ok (uses s) x) \<and>
     (\<forall>i \<in> set (uses s). i < next_invite (in_db s))"

text \<open>Changes of rows that keep id, hash and count.\<close>

lemma invite_inv_map:
  assumes "invite_inv s" and "db' = (in_db s)\<lparr>invite_rows := map (\<lambda>(j, r). (j, f j r)) (invite_rows (in_db s))\<rparr>"
    and "\<And>j r. inv_hash (f j r) = inv_hash r \<and> max_uses (f j r) = max_uses r \<and> use_count (f j r) = use_count r"
  shows "invite_inv (s\<lparr>in_db := db'\<rparr>)"
proof -
  have 1: "map (\<lambda>x. inv_hash (snd x)) (invite_rows db') = map (\<lambda>x. inv_hash (snd x)) (invite_rows (in_db s))"
    "map fst (invite_rows db') = map fst (invite_rows (in_db s))"
    using assms(3) by (auto simp: assms(2))
  have "fst x < next_invite db' \<and> row_ok (uses s) x" if "x \<in> set (invite_rows db')" for x
    using that assms(1,3) unfolding assms(2) invite_inv_def row_ok_def by fastforce
  moreover have "next_invite db' = next_invite (in_db s)" by (simp add: assms(2))
  ultimately show ?thesis using assms(1) 1 unfolding invite_inv_def by simp
qed

lemma invite_inv_filter:
  assumes "invite_inv s" and "db' = (in_db s)\<lparr>invite_rows := filter P (invite_rows (in_db s))\<rparr>"
  shows "invite_inv (s\<lparr>in_db := db'\<rparr>)"
  using assms(1) unfolding assms(2) invite_inv_def by (auto simp: distinct_map_filter)

lemma invite_inv_pending: "invite_inv (s\<lparr>pending := q\<rparr>) = invite_inv s"
  by (simp add: invite_inv_def)

lemma CreateInvite_Inr:
  assumes "CreateInvite hash buf now' p db = Inr (t, db')"
  obtains row where "invite_rows db' = invite_rows db @ [(next_invite db, row)]" "next_invite db' = next_invite db + 1"
    "inv_hash row = hash t" "\<forall>x \<in> set (invite_rows db). inv_hash (snd x) \<noteq> hash t" "use_count row = 0" "0 \<le> max_uses row"
  using assms by (auto simp: CreateInvite_def Let_def list_ex_iff split: if_splits)

lemma getByHash_Some: "getByHash h db = Some x \<Longrightarrow> x \<in> set (invite_rows db) \<and> inv_hash (snd x) = h"
  by (auto simp: getByHash_def find_Some_iff)

lemma getByHash_row:
  assumes "distinct (map (\<lambda>x. inv_hash (snd x)) (invite_rows db))" and "(i, r) \<in> set (invite_rows db)"
  shows "getByHash (inv_hash r) db = Some (i, r)"
proof -
  obtain x where x: "getByHash (inv_hash r) db = Some x"
    using assms(2) unfolding getByHash_def by (cases "List.find (\<lambda>x. inv_hash (snd x) = inv_hash r) (invite_rows db)")
      (auto simp: find_None_iff)
  then have "x = (i, r)" using getByHash_Some [OF x] assms by (metis (mono_tags, lifting) distinct_map inj_onD snd_conv)
  then show ?thesis using x by simp
qed

lemma count_use_inv:
  assumes "invite_inv s" and "consume_update sec h user (in_db s) = (True, db')"
  shows "invite_inv (s\<lparr>in_db := db', pending := q, uses := hash_id h (in_db s) # uses s\<rparr>)"
proof -
  let ?rows = "invite_rows (in_db s)" and ?id = "hash_id h (in_db s)"
  let ?f = "\<lambda>(i, r). (i, if takes_use sec h r then count_use sec user r else r)"
  have db': "db' = (in_db s)\<lparr>invite_rows := map ?f ?rows\<rparr>" and "list_ex (\<lambda>r. takes_use sec h (snd r)) ?rows"
    using assms(2) by (simp_all add: consume_update_def)
  then obtain x where x: "x \<in> set ?rows" "takes_use sec h (snd x)" by (auto simp: list_ex_iff)
  have d: "distinct (map (\<lambda>x. inv_hash (snd x)) ?rows)" "distinct (map fst ?rows)" using assms(1) unfolding invite_inv_def by blast+
  have hx: "inv_hash (snd x) = h" using x(2) by (simp add: takes_use_def)
  have "getByHash h (in_db s) = Some x" using getByHash_row [OF d(1), of "fst x" "snd x"] x(1) hx by simp
  then have id: "?id = fst x" by (simp add: hash_id_def split: prod.splits)
  have only: "takes_use sec h (snd y) \<longleftrightarrow> fst y = ?id" if y: "y \<in> set ?rows" for y
  proof
    assume "takes_use sec h (snd y)"
    then have "inv_hash (snd y) = inv_hash (snd x)" using hx by (simp add: takes_use_def)
    then have "y = x" using d(1) x(1) y by (metis (mono_tags, lifting) distinct_map inj_onD)
    then show "fst y = ?id" using id by simp
  next
    assume "fst y = ?id"
    then have "y = x" using d(2) x(1) y id by (metis distinct_map inj_onD)
    then show "takes_use sec h (snd y)" using x(2) by simp
  qed
  have hashes: "map (\<lambda>x. inv_hash (snd x)) (map ?f ?rows) = map (\<lambda>x. inv_hash (snd x)) ?rows" "map fst (map ?f ?rows) = map fst ?rows"
    by (auto simp: count_use_def)
  have "row_ok (?id # uses s) z \<and> fst z < next_invite (in_db s)" if z: "z \<in> set (map ?f ?rows)" for z
  proof -
    from z obtain y where y: "y \<in> set ?rows" "z = ?f y" by auto
    have ok: "row_ok (uses s) y" "fst y < next_invite (in_db s)" using assms(1) y(1) unfolding invite_inv_def by blast+
    show ?thesis
    proof (cases "fst y = ?id")
      case True
      then have t: "takes_use sec h (snd y)" using only [OF y(1)] by simp
      then show ?thesis using ok y(2) True by (cases y) (auto simp: row_ok_def count_use_def takes_use_def)
    next
      case False
      then show ?thesis using ok y(2) only [OF y(1)] by (cases y) (auto simp: row_ok_def)
    qed
  qed
  then have rows: "\<forall>z \<in> set (invite_rows db'). fst z < next_invite (in_db s) \<and> row_ok (?id # uses s) z"
    unfolding db' by simp
  have "distinct (map (\<lambda>x. inv_hash (snd x)) (map ?f ?rows))" "distinct (map fst (map ?f ?rows))"
    using d unfolding hashes by blast+
  then have dist: "distinct (map (\<lambda>x. inv_hash (snd x)) (invite_rows db'))" "distinct (map fst (invite_rows db'))"
    unfolding db' by simp_all
  have ids: "\<forall>i \<in> set (?id # uses s). i < next_invite (in_db s)"
    using assms(1) x(1) id unfolding invite_inv_def by simp
  have "next_invite db' = next_invite (in_db s)" unfolding db' by simp
  then show ?thesis using dist rows ids unfolding invite_inv_def by simp
qed

lemma refused_unchanged: "consume_update sec h user db = (False, db') \<Longrightarrow> db' = db"
  by (cases db) (auto simp: consume_update_def list_ex_iff intro!: map_idI)

lemma invite_step_inv: "invite_step hash s s' \<Longrightarrow> invite_inv s \<Longrightarrow> invite_inv s'"
proof (induction rule: invite_step.induct)
  case (issued buf now' p s t db')
  obtain row where r: "invite_rows db' = invite_rows (in_db s) @ [(next_invite (in_db s), row)]" "next_invite db' = next_invite (in_db s) + 1"
    "inv_hash row = hash t" "\<forall>x \<in> set (invite_rows (in_db s)). inv_hash (snd x) \<noteq> hash t" "use_count row = 0" "0 \<le> max_uses row"
    using CreateInvite_Inr [OF issued(1)] .
  have "next_invite (in_db s) \<notin> set (uses s)" "next_invite (in_db s) \<notin> fst ` set (invite_rows (in_db s))"
    using issued.prems unfolding invite_inv_def by auto
  then have "count_list (uses s) (next_invite (in_db s)) = 0" by (simp add: count_list_0_iff)
  then show ?case using issued.prems r \<open>next_invite (in_db s) \<notin> fst ` set (invite_rows (in_db s))\<close>
    unfolding invite_inv_def by (force simp: row_ok_def)
next
  case (loaded now' t kind s iv c user)
  then show ?case by (simp add: invite_inv_pending)
next
  case (counted_use s c h sec user db')
  then show ?case using count_use_inv by blast
next
  case (refused_use s c h sec user db')
  then show ?case using refused_unchanged [OF refused_use(2)] by (simp add: invite_inv_def)
next
  case (withdrawn s i)
  then show ?case by (rule invite_inv_map [where f = "\<lambda>j r. if j = i then r\<lparr>inv_revoked := True\<rparr> else r"])
      (auto simp: RevokeInvite_def)
next
  case (kind_withdrawn s kind)
  then show ?case by (rule invite_inv_map [where f = "\<lambda>j r. if inv_kind r = kind \<and> \<not> inv_revoked r \<and> use_count r = 0
      then r\<lparr>inv_revoked := True\<rparr> else r"]) (auto simp: RevokeUnusedByKind_def)
next
  case (expired_removed s now')
  then show ?case by (rule invite_inv_filter) (simp add: CleanupExpired_def)
qed

lemma invite_reachable_inv: "invite_reachable hash s \<Longrightarrow> invite_inv s"
proof (induction rule: invite_reachable.induct)
  case invites_start
  then show ?case by (simp add: invite_inv_def no_invites_def)
qed (rule invite_step_inv)

section \<open>What an invite allows\<close>

text \<open>
  C17 (invite_uses_bounded). However the two statements of any number of consumptions interleave with each other and
  with revocations and clean-ups, the count of a stored invite is the number of consumptions that
  succeeded with it, and an invite with a limit was not consumed more often than that: a
  single-use invite at most once.
\<close>

theorem invite_uses_bounded:
  assumes "invite_reachable hash s" and "(i, r) \<in> set (invite_rows (in_db s))"
  shows "int (count_list (uses s) i) = use_count r \<and> (max_uses r \<noteq> 0 \<longrightarrow> int (count_list (uses s) i) \<le> max_uses r)"
proof -
  have "row_ok (uses s) (i, r)" using invite_reachable_inv [OF assms(1)] assms(2) unfolding invite_inv_def by blast
  then show ?thesis by (auto simp: row_ok_def)
qed

text \<open>
  The creation of an organisation only checks the invite before, and consumes it after
  the organisation exists, ignoring the outcome. So in a server where organisations need an
  invite, a second request that is checked before the first one consumes a single-use invite
  creates its organisation as well, although the invite is used up after the first.
\<close>

theorem creation_invite_raced:
  assumes "invite_reachable hash s" and "db = in_db s"
    and "\<not> authenticated_creation pol" and "max_per_user pol \<le> 0"
    and "CreateOrg_checked hash pol now1 user1 name1 slug1 token db odb = Some (o1, odb1)"
    and "CreateOrganization user2 name2 slug2 odb1 = Inr (o2, odb2)"
    and "3 \<le> length name2" and "length name2 \<le> 40" and "ValidateOrgSlug slug2 = None"
    and "getByHash (hash (TrimSpace token)) db = Some (i, iv)" and "max_uses iv = 1"
  shows "CreateOrg_checked hash pol now1 user2 name2 slug2 token db odb1 = Some (o2, odb2) \<and>
    ValidateInvite hash now1 (TrimSpace token) ''org_creation'' (CreateOrg_consume hash now1 now1 user1 token True db) = Inl ErrInviteUsed"
proof
  let ?t = "TrimSpace token" and ?h = "hash (TrimSpace token)" and ?sec = "now1 div a_second"
  have has: "hasValidCreationInvite hash pol now1 ?t db"
    using assms(3,5) unfolding CreateOrg_checked_def creation_blocked_def by (auto simp: Let_def split: if_splits)
  then have v: "ValidateInvite hash now1 ?t ''org_creation'' db = Inr iv"
    using assms(10) unfolding hasValidCreationInvite_def ValidateInvite_def
    by (auto split: if_splits option.splits sum.splits)
  show "CreateOrg_checked hash pol now1 user2 name2 slug2 token db odb1 = Some (o2, odb2)"
    using has assms(4,6-9) by (simp add: CreateOrg_checked_def creation_blocked_def)
  have usable: "inv_kind iv = ''org_creation''" "\<not> inv_revoked iv" "now1 < expires_sec iv * a_second" "use_count iv < 1"
    using v assms(10,11) unfolding ValidateInvite_def checkUsable_def by (auto split: if_splits)
  have row: "(i, iv) \<in> set (invite_rows db)" "inv_hash iv = ?h" using getByHash_Some [OF assms(10)] by simp_all
  have inv: "invite_inv s" using invite_reachable_inv [OF assms(1)] .
  then have "row_ok (uses s) (i, iv)" using row(1) unfolding invite_inv_def assms(2) by blast
  then have zero: "use_count iv = 0" using usable(4) by (simp add: row_ok_def)
  have "?sec < expires_sec iv" using usable(3) by (simp add: div_less_iff_less_mult)
  then have take: "takes_use ?sec ?h iv" using row(2) usable(2) zero assms(11) by (simp add: takes_use_def)
  define db' where "db' = snd (consume_update ?sec ?h user1 db)"
  have db': "consume_update ?sec ?h user1 db = (True, db')"
  proof -
    have "\<exists>r \<in> set (invite_rows db). takes_use ?sec ?h (snd r)" using row(1) take by force
    then show ?thesis by (simp add: db'_def consume_update_def list_ex_iff)
  qed
  have "(i, count_use ?sec user1 iv) \<in> set (invite_rows db')"
    unfolding db'_def consume_update_def using take row(1) by (auto intro!: image_eqI [where x = "(i, iv)"])
  moreover have "distinct (map (\<lambda>x. inv_hash (snd x)) (invite_rows db'))"
    using count_use_inv [OF inv, of ?sec ?h user1 db' "pending s"] db' unfolding assms(2) invite_inv_def by simp
  ultimately have "getByHash ?h db' = Some (i, count_use ?sec user1 iv)"
    using getByHash_row [of db' i "count_use ?sec user1 iv"] row(2) by (simp add: count_use_def)
  moreover have "CreateOrg_consume hash now1 now1 user1 token True db = db'"
    using v db' by (simp add: CreateOrg_consume_def ConsumeInvite_def)
  ultimately show "ValidateInvite hash now1 ?t ''org_creation'' (CreateOrg_consume hash now1 now1 user1 token True db) = Inl ErrInviteUsed"
    using usable zero assms(11) by (simp add: ValidateInvite_def checkUsable_def count_use_def)
qed

text \<open>
  Whoever is signed in and opens the link of a membership invite joins the organisation,
  whatever email address the invite was made for; but never as its owner: the role is the one of
  the invite if that is admin or member, and member otherwise.
\<close>

theorem invite_joins_anyone:
  assumes "ValidateInvite hash now' token ''org_membership'' db = Inr iv" and "inv_org iv = Some org"
    and "org_at odb org = Some row" and "map_of (users odb) user \<noteq> None" and "role_of odb org user = None"
    and "OrgAcceptInvite hash now' later token user db odb = (ans, db', odb')"
  shows "ans = To_Org (o_slug row) \<and>
    role_of odb' org user = Some (if inv_role iv \<in> {''admin'', ''member''} then inv_role iv else ''member'')"
proof -
  obtain i where g: "getByHash (hash token) db = Some (i, iv)" and ok: "inv_kind iv = ''org_membership''" "checkUsable now' iv = None"
    using assms(1) unfolding ValidateInvite_def by (auto split: option.splits if_splits)
  have row: "(i, iv) \<in> set (invite_rows db)" "inv_hash iv = hash token" using getByHash_Some [OF g] by simp_all
  have "takes_use (now' div a_second) (hash token) iv"
    using ok(2) row(2) unfolding checkUsable_def takes_use_def by (auto simp: div_less_iff_less_mult split: if_splits)
  then have "fst (ConsumeInvite hash now' later token ''org_membership'' user db) = Inr (count_use (now' div a_second) user iv)"
    using assms(1) row(1) by (auto simp: ConsumeInvite_def consume_update_def list_ex_iff split: prod.splits)
  then obtain db1 where c: "ConsumeInvite hash now' later token ''org_membership'' user db = (Inr (count_use (now' div a_second) user iv), db1)"
    by (metis prod.collapse)
  define role where "role = (if inv_role iv \<in> {''admin'', ''member''} then inv_role iv else ''member'')"
  have "AddMemberByUserID org user (inv_role iv) odb = Inr (set_role org user role odb)"
    using assms(3-5) unfolding AddMemberByUserID_def insert_member_def role_def by (auto simp: Let_def)
  then have "ans = To_Org (o_slug row) \<and> odb' = set_role org user role odb"
    using assms(2,3,6) c by (simp add: OrgAcceptInvite_def count_use_def Let_def)
  then show ?thesis by (simp add: role_def set_role_def assoc_list.get_put)
qed

section \<open>A concrete invite\<close>

definition org_invite :: "string \<Rightarrow> invite_params" where
  "org_invite kind = \<lparr>Kind = kind, Email = ''ann@example.org'', OrgID_param = 1, Role = ''owner'', CreatedBy = 0, TTL = 0, MaxUses = 0\<rparr>"

definition invite_row_of :: "string \<Rightarrow> invite_row" where
  "invite_row_of kind = \<lparr>inv_hash = ''a'', inv_kind = kind, inv_email = ''ann@example.org'', inv_org = Some 1, inv_role = ''owner'',
     created_by = 0, created_sec = 0, expires_sec = 604800, max_uses = 1, use_count = 0, inv_revoked = False,
     used_sec = None, used_by = None\<rparr>"

definition invited :: "string \<Rightarrow> invite_state" where
  "invited kind = no_invites\<lparr>in_db := \<lparr>invite_rows = [(1, invite_row_of kind)], next_invite = 2\<rparr>\<rparr>"

lemma invited_reachable: "kind \<in> invite_kinds \<Longrightarrow> invite_reachable (\<lambda>h. h) (invited kind)"
proof -
  assume k: "kind \<in> invite_kinds"
  have "CreateInvite (\<lambda>h. h) [0] 0 (org_invite kind) (in_db no_invites) = Inr (''a'', in_db (invited kind))"
    using k by (simp add: CreateInvite_def org_invite_def no_invites_def invited_def invite_row_of_def InviteDefaultTTL_def
        generateTokenRandom_def tokenAlphabet_def Let_def eval_simps)
  from invites_next [OF invites_start issued [OF this]] show ?thesis by (simp add: invited_def)
qed

lemma invite_uses_bounded_witness:
  "\<exists>s r. invite_reachable (\<lambda>h. h) s \<and> (1, r) \<in> set (invite_rows (in_db s)) \<and> max_uses r = 1 \<and>
     count_list (uses s) 1 = 1 \<and> int (count_list (uses s) 1) \<le> max_uses r"
proof -
  let ?s0 = "invited ''org_creation''"
  have r0: "invite_reachable (\<lambda>h. h) ?s0" by (rule invited_reachable) (simp add: invite_kinds_def)
  have v: "ValidateInvite (\<lambda>h. h) 0 ''a'' ''org_creation'' (in_db ?s0) = Inr (invite_row_of ''org_creation'')"
    by (simp add: ValidateInvite_def getByHash_def invited_def invite_row_of_def checkUsable_def)
  let ?s1 = "?s0\<lparr>pending := (pending ?s0)(0 \<mapsto> (''a'', 0, 5))\<rparr>"
  have r1: "invite_reachable (\<lambda>h. h) ?s1"
    using invites_next [OF r0 loaded [OF v, of 0 5]] by (simp add: invited_def no_invites_def)
  let ?r = "count_use 0 5 (invite_row_of ''org_creation'')"
  have c: "consume_update 0 ''a'' 5 (in_db ?s1) = (True, \<lparr>invite_rows = [(1, ?r)], next_invite = 2\<rparr>)"
    by (simp add: consume_update_def invited_def takes_use_def invite_row_of_def)
  let ?s2 = "?s1\<lparr>in_db := \<lparr>invite_rows = [(1, ?r)], next_invite = 2\<rparr>, pending := (pending ?s1)(0 := None),
    uses := hash_id ''a'' (in_db ?s1) # uses ?s1\<rparr>"
  have r2: "invite_reachable (\<lambda>h. h) ?s2" by (rule invites_next [OF r1 counted_use [OF _ c]]) simp
  have row: "(1, ?r) \<in> set (invite_rows (in_db ?s2))" by simp
  have m: "max_uses ?r = 1" "use_count ?r = 1" by (simp_all add: count_use_def invite_row_of_def)
  show ?thesis
    using invite_uses_bounded [OF r2 row] r2 row m by (intro exI [of _ ?s2] exI [of _ ?r]) simp
qed

definition invite_only :: org_policy where
  "invite_only = \<lparr>authenticated_creation = False, creation_invites = True, max_per_user = 0\<rparr>"

abbreviation amys_db :: org_db where
  "amys_db \<equiv> two_users\<lparr>orgs := [(1, amys_org)], members := [((1, 1), ''owner'')], next_org := 2\<rparr>"

lemma bobs_valid: "ValidateOrgSlug ''bobs'' = None" "blocked_name ''bobs'' = None" "ToLower ''bobs'' = ''bobs''"
    "TrimSpace ''bobs'' = ''bobs''"
proof -
  show plain: "ToLower ''bobs'' = ''bobs''" "TrimSpace ''bobs'' = ''bobs''" by (simp_all add: eval_simps)
  then show "ValidateOrgSlug ''bobs'' = None" "blocked_name ''bobs'' = None"
    by (simp_all add: ValidateOrgSlug_def orgSlugRegex_def blocked_name_None UsernameBlocklist_def eval_simps)
qed

lemma bobs_org: "\<exists>db. CreateOrganization 2 ''Bobs'' ''bobs'' amys_db = Inr (2, db)"
  by (simp add: CreateOrganization_def bobs_valid CheckNameAvailable_def insert_org_def insert_member_def amys_org_def)

lemma plain_a: "TrimSpace ''a'' = ''a''"
  by (simp add: eval_simps)

lemma creation_invite_raced_witness:
  "\<exists>odb2. CreateOrg_checked (\<lambda>h. h) invite_only 0 1 ''The Acme'' ''acme'' ''a'' (in_db (invited ''org_creation'')) two_users = Some (1, amys_db) \<and>
     CreateOrg_checked (\<lambda>h. h) invite_only 0 2 ''Bobs'' ''bobs'' ''a'' (in_db (invited ''org_creation'')) amys_db = Some (2, odb2)"
proof -
  let ?s = "invited ''org_creation''"
  have r: "invite_reachable (\<lambda>h. h) ?s" by (rule invited_reachable) (simp add: invite_kinds_def)
  have g: "getByHash ''a'' (in_db ?s) = Some (1, invite_row_of ''org_creation'')"
    by (simp add: getByHash_def invited_def invite_row_of_def)
  have v: "ValidateInvite (\<lambda>h. h) 0 ''a'' ''org_creation'' (in_db ?s) = Inr (invite_row_of ''org_creation'')"
    using g by (simp add: ValidateInvite_def invite_row_of_def checkUsable_def)
  have one: "CreateOrg_checked (\<lambda>h. h) invite_only 0 1 ''The Acme'' ''acme'' ''a'' (in_db ?s) two_users = Some (1, amys_db)"
    using sample_org v by (simp add: CreateOrg_checked_def plain_a hasValidCreationInvite_def creation_blocked_def invite_only_def acme_valid)
  obtain odb2 where two: "CreateOrganization 2 ''Bobs'' ''bobs'' amys_db = Inr (2, odb2)" using bobs_org by blast
  have "CreateOrg_checked (\<lambda>h. h) invite_only 0 2 ''Bobs'' ''bobs'' ''a'' (in_db ?s) amys_db = Some (2, odb2)"
    using creation_invite_raced [OF r refl _ _ one two, of 1 "invite_row_of ''org_creation''"] g bobs_valid(1)
    by (simp add: invite_only_def plain_a invite_row_of_def)
  then show ?thesis using one by blast
qed

lemma invite_joins_anyone_witness:
  "\<exists>ans db' odb'. OrgAcceptInvite (\<lambda>h. h) 0 0 ''a'' 2 (in_db (invited ''org_membership'')) amys_db = (ans, db', odb') \<and>
     inv_email (invite_row_of ''org_membership'') \<noteq> ''b@x.io'' \<and> role_of odb' 1 2 = Some ''member''"
proof -
  let ?db = "in_db (invited ''org_membership'')"
  have v: "ValidateInvite (\<lambda>h. h) 0 ''a'' ''org_membership'' ?db = Inr (invite_row_of ''org_membership'')"
    by (simp add: ValidateInvite_def getByHash_def invited_def invite_row_of_def checkUsable_def)
  obtain ans db' odb' where a: "OrgAcceptInvite (\<lambda>h. h) 0 0 ''a'' 2 ?db amys_db = (ans, db', odb')"
    by (metis prod_cases3)
  have "role_of odb' 1 2 = Some ''member''"
    using invite_joins_anyone [OF v _ _ _ _ a, of 1 amys_org] by (simp add: invite_row_of_def)
  then show ?thesis using a by (intro exI conjI) (simp_all add: invite_row_of_def)
qed

end
