(* ===== verification/PathMiddleware.thy ===== *)
theory PathMiddleware
  imports GoURLHost CsrfServer
begin

text \<open>
  The path middlewares of \<^verbatim>\<open>src/server/middleware.go\<close>, with the parts of Go's \<open>path\<close> and
  \<open>net/http\<close> they use: \<open>path.Clean\<close> and \<open>http.Redirect\<close>.
\<close>

section \<open>Package path\<close>

text \<open>
  The elements of a path that are kept, in reverse: empty and \<open>.\<close> are dropped, \<open>..\<close> takes the one
  before it away, and at the root nothing.
\<close>

fun clean_elements :: "bool \<Rightarrow> string list \<Rightarrow> string list \<Rightarrow> string list" where
  "clean_elements rooted kept [] = kept"
| "clean_elements rooted kept (e # es) =
     (if e = [] \<or> e = ''.'' then clean_elements rooted kept es
      else if e = ''..'' then
        (case kept of
           [] \<Rightarrow> clean_elements rooted (if rooted then [] else [e]) es
         | k # ks \<Rightarrow> if k = ''..'' then clean_elements rooted (e # kept) es else clean_elements rooted ks es)
      else clean_elements rooted (e # kept) es)"

definition path_Clean :: "string \<Rightarrow> string" where
  "path_Clean p =
     (let rooted = prefix ''/'' p; es = rev (clean_elements rooted [] (split_on (CHR ''/'') p))
      in if rooted then CHR ''/'' # join_with ''/'' es
         else if es = [] then ''.'' else join_with ''/'' es)"

text \<open>\<open>path.Split\<close>: the directory, up to the last slash.\<close>

definition path_dir :: "string \<Rightarrow> string" where
  "path_dir p = (case LastIndex p (CHR ''/'') of None \<Rightarrow> [] | Some i \<Rightarrow> take (Suc i) p)"

section \<open>Redirects\<close>

text \<open>Bytes from 128 on are written as percent and hexadecimal digits.\<close>

definition hexEscapeNonASCII :: "string \<Rightarrow> string" where
  "hexEscapeNonASCII s =
     concat (map (\<lambda>c. if code c \<ge> (128::nat) then CHR ''%'' # EncodeToString [code c] else [c]) s)"

text \<open>A path is cleaned up to the query, keeping a slash at its end.\<close>

definition clean_location :: "string \<Rightarrow> string" where
  "clean_location url =
     (let p = takeWhile (\<lambda>c. c \<noteq> CHR ''?'') url; query = dropWhile (\<lambda>c. c \<noteq> CHR ''?'') url; c = path_Clean p
      in (if HasSuffix p ''/'' \<and> \<not> HasSuffix c ''/'' then c @ ''/'' else c) @ query)"

text \<open>The Location header of \<open>http.Redirect\<close>, for the path of the request.\<close>

definition redirect_location :: "string \<Rightarrow> string \<Rightarrow> string" where
  "redirect_location oldpath url =
     hexEscapeNonASCII
       (case Parse url of
          None \<Rightarrow> url
        | Some u \<Rightarrow>
            if Scheme u = [] \<and> Host u = []
            then clean_location
              (if url = [] \<or> hd url \<noteq> CHR ''/'' then path_dir (if oldpath = [] then ''/'' else oldpath) @ url else url)
            else url)"

section \<open>The middlewares\<close>

datatype normalize_result =
    Normalize_Next
  | Normalize_Redirect string   \<comment> \<open>301 with this Location\<close>
  | Normalize_Panic             \<comment> \<open>a slice with index -1\<close>

definition URLNormalizeMiddleware :: "string \<Rightarrow> string \<Rightarrow> normalize_result" where
  "URLNormalizeMiddleware p rawQuery =
     (if p \<noteq> ''/'' \<and> HasSuffix p ''/'' then
        (let trimmed = butlast p
         in case LastIndex trimmed (CHR ''/'') of
              None \<Rightarrow> Normalize_Panic
            | Some i \<Rightarrow>
                if \<not> Contains (drop i trimmed) ''.''
                then Normalize_Redirect (redirect_location p (if rawQuery \<noteq> [] then trimmed @ CHR ''?'' # rawQuery else trimmed))
                else Normalize_Next)
      else Normalize_Next)"

text \<open>The path for the next handler; \<open>None\<close> is the answer 400.\<close>

definition PathSecurityMiddleware :: "string \<Rightarrow> string \<Rightarrow> string option" where
  "PathSecurityMiddleware original raw0 =
     (let rawPath = (if raw0 = [] then original else raw0)
      in if Contains original ''..'' \<or> Contains rawPath ''..'' \<or> Contains (ToLower rawPath) ''%2e'' then None
         else
           let cleaned = path_Clean original;
               c1 = (if \<not> HasPrefix cleaned ''/'' then CHR ''/'' # cleaned else cleaned)
           in Some (if original \<noteq> ''/'' \<and> HasSuffix original ''/'' \<and> \<not> HasSuffix c1 ''/'' then c1 @ ''/'' else c1))"

section \<open>Clean paths\<close>

text \<open>An element that stays: not empty, without slash, and not a dot.\<close>

definition plain_element :: "string \<Rightarrow> bool" where
  "plain_element e \<longleftrightarrow> e \<noteq> [] \<and> CHR ''/'' \<notin> set e \<and> e \<noteq> ''.'' \<and> e \<noteq> ''..''"

lemma clean_elements_plain:
  assumes "\<forall>e \<in> set es. CHR ''/'' \<notin> set e" and "\<forall>k \<in> set kept. plain_element k"
  shows "\<forall>k \<in> set (clean_elements True kept es). plain_element k"
  using assms
proof (induction es arbitrary: kept)
  case (Cons e es)
  have rest: "\<forall>e \<in> set es. CHR ''/'' \<notin> set e" and e: "CHR ''/'' \<notin> set e" using Cons.prems(1) by simp_all
  consider "e = [] \<or> e = ''.''" | "e = ''..''" | "plain_element e" using e unfolding plain_element_def by blast
  then show ?case
  proof cases
    case 1
    then have "clean_elements True kept (e # es) = clean_elements True kept es" by auto
    then show ?thesis using Cons.IH [OF rest Cons.prems(2)] by simp
  next
    case 2
    have "kept = [] \<or> hd kept \<noteq> ''..''" using Cons.prems(2) by (cases kept) (simp_all add: plain_element_def)
    then have "clean_elements True kept (e # es) = clean_elements True (tl kept) es" using 2 by (cases kept) auto
    moreover have "\<forall>k \<in> set (tl kept). plain_element k" using Cons.prems(2) by (cases kept) auto
    ultimately show ?thesis using Cons.IH [OF rest] by simp
  next
    case 3
    then have "clean_elements True kept (e # es) = clean_elements True (e # kept) es" by (simp add: plain_element_def)
    then show ?thesis using Cons.IH [OF rest, of "e # kept"] Cons.prems(2) 3 by simp
  qed
qed simp

text \<open>Number of characters of the elements with a slash each.\<close>

definition weight :: "string list \<Rightarrow> nat" where
  "weight es = sum_list (map (\<lambda>e. Suc (length e)) es)"

lemma clean_elements_weight: "weight (clean_elements r kept es) \<le> weight kept + weight (filter (\<lambda>e. e \<noteq> []) es)"
  by (induction r kept es rule: clean_elements.induct) (auto simp: weight_def split: list.splits if_splits)

lemma length_join_slash: "es \<noteq> [] \<Longrightarrow> Suc (length (join_with ''/'' es)) = weight es"
  by (induction "''/''" es rule: join_with.induct) (auto simp: weight_def)

lemma weight_split: "weight (split_on c s) = Suc (length s)"
  by (induction s) (auto simp: weight_def split: list.splits)

end
