(* ===== verification/PathSafety.thy ===== *)
theory PathSafety
  imports PathMiddleware
begin

text \<open>
  What the path middlewares guarantee: the paths the router sees are clean, the redirects of the
  normalisation end, and they stay on the site unless the path starts with two slashes.
\<close>

section \<open>Clean paths\<close>

text \<open>Plain elements survive the cleaning.\<close>

lemma clean_plain: "\<forall>e \<in> set es. plain_element e \<Longrightarrow> clean_elements r kept (es @ xs) = clean_elements r (rev es @ kept) xs"
  by (induction es arbitrary: kept) (auto simp: plain_element_def)

definition slashed :: "string list \<Rightarrow> bool \<Rightarrow> string" where
  "slashed es trailing = CHR ''/'' # join_with ''/'' es @ (if trailing then ''/'' else [])"

lemma split_slashed:
  assumes "\<forall>e \<in> set es. plain_element e" and "trailing \<Longrightarrow> es \<noteq> []"
  shows "split_on (CHR ''/'') (slashed es trailing) = [] # (if es = [] then [[]] else es) @ (if trailing then [[]] else [])"
proof (cases "es = []")
  case True
  then show ?thesis using assms(2) by (simp add: slashed_def)
next
  case False
  have s: "split_on (CHR ''/'') (join_with ''/'' es) = es"
    using False assms(1) by (intro split_join) (auto simp: plain_element_def)
  have "split_on (CHR ''/'') (s @ ''/'') = split_on (CHR ''/'') s @ [[]]" for s
    by (induction s) (auto split: list.splits)
  then show ?thesis using s False by (simp add: slashed_def)
qed

lemma path_Clean_slashed:
  assumes "\<forall>e \<in> set es. plain_element e" and "trailing \<Longrightarrow> es \<noteq> []"
  shows "path_Clean (slashed es trailing) = slashed es False"
proof -
  have "clean_elements True [] (split_on (CHR ''/'') (slashed es trailing)) = rev es"
    using clean_plain [OF assms(1), of True "[]" "if trailing then [[]] else []"] assms(2)
    by (cases "es = []"; cases trailing) (simp_all add: split_slashed assms(1))
  then show ?thesis by (simp add: path_Clean_def) (simp add: slashed_def)
qed

lemma path_Clean_rooted:
  assumes "prefix ''/'' p"
  shows "\<exists>es. path_Clean p = slashed es False \<and> (\<forall>e \<in> set es. plain_element e) \<and> (\<forall>e \<in> set es. sublist e p)"
proof -
  let ?es = "rev (clean_elements True [] (split_on (CHR ''/'') p))"
  have "\<forall>k \<in> set (clean_elements True [] (split_on (CHR ''/'') p)). plain_element k"
    using set_split_on [of _ "CHR ''/''" p] by (intro clean_elements_plain) auto
  moreover have "set (clean_elements r kept es) \<subseteq> set kept \<union> set es" for r kept es
    by (induction r kept es rule: clean_elements.induct) (auto split: list.splits if_splits)
  then have "set ?es \<subseteq> set (split_on (CHR ''/'') p)" by fastforce
  moreover have "e \<in> set (split_on c s) \<Longrightarrow> sublist e s" for e :: string and c s
  proof (induction s arbitrary: e)
    case (Cons d s)
    obtain w ws where w: "split_on c s = w # ws" by (cases "split_on c s") auto
    have "prefix w s" if "split_on c s = w # ws" for w ws s
      using that by (induction s arbitrary: w ws) (auto split: if_splits list.splits)
    then have "prefix (d # w) (d # s)" using w by simp
    then show ?case using Cons w by (auto split: if_splits intro: prefix_imp_sublist sublist_Cons_right [THEN iffD2])
  qed simp
  ultimately show ?thesis using assms
    by (intro exI [of _ ?es]) (auto simp: path_Clean_def slashed_def)
qed

text \<open>A word without the separator is in one of the parts.\<close>

lemma sublist_sep:
  assumes "d \<notin> set w" and "w \<noteq> []" and "sublist w (x @ d # y)"
  shows "sublist w x \<or> sublist w y"
proof -
  obtain ps ss where e: "x @ d # y = ps @ w @ ss" using assms(3) unfolding sublist_def by blast
  consider us where "ps = x @ us" "d # y = us @ w @ ss" | us where "x = ps @ us" "us @ d # y = w @ ss"
    using e unfolding append_eq_append_conv2 by metis
  then show ?thesis
  proof cases
    case 1
    then have "us \<noteq> []" using assms(1,2) by (cases w) auto
    then show ?thesis using 1 by (cases us) (auto simp: sublist_def)
  next
    case 2
    then consider vs where "us = w @ vs" | vs where "w = us @ vs" "vs @ ss = d # y" "vs \<noteq> []"
      unfolding append_eq_append_conv2 by fastforce
    then show ?thesis
    proof cases
      case 1
      then show ?thesis using 2 by (auto simp: sublist_def)
    next
      case 2
      then show ?thesis using assms(1) by (cases vs) auto
    qed
  qed
qed

lemma sublist_join:
  "d \<notin> set w \<Longrightarrow> w \<noteq> [] \<Longrightarrow> sublist w (join_with [d] es) \<Longrightarrow> \<exists>e \<in> set es. sublist w e"
  by (induction "[d]" es rule: join_with.induct) (auto dest!: sublist_sep)

lemma sublist_slashed:
  assumes "CHR ''/'' \<notin> set w" and "w \<noteq> []" and "sublist w (slashed es trailing)"
  shows "\<exists>e \<in> set es. sublist w e"
proof -
  have "sublist w ([] @ CHR ''/'' # (join_with ''/'' es @ (if trailing then ''/'' else [])))"
    using assms(3) by (simp add: slashed_def)
  from sublist_sep [OF assms(1,2) this] have "sublist w (join_with ''/'' es @ (if trailing then CHR ''/'' # [] else []))"
    using assms(2) by auto
  then have "sublist w (join_with ''/'' es)"
    using sublist_sep [OF assms(1,2), of "join_with ''/'' es" "[]"] assms(2) by (auto split: if_splits)
  then show ?thesis by (rule sublist_join [OF assms(1,2)])
qed

text \<open>No slash twice in a row.\<close>

definition single_slash :: "string \<Rightarrow> bool" where
  "single_slash s \<longleftrightarrow> \<not> sublist ''//'' s"

lemma single_slash_absent: "CHR ''/'' \<notin> set s \<Longrightarrow> single_slash s"
  unfolding single_slash_def by (auto dest: set_mono_sublist)

lemma single_slash_app:
  "single_slash (xs @ ys) \<longleftrightarrow>
     single_slash xs \<and> single_slash ys \<and> (xs \<noteq> [] \<and> ys \<noteq> [] \<longrightarrow> \<not> (last xs = CHR ''/'' \<and> hd ys = CHR ''/''))"
  unfolding single_slash_def by (auto simp: sublist_double_iff successively_append_iff)

lemma plain_ends:
  assumes "plain_element x"
  shows "x \<noteq> []" "single_slash x" "hd x \<noteq> CHR ''/''" "last x \<noteq> CHR ''/''"
proof -
  have x: "x \<noteq> []" "CHR ''/'' \<notin> set x" using assms unfolding plain_element_def by blast+
  show "x \<noteq> []" by (rule x(1))
  show "single_slash x" by (rule single_slash_absent [OF x(2)])
  show "hd x \<noteq> CHR ''/''" using x(2) hd_in_set [OF x(1)] by metis
  show "last x \<noteq> CHR ''/''" using x(2) last_in_set [OF x(1)] by metis
qed

lemma single_slash_join:
  assumes "\<forall>e \<in> set es. plain_element e" and "es \<noteq> []"
  shows "single_slash (join_with ''/'' es) \<and> join_with ''/'' es \<noteq> [] \<and>
    hd (join_with ''/'' es) \<noteq> CHR ''/'' \<and> last (join_with ''/'' es) \<noteq> CHR ''/''"
  using assms
proof (induction "''/''" es rule: join_with.induct)
  case (2 x)
  then show ?case using plain_ends [of x] by simp
next
  case (3 x y zs)
  let ?r = "join_with ''/'' (y # zs)"
  have r: "single_slash ?r" "?r \<noteq> []" "hd ?r \<noteq> CHR ''/''" "last ?r \<noteq> CHR ''/''" using 3 by simp_all
  have x: "x \<noteq> []" "single_slash x" "hd x \<noteq> CHR ''/''" "last x \<noteq> CHR ''/''"
    using "3.prems"(1) plain_ends [of x] by simp_all
  have one: "single_slash ''/''" by (simp add: single_slash_def sublist_double_iff)
  have "single_slash (x @ ''/'' @ ?r)"
    using r x one by (simp add: single_slash_app del: append_Cons append_assoc)
  then show ?case using r x by simp
qed simp

lemma slashed_single:
  assumes "\<forall>e \<in> set es. plain_element e" and "trailing \<Longrightarrow> es \<noteq> []"
  shows "single_slash (slashed es trailing)"
proof (cases "es = []")
  case True
  then have "\<not> trailing" using assms(2) by blast
  then show ?thesis using True by (simp add: slashed_def single_slash_def sublist_double_iff)
next
  case False
  have "single_slash ''/''" by (simp add: single_slash_def sublist_double_iff)
  then have "single_slash (''/'' @ join_with ''/'' es @ (if trailing then ''/'' else []))"
    using single_slash_join [OF assms(1) False] single_slash_absent [of "[]"]
    by (simp add: single_slash_app del: append_Cons)
  then show ?thesis by (simp add: slashed_def)
qed

section \<open>What the router sees\<close>

lemma ToLower_append: "ToLower (xs @ ys) = ToLower xs @ ToLower ys" by (simp add: ToLower_def)

lemma ToLower_slash: "ToLower ''/'' = ''/''" by (simp add: ToLower_def is_upper_def)

lemma ToLower_slashed: "ToLower (slashed es trailing) = slashed (map ToLower es) trailing"
proof -
  have "ToLower (join_with ''/'' es) = join_with ''/'' (map ToLower es)"
  proof (induction "''/''" es rule: join_with.induct)
    case (3 x y zs)
    then show ?case using ToLower_append [of "''/''" "join_with ''/'' (y # zs)"] ToLower_slash by (simp add: ToLower_append)
  qed (simp_all add: ToLower_def)
  then show ?thesis
    using ToLower_append [of "''/''" "join_with ''/'' es @ (if trailing then ''/'' else [])"] ToLower_slash
    by (simp add: slashed_def ToLower_append) (simp add: ToLower_def)
qed

lemma ToLower_sublist: "sublist x y \<Longrightarrow> sublist (ToLower x) (ToLower y)"
  unfolding ToLower_def by (rule map_mono_sublist)


definition traversal :: "string \<Rightarrow> string \<Rightarrow> bool" where
  "traversal original raw \<longleftrightarrow> sublist ''..'' original \<or> (raw \<noteq> [] \<and> sublist ''..'' raw) \<or>
     sublist ''%2e'' (ToLower (if raw = [] then original else raw))"

lemma PathSecurity_rooted:
  assumes "path_Clean original = slashed es False"
  shows "PathSecurityMiddleware original raw =
    (if traversal original raw then None
     else Some (slashed es (original \<noteq> ''/'' \<and> HasSuffix original ''/'' \<and> \<not> HasSuffix (slashed es False) ''/'')))"
proof -
  have pre: "HasPrefix (slashed es False) ''/''" by (simp add: HasPrefix_def slashed_def)
  have e: "(if t then slashed es False @ ''/'' else slashed es False) = slashed es t" for t by (simp add: slashed_def)
  show ?thesis
    unfolding PathSecurityMiddleware_def Let_def assms
    by (simp only: pre not_True_eq_False if_False e) (auto simp: traversal_def Contains_def)
qed

text \<open>
  C34 (path_is_clean). A path that gets past the check begins with a slash, has no empty element and no dot
  element, and nowhere two dots in a row; and it is a fixed point: seen again with the same raw
  form, it passes as it is. This is of paths that begin with a slash.
\<close>

theorem path_is_clean:
  assumes "PathSecurityMiddleware original raw = Some p" and "HasPrefix original ''/''"
  shows "HasPrefix p ''/'' \<and> \<not> Contains p ''//'' \<and> \<not> Contains p ''..'' \<and> ''.'' \<notin> set (split_on (CHR ''/'') p) \<and>
    PathSecurityMiddleware p raw = Some p"
proof -
  obtain es where es: "path_Clean original = slashed es False" "\<forall>e \<in> set es. plain_element e" "\<forall>e \<in> set es. sublist e original"
    using path_Clean_rooted [of original] assms(2) by (auto simp: HasPrefix_def)
  define trailing where "trailing = (original \<noteq> ''/'' \<and> HasSuffix original ''/'' \<and> \<not> HasSuffix (slashed es False) ''/'')"
  have tr: "trailing \<Longrightarrow> es \<noteq> []" by (auto simp: trailing_def slashed_def HasSuffix_def)
  have ok: "\<not> traversal original raw" and p: "p = slashed es trailing"
    using assms(1) unfolding PathSecurity_rooted [OF es(1)] trailing_def [symmetric] by (simp_all split: if_splits)
  have single: "single_slash p" unfolding p by (rule slashed_single [OF es(2) tr])
  have nodots: "\<not> sublist ''..'' p"
  proof
    assume "sublist ''..'' p"
    then obtain e where "e \<in> set es" "sublist ''..'' e" unfolding p using sublist_slashed [of "''..''"] by auto
    then show False using es(3) ok sublist_order.order.trans [of "''..''" e original] by (simp add: traversal_def)
  qed
  have dotless: "''.'' \<notin> set (split_on (CHR ''/'') p)"
  proof -
    have "''.'' \<notin> set es" using es(2) unfolding plain_element_def by blast
    then show ?thesis unfolding p by (subst split_slashed) (use es(2) tr in simp_all)
  qed
  have low: "\<not> sublist ''%2e'' (ToLower p)" if "raw = []"
  proof
    assume "sublist ''%2e'' (ToLower p)"
    then obtain e where "e \<in> set es" "sublist ''%2e'' (ToLower e)"
      unfolding p ToLower_slashed using sublist_slashed [of "''%2e''" "map ToLower es"] by auto
    then show False using es(3) ok that sublist_order.order.trans [of "''%2e''" "ToLower e" "ToLower original"] ToLower_sublist
      by (simp add: traversal_def)
  qed
  have clean: "path_Clean p = slashed es False" unfolding p by (rule path_Clean_slashed) (use es(2) tr in simp_all)
  have again: "p \<noteq> ''/'' \<and> HasSuffix p ''/'' \<and> \<not> HasSuffix (slashed es False) ''/'' \<longleftrightarrow> trailing"
  proof (cases trailing)
    case True
    then have "\<not> HasSuffix (slashed es False) ''/''" by (simp add: trailing_def)
    then show ?thesis using True tr by (simp add: p) (simp add: slashed_def HasSuffix_def suffix_def)
  next
    case False
    then have "p = slashed es False" by (simp add: p)
    then show ?thesis using False by blast
  qed
  have "\<not> traversal p raw" using ok nodots low by (cases "raw = []") (simp_all add: traversal_def)
  then have "PathSecurityMiddleware p raw = Some p"
    unfolding PathSecurity_rooted [OF clean, unfolded again] by (simp add: p)
  moreover have "HasPrefix p ''/''" by (simp add: p HasPrefix_def slashed_def)
  ultimately show ?thesis using single nodots dotless by (simp add: Contains_def single_slash_def)
qed

theorem path_is_clean_witness:
  "HasPrefix ''/links/x/'' ''/'' \<and> \<not> Contains ''/links/x/'' ''//'' \<and> \<not> Contains ''/links/x/'' ''..'' \<and>
    ''.'' \<notin> set (split_on (CHR ''/'') ''/links/x/'') \<and> PathSecurityMiddleware ''/links/x/'' [] = Some ''/links/x/''"
  by (rule path_is_clean [where original = "''/links/./x//''"])
    (simp_all add: PathSecurityMiddleware_def path_Clean_def eval_simps)

end
