(* ===== verification/PathRedirects.thy ===== *)
theory PathRedirects
  imports PathSafety
begin

text \<open>
  The redirects of the normalisation: a path that starts with one slash is redirected within the
  site, and a client that follows the redirects is done after fewer requests than the path has
  characters. A path that starts with two slashes is redirected to another site.
\<close>

section \<open>Locations\<close>

lemma hex_escape_ascii: "\<forall>c \<in> set s. (of_char c :: nat) < 128 \<Longrightarrow> hexEscapeNonASCII s = s"
  by (induction s) (auto simp: hexEscapeNonASCII_def)

text \<open>The location stays on the site: a slash, and no second one.\<close>

definition local_location :: "string \<Rightarrow> bool" where
  "local_location l \<longleftrightarrow> HasPrefix l ''/'' \<and> \<not> HasPrefix l ''//''"

lemma local_location_iff: "local_location l \<longleftrightarrow> (\<exists>s. l = CHR ''/'' # s \<and> (s = [] \<or> hd s \<noteq> CHR ''/''))"
  by (cases l; cases "tl l") (auto simp: local_location_def HasPrefix_def)

lemma local_hex_escape: "local_location l \<Longrightarrow> local_location (hexEscapeNonASCII l)"
proof -
  assume "local_location l"
  then obtain s where s: "l = CHR ''/'' # s" "s = [] \<or> hd s \<noteq> CHR ''/''" unfolding local_location_iff by blast
  have "hexEscapeNonASCII l = CHR ''/'' # hexEscapeNonASCII s" by (simp add: s(1) hexEscapeNonASCII_def)
  moreover have "hexEscapeNonASCII s = [] \<or> hd (hexEscapeNonASCII s) \<noteq> CHR ''/''"
    using s(2) by (cases s) (auto simp: hexEscapeNonASCII_def)
  ultimately show ?thesis unfolding local_location_iff by blast
qed

text \<open>Cleaning a rooted location: the elements, the trailing slash, and the query.\<close>

lemma HasSuffix_last: "HasSuffix s [c] \<longleftrightarrow> s \<noteq> [] \<and> last s = c"
  by (induction s rule: rev_induct) (auto simp: HasSuffix_def suffix_def)

lemma slashed_suffix: "\<forall>e \<in> set es. plain_element e \<Longrightarrow> HasSuffix (slashed es False) ''/'' \<longleftrightarrow> es = []"
proof (cases "es = []")
  case True
  then show ?thesis by (simp add: slashed_def HasSuffix_def)
next
  case False
  assume "\<forall>e \<in> set es. plain_element e"
  from single_slash_join [OF this False] have "join_with ''/'' es \<noteq> []" "last (join_with ''/'' es) \<noteq> CHR ''/''" by blast+
  then show ?thesis using False by (simp add: slashed_def HasSuffix_last)
qed

lemma clean_location_rooted:
  assumes "HasPrefix url ''/''"
  defines "p \<equiv> takeWhile (\<lambda>c. c \<noteq> CHR ''?'') url"
  shows "\<exists>es t. clean_location url = slashed es t @ dropWhile (\<lambda>c. c \<noteq> CHR ''?'') url \<and> path_Clean p = slashed es False \<and>
    (\<forall>e \<in> set es. plain_element e \<and> sublist e p) \<and> (t \<longrightarrow> es \<noteq> [] \<and> HasSuffix p ''/'')"
proof -
  have "prefix ''/'' p" using assms(1) by (cases url) (auto simp: p_def HasPrefix_def)
  then obtain es where es: "path_Clean p = slashed es False" "\<forall>e \<in> set es. plain_element e" "\<forall>e \<in> set es. sublist e p"
    using path_Clean_rooted by blast
  define t where "t = (HasSuffix p ''/'' \<and> es \<noteq> [])"
  have "clean_location url = slashed es t @ dropWhile (\<lambda>c. c \<noteq> CHR ''?'') url"
    unfolding clean_location_def p_def [symmetric] Let_def es(1) slashed_suffix [OF es(2)] t_def by (simp add: slashed_def)
  then show ?thesis using es by (intro exI [of _ es] exI [of _ t]) (simp add: t_def)
qed

lemma local_slashed:
  assumes "\<forall>e \<in> set es. plain_element e" and "t \<longrightarrow> es \<noteq> []" and "q = [] \<or> hd q = CHR ''?''"
  shows "local_location (slashed es t @ q)"
proof (cases "es = []")
  case True
  then show ?thesis using assms(2,3) by (auto simp: slashed_def local_location_iff)
next
  case False
  from single_slash_join [OF assms(1) False] have "join_with ''/'' es \<noteq> []" "hd (join_with ''/'' es) \<noteq> CHR ''/''" by blast+
  then show ?thesis by (auto simp: slashed_def local_location_iff)
qed

lemma hd_dropWhile_query: "dropWhile (\<lambda>c. c \<noteq> d) s = [] \<or> hd (dropWhile (\<lambda>c. c \<noteq> d) s) = d"
  using hd_dropWhile [of "\<lambda>c. c \<noteq> d" s] by blast

lemma local_redirect:
  assumes "local_location url"
  shows "local_location (redirect_location old url)"
proof -
  have root: "HasPrefix url ''/''" "url \<noteq> []" "hd url = CHR ''/''"
    using assms unfolding local_location_iff by (auto simp: HasPrefix_def)
  obtain es t where c: "clean_location url = slashed es t @ dropWhile (\<lambda>c. c \<noteq> CHR ''?'') url"
      "\<forall>e \<in> set es. plain_element e" "t \<longrightarrow> es \<noteq> []"
    using clean_location_rooted [OF root(1)] by blast
  have "local_location (clean_location url)"
    unfolding c(1) by (rule local_slashed [OF c(2,3) hd_dropWhile_query])
  then show ?thesis using assms root(2,3) unfolding redirect_location_def
    by (intro local_hex_escape) (simp split: option.splits)
qed

section \<open>The normalisation\<close>

text \<open>
  A path that starts with one slash is only ever redirected within the site, whatever its
  query, and the slice of the last element is never out of range.
\<close>

lemma rooted_LastIndex: "HasPrefix p ''/'' \<Longrightarrow> p \<noteq> ''/'' \<Longrightarrow> LastIndex (butlast p) (CHR ''/'') \<noteq> None"
  unfolding LastIndex_def HasPrefix_def by (cases p; cases "tl p") auto

theorem normalize_local:
  assumes "local_location p"
  shows "case URLNormalizeMiddleware p query of
      Normalize_Next \<Rightarrow> True | Normalize_Redirect l \<Rightarrow> local_location l | Normalize_Panic \<Rightarrow> False"
proof -
  have root: "HasPrefix p ''/''" using assms by (simp add: local_location_def)
  have url: "local_location (if query \<noteq> [] then butlast p @ CHR ''?'' # query else butlast p)" if "p \<noteq> ''/''" "HasSuffix p ''/''"
  proof -
    obtain s where s: "p = CHR ''/'' # s" "s = [] \<or> hd s \<noteq> CHR ''/''" using assms unfolding local_location_iff by blast
    then have "s \<noteq> []" using that(1) by blast
    then have "butlast p = CHR ''/'' # butlast s" "butlast s = [] \<or> hd (butlast s) \<noteq> CHR ''/''"
      using s by (cases s; cases "tl s"; simp)+
    then show ?thesis by (cases "butlast s") (auto simp: local_location_iff)
  qed
  show ?thesis
  proof (cases "p \<noteq> ''/'' \<and> HasSuffix p ''/''")
    case True
    then show ?thesis using rooted_LastIndex [OF root] local_redirect [OF url]
      by (auto simp: URLNormalizeMiddleware_def Let_def split: option.splits if_splits)
  next
    case False
    then have "URLNormalizeMiddleware p query = Normalize_Next" unfolding URLNormalizeMiddleware_def by (rule if_not_P)
    then show ?thesis by simp
  qed
qed

theorem normalize_local_witness:
  "case URLNormalizeMiddleware ''/links/'' ''page=2'' of
      Normalize_Next \<Rightarrow> True | Normalize_Redirect l \<Rightarrow> local_location l | Normalize_Panic \<Rightarrow> False"
  by (rule normalize_local) (simp add: local_location_def HasPrefix_def)

text \<open>Two slashes in front make the rest the host of another site.\<close>

lemma redirect_to_other_site:
  "URLNormalizeMiddleware ''//evil.example/login/'' [] = Normalize_Redirect ''//evil.example/login''"
  by (simp add: URLNormalizeMiddleware_def redirect_location_def eval_simps) (simp add: hex_escape_ascii)

section \<open>The end of the redirects\<close>

text \<open>Text that a browser sends, and the server decodes, as it is.\<close>

definition plain_text :: "string \<Rightarrow> bool" where
  "plain_text s \<longleftrightarrow> (\<forall>c \<in> set s. 32 < (of_char c :: nat) \<and> (of_char c :: nat) < 127 \<and> (of_char c :: nat) \<notin> {35, 37, 63, 92})"

lemma split_on_snoc: "split_on d (s @ [d]) = split_on d s @ [[]]"
  by (induction s) (auto split: list.splits)

lemma nonempty_weight: "weight (filter (\<lambda>e. e \<noteq> []) es) \<le> weight es"
  by (induction es) (auto simp: weight_def)

lemma weight_append: "weight (xs @ ys) = weight xs + weight ys"
  by (simp add: weight_def)

lemma weight_set: "weight (rev es) = weight es"
  by (induction es) (auto simp: weight_def)

text \<open>A cleaned path is not longer, and one shorter at least when a trailing slash was dropped.\<close>

lemma path_Clean_length:
  assumes "HasPrefix p ''/''" and "path_Clean p = slashed es False" and "\<forall>e \<in> set es. plain_element e" and "es \<noteq> []"
  shows "length (slashed es (HasSuffix p ''/'')) \<le> length p"
proof -
  obtain q where q: "p = CHR ''/'' # q" using assms(1) by (cases p) (auto simp: HasPrefix_def)
  let ?ks = "clean_elements True [] (split_on (CHR ''/'') p)"
  have join: "join_with ''/'' es = join_with ''/'' (rev ?ks)"
    using assms(2) q by (simp add: path_Clean_def slashed_def)
  have "weight ?ks \<le> weight (filter (\<lambda>e. e \<noteq> []) (split_on (CHR ''/'') q))"
    using clean_elements_weight [of True "[]" "split_on (CHR ''/'') p"] by (simp add: q weight_def)
  also have "\<dots> + (if HasSuffix p ''/'' then 1 else 0) \<le> Suc (length q)"
  proof (cases "HasSuffix p ''/'' \<and> q \<noteq> []")
    case True
    then have "last q = CHR ''/''" by (simp add: HasSuffix_last q split: if_splits)
    then obtain r where r: "q = r @ ''/''" using True by (metis append_butlast_last_id)
    have "weight (filter (\<lambda>e. e \<noteq> []) (split_on (CHR ''/'') q)) \<le> weight (split_on (CHR ''/'') r)"
      using nonempty_weight [of "split_on (CHR ''/'') r"] by (simp add: r split_on_snoc)
    then show ?thesis using True by (simp add: weight_split r)
  next
    case False
    have le: "weight (filter (\<lambda>e. e \<noteq> []) (split_on (CHR ''/'') q)) \<le> Suc (length q)"
      using nonempty_weight [of "split_on (CHR ''/'') q"] by (simp add: weight_split)
    show ?thesis
    proof (cases "q = []")
      case True
      then show ?thesis by (simp add: weight_def)
    next
      case q: False
      then have "\<not> HasSuffix p ''/''" using False by blast
      then show ?thesis using le by simp
    qed
  qed
  finally have w: "weight ?ks + (if HasSuffix p ''/'' then 1 else 0) \<le> length p" by (simp add: q)
  have "join_with ''/'' (rev ?ks) \<noteq> []" using single_slash_join [OF assms(3,4)] join by simp
  then have "?ks \<noteq> []" by auto
  then have "Suc (length (join_with ''/'' es)) = weight ?ks"
    using length_join_slash [of "rev ?ks"] unfolding join by (simp add: weight_set)
  then show ?thesis using w by (simp add: slashed_def split: if_splits)
qed

text \<open>Following the redirects, with a limit on their number; the path that is not redirected any more.\<close>

fun follow_redirects :: "nat \<Rightarrow> string \<Rightarrow> string option" where
  "follow_redirects 0 p = None"
| "follow_redirects (Suc n) p =
     (case URLNormalizeMiddleware p [] of
        Normalize_Redirect l \<Rightarrow> follow_redirects n l
      | Normalize_Next \<Rightarrow> Some p
      | Normalize_Panic \<Rightarrow> None)"

lemma redirect_shorter:
  assumes "URLNormalizeMiddleware p [] = Normalize_Redirect l" and "local_location p" and "plain_text p"
  shows "length l < length p \<and> plain_text l"
proof -
  let ?url = "butlast p"
  have p: "p \<noteq> ''/''" "HasSuffix p ''/''" and l: "l = redirect_location p ?url"
    using assms(1) by (simp_all add: URLNormalizeMiddleware_def Let_def split: option.splits if_splits)
  obtain s where s: "p = CHR ''/'' # s" using assms(2) unfolding local_location_iff by blast
  then have "s \<noteq> []" using p(1) by blast
  then have root: "HasPrefix ?url ''/''" "?url \<noteq> []" "hd ?url = CHR ''/''" and len: "length ?url < length p"
    by (simp_all add: s HasPrefix_def)
  have plain: "plain_text ?url" using assms(3) unfolding plain_text_def by (auto dest: in_set_butlastD)
  then have noq: "takeWhile (\<lambda>c. c \<noteq> CHR ''?'') ?url = ?url" "dropWhile (\<lambda>c. c \<noteq> CHR ''?'') ?url = []"
    unfolding plain_text_def takeWhile_eq_all_conv dropWhile_eq_Nil_conv by auto
  obtain es t where c: "clean_location ?url = slashed es t" "path_Clean ?url = slashed es False"
      "\<forall>e \<in> set es. plain_element e \<and> sublist e ?url" "t \<longrightarrow> es \<noteq> [] \<and> HasSuffix ?url ''/''"
    using clean_location_rooted [OF root(1)] unfolding noq by auto
  have clean_len: "length (slashed es t) \<le> length ?url"
  proof (cases "es = []")
    case True
    then have "slashed es t = ''/''" using c(4) by (simp add: slashed_def)
    then show ?thesis using root(2) by (cases ?url) simp_all
  next
    case False
    have "length (slashed es t) \<le> length (slashed es (HasSuffix ?url ''/''))" using c(4) by (simp add: slashed_def)
    also have "\<dots> \<le> length ?url" using c(2,3) False by (intro path_Clean_length [OF root(1)]) auto
    finally show ?thesis .
  qed
  have "set (join_with ''/'' es) \<subseteq> set ''/'' \<union> \<Union> (set ` set es)"
    by (induction "''/''" es rule: join_with.induct) auto
  moreover have "\<Union> (set ` set es) \<subseteq> set ?url" using c(3) by (auto dest: set_mono_sublist)
  moreover have "CHR ''/'' \<in> set ?url" using root(2,3) hd_in_set by metis
  ultimately have clean_set: "set (slashed es t) \<subseteq> set ?url" by (auto simp: slashed_def)
  have "length (redirect_location p ?url) < length p \<and> plain_text (redirect_location p ?url)"
  proof -
    have "plain_text (slashed es t)" using plain clean_set unfolding plain_text_def by blast
    moreover have "plain_text x \<Longrightarrow> hexEscapeNonASCII x = x" for x
      by (rule hex_escape_ascii) (force simp: plain_text_def)
    ultimately show ?thesis using plain clean_len len root(2,3) c(1) unfolding redirect_location_def
      by (simp split: option.splits)
  qed
  then show ?thesis by (simp add: l)
qed



end
