(* ===== verification/PasswordHash.thy ===== *)
theory PasswordHash
  imports Base64 JSON
begin

text \<open>
  Password hashes: \<^verbatim>\<open>src/server/service/password.go\<close>. Argon2id is a third-party function
  and an argument: of password, salt, passes, memory in KiB, threads and key length. Bytes are
  characters. The text of a hash, and what of \<open>encoding/base64\<close> and \<open>fmt.Sscanf\<close> is used to read
  it, are modelled.
\<close>

section \<open>Standard base64 without padding\<close>

definition RawStd_Encode :: "string \<Rightarrow> string" where
  "RawStd_Encode s = filter (\<lambda>c. c \<noteq> CHR ''='') (btoa s)"

text \<open>The decoder skips line breaks and refuses every other character, padding included.\<close>

definition RawStd_Decode :: "string \<Rightarrow> string option" where
  "RawStd_Decode s =
     (let t = filter (\<lambda>c. code c \<noteq> (10::nat) \<and> code c \<noteq> (13::nat)) s
      in if length t mod 4 = 1 then None else map_option b64_groups (those (map b64_value t)))"

text \<open>
  \<open>base64.URLEncoding\<close>: with padding, and the two characters for URLs. It writes the session
  ids and the reset tokens.
\<close>

definition URL_Encode :: "string \<Rightarrow> string" where
  "URL_Encode s = subst_char (CHR ''/'') (CHR ''_'') (subst_char (CHR ''+'') hyphen (btoa s))"

lemma RawStd_digits: "RawStd_Encode s = map b64_digit (b64_plain s)"
  by (simp add: RawStd_Encode_def btoa_plain)

interpretation raw_std: codec RawStd_Encode RawStd_Decode
proof
  fix s
  have nl: "code (b64_digit n) \<noteq> (10::nat)" "code (b64_digit n) \<noteq> (13::nat)" if "n < 64" for n
    using b64_digit_not(3) [OF that] by (auto simp: b64_space_def)
  have "filter (\<lambda>c. code c \<noteq> (10::nat) \<and> code c \<noteq> (13::nat)) (map b64_digit (b64_plain s)) = map b64_digit (b64_plain s)"
    by (intro filter_True ballI) (auto dest!: b64_plain_small simp: nl)
  moreover have "those (map b64_value (map b64_digit (b64_plain s))) = Some (b64_plain s)"
  proof -
    have "\<forall>n \<in> set ds. n < 64 \<Longrightarrow> those (map b64_value (map b64_digit ds)) = Some ds" for ds
      by (induction ds) (simp_all add: b64_value_digit)
    then show ?thesis using b64_plain_small by blast
  qed
  ultimately show "RawStd_Decode (RawStd_Encode s) = Some s"
    unfolding RawStd_digits RawStd_Decode_def using length_b64_plain [of s] by (simp add: groups_plain)
qed

text \<open>A session id or reset token is made of characters that stand for themselves in a cookie or a path.\<close>

lemma RawStd_chars: "c \<in> set (RawStd_Encode s) \<Longrightarrow> is_lower c \<or> is_upper c \<or> is_digit c \<or> c = CHR ''+'' \<or> c = CHR ''/''"
  unfolding RawStd_digits using b64_digit_char b64_plain_small by auto

section \<open>The text of a hash\<close>

text \<open>Password, salt, passes, memory, threads, length.\<close>

type_synonym idkey = "string \<Rightarrow> string \<Rightarrow> nat \<Rightarrow> nat \<Rightarrow> nat \<Rightarrow> nat \<Rightarrow> string"

definition hashPasswordArgon2id :: "idkey \<Rightarrow> string \<Rightarrow> string \<Rightarrow> string" where
  "hashPasswordArgon2id idkey salt password =
     ''$argon2id$v=19$m='' @ show_nat (64 * 1024) @ '',t='' @ show_nat 3 @ '',p='' @ show_nat 4 @ ''$'' @
       RawStd_Encode salt @ ''$'' @ RawStd_Encode (idkey password salt 3 (64 * 1024) 4 32)"

text \<open>
  \<open>%d\<close> into an unsigned integer of some bits: spaces, then digits without a sign. The rest of the
  text is returned.
\<close>

definition scan_uint :: "nat \<Rightarrow> string \<Rightarrow> (nat \<times> string) option" where
  "scan_uint bits s =
     (let t = dropWhile (\<lambda>c. c = CHR '' '' \<or> code c \<in> {9, 11, 12, 13 :: nat}) s; ds = takeWhile is_digit t
      in if ds = [] \<or> digits_value ds \<ge> 2 ^ bits then None else Some (digits_value ds, dropWhile is_digit t))"

text \<open>A literal of the format.\<close>

definition scan_literal :: "string \<Rightarrow> string \<Rightarrow> string option" where
  "scan_literal lit s = (if prefix lit s then Some (drop (length lit) s) else None)"

text \<open>\<open>Sscanf(s, "m=%d,t=%d,p=%d", ...)\<close>; text after the last number is no error.\<close>

definition scan_params :: "string \<Rightarrow> (nat \<times> nat \<times> nat) option" where
  "scan_params s =
     (case scan_literal ''m='' s of
        None \<Rightarrow> None
      | Some s1 \<Rightarrow>
     (case scan_uint 32 s1 of
        None \<Rightarrow> None
      | Some (m, s2) \<Rightarrow>
     (case scan_literal '',t='' s2 of
        None \<Rightarrow> None
      | Some s3 \<Rightarrow>
     (case scan_uint 32 s3 of
        None \<Rightarrow> None
      | Some (t, s4) \<Rightarrow>
     (case scan_literal '',p='' s4 of
        None \<Rightarrow> None
      | Some s5 \<Rightarrow>
     (case scan_uint 8 s5 of
        None \<Rightarrow> None
      | Some (p, s6) \<Rightarrow> Some (m, t, p)))))))"

definition verifyPasswordArgon2id :: "idkey \<Rightarrow> string \<Rightarrow> string \<Rightarrow> bool" where
  "verifyPasswordArgon2id idkey password hash =
     (let parts = split_on (CHR ''$'') hash
      in if length parts \<noteq> 6 \<or> parts ! 1 \<noteq> ''argon2id'' then False
         else
           (case scan_params (parts ! 3) of
              None \<Rightarrow> False
            | Some (memory, time, threads) \<Rightarrow>
                (case RawStd_Decode (parts ! 4) of
                   None \<Rightarrow> False
                 | Some salt \<Rightarrow>
                     (case RawStd_Decode (parts ! 5) of
                        None \<Rightarrow> False
                      | Some expected \<Rightarrow> idkey password salt time memory threads (length expected) = expected))))"

section \<open>Reading what was written\<close>

lemma scan_uint_show:
  assumes "n < 2 ^ bits" and "r = [] \<or> \<not> is_digit (hd r)"
  shows "scan_uint bits (show_nat n @ r) = Some (n, r)"
proof -
  have d: "\<forall>c \<in> set (show_nat n). is_digit c" using show_nat_digits by blast
  have "is_digit (hd (show_nat n))" using d by simp
  then have "\<not> (hd (show_nat n) = CHR '' '' \<or> code (hd (show_nat n)) \<in> {9, 11, 12, 13 :: nat})" by (auto simp: is_digit_def)
  then have "dropWhile (\<lambda>c. c = CHR '' '' \<or> code c \<in> {9, 11, 12, 13 :: nat}) (show_nat n @ r) = show_nat n @ r"
    by (cases "show_nat n") simp_all
  moreover have "takeWhile is_digit (show_nat n @ r) = show_nat n" "dropWhile is_digit (show_nat n @ r) = r"
    using d assms(2) by (cases r; simp add: takeWhile_append dropWhile_append)+
  ultimately show ?thesis using assms(1) by (simp add: scan_uint_def)
qed

lemma scan_params_show:
  assumes "m < 2 ^ 32" and "t < 2 ^ 32" and "p < 2 ^ 8"
  shows "scan_params (''m='' @ show_nat m @ '',t='' @ show_nat t @ '',p='' @ show_nat p) = Some (m, t, p)"
proof -
  have comma: "\<not> is_digit (CHR '','')" by (simp add: is_digit_def)
  have m: "scan_uint 32 (show_nat m @ '',t='' @ show_nat t @ '',p='' @ show_nat p) = Some (m, '',t='' @ show_nat t @ '',p='' @ show_nat p)"
    by (rule scan_uint_show) (use assms comma in simp_all)
  have t: "scan_uint 32 (show_nat t @ '',p='' @ show_nat p) = Some (t, '',p='' @ show_nat p)"
    by (rule scan_uint_show) (use assms comma in simp_all)
  have p: "scan_uint 8 (show_nat p) = Some (p, [])"
    using scan_uint_show [of p 8 "[]"] assms by simp
  have lit: "scan_literal l (l @ s) = Some s" for l s by (simp add: scan_literal_def)
  show ?thesis unfolding scan_params_def by (simp only: lit m t p option.case prod.case)
qed

text \<open>
  A password verifies against a stored hash exactly when Argon2id, with the parameters and
  the salt of the hash, gives the same key for it as for the password that was hashed. In
  particular the password itself does, whatever salt was drawn.
\<close>

lemma verify_hashed:
  assumes "\<And>p s t m th k. length (idkey p s t m th k) = k"
  shows "verifyPasswordArgon2id idkey q (hashPasswordArgon2id idkey salt p) \<longleftrightarrow>
    idkey q salt 3 65536 4 32 = idkey p salt 3 65536 4 32"
proof -
  let ?params = "''m='' @ show_nat (64 * 1024) @ '',t='' @ show_nat 3 @ '',p='' @ show_nat 4"
  let ?key = "idkey p salt 3 (64 * 1024) 4 32"
  let ?parts = "[[], ''argon2id'', ''v=19'', ?params, RawStd_Encode salt, RawStd_Encode ?key]"
  have join: "hashPasswordArgon2id idkey salt p = join_with ''$'' ?parts"
    by (simp add: hashPasswordArgon2id_def)
  have "CHR ''$'' \<notin> set (RawStd_Encode s)" for s
    using RawStd_chars [of "CHR ''$''" s] by (auto simp: is_lower_def is_upper_def is_digit_def)
  moreover have "CHR ''$'' \<notin> set (show_nat n)" for n by (auto simp: is_digit_def dest: show_nat_digits)
  ultimately have parts: "split_on (CHR ''$'') (hashPasswordArgon2id idkey salt p) = ?parts"
    unfolding join by (intro split_join) auto
  show ?thesis
    unfolding verifyPasswordArgon2id_def parts Let_def
    using assms [of p salt 3 "64 * 1024" 4 32] scan_params_show [of "64 * 1024" 3 4] by (simp add: raw_std.dec_enc)
qed

end
