(* ===== verification/Auth.thy ===== *)
theory Auth
  imports PasswordHash Orgs CsrfServer
begin

text \<open>
  Accounts and sessions: \<^verbatim>\<open>src/server/service/auth.go\<close> over the tables \<open>users\<close>, \<open>admins\<close>,
  \<open>user_sessions\<close>, \<open>admin_sessions\<close> and \<open>password_resets\<close>, the moderation of
  \<^verbatim>\<open>src/server/service/admin_users.go\<close>, the clean-up task of the scheduler, the session
  middlewares of \<^verbatim>\<open>src/server/middleware.go\<close>, and the handlers that log in and out, register
  and change passwords. Hashing and checking of passwords, the hash of tokens and random bytes are
  arguments. Times are seconds. A statement on the database fails only when it breaks a
  constraint.
\<close>

section \<open>Tables\<close>

record user_row =
  u_name :: string
  u_email :: string
  u_hash :: string
  u_verified :: bool
  u_display :: "string option"
  u_bio :: "string option"
  u_totp :: bool
  u_suspended :: bool
  u_suspend_reason :: string
  u_last_login :: "int option"

record admin_row =
  a_name :: string
  a_email :: string
  a_hash :: string
  a_primary :: bool
  a_last_login :: "int option"

text \<open>A session belongs to a user or an administrator, depending on the table.\<close>

record session_row =
  s_owner :: int
  s_created :: int
  s_expires :: int

record reset_row =
  pr_type :: string
  pr_owner :: int
  pr_expires :: int
  pr_used :: "int option"

text \<open>Rows by id or, for the resets, by the hash of the token.\<close>

record auth_db =
  user_rows :: "(int \<times> user_row) list"
  next_user :: int
  admin_rows :: "(int \<times> admin_row) list"
  next_admin :: int
  user_sessions :: "(string \<times> session_row) list"
  admin_sessions :: "(string \<times> session_row) list"
  resets :: "(string \<times> reset_row) list"

datatype auth_error =
    Invalid_Credentials
  | Not_Available          \<comment> \<open>unable to complete registration\<close>
  | Admin_Exists
  | Session_Not_Stored
  | Session_Invalid
  | User_Not_Found
  | Reset_Invalid
  | Reset_Not_Stored
  | Reset_Already_Used
  | Email_In_Use
  | Incorrect_Password
  | Row_Not_Stored

text \<open>An UPDATE of the row with an id.\<close>

definition update_user :: "int \<Rightarrow> (user_row \<Rightarrow> user_row) \<Rightarrow> auth_db \<Rightarrow> auth_db" where
  "update_user i f db = db\<lparr>user_rows := map (\<lambda>(j, u). (j, if j = i then f u else u)) (user_rows db)\<rparr>"

definition update_admin :: "int \<Rightarrow> (admin_row \<Rightarrow> admin_row) \<Rightarrow> auth_db \<Rightarrow> auth_db" where
  "update_admin i f db = db\<lparr>admin_rows := map (\<lambda>(j, a). (j, if j = i then f a else a)) (admin_rows db)\<rparr>"

section \<open>Administrators\<close>

definition NeedsSetup :: "auth_db \<Rightarrow> bool" where
  "NeedsSetup db \<longleftrightarrow> admin_rows db = []"

definition CreatePrimaryAdmin :: "(string \<Rightarrow> string) \<Rightarrow> string \<Rightarrow> string \<Rightarrow> string \<Rightarrow> auth_db \<Rightarrow> auth_error + auth_db" where
  "CreatePrimaryAdmin hash username password email db =
     (if admin_rows db \<noteq> [] then Inl Admin_Exists
      else Inr (db\<lparr>admin_rows := [(next_admin db, \<lparr>a_name = username, a_email = email, a_hash = hash password,
                     a_primary = True, a_last_login = None\<rparr>)],
                   next_admin := next_admin db + 1\<rparr>))"

text \<open>The record is the row before the update of the last log-in.\<close>

definition AuthenticateAdmin ::
    "(string \<Rightarrow> string \<Rightarrow> bool) \<Rightarrow> int \<Rightarrow> string \<Rightarrow> string \<Rightarrow> auth_db \<Rightarrow> auth_error + (int \<times> admin_row) \<times> auth_db" where
  "AuthenticateAdmin verify now' username password db =
     (case List.find (\<lambda>x. a_name (snd x) = username) (admin_rows db) of
        None \<Rightarrow> Inl Invalid_Credentials
      | Some (i, a) \<Rightarrow>
          if \<not> verify password (a_hash a) then Inl Invalid_Credentials
          else Inr ((i, a), update_admin i (\<lambda>a. a\<lparr>a_last_login := Some now'\<rparr>) db))"

section \<open>Sessions\<close>

definition generateSessionID :: "string \<Rightarrow> string" where
  "generateSessionID buf = URL_Encode buf"

abbreviation days_of :: "int \<Rightarrow> int" where
  "days_of n \<equiv> n * 24 * 3600"

definition CreateSession :: "string \<Rightarrow> int \<Rightarrow> int \<Rightarrow> bool \<Rightarrow> auth_db \<Rightarrow> auth_error + string \<times> auth_db" where
  "CreateSession buf now' adminID rememberMe db =
     (let sid = generateSessionID buf
      in if map_of (admin_sessions db) sid \<noteq> None then Inl Session_Not_Stored
         else Inr (sid, db\<lparr>admin_sessions := (sid, \<lparr>s_owner = adminID, s_created = now',
                s_expires = now' + (if rememberMe then days_of 90 else days_of 30)\<rparr>) # admin_sessions db\<rparr>))"

definition ValidateSession :: "int \<Rightarrow> string \<Rightarrow> auth_db \<Rightarrow> auth_error + int \<times> admin_row" where
  "ValidateSession now' sid db =
     (case map_of (admin_sessions db) sid of
        None \<Rightarrow> Inl Session_Invalid
      | Some s \<Rightarrow>
          if \<not> s_expires s > now' then Inl Session_Invalid
          else (case map_of (admin_rows db) (s_owner s) of None \<Rightarrow> Inl Session_Invalid | Some a \<Rightarrow> Inr (s_owner s, a)))"

definition DeleteSession :: "string \<Rightarrow> auth_db \<Rightarrow> auth_db" where
  "DeleteSession sid db = db\<lparr>admin_sessions := AList.delete sid (admin_sessions db)\<rparr>"

definition CreateUserSession :: "string \<Rightarrow> int \<Rightarrow> int \<Rightarrow> bool \<Rightarrow> auth_db \<Rightarrow> auth_error + string \<times> auth_db" where
  "CreateUserSession buf now' userID rememberMe db =
     (let sid = generateSessionID buf
      in if map_of (user_sessions db) sid \<noteq> None then Inl Session_Not_Stored
         else Inr (sid, db\<lparr>user_sessions := (sid, \<lparr>s_owner = userID, s_created = now',
                s_expires = now' + (if rememberMe then days_of 30 else days_of 7)\<rparr>) # user_sessions db\<rparr>))"

text \<open>The join of the session with its user.\<close>

definition ValidateUserSession :: "int \<Rightarrow> string \<Rightarrow> auth_db \<Rightarrow> auth_error + int \<times> user_row" where
  "ValidateUserSession now' sid db =
     (case map_of (user_sessions db) sid of
        None \<Rightarrow> Inl Session_Invalid
      | Some s \<Rightarrow>
          if \<not> s_expires s > now' then Inl Session_Invalid
          else (case map_of (user_rows db) (s_owner s) of None \<Rightarrow> Inl Session_Invalid | Some u \<Rightarrow> Inr (s_owner s, u)))"

definition RevokeSession :: "string \<Rightarrow> auth_db \<Rightarrow> auth_db" where
  "RevokeSession sid db = db\<lparr>user_sessions := AList.delete sid (user_sessions db)\<rparr>"

definition RevokeAllUserSessions :: "int \<Rightarrow> string \<Rightarrow> string \<Rightarrow> auth_db \<Rightarrow> auth_db" where
  "RevokeAllUserSessions userID userType exceptID db =
     (let keep = (\<lambda>(sid, s). \<not> (s_owner s = userID \<and> sid \<noteq> exceptID))
      in if userType = ''admin'' then db\<lparr>admin_sessions := filter keep (admin_sessions db)\<rparr>
         else db\<lparr>user_sessions := filter keep (user_sessions db)\<rparr>)"

text \<open>Newest first.\<close>

definition GetUserSessions :: "int \<Rightarrow> int \<Rightarrow> string \<Rightarrow> auth_db \<Rightarrow> (string \<times> session_row) list" where
  "GetUserSessions now' userID userType db =
     sort_key (\<lambda>x. - s_created (snd x))
       (filter (\<lambda>(sid, s). s_owner s = userID \<and> s_expires s > now')
         (if userType = ''admin'' then admin_sessions db else user_sessions db))"

text \<open>The task \<open>session_cleanup\<close>.\<close>

definition cleanupSessions :: "int \<Rightarrow> auth_db \<Rightarrow> auth_db" where
  "cleanupSessions now' db =
     db\<lparr>admin_sessions := filter (\<lambda>(sid, s). \<not> s_expires s < now') (admin_sessions db),
        user_sessions := filter (\<lambda>(sid, s). \<not> s_expires s < now') (user_sessions db)\<rparr>"

section \<open>Users\<close>

definition normal_name :: "string \<Rightarrow> string" where
  "normal_name s = ToLower (TrimSpace s)"

text \<open>The table of users as the check of the shared namespace sees it, beside the organisations.\<close>

definition names_of :: "auth_db \<Rightarrow> org_db \<Rightarrow> org_db" where
  "names_of db odb = odb\<lparr>users := map (\<lambda>(i, u). (i, u_name u, u_email u)) (user_rows db)\<rparr>"

text \<open>The inserted row, with the defaults of the table.\<close>

definition new_user :: "string \<Rightarrow> string \<Rightarrow> string \<Rightarrow> user_row" where
  "new_user username email passwordHash =
     \<lparr>u_name = username, u_email = email, u_hash = passwordHash, u_verified = False, u_display = None,
      u_bio = None, u_totp = False, u_suspended = False, u_suspend_reason = [], u_last_login = None\<rparr>"

definition RegisterUser ::
    "(string \<Rightarrow> string) \<Rightarrow> string \<Rightarrow> string \<Rightarrow> string \<Rightarrow> org_db \<Rightarrow> auth_db \<Rightarrow> auth_error + int \<times> auth_db" where
  "RegisterUser hash username0 email0 password odb db =
     (let username = normal_name username0; email = normal_name email0
      in if CheckNameAvailable (names_of db odb) username \<noteq> None then Inl Not_Available
         else if list_ex (\<lambda>x. u_email (snd x) = email) (user_rows db) then Inl Not_Available
         else Inr (next_user db,
           db\<lparr>user_rows := user_rows db @ [(next_user db,
                new_user username email (hash password))],
              next_user := next_user db + 1\<rparr>))"

text \<open>A user by name or email, in the order of the table.\<close>

definition find_user :: "string \<Rightarrow> auth_db \<Rightarrow> (int \<times> user_row) option" where
  "find_user identifier db = List.find (\<lambda>x. u_name (snd x) = identifier \<or> u_email (snd x) = identifier) (user_rows db)"

definition AuthenticateUser ::
    "(string \<Rightarrow> string \<Rightarrow> bool) \<Rightarrow> int \<Rightarrow> string \<Rightarrow> string \<Rightarrow> auth_db \<Rightarrow> auth_error + (int \<times> user_row) \<times> auth_db" where
  "AuthenticateUser verify now' identifier password db =
     (case find_user (normal_name identifier) db of
        None \<Rightarrow> Inl Invalid_Credentials
      | Some (i, u) \<Rightarrow>
          if \<not> verify password (u_hash u) then Inl Invalid_Credentials
          else Inr ((i, u), update_user i (\<lambda>u. u\<lparr>u_last_login := Some now'\<rparr>) db))"

definition GetUserByID :: "int \<Rightarrow> auth_db \<Rightarrow> auth_error + int \<times> user_row" where
  "GetUserByID i db = (case map_of (user_rows db) i of None \<Rightarrow> Inl User_Not_Found | Some u \<Rightarrow> Inr (i, u))"

definition GetUserByIdentifier :: "string \<Rightarrow> auth_db \<Rightarrow> auth_error + int \<times> user_row" where
  "GetUserByIdentifier identifier db =
     (if normal_name identifier = [] then Inl User_Not_Found
      else (case find_user (normal_name identifier) db of None \<Rightarrow> Inl User_Not_Found | Some x \<Rightarrow> Inr x))"

definition VerifyPassword :: "(string \<Rightarrow> string \<Rightarrow> bool) \<Rightarrow> int \<Rightarrow> string \<Rightarrow> auth_db \<Rightarrow> auth_error option" where
  "VerifyPassword verify i password db =
     (case map_of (user_rows db) i of
        None \<Rightarrow> Some User_Not_Found
      | Some u \<Rightarrow> if verify password (u_hash u) then None else Some Incorrect_Password)"

definition ChangePassword :: "(string \<Rightarrow> string) \<Rightarrow> int \<Rightarrow> string \<Rightarrow> auth_db \<Rightarrow> auth_db" where
  "ChangePassword hash i newPassword db = update_user i (\<lambda>u. u\<lparr>u_hash := hash newPassword\<rparr>) db"

definition UpdateUserProfile ::
    "int \<Rightarrow> string option \<Rightarrow> string option \<Rightarrow> string option \<Rightarrow> auth_db \<Rightarrow> auth_error + (int \<times> user_row) \<times> auth_db" where
  "UpdateUserProfile i displayName bio email db =
     (case (case email of
              None \<Rightarrow> Inr db
            | Some e \<Rightarrow>
                if list_ex (\<lambda>(j, u). u_email u = normal_name e \<and> j \<noteq> i) (user_rows db) then Inl Email_In_Use
                else Inr (update_user i (\<lambda>u. u\<lparr>u_email := normal_name e, u_verified := False\<rparr>) db)) of
        Inl err \<Rightarrow> Inl err
      | Inr db1 \<Rightarrow>
          let db2 = (case displayName of None \<Rightarrow> db1 | Some d \<Rightarrow> update_user i (\<lambda>u. u\<lparr>u_display := Some (TrimSpace d)\<rparr>) db1);
              db3 = (case bio of None \<Rightarrow> db2 | Some b \<Rightarrow> update_user i (\<lambda>u. u\<lparr>u_bio := Some (TrimSpace b)\<rparr>) db2)
          in (case map_of (user_rows db3) i of None \<Rightarrow> Inl User_Not_Found | Some u \<Rightarrow> Inr ((i, u), db3)))"

text \<open>Moderation.\<close>

definition SuspendUser :: "int \<Rightarrow> string \<Rightarrow> auth_db \<Rightarrow> auth_error + auth_db" where
  "SuspendUser i reason db =
     (if map_of (user_rows db) i = None then Inl User_Not_Found
      else Inr (update_user i (\<lambda>u. u\<lparr>u_suspended := True, u_suspend_reason := reason\<rparr>) db))"

definition ActivateUser :: "int \<Rightarrow> auth_db \<Rightarrow> auth_error + auth_db" where
  "ActivateUser i db =
     (if map_of (user_rows db) i = None then Inl User_Not_Found
      else Inr (update_user i (\<lambda>u. u\<lparr>u_suspended := False, u_suspend_reason := []\<rparr>) db))"

section \<open>Password resets\<close>

text \<open>For an unknown address the token is empty and there is no error.\<close>

definition CreatePasswordResetToken ::
    "(string \<Rightarrow> string) \<Rightarrow> string \<Rightarrow> int \<Rightarrow> string \<Rightarrow> string \<Rightarrow> auth_db \<Rightarrow> auth_error + string \<times> auth_db" where
  "CreatePasswordResetToken hashToken buf now' email0 userType db =
     (let email = normal_name email0;
          owner = (if userType = ''admin'' then map_option fst (List.find (\<lambda>x. a_email (snd x) = email) (admin_rows db))
                   else map_option fst (List.find (\<lambda>x. u_email (snd x) = email) (user_rows db)))
      in case owner of
           None \<Rightarrow> Inr ([], db)
         | Some i \<Rightarrow>
             let token = URL_Encode buf
             in if map_of (resets db) (hashToken token) \<noteq> None then Inl Reset_Not_Stored
                else Inr (token, db\<lparr>resets := (hashToken token, \<lparr>pr_type = userType, pr_owner = i,
                       pr_expires = now' + days_of 1, pr_used = None\<rparr>) # resets db\<rparr>))"

definition ValidatePasswordResetToken :: "(string \<Rightarrow> string) \<Rightarrow> int \<Rightarrow> string \<Rightarrow> auth_db \<Rightarrow> auth_error + int \<times> string" where
  "ValidatePasswordResetToken hashToken now' token db =
     (case map_of (resets db) (hashToken token) of
        None \<Rightarrow> Inl Reset_Invalid
      | Some r \<Rightarrow> if pr_expires r > now' \<and> pr_used r = None then Inr (pr_owner r, pr_type r) else Inl Reset_Invalid)"

text \<open>The UPDATE that marks a token as used; it counts a row only when it was not used before.\<close>

definition consume_reset :: "string \<Rightarrow> int \<Rightarrow> auth_db \<Rightarrow> bool \<times> auth_db" where
  "consume_reset h now' db =
     (case map_of (resets db) h of
        Some r \<Rightarrow> if pr_used r = None then (True, db\<lparr>resets := AList.update h (r\<lparr>pr_used := Some now'\<rparr>) (resets db)\<rparr>) else (False, db)
      | None \<Rightarrow> (False, db))"

text \<open>The steps after the check, of which the first is the race.\<close>

definition ResetPassword_spend ::
    "(string \<Rightarrow> string) \<Rightarrow> (string \<Rightarrow> string) \<Rightarrow> int \<Rightarrow> string \<Rightarrow> string \<Rightarrow> int \<times> string \<Rightarrow> auth_db \<Rightarrow> auth_error + auth_db" where
  "ResetPassword_spend hash hashToken now' token newPassword owner db =
     (let (ok, db1) = consume_reset (hashToken token) now' db
      in if \<not> ok then Inl Reset_Already_Used
         else if snd owner = ''admin''
         then Inr (let db2 = update_admin (fst owner) (\<lambda>a. a\<lparr>a_hash := hash newPassword\<rparr>) db1
              in db2\<lparr>admin_sessions := filter (\<lambda>(sid, s). s_owner s \<noteq> fst owner) (admin_sessions db2)\<rparr>)
         else Inr (let db2 = update_user (fst owner) (\<lambda>u. u\<lparr>u_hash := hash newPassword\<rparr>) db1
              in db2\<lparr>user_sessions := filter (\<lambda>(sid, s). s_owner s \<noteq> fst owner) (user_sessions db2)\<rparr>))"

definition ResetPassword ::
    "(string \<Rightarrow> string) \<Rightarrow> (string \<Rightarrow> string) \<Rightarrow> int \<Rightarrow> string \<Rightarrow> string \<Rightarrow> auth_db \<Rightarrow> auth_error + auth_db" where
  "ResetPassword hash hashToken now' token newPassword db =
     (case ValidatePasswordResetToken hashToken now' token db of
        Inl e \<Rightarrow> Inl e
      | Inr owner \<Rightarrow> ResetPassword_spend hash hashToken now' token newPassword owner db)"

end
