(* ===== verification/AuthHandlers.thy ===== *)
theory AuthHandlers
  imports Auth Invites
begin

text \<open>
  The handlers of \<^verbatim>\<open>src/server/handler/auth_user.go\<close>, \<^verbatim>\<open>password.go\<close> and
  \<^verbatim>\<open>user_security.go\<close> for accounts and sessions, and the session middlewares. The fields of a
  request, from the form or from JSON, are arguments; an answer is its status or redirect, with the
  cookie it sets. Statuses are those for JSON; a refused form is shown again with 422 instead of 400.
  An expiry date of a cookie is given as its age.
\<close>

section \<open>Session middlewares\<close>

text \<open>The user whose page the next handler serves; \<open>None\<close> is the redirect to the log-in page.\<close>

definition UserAuthMiddleware :: "int \<Rightarrow> http_request \<Rightarrow> auth_db \<Rightarrow> (int \<times> user_row) option" where
  "UserAuthMiddleware now' r db =
     (case request_cookie (rq_cookies r) ''user_session'' of
        None \<Rightarrow> None
      | Some sid \<Rightarrow>
          if sid = [] then None
          else (case ValidateUserSession now' sid db of Inl e \<Rightarrow> None | Inr u \<Rightarrow> Some u))"

definition AdminAuthMiddleware :: "int \<Rightarrow> http_request \<Rightarrow> auth_db \<Rightarrow> (int \<times> admin_row) option" where
  "AdminAuthMiddleware now' r db =
     (case request_cookie (rq_cookies r) ''admin_session'' of
        None \<Rightarrow> None
      | Some sid \<Rightarrow>
          if sid = [] then None
          else (case ValidateSession now' sid db of Inl e \<Rightarrow> None | Inr a \<Rightarrow> Some a))"

section \<open>Log-in and log-out\<close>

datatype auth_answer =
    Refused int string                \<comment> \<open>status and message\<close>
  | Two_Factor_Needed set_cookie      \<comment> \<open>redirect to the page for the code\<close>
  | Signed_In set_cookie
  | Signed_Out set_cookie
  | Redirected string
  | Told string                       \<comment> \<open>200 and a message\<close>

definition user_session_cookie :: "bool \<Rightarrow> string \<Rightarrow> int \<Rightarrow> set_cookie" where
  "user_session_cookie tls sid maxAge =
     \<lparr>sc_name = ''user_session'', sc_value = sid, sc_path = ''/'', sc_max_age = maxAge, sc_http_only = True,
      sc_secure = tls, sc_same_site = ''Lax''\<rparr>"

definition Login ::
    "(string \<Rightarrow> string \<Rightarrow> bool) \<Rightarrow> string \<Rightarrow> int \<Rightarrow> bool \<Rightarrow> string \<Rightarrow> string \<Rightarrow> bool \<Rightarrow> auth_db \<Rightarrow> auth_answer \<times> auth_db" where
  "Login verify buf now' tls identifier password rememberMe db =
     (case AuthenticateUser verify now' identifier password db of
        Inl e \<Rightarrow> (Refused 401 ''Invalid credentials'', db)
      | Inr ((i, u), db1) \<Rightarrow>
          if u_totp u then
            (case CreateUserSession buf now' i False db1 of
               Inl e \<Rightarrow> (Refused 500 ''Failed to create 2FA session'', db1)
             | Inr (sid, db2) \<Rightarrow>
                 (Two_Factor_Needed \<lparr>sc_name = ''2fa_pending'', sc_value = sid, sc_path = ''/'', sc_max_age = 300,
                    sc_http_only = True, sc_secure = tls, sc_same_site = ''Lax''\<rparr>, db2))
          else
            (case CreateUserSession buf now' i rememberMe db1 of
               Inl e \<Rightarrow> (Refused 500 ''Authentication succeeded but session creation failed'', db1)
             | Inr (sid, db2) \<Rightarrow>
                 (Signed_In (user_session_cookie tls sid (if rememberMe then days_of 30 else days_of 7)), db2)))"

definition Logout :: "http_request \<Rightarrow> auth_db \<Rightarrow> auth_answer \<times> auth_db" where
  "Logout r db =
     (Signed_Out (user_session_cookie (rq_tls r) [] (-1)),
      case request_cookie (rq_cookies r) ''user_session'' of
        Some sid \<Rightarrow> if sid \<noteq> [] then RevokeSession sid db else db
      | None \<Rightarrow> db)"

section \<open>Registration\<close>

text \<open>The registration mode of the configuration.\<close>

record registration_config =
  reg_enabled :: bool
  reg_mode :: string

definition NormalizedMode :: "registration_config \<Rightarrow> string" where
  "NormalizedMode c =
     (let m = ToLower (TrimSpace (reg_mode c))
      in if m \<in> {''open'', ''invite'', ''admin_only'', ''disabled''} then m else ''open'')"

definition PublicSelfRegistrationAllowed :: "registration_config \<Rightarrow> bool" where
  "PublicSelfRegistrationAllowed c \<longleftrightarrow> reg_enabled c \<and> NormalizedMode c = ''open''"

definition InviteAcceptanceAllowed :: "registration_config \<Rightarrow> bool" where
  "InviteAcceptanceAllowed c \<longleftrightarrow> reg_enabled c \<and> NormalizedMode c \<in> {''open'', ''invite'', ''admin_only''}"

definition hasValidRegistrationInvite :: "(string \<Rightarrow> string) \<Rightarrow> registration_config \<Rightarrow> int \<Rightarrow> string \<Rightarrow> invite_db \<Rightarrow> bool" where
  "hasValidRegistrationInvite tokenHash c now' token idb =
     (if token = [] then False
      else if \<not> InviteAcceptanceAllowed c then False
      else (case ValidateInvite tokenHash (now' * a_second) token ''user_registration'' idb of Inl e \<Rightarrow> False | Inr iv \<Rightarrow> True))"

text \<open>The outcome of the consumption of the invite is only logged.\<close>

definition Register ::
    "(string \<Rightarrow> string) \<Rightarrow> (string \<Rightarrow> string) \<Rightarrow> registration_config \<Rightarrow> string \<Rightarrow> int \<Rightarrow> bool \<Rightarrow> string \<Rightarrow> string \<Rightarrow> string \<Rightarrow> string \<Rightarrow>
     org_db \<Rightarrow> invite_db \<Rightarrow> auth_db \<Rightarrow> auth_answer \<times> invite_db \<times> auth_db" where
  "Register hash tokenHash c buf now' tls username email password invite0 odb idb db =
     (let invite = TrimSpace invite0; hasInvite = hasValidRegistrationInvite tokenHash c now' invite idb
      in if \<not> PublicSelfRegistrationAllowed c \<and> \<not> hasInvite then (Refused 403 ''Registration closed'', idb, db)
         else if ValidateUsername username False \<noteq> None then (Refused 400 ''Invalid user name'', idb, db)
         else if ValidateEmail email \<noteq> None then (Refused 400 ''Invalid email'', idb, db)
         else if length password < 8 then (Refused 400 ''Password must be at least 8 characters'', idb, db)
         else
           (case RegisterUser hash username email password odb db of
              Inl e \<Rightarrow> (Refused 400 ''Unable to complete registration'', idb, db)
            | Inr (i, db1) \<Rightarrow>
                let idb1 = (if hasInvite
                     then snd (ConsumeInvite tokenHash (now' * a_second) (now' * a_second) invite ''user_registration'' i idb) else idb)
                in (case CreateUserSession buf now' i False db1 of
                      Inl e \<Rightarrow> (Refused 500 ''Registration succeeded but session creation failed'', idb1, db1)
                    | Inr (sid, db2) \<Rightarrow> (Signed_In (user_session_cookie tls sid (days_of 7)), idb1, db2))))"

section \<open>Passwords\<close>

text \<open>
  The mail with the link, if one is sent, to the address as it was typed. The host of the link is the Host header of the
  request; the answer is the same whether the address is known or not.
\<close>

definition ForgotPassword ::
    "(string \<Rightarrow> string) \<Rightarrow> string \<Rightarrow> int \<Rightarrow> bool \<Rightarrow> bool \<Rightarrow> string \<Rightarrow> string \<Rightarrow> auth_db \<Rightarrow> auth_answer \<times> (string \<times> string) option \<times> auth_db" where
  "ForgotPassword hashToken buf now' smtp tls host email db =
     (if \<not> smtp then (Refused 503 ''Email features not available'', None, db)
      else
        let (token, db') = (case CreatePasswordResetToken hashToken buf now' email ''user'' db of Inl e \<Rightarrow> ([], db) | Inr x \<Rightarrow> x)
        in (Told ''If an account exists, instructions have been sent.'',
            if token \<noteq> [] then Some (email, (if tls then ''https'' else ''http'') @ ''://'' @ host @ ''/server/auth/password/reset/'' @ token)
            else None,
            db'))"

definition ResetPassword_handler ::
    "(string \<Rightarrow> string) \<Rightarrow> (string \<Rightarrow> string) \<Rightarrow> int \<Rightarrow> string \<Rightarrow> string \<Rightarrow> string \<Rightarrow> auth_db \<Rightarrow> auth_answer \<times> auth_db" where
  "ResetPassword_handler hash hashToken now' token password confirm db =
     (if password \<noteq> confirm then (Refused 400 ''Passwords do not match'', db)
      else if length password < 8 then (Refused 400 ''Password must be at least 8 characters'', db)
      else
        (case ResetPassword hash hashToken now' token password db of
           Inl e \<Rightarrow> (Refused 400 ''Invalid or expired reset token'', db)
         | Inr db' \<Rightarrow> (Redirected ''/server/auth/login?reset=1'', db')))"

definition handlePasswordChange ::
    "(string \<Rightarrow> string) \<Rightarrow> (string \<Rightarrow> string \<Rightarrow> bool) \<Rightarrow> int \<Rightarrow> string \<Rightarrow> string \<Rightarrow> string \<Rightarrow> auth_db \<Rightarrow> auth_answer \<times> auth_db" where
  "handlePasswordChange hash verify user current0 new0 confirm0 db =
     (let current = TrimSpace current0; new = TrimSpace new0; confirm = TrimSpace confirm0
      in if current = [] \<or> new = [] \<or> confirm = [] then (Refused 400 ''All fields are required'', db)
         else if new \<noteq> confirm then (Refused 400 ''New passwords do not match'', db)
         else if length new < 8 then (Refused 400 ''Password must be at least 8 characters'', db)
         else if VerifyPassword verify user current db \<noteq> None then (Refused 401 ''Current password is incorrect'', db)
         else (Redirected ''/users/security?msg=password_changed'', ChangePassword hash user new db))"

definition handleSessionRevocation :: "int \<Rightarrow> int \<Rightarrow> string \<Rightarrow> auth_db \<Rightarrow> auth_answer \<times> auth_db" where
  "handleSessionRevocation now' user sid0 db =
     (let sid = TrimSpace sid0
      in if sid = [] then (Refused 400 ''Session ID is required'', db)
         else if \<not> list_ex (\<lambda>x. fst x = sid) (GetUserSessions now' user ''user'' db) then (Refused 403 ''Session not found'', db)
         else (Redirected ''/users/security/sessions?msg=session_revoked'', RevokeSession sid db))"

section \<open>Administrators\<close>

definition admin_cookie :: "bool \<Rightarrow> string \<Rightarrow> string \<Rightarrow> int \<Rightarrow> set_cookie" where
  "admin_cookie tls path sid maxAge =
     \<lparr>sc_name = ''admin_session'', sc_value = sid, sc_path = path, sc_max_age = maxAge, sc_http_only = True,
      sc_secure = tls, sc_same_site = ''Strict''\<rparr>"

definition Admin_Login ::
    "(string \<Rightarrow> string \<Rightarrow> bool) \<Rightarrow> string \<Rightarrow> int \<Rightarrow> bool \<Rightarrow> string \<Rightarrow> string \<Rightarrow> string \<Rightarrow> bool \<Rightarrow> auth_db \<Rightarrow> auth_answer \<times> auth_db" where
  "Admin_Login verify buf now' tls basePath username password rememberMe db =
     (case AuthenticateAdmin verify now' username password db of
        Inl e \<Rightarrow> (Refused 200 ''Invalid username or password'', db)
      | Inr ((i, a), db1) \<Rightarrow>
          (case CreateSession buf now' i rememberMe db1 of
             Inl e \<Rightarrow> (Refused 200 ''Failed to create session'', db1)
           | Inr (sid, db2) \<Rightarrow> (Signed_In (admin_cookie tls basePath sid (if rememberMe then days_of 90 else days_of 30)), db2)))"

definition Admin_Logout :: "string \<Rightarrow> http_request \<Rightarrow> auth_db \<Rightarrow> auth_answer \<times> auth_db" where
  "Admin_Logout basePath r db =
     (Signed_Out ((admin_cookie False basePath [] (-1))\<lparr>sc_same_site := []\<rparr>),
      case request_cookie (rq_cookies r) ''admin_session'' of Some sid \<Rightarrow> DeleteSession sid db | None \<Rightarrow> db)"

end
