(* ===== verification/Base32.thy ===== *)
theory Base32
  imports GoStrings
begin

text \<open>
  \<open>encoding/base32\<close> of Go with the standard alphabet, as the secrets of the second factor use it
  (\<^verbatim>\<open>src/server/service/totp.go\<close>). Bytes are characters.
\<close>

section \<open>Digits and numbers\<close>

text \<open>The alphabet: A to Z, 2 to 7.\<close>

definition b32_digit :: "nat \<Rightarrow> char" where
  "b32_digit n = (if n < 26 then char_of (65 + n) else char_of (24 + n))"

definition b32_value :: "char \<Rightarrow> nat option" where
  "b32_value c =
     (if is_upper c then Some (code c - 65)
      else if 50 \<le> code c \<and> code c \<le> (55 :: nat) then Some (code c - 24)
      else None)"

text \<open>A number from digits of some base, the highest first, and back.\<close>

definition number :: "nat \<Rightarrow> nat list \<Rightarrow> nat" where
  "number b ds = foldl (\<lambda>n d. b * n + d) 0 ds"

definition digits :: "nat \<Rightarrow> nat \<Rightarrow> nat \<Rightarrow> nat list" where
  "digits b k n = map (\<lambda>j. n div b ^ j mod b) (rev [0..<k])"

section \<open>The encoding\<close>

text \<open>Five bytes make eight digits; a shorter rest is filled up with padding.\<close>

fun b32_encode :: "string \<Rightarrow> string" where
  "b32_encode [] = []"
| "b32_encode (a # b # c # d # e # s) = map b32_digit (digits 32 8 (number 256 (map code [a, b, c, d, e]))) @ b32_encode s"
| "b32_encode s =
     (let k = (8 * length s + 4) div 5
      in map b32_digit (take k (digits 32 8 (number 256 (map code s @ replicate (5 - length s) 0)))) @ replicate (8 - k) (CHR ''=''))"

text \<open>
  Reads up to eight digits: the digits, whether padding ended the text, and the rest. Padding that
  is too short, mixed with digits or of an impossible length is refused, and so is a text that ends in
  the middle.
\<close>

fun b32_quantum :: "nat list \<Rightarrow> string \<Rightarrow> (nat list \<times> bool \<times> string) option" where
  "b32_quantum acc s =
     (if length acc \<ge> 8 then Some (acc, False, s)
      else
        (case s of
           [] \<Rightarrow> None
         | c # r \<Rightarrow>
             if c = CHR ''='' \<and> length acc \<ge> 2 \<and> length r < 8 then
               (if length r + length acc < 7 \<or> (\<exists>x \<in> set (take (7 - length acc) r). x \<noteq> CHR ''='') \<or>
                   length acc \<in> {1, 3, 6} then None
                else Some (acc, True, r))
             else (case b32_value c of None \<Rightarrow> None | Some d \<Rightarrow> b32_quantum (acc @ [d]) r)))"

declare b32_quantum.simps [simp del]

definition b32_bytes :: "nat list \<Rightarrow> string" where
  "b32_bytes ds = map char_of (take (length ds * 5 div 8) (digits 256 5 (number 32 (ds @ replicate (8 - length ds) 0))))"

lemma b32_quantum_length: "b32_quantum acc s = Some (ds, fin, r) \<Longrightarrow> length acc < 8 \<Longrightarrow> length r < length s"
proof (induction acc s rule: b32_quantum.induct)
  case (1 acc s)
  have "s \<noteq> []" using 1(2,3) by (auto simp: b32_quantum.simps [of acc s])
  then obtain c t where s: "s = c # t" by (cases s) auto
  show ?case
  proof (cases "c = CHR ''='' \<and> length acc \<ge> 2 \<and> length t < 8")
    case True
    then show ?thesis using 1(2,3) s by (auto simp: b32_quantum.simps [of acc "x # t" for x] split: if_splits)
  next
    case False
    then obtain d where d: "b32_value c = Some d" "b32_quantum (acc @ [d]) t = Some (ds, fin, r)"
      using 1(2,3) s by (auto simp: b32_quantum.simps [of acc "x # t" for x] split: option.splits)
    show ?thesis
    proof (cases "length (acc @ [d]) < 8")
      case True
      then show ?thesis using 1(1) [OF _ s False d(1,2)] 1(3) s by simp
    next
      case False
      then show ?thesis using d(2) s by (simp add: b32_quantum.simps [of "acc @ [d]"])
    qed
  qed
qed

function b32_blocks :: "string \<Rightarrow> string option" where
  "b32_blocks s =
     (if s = [] then Some []
      else
        (case b32_quantum [] s of
           None \<Rightarrow> None
         | Some (ds, fin, r) \<Rightarrow> if fin then Some (b32_bytes ds) else map_option (\<lambda>t. b32_bytes ds @ t) (b32_blocks r)))"
  by pat_completeness auto
termination by (relation "measure length") (auto dest: b32_quantum_length)

declare b32_blocks.simps [simp del]

text \<open>Line breaks are skipped.\<close>

definition b32_decode :: "string \<Rightarrow> string option" where
  "b32_decode s = b32_blocks (filter (\<lambda>c. code c \<noteq> (10::nat) \<and> code c \<noteq> (13::nat)) s)"

section \<open>Decoding what was encoded\<close>

lemma b32_value_digit: "n < 32 \<Longrightarrow> b32_value (b32_digit n) = Some n"
  by (auto simp: b32_value_def b32_digit_def is_upper_def of_char_of)

lemma b32_digit_not: "n < 32 \<Longrightarrow> b32_digit n \<noteq> CHR ''='' \<and> code (b32_digit n) \<noteq> (10::nat) \<and> code (b32_digit n) \<noteq> (13::nat) \<and>
    \<not> go_space (b32_digit n) \<and> \<not> is_lower (b32_digit n)"
  by (auto simp: b32_digit_def go_space_def is_lower_def char_of_eq of_char_of)

lemma number_snoc: "number b (ds @ [d]) = b * number b ds + d"
  by (simp add: number_def)

lemma digits_Suc: "digits b (Suc k) n = digits b k (n div b) @ [n mod b]"
proof -
  have "[0..<Suc k] = 0 # map Suc [0..<k]" by (simp only: map_Suc_upt) (simp add: upt_conv_Cons del: upt_Suc)
  then have "rev [0..<Suc k] = map Suc (rev [0..<k]) @ [0]" by (simp only: rev.simps rev_map)
  then show ?thesis by (simp add: digits_def div_mult2_eq o_def)
qed

lemma digits_number: "\<forall>d \<in> set ds. d < b \<Longrightarrow> digits b (length ds) (number b ds) = ds"
proof (induction ds rule: rev_induct)
  case (snoc d ds)
  then show ?case by (simp add: digits_Suc number_snoc)
qed (simp add: digits_def)

lemma number_digits: "n < b ^ k \<Longrightarrow> number b (digits b k n) = n"
proof (induction k arbitrary: n)
  case 0
  then show ?case by (simp add: digits_def number_def)
next
  case (Suc k)
  then have "n div b < b ^ k" by (simp add: less_mult_imp_div_less mult.commute)
  then show ?case using Suc.IH by (simp add: digits_Suc number_snoc)
qed

lemma number_less: "\<forall>d \<in> set ds. d < b \<Longrightarrow> number b ds < b ^ length ds"
proof (induction ds rule: rev_induct)
  case (snoc d ds)
  then have "number b ds + 1 \<le> b ^ length ds" by simp
  then have "b * (number b ds + 1) \<le> b * b ^ length ds" by (rule mult_le_mono2)
  then show ?case using snoc.prems by (simp add: number_snoc)
qed (simp add: number_def)

lemma length_digits [simp]: "length (digits b k n) = k"
  by (simp add: digits_def)

lemma digits_small: "0 < b \<Longrightarrow> d \<in> set (digits b k n) \<Longrightarrow> d < b"
  by (auto simp: digits_def)

lemma quantum_digits:
  "length acc + length ds = 8 \<Longrightarrow> \<forall>d \<in> set ds. d < 32 \<Longrightarrow> b32_quantum acc (map b32_digit ds @ s) = Some (acc @ ds, False, s)"
proof (induction ds arbitrary: acc)
  case Nil
  then show ?case by (simp add: b32_quantum.simps)
next
  case (Cons d ds)
  then show ?case using Cons.IH [of "acc @ [d]"] by (simp add: b32_quantum.simps [of acc] b32_value_digit b32_digit_not)
qed

lemma five_dvd: "5 dvd length (a # b # c # d # e # s) \<longleftrightarrow> 5 dvd length s"
  by simp presburger

lemma encode_chars: "5 dvd length s \<Longrightarrow> c \<in> set (b32_encode s) \<Longrightarrow> \<exists>n<32. c = b32_digit n"
proof (induction s rule: b32_encode.induct)
  case (2 a b c' d e s)
  then show ?case unfolding five_dvd by (auto dest: digits_small [rotated])
qed (simp_all add: dvd_eq_mod_eq_0)

lemma blocks_encode: "5 dvd length s \<Longrightarrow> b32_blocks (b32_encode s) = Some s"
proof (induction s rule: b32_encode.induct)
  case (2 a b c d e s)
  let ?bs = "map code [a, b, c, d, e] :: nat list"
  let ?ds = "digits 32 8 (number 256 ?bs)"
  have small: "\<forall>x \<in> set ?bs. x < 256" by simp
  have "number 256 ?bs < 32 ^ 8" using number_less [OF small] by simp
  then have "b32_bytes ?ds = map char_of (digits 256 5 (number 256 ?bs))" by (simp add: b32_bytes_def number_digits)
  also have "\<dots> = map char_of (digits 256 (length ?bs) (number 256 ?bs))" by (simp add: numeral_eq_Suc)
  also have "\<dots> = [a, b, c, d, e]" unfolding digits_number [OF small] by simp
  finally have bytes: "b32_bytes ?ds = [a, b, c, d, e]" .
  define D where "D = ?ds"
  have "length D = 8" "\<forall>x \<in> set D. x < 32" by (auto simp: D_def dest: digits_small [rotated])
  then have q: "b32_quantum [] (map b32_digit D @ b32_encode s) = Some (D, False, b32_encode s)"
      and ne: "map b32_digit D @ b32_encode s \<noteq> []"
    using quantum_digits [of "[]" D "b32_encode s"] by auto
  have enc: "b32_encode (a # b # c # d # e # s) = map b32_digit D @ b32_encode s" by (simp add: D_def)
  have "b32_blocks (b32_encode s) = Some s" using 2 unfolding five_dvd by blast
  then show ?case using q ne bytes unfolding enc D_def [symmetric]
    by (subst b32_blocks.simps) simp
qed (simp_all add: b32_blocks.simps dvd_eq_mod_eq_0)

theorem b32_decode_encode: "5 dvd length s \<Longrightarrow> b32_decode (b32_encode s) = Some s"
  unfolding b32_decode_def using blocks_encode [of s] encode_chars [of s] b32_digit_not
  by (subst filter_True) auto

end
