(* ===== verification/Totp.thy ===== *)
theory Totp
  imports AuthHandlers Base32
begin

text \<open>
  The second factor: \<^verbatim>\<open>src/server/service/totp.go\<close> over the table \<open>totp_secrets\<close>, the
  sealing of \<^verbatim>\<open>src/common/crypto/crypto.go\<close>, the page that asks for the code
  (\<^verbatim>\<open>src/server/handler/two_factor.go\<close>) and the pages that manage it
  (\<^verbatim>\<open>src/server/handler/user_security.go\<close>). HMAC-SHA1, AES-GCM and Argon2id are arguments, as are
  the random bytes. The JSON text of the recovery keys is kept as text.
\<close>

section \<open>Sealing\<close>

text \<open>\<open>base64.StdEncoding.DecodeString\<close>, which wants its padding and skips line breaks.\<close>

definition Std_Decode :: "string \<Rightarrow> string option" where
  "Std_Decode s =
     (let t = filter (\<lambda>c. code c \<noteq> (10::nat) \<and> code c \<noteq> (13::nat)) s
      in if length t mod 4 \<noteq> 0 then None else map_option b64_groups (those (map b64_value (drop_padding t))))"

text \<open>AES-GCM: key, nonce and text to the sealed text with its tag, and back.\<close>

record gcm =
  seal :: "string \<Rightarrow> string \<Rightarrow> string \<Rightarrow> string"
  unseal :: "string \<Rightarrow> string \<Rightarrow> string \<Rightarrow> string option"

definition EncryptGCM :: "gcm \<Rightarrow> string \<Rightarrow> string \<Rightarrow> string \<Rightarrow> string option" where
  "EncryptGCM g nonce key plaintext =
     (if length key \<noteq> 32 then None else Some (btoa (nonce @ seal g key nonce plaintext)))"

definition DecryptGCM :: "gcm \<Rightarrow> string \<Rightarrow> string \<Rightarrow> string option" where
  "DecryptGCM g key encoded =
     (if length key \<noteq> 32 then None
      else
        (case Std_Decode encoded of
           None \<Rightarrow> None
         | Some sealed \<Rightarrow> if length sealed < 12 then None else unseal g key (take 12 sealed) (drop 12 sealed)))"

section \<open>The service\<close>

record totp_row =
  t_secret :: string
  t_enabled :: bool
  t_codes :: string        \<comment> \<open>\<open>backup_codes\<close>\<close>
  t_key_version :: int

text \<open>The rows of users, by id. The key of the service may be empty.\<close>

type_synonym totp_db = "(int \<times> totp_row) list"

record totp_service =
  gcm_of :: gcm
  encryptionKey :: string
  encryptionKeyVersion :: int

datatype totp_error = Seal_Failed | No_Second_Factor | Codes_Unreadable | Key_Invalid | Totp_Disabled | Unseal_Failed

definition encryptSecret :: "totp_service \<Rightarrow> string \<Rightarrow> string \<Rightarrow> totp_error + string \<times> int" where
  "encryptSecret s nonce plaintext =
     (if encryptionKey s = [] then Inr (plaintext, 0)
      else (case EncryptGCM (gcm_of s) nonce (encryptionKey s) plaintext of
              None \<Rightarrow> Inl Seal_Failed | Some c \<Rightarrow> Inr (c, encryptionKeyVersion s)))"

definition decryptSecret :: "totp_service \<Rightarrow> string \<Rightarrow> int \<Rightarrow> totp_error + string" where
  "decryptSecret s stored keyVersion =
     (if keyVersion = 0 then Inr stored
      else if encryptionKey s = [] then Inl Unseal_Failed
      else (case DecryptGCM (gcm_of s) (encryptionKey s) stored of None \<Rightarrow> Inl Unseal_Failed | Some p \<Rightarrow> Inr p))"

text \<open>Twenty random bytes.\<close>

definition GenerateTOTPSecret :: "string \<Rightarrow> string" where
  "GenerateTOTPSecret buf = rev (dropWhile (\<lambda>c. c = CHR ''='') (rev (b32_encode buf)))"

text \<open>From six random bytes each.\<close>

definition recovery_key :: "string \<Rightarrow> string" where
  "recovery_key buf = (let h = EncodeToString (map code buf) in take 8 h @ [hyphen] @ drop 8 h)"

definition GenerateRecoveryKeys :: "string list \<Rightarrow> string list" where
  "GenerateRecoveryKeys bufs = map recovery_key bufs"

definition VerifyRecoveryKey :: "idkey \<Rightarrow> string \<Rightarrow> string \<Rightarrow> bool" where
  "VerifyRecoveryKey idkey key h = verifyPasswordArgon2id idkey (normal_name key) h"

text \<open>HMAC-SHA1 of a key and a message, 20 bytes.\<close>

type_synonym hmac = "string \<Rightarrow> string \<Rightarrow> string"

text \<open>The step as eight bytes, the highest first.\<close>

definition step_bytes :: "int \<Rightarrow> string" where
  "step_bytes timeStep = map char_of (digits 256 8 (unat (word_of_int timeStep :: 64 word)))"

text \<open>Six digits with leading zeros.\<close>

definition six_digits :: "nat \<Rightarrow> string" where
  "six_digits n = map (\<lambda>d. char_of (48 + d)) (digits 10 6 n)"

definition generateTOTPCode :: "hmac \<Rightarrow> string \<Rightarrow> int \<Rightarrow> string" where
  "generateTOTPCode hmac secret timeStep =
     (let h = hmac secret (step_bytes timeStep);
          offset = code (last h) mod 16;
          truncated = number 256 (map code (take 4 (drop offset h))) mod 2 ^ 31
      in six_digits (truncated mod 1000000))"

text \<open>The current step, of 30 seconds; the division of Go drops the fraction.\<close>

definition current_step :: "int \<Rightarrow> int" where
  "current_step now' = (if now' < 0 then - ((- now') div 30) else now' div 30)"

definition VerifyTOTPCode :: "hmac \<Rightarrow> int \<Rightarrow> string \<Rightarrow> string \<Rightarrow> bool" where
  "VerifyTOTPCode hmac now' secret code' =
     (if length code' \<noteq> 6 then False
      else
        (case b32_decode (ToUpper (TrimSpace secret)) of
           None \<Rightarrow> False
         | Some key \<Rightarrow> list_ex (\<lambda>off. generateTOTPCode hmac key (current_step now' + off) = code') [-1, 0, 1]))"

text \<open>
  The keys are hashed with one salt each and written as a JSON array by hand; the row is inserted or
  replaced, and the account marked.
\<close>

definition EnableTOTP ::
    "totp_service \<Rightarrow> idkey \<Rightarrow> string list \<Rightarrow> string list \<Rightarrow> string \<Rightarrow> int \<Rightarrow> string \<Rightarrow> auth_db \<times> totp_db \<Rightarrow>
     totp_error + string list \<times> auth_db \<times> totp_db" where
  "EnableTOTP s idkey bufs salts nonce userID secret st =
     (let recoveryKeys = GenerateRecoveryKeys bufs;
          hashedKeys = map2 (hashPasswordArgon2id idkey) salts recoveryKeys
      in (case encryptSecret s nonce secret of
            Inl e \<Rightarrow> Inl e
          | Inr (storedSecret, keyVersion) \<Rightarrow>
              let codes = ''['' @ [dquote] @ join_with [dquote, CHR '','', dquote] hashedKeys @ [dquote] @ '']''
              in Inr (recoveryKeys, update_user userID (\<lambda>u. u\<lparr>u_totp := True\<rparr>) (fst st),
                   AList.update userID \<lparr>t_secret = storedSecret, t_enabled = True, t_codes = codes, t_key_version = keyVersion\<rparr> (snd st))))"

definition DisableTOTP :: "int \<Rightarrow> auth_db \<times> totp_db \<Rightarrow> auth_db \<times> totp_db" where
  "DisableTOTP userID st = (update_user userID (\<lambda>u. u\<lparr>u_totp := False\<rparr>) (fst st), AList.delete userID (snd st))"

text \<open>The decoding of JSON into a list of strings, where null leaves a string empty and a list nil.\<close>

fun json_string :: "json \<Rightarrow> string option" where
  "json_string (JStr s) = Some s"
| "json_string JNull = Some []"
| "json_string _ = None"

definition decode_strings :: "string \<Rightarrow> string list option" where
  "decode_strings s =
     (case JSON_parse s of
        JSON_Value (JArr vs) \<Rightarrow> those (map json_string vs)
      | JSON_Value JNull \<Rightarrow> Some []
      | _ \<Rightarrow> None)"

text \<open>The position of the first hash the key verifies against is spent.\<close>

definition UseRecoveryKey :: "idkey \<Rightarrow> int \<Rightarrow> string \<Rightarrow> totp_db \<Rightarrow> totp_error + totp_db" where
  "UseRecoveryKey idkey userID key0 db =
     (let key = normal_name key0
      in (case map_of db userID of
            None \<Rightarrow> Inl No_Second_Factor
          | Some r \<Rightarrow>
              if \<not> t_enabled r then Inl No_Second_Factor
              else
                (case (if t_codes r \<noteq> [] then decode_strings (t_codes r) else Some []) of
                   None \<Rightarrow> Inl Codes_Unreadable
                 | Some hashes \<Rightarrow>
                     let i = length (takeWhile (\<lambda>h. \<not> VerifyRecoveryKey idkey key h) hashes)
                     in if i = length hashes then Inl Key_Invalid
                        else Inr (AList.update userID
                          (r\<lparr>t_codes := stringify (JArr (map JStr (take i hashes @ drop (i + 1) hashes)))\<rparr>) db))))"

text \<open>\<open>strings.Split\<close> with a separator that is not empty.\<close>

function split_text :: "string \<Rightarrow> string \<Rightarrow> string list" where
  "split_text sep [] = [[]]"
| "split_text sep (c # cs) =
     (if sep \<noteq> [] \<and> prefix sep (c # cs) then [] # split_text sep (drop (length sep) (c # cs))
      else (case split_text sep cs of [] \<Rightarrow> [[c]] | w # ws \<Rightarrow> (c # w) # ws))"
  by pat_completeness auto
termination by (relation "measure (length \<circ> snd)") auto

definition GetRemainingRecoveryKeyCount :: "int \<Rightarrow> totp_db \<Rightarrow> totp_error + nat" where
  "GetRemainingRecoveryKeyCount userID db =
     (case map_of db userID of
        None \<Rightarrow> Inl No_Second_Factor
      | Some r \<Rightarrow>
          if \<not> t_enabled r then Inl No_Second_Factor
          else
            let s = strip (\<lambda>c. c = CHR ''['' \<or> c = CHR '']'') (t_codes r)
            in if s = [] then Inr 0 else Inr (length (split_text [dquote, CHR '','', dquote] s)))"

definition GetTOTPSecret :: "totp_service \<Rightarrow> int \<Rightarrow> totp_db \<Rightarrow> totp_error + string" where
  "GetTOTPSecret s userID db =
     (case map_of db userID of
        None \<Rightarrow> Inl No_Second_Factor
      | Some r \<Rightarrow> if \<not> t_enabled r then Inl Totp_Disabled else decryptSecret s (t_secret r) (t_key_version r))"

definition HasTOTP :: "int \<Rightarrow> totp_db \<Rightarrow> bool" where
  "HasTOTP userID db = (case map_of db userID of None \<Rightarrow> False | Some r \<Rightarrow> t_enabled r)"

end
