(* ===== verification/TotpHandlers.thy ===== *)
theory TotpHandlers
  imports Totp
begin

text \<open>
  The pages of the second factor: the question at log-in
  (\<^verbatim>\<open>src/server/handler/two_factor.go\<close>) and its management
  (\<^verbatim>\<open>src/server/handler/user_security.go\<close>). The picture of the QR code and the mail are left
  out; the cookies of an answer are listed in order.
\<close>

datatype totp_answer =
    Totp_Refused int string
  | Totp_Signed_In "set_cookie list"     \<comment> \<open>redirect to the profile\<close>
  | Keys_Left nat                        \<comment> \<open>the page after a recovery key\<close>
  | Password_Asked
  | Secret_Shown string
  | Keys_Shown "string list"
  | Totp_Disabled_Redirect

section \<open>At log-in\<close>

definition clear_pending_cookie :: set_cookie where
  "clear_pending_cookie =
     \<lparr>sc_name = ''2fa_pending'', sc_value = [], sc_path = ''/'', sc_max_age = -1, sc_http_only = True,
      sc_secure = False, sc_same_site = []\<rparr>"

definition Verify :: "hmac \<Rightarrow> totp_service \<Rightarrow> string \<Rightarrow> int \<Rightarrow> http_request \<Rightarrow> auth_db \<times> totp_db \<Rightarrow> totp_answer \<times> auth_db \<times> totp_db" where
  "Verify hmac s buf now' r st =
     (let code' = TrimSpace (rq_form r ''code'') in
      if rq_method r \<noteq> ''POST'' then (Totp_Refused 405 ''Method not allowed'', st)
      else if code' = [] \<or> length code' \<noteq> 6 then (Totp_Refused 400 ''Invalid code format. Must be 6 digits.'', st)
      else
        (case request_cookie (rq_cookies r) ''2fa_pending'' of
           None \<Rightarrow> (Totp_Refused 401 ''No pending 2FA session. Please log in again.'', st)
         | Some sid \<Rightarrow>
             if sid = [] then (Totp_Refused 401 ''No pending 2FA session. Please log in again.'', st)
             else
               (case ValidateUserSession now' sid (fst st) of
                  Inl e \<Rightarrow> (Totp_Refused 401 ''Invalid or expired 2FA session. Please log in again.'', st)
                | Inr (i, u) \<Rightarrow>
                    (case GetTOTPSecret s i (snd st) of
                       Inl e \<Rightarrow> (Totp_Refused 500 ''Failed to verify 2FA code'', st)
                     | Inr secret \<Rightarrow>
                         if \<not> VerifyTOTPCode hmac now' secret code'
                         then (Totp_Refused 401 ''Invalid verification code. Please try again.'', st)
                         else
                           let db1 = RevokeSession sid (fst st)
                           in (case CreateUserSession buf now' i False db1 of
                                 Inl e \<Rightarrow> (Totp_Refused 500 ''2FA verification succeeded but session creation failed'', db1, snd st)
                               | Inr (sid', db2) \<Rightarrow>
                                   (Totp_Signed_In [clear_pending_cookie, user_session_cookie (rq_tls r) sid' (days_of 7)],
                                    db2, snd st))))))"

definition Recovery :: "idkey \<Rightarrow> int \<Rightarrow> http_request \<Rightarrow> auth_db \<times> totp_db \<Rightarrow> totp_answer \<times> auth_db \<times> totp_db" where
  "Recovery idkey now' r st =
     (let recoveryKey = TrimSpace (rq_form r ''recovery_key'') in
      if rq_method r \<noteq> ''POST'' then (Totp_Refused 405 ''Method not allowed'', st)
      else if recoveryKey = [] then (Totp_Refused 400 ''Recovery key is required'', st)
      else
        (case request_cookie (rq_cookies r) ''2fa_pending'' of
           None \<Rightarrow> (Totp_Refused 401 ''No pending 2FA session. Please log in again.'', st)
         | Some sid \<Rightarrow>
             if sid = [] then (Totp_Refused 401 ''No pending 2FA session. Please log in again.'', st)
             else
               (case ValidateUserSession now' sid (fst st) of
                  Inl e \<Rightarrow> (Totp_Refused 401 ''Invalid or expired 2FA session. Please log in again.'', st)
                | Inr (i, u) \<Rightarrow>
                    (case UseRecoveryKey idkey i recoveryKey (snd st) of
                       Inl e \<Rightarrow> (Totp_Refused 401 ''Invalid or already used recovery key.'', st)
                     | Inr tdb \<Rightarrow>
                         (Keys_Left (case GetRemainingRecoveryKeyCount i tdb of Inl e \<Rightarrow> 0 | Inr n \<Rightarrow> n), fst st, tdb)))))"

section \<open>Management\<close>

definition handleTOTPEnable ::
    "(string \<Rightarrow> string \<Rightarrow> bool) \<Rightarrow> string \<Rightarrow> int \<Rightarrow> string \<Rightarrow> auth_db \<times> totp_db \<Rightarrow> totp_answer" where
  "handleTOTPEnable verify buf user password0 st =
     (let password = TrimSpace password0
      in if password = [] then Password_Asked
         else if VerifyPassword verify user password (fst st) \<noteq> None then Totp_Refused 401 ''Incorrect password''
         else Secret_Shown (GenerateTOTPSecret buf))"

definition handleTOTPVerify ::
    "hmac \<Rightarrow> totp_service \<Rightarrow> idkey \<Rightarrow> string list \<Rightarrow> string list \<Rightarrow> string \<Rightarrow> int \<Rightarrow> int \<Rightarrow> string \<Rightarrow> string \<Rightarrow>
     auth_db \<times> totp_db \<Rightarrow> totp_answer \<times> auth_db \<times> totp_db" where
  "handleTOTPVerify hmac s idkey bufs salts nonce now' user secret0 code0 st =
     (let secret = TrimSpace secret0; code' = TrimSpace code0
      in if secret = [] \<or> code' = [] then (Totp_Refused 400 ''Missing secret or code'', st)
         else if \<not> VerifyTOTPCode hmac now' secret code'
         then (Totp_Refused 400 ''Invalid verification code. Please try again.'', st)
         else
           (case EnableTOTP s idkey bufs salts nonce user secret st of
              Inl e \<Rightarrow> (Totp_Refused 500 ''Failed to enable 2FA'', st)
            | Inr (keys, st') \<Rightarrow> (Keys_Shown keys, st')))"

definition handleTOTPDisable ::
    "(string \<Rightarrow> string \<Rightarrow> bool) \<Rightarrow> int \<Rightarrow> string \<Rightarrow> auth_db \<times> totp_db \<Rightarrow> totp_answer \<times> auth_db \<times> totp_db" where
  "handleTOTPDisable verify user password0 st =
     (let password = TrimSpace password0
      in if password = [] then (Totp_Refused 400 ''Password required to disable 2FA'', st)
         else if VerifyPassword verify user password (fst st) \<noteq> None then (Totp_Refused 401 ''Incorrect password'', st)
         else (Totp_Disabled_Redirect, DisableTOTP user st))"

definition handleRecoveryAction ::
    "totp_service \<Rightarrow> idkey \<Rightarrow> (string \<Rightarrow> string \<Rightarrow> bool) \<Rightarrow> string list \<Rightarrow> string list \<Rightarrow> string \<Rightarrow> int \<Rightarrow> string \<Rightarrow> string \<Rightarrow>
     auth_db \<times> totp_db \<Rightarrow> totp_answer \<times> auth_db \<times> totp_db" where
  "handleRecoveryAction s idkey verify bufs salts nonce user action password0 st =
     (let password = TrimSpace password0
      in if TrimSpace action \<noteq> ''regenerate'' then (Totp_Refused 400 ''Invalid action'', st)
         else if password = [] then (Totp_Refused 400 ''Password required to regenerate recovery keys'', st)
         else if VerifyPassword verify user password (fst st) \<noteq> None then (Totp_Refused 401 ''Incorrect password'', st)
         else if \<not> HasTOTP user (snd st) then (Totp_Refused 400 ''2FA must be enabled to regenerate recovery keys'', st)
         else
           (case GetTOTPSecret s user (snd st) of
              Inl e \<Rightarrow> (Totp_Refused 500 ''Failed to get TOTP secret'', st)
            | Inr secret \<Rightarrow>
                (case EnableTOTP s idkey bufs salts nonce user secret st of
                   Inl e \<Rightarrow> (Totp_Refused 500 ''Failed to regenerate recovery keys'', st)
                 | Inr (keys, st') \<Rightarrow> (Keys_Shown keys, st'))))"

definition handleTwoFactorAction ::
    "hmac \<Rightarrow> totp_service \<Rightarrow> idkey \<Rightarrow> (string \<Rightarrow> string \<Rightarrow> bool) \<Rightarrow> string \<Rightarrow> string list \<Rightarrow> string list \<Rightarrow> string \<Rightarrow> int \<Rightarrow> int \<Rightarrow>
     (string \<Rightarrow> string) \<Rightarrow> auth_db \<times> totp_db \<Rightarrow> totp_answer \<times> auth_db \<times> totp_db" where
  "handleTwoFactorAction hmac s idkey verify buf bufs salts nonce now' user form st =
     (let action = TrimSpace (form ''action'')
      in if action = ''enable'' then (handleTOTPEnable verify buf user (form ''password'') st, st)
         else if action = ''disable'' then handleTOTPDisable verify user (form ''password'') st
         else if action = ''verify''
         then handleTOTPVerify hmac s idkey bufs salts nonce now' user (form ''secret'') (form ''code'') st
         else (Totp_Refused 400 ''Invalid action'', st))"

end
