(* ===== verification/AuthSafety.thy ===== *)
theory AuthSafety
  imports AuthHandlers
begin

text \<open>
  What the accounts guarantee: unique names and addresses, sessions that last until they expire or
  are ended, and a reset that is spent once and ends every session of its owner. The second factor
  is not part of that: the session that waits for the code is a full one.
\<close>

section \<open>Any sequence of requests\<close>

text \<open>What a request may do to the sessions of users.\<close>

datatype auth_event =
    Keeps_Sessions
  | Revokes string
  | Revokes_All int string string        \<comment> \<open>of a user or administrator, except one\<close>
  | Cleans_Up int
  | Resets "int \<times> string"

inductive auth_step :: "auth_event \<Rightarrow> auth_db \<Rightarrow> auth_db \<Rightarrow> bool" where
  register_step: "RegisterUser hash n e p odb db = Inr (i, db') \<Longrightarrow> auth_step Keeps_Sessions db db'"
| login_step: "AuthenticateUser verify now' ident p db = Inr (x, db') \<Longrightarrow> auth_step Keeps_Sessions db db'"
| session_step: "map_of (user_rows db) i \<noteq> None \<Longrightarrow> CreateUserSession buf now' i rm db = Inr (sid, db') \<Longrightarrow>
    auth_step Keeps_Sessions db db'"
| revoke_step: "auth_step (Revokes sid) db (RevokeSession sid db)"
| revoke_all_step: "auth_step (Revokes_All i ty sid) db (RevokeAllUserSessions i ty sid db)"
| cleanup_step: "auth_step (Cleans_Up now') db (cleanupSessions now' db)"
| password_step: "auth_step Keeps_Sessions db (ChangePassword hash i p db)"
| profile_step: "UpdateUserProfile i d b e db = Inr (x, db') \<Longrightarrow> auth_step Keeps_Sessions db db'"
| suspend_step: "SuspendUser i reason db = Inr db' \<Longrightarrow> auth_step Keeps_Sessions db db'"
| activate_step: "ActivateUser i db = Inr db' \<Longrightarrow> auth_step Keeps_Sessions db db'"
| totp_step: "auth_step Keeps_Sessions db (update_user i (\<lambda>u. u\<lparr>u_totp := on\<rparr>) db)"
| reset_token_step: "CreatePasswordResetToken hashToken buf now' e ty db = Inr (tok, db') \<Longrightarrow> auth_step Keeps_Sessions db db'"
| reset_step: "ResetPassword_spend hash hashToken now' tok p owner db = Inr db' \<Longrightarrow> auth_step (Resets owner) db db'"
| setup_step: "CreatePrimaryAdmin hash n p e db = Inr db' \<Longrightarrow> auth_step Keeps_Sessions db db'"
| admin_login_step: "AuthenticateAdmin verify now' n p db = Inr (y, db') \<Longrightarrow> auth_step Keeps_Sessions db db'"
| admin_session_step: "CreateSession buf now' i rm db = Inr (sid, db') \<Longrightarrow> auth_step Keeps_Sessions db db'"
| admin_logout_step: "auth_step Keeps_Sessions db (DeleteSession sid db)"

definition no_accounts :: auth_db where
  "no_accounts = \<lparr>user_rows = [], next_user = 1, admin_rows = [], next_admin = 1, user_sessions = [],
     admin_sessions = [], resets = []\<rparr>"

inductive auth_reachable :: "auth_db \<Rightarrow> bool" where
  no_accounts: "auth_reachable no_accounts"
| next_account: "auth_reachable db \<Longrightarrow> auth_step ev db db' \<Longrightarrow> auth_reachable db'"

section \<open>The invariant\<close>

lemma normal_again: "normal_name (normal_name s) = normal_name s"
proof -
  let ?t = "TrimSpace s"
  have low: "go_space (if is_upper c then char_of (code c + 32) else c) \<longleftrightarrow> go_space c" for c :: char
    by (auto simp: go_space_def is_upper_def of_char_of)
  have "\<not> go_space (hd (ToLower ?t))" if "ToLower ?t \<noteq> []"
    using that strip_hd [of go_space s] low by (simp add: ToLower_def TrimSpace_def hd_map)
  moreover have "\<not> go_space (last (ToLower ?t))" if "ToLower ?t \<noteq> []"
    using that strip_last [of go_space s] low by (simp add: ToLower_def TrimSpace_def last_map)
  ultimately have "TrimSpace (ToLower ?t) = ToLower ?t" unfolding TrimSpace_def [of "ToLower ?t"] by (rule strip_id)
  then show ?thesis by (simp add: normal_name_def)
qed

definition users_sound :: "int \<Rightarrow> (int \<times> user_row) list \<Rightarrow> bool" where
  "users_sound n us \<longleftrightarrow> distinct (map fst us) \<and> (\<forall>k \<in> set (map fst us). k < n) \<and>
     distinct (map (\<lambda>x. u_name (snd x)) us) \<and> distinct (map (\<lambda>x. u_email (snd x)) us)"

definition sessions_sound :: "(int \<times> user_row) list \<Rightarrow> (string \<times> session_row) list \<Rightarrow> bool" where
  "sessions_sound us ss \<longleftrightarrow> distinct (map fst ss) \<and> (\<forall>x \<in> set ss. s_owner (snd x) \<in> fst ` set us)"

definition auth_inv :: "auth_db \<Rightarrow> bool" where
  "auth_inv db \<longleftrightarrow> users_sound (next_user db) (user_rows db) \<and> sessions_sound (user_rows db) (user_sessions db)"

text \<open>Updates of a row that keep the name and the address.\<close>

lemma update_user_ids [simp]: "map fst (user_rows (update_user i f db)) = map fst (user_rows db)"
  "fst ` set (user_rows (update_user i f db)) = fst ` set (user_rows db)"
proof -
  show ids: "map fst (user_rows (update_user i f db)) = map fst (user_rows db)" by (simp add: update_user_def split_def o_def)
  then show "fst ` set (user_rows (update_user i f db)) = fst ` set (user_rows db)" by (metis set_map)
qed

lemma update_user_rest [simp]: "next_user (update_user i f db) = next_user db" "user_sessions (update_user i f db) = user_sessions db"
  "admin_sessions (update_user i f db) = admin_sessions db" "resets (update_user i f db) = resets db"
  by (simp_all add: update_user_def)

lemma update_admin_rest [simp]: "next_user (update_admin i f db) = next_user db" "user_sessions (update_admin i f db) = user_sessions db"
  "user_rows (update_admin i f db) = user_rows db" "resets (update_admin i f db) = resets db"
  by (simp_all add: update_admin_def)

lemma map_of_update_user:
  "map_of (user_rows (update_user i f db)) j = (if j = i then map_option f (map_of (user_rows db) j) else map_of (user_rows db) j)"
proof -
  have "map_of (map (\<lambda>(j, u). (j, if j = i then f u else u)) us) j = (if j = i then map_option f (map_of us j) else map_of us j)"
    for us :: "(int \<times> user_row) list"
    by (induction us) auto
  then show ?thesis by (simp add: update_user_def)
qed

lemma users_sound_update:
  assumes "users_sound n (user_rows db)" and "\<And>u. u_name (f u) = u_name u \<and> u_email (f u) = u_email u"
  shows "users_sound n (user_rows (update_user i f db))"
proof -
  have "map (\<lambda>x. u_name (snd x)) (user_rows (update_user i f db)) = map (\<lambda>x. u_name (snd x)) (user_rows db)"
    "map (\<lambda>x. u_email (snd x)) (user_rows (update_user i f db)) = map (\<lambda>x. u_email (snd x)) (user_rows db)"
    using assms(2) by (auto simp: update_user_def)
  then show ?thesis using assms(1) unfolding users_sound_def update_user_ids by simp
qed

lemma inv_update_user:
  "auth_inv db \<Longrightarrow> (\<And>u. u_name (f u) = u_name u \<and> u_email (f u) = u_email u) \<Longrightarrow> auth_inv (update_user i f db)"
  unfolding auth_inv_def sessions_sound_def by (simp add: users_sound_update)

lemma inv_filter_sessions:
  "auth_inv db \<Longrightarrow> auth_inv (db\<lparr>user_sessions := filter P (user_sessions db)\<rparr>)"
  unfolding auth_inv_def sessions_sound_def by (auto simp: distinct_map_filter)

lemma inv_rest:
  "auth_inv db \<Longrightarrow> user_rows db' = user_rows db \<Longrightarrow> next_user db' = next_user db \<Longrightarrow> user_sessions db' = user_sessions db \<Longrightarrow>
    auth_inv db'"
  by (simp add: auth_inv_def)

lemma RegisterUser_Inr:
  assumes "RegisterUser hash n e p odb db = Inr (i, db')"
  shows "i = next_user db"
    and "db' = db\<lparr>user_rows := user_rows db @ [(i, new_user (normal_name n) (normal_name e) (hash p))], next_user := i + 1\<rparr>"
    and "x \<in> set (user_rows db) \<Longrightarrow> u_name (snd x) \<noteq> normal_name n \<and> u_email (snd x) \<noteq> normal_name e"
    and "CheckNameAvailable (names_of db odb) (normal_name n) = None"
proof -
  have r: "CheckNameAvailable (names_of db odb) (normal_name n) = None"
      "\<forall>x \<in> set (user_rows db). u_email (snd x) \<noteq> normal_name e"
    and "i = next_user db"
      "db' = db\<lparr>user_rows := user_rows db @ [(i, new_user (normal_name n) (normal_name e) (hash p))], next_user := i + 1\<rparr>"
    using assms unfolding RegisterUser_def by (auto simp: Let_def list_ex_iff split: if_splits)
  then show "i = next_user db"
    "db' = db\<lparr>user_rows := user_rows db @ [(i, new_user (normal_name n) (normal_name e) (hash p))], next_user := i + 1\<rparr>"
    "CheckNameAvailable (names_of db odb) (normal_name n) = None" by simp_all
  have "ToLower (TrimSpace (normal_name n)) = normal_name n" using normal_again by (simp add: normal_name_def)
  then have "\<forall>x \<in> set (user_rows db). u_name (snd x) \<noteq> normal_name n"
    using r(1) by (auto simp: CheckNameAvailable_def Let_def names_of_def list_ex_iff split: if_splits)
  then show "u_name (snd x) \<noteq> normal_name n \<and> u_email (snd x) \<noteq> normal_name e" if "x \<in> set (user_rows db)"
    using r(2) that by blast
qed

lemma inv_register:
  assumes "auth_inv db" and "RegisterUser hash n e p odb db = Inr (i, db')"
  shows "auth_inv db'"
proof -
  note r = RegisterUser_Inr [OF assms(2)]
  let ?u = "new_user (normal_name n) (normal_name e) (hash p)"
  have us: "users_sound (next_user db) (user_rows db)" using assms(1) unfolding auth_inv_def by blast
  then have "users_sound (i + 1) (user_rows db @ [(i, ?u)])"
    using r(1,3) unfolding users_sound_def by (force simp: new_user_def)
  then show ?thesis using assms(1) r(2) by (auto simp: auth_inv_def sessions_sound_def)
qed

lemma inv_profile:
  assumes "auth_inv db" and "UpdateUserProfile i d b e db = Inr (x, db')"
  shows "auth_inv db'"
proof -
  define db1 where "db1 = (case e of None \<Rightarrow> db | Some m \<Rightarrow> update_user i (\<lambda>u. u\<lparr>u_email := normal_name m, u_verified := False\<rparr>) db)"
  have us: "users_sound (next_user db) (user_rows db)" using assms(1) unfolding auth_inv_def by blast
  have free: "u_email (snd y) \<noteq> normal_name m" if "e = Some m" "y \<in> set (user_rows db)" "fst y \<noteq> i" for m y
    using assms(2) that by (auto simp: UpdateUserProfile_def list_ex_iff split: if_splits)
  have "users_sound (next_user db) (user_rows db1)"
  proof (cases e)
    case None
    then show ?thesis using us by (simp add: db1_def)
  next
    case (Some m)
    let ?f = "\<lambda>u. u\<lparr>u_email := normal_name m, u_verified := False\<rparr>"
    have rows: "user_rows db1 = map (\<lambda>(j, u). (j, if j = i then ?f u else u)) (user_rows db)"
      by (simp add: db1_def Some update_user_def)
    have "inj_on (\<lambda>x. u_email (snd x)) (set (user_rows db1))"
    proof (rule inj_onI)
      fix x y assume xy: "x \<in> set (user_rows db1)" "y \<in> set (user_rows db1)" "u_email (snd x) = u_email (snd y)"
      obtain u where u: "(fst x, u) \<in> set (user_rows db)" "snd x = (if fst x = i then ?f u else u)" using xy(1) unfolding rows by auto
      obtain v where v: "(fst y, v) \<in> set (user_rows db)" "snd y = (if fst y = i then ?f v else v)" using xy(2) unfolding rows by auto
      have inj: "inj_on fst (set (user_rows db))" "inj_on (\<lambda>x. u_email (snd x)) (set (user_rows db))"
        using us unfolding users_sound_def distinct_map by blast+
      have "fst x = fst y"
        using xy(3) u v free [OF Some u(1)] free [OF Some v(1)] inj_onD [OF inj(2) _ u(1) v(1)] by (auto split: if_splits)
      moreover from this have "u = v" using inj_onD [OF inj(1) _ u(1) v(1)] by simp
      ultimately show "x = y" using u(2) v(2) by (simp add: prod_eq_iff)
    qed
    moreover have "map (\<lambda>x. u_name (snd x)) (user_rows db1) = map (\<lambda>x. u_name (snd x)) (user_rows db)"
      unfolding rows by auto
    moreover have ids: "map fst (user_rows db1) = map fst (user_rows db)" by (simp add: db1_def Some)
    moreover have "distinct (user_rows db1)" using us ids unfolding users_sound_def by (metis distinct_map)
    ultimately show ?thesis using us unfolding users_sound_def
      by (simp only: distinct_map [of "\<lambda>x. u_email (snd x)" "user_rows db1"]) simp
  qed
  then have "auth_inv db1" using assms(1) by (auto simp: auth_inv_def sessions_sound_def db1_def split: option.splits)
  moreover have "db' = (let db2 = (case d of None \<Rightarrow> db1 | Some t \<Rightarrow> update_user i (\<lambda>u. u\<lparr>u_display := Some (TrimSpace t)\<rparr>) db1)
      in case b of None \<Rightarrow> db2 | Some t \<Rightarrow> update_user i (\<lambda>u. u\<lparr>u_bio := Some (TrimSpace t)\<rparr>) db2)"
    using assms(2) unfolding UpdateUserProfile_def db1_def by (auto simp: Let_def split: option.splits if_splits)
  ultimately show ?thesis by (auto simp: Let_def intro!: inv_update_user split: option.splits)
qed

lemma CreateUserSession_Inr:
  "CreateUserSession buf now' i rm db = Inr (sid, db') \<longleftrightarrow>
     sid = generateSessionID buf \<and> map_of (user_sessions db) sid = None \<and>
     db' = db\<lparr>user_sessions := (sid, \<lparr>s_owner = i, s_created = now',
       s_expires = now' + (if rm then days_of 30 else days_of 7)\<rparr>) # user_sessions db\<rparr>"
  unfolding CreateUserSession_def Let_def by (auto split: if_splits)

lemma inv_create_session:
  assumes "auth_inv db" and "map_of (user_rows db) i \<noteq> None" and "CreateUserSession buf now' i rm db = Inr (sid, db')"
  shows "auth_inv db'"
proof -
  have i: "i \<in> fst ` set (user_rows db)" using assms(2) by (metis map_of_eq_None_iff)
  have new: "sid \<notin> fst ` set (user_sessions db)"
    using assms(3) unfolding CreateUserSession_Inr by (metis map_of_eq_None_iff)
  obtain s where "db' = db\<lparr>user_sessions := (sid, s) # user_sessions db\<rparr>" "s_owner s = i"
    using assms(3) unfolding CreateUserSession_Inr by (metis session_row.select_convs(1))
  then show ?thesis using assms(1) i new by (simp add: auth_inv_def sessions_sound_def)
qed

lemma AuthenticateUser_Inr:
  "AuthenticateUser verify now' ident p db = Inr ((i, u), db') \<longleftrightarrow>
     find_user (normal_name ident) db = Some (i, u) \<and> verify p (u_hash u) \<and>
     db' = update_user i (\<lambda>u. u\<lparr>u_last_login := Some now'\<rparr>) db"
  by (auto simp: AuthenticateUser_def split: option.splits)

lemma consume_reset_rest:
  "consume_reset h now' db = (ok, db1) \<Longrightarrow> user_rows db1 = user_rows db \<and> next_user db1 = next_user db \<and>
     user_sessions db1 = user_sessions db \<and> admin_sessions db1 = admin_sessions db \<and> admin_rows db1 = admin_rows db"
  by (auto simp: consume_reset_def split: option.splits if_splits)

lemma inv_reset:
  assumes "auth_inv db" and "ResetPassword_spend hash hashToken now' tok p owner db = Inr db'"
  shows "auth_inv db'"
proof -
  obtain ok db1 where c: "consume_reset (hashToken tok) now' db = (ok, db1)" by fastforce
  have inv: "auth_inv db1" using consume_reset_rest [OF c] assms(1) by (auto intro: inv_rest)
  let ?u = "update_user (fst owner) (\<lambda>u. u\<lparr>u_hash := hash p\<rparr>) db1"
  have "auth_inv ?u" by (rule inv_update_user [OF inv]) simp
  then have u: "auth_inv (?u\<lparr>user_sessions := filter (\<lambda>(sid, s). s_owner s \<noteq> fst owner) (user_sessions ?u)\<rparr>)"
    by (rule inv_filter_sessions)
  show ?thesis
  proof (cases "snd owner = ''admin''")
    case True
    then show ?thesis using assms(2) unfolding ResetPassword_spend_def c
      by (auto simp: Let_def intro!: inv_rest [OF inv] split: if_splits)
  next
    case False
    then have "db' = ?u\<lparr>user_sessions := filter (\<lambda>(sid, s). s_owner s \<noteq> fst owner) (user_sessions ?u)\<rparr>"
      using assms(2) unfolding ResetPassword_spend_def c by (simp add: Let_def split: if_splits)
    then show ?thesis using u by simp
  qed
qed

lemma auth_step_inv: "auth_step ev db db' \<Longrightarrow> auth_inv db \<Longrightarrow> auth_inv db'"
proof (induction rule: auth_step.induct)
  case (register_step hash n e p odb db i db')
  then show ?case by (rule inv_register [rotated])
next
  case (login_step verify now' ident p db x db')
  obtain i u where x: "x = (i, u)" by fastforce
  have "db' = update_user i (\<lambda>u. u\<lparr>u_last_login := Some now'\<rparr>) db"
    using login_step.hyps unfolding x AuthenticateUser_Inr by blast
  then show ?case using login_step.prems by (simp add: inv_update_user)
next
  case (session_step db i buf now' rm sid db')
  from session_step.prems session_step.hyps show ?case by (rule inv_create_session)
next
  case (revoke_step sid db)
  then show ?case unfolding RevokeSession_def AList.delete_eq by (rule inv_filter_sessions)
next
  case (revoke_all_step i ty sid db)
  then show ?case
    by (cases "ty = ''admin''") (simp_all add: RevokeAllUserSessions_def inv_filter_sessions inv_rest [of db])
next
  case (cleanup_step now' db)
  have "auth_inv (db\<lparr>user_sessions := filter (\<lambda>(sid, s). \<not> s_expires s < now') (user_sessions db)\<rparr>)"
    using cleanup_step by (rule inv_filter_sessions)
  then show ?case by (rule inv_rest) (simp_all add: cleanupSessions_def)
next
  case (password_step db hash i p)
  then show ?case unfolding ChangePassword_def by (intro inv_update_user) simp_all
next
  case (profile_step i d b e db x db')
  then show ?case by (rule inv_profile [rotated])
next
  case (suspend_step i reason db db')
  then show ?case by (auto simp: SuspendUser_def intro!: inv_update_user split: if_splits)
next
  case (activate_step i db db')
  then show ?case by (auto simp: ActivateUser_def intro!: inv_update_user split: if_splits)
next
  case (totp_step db i on)
  then show ?case by (intro inv_update_user) simp_all
next
  case (reset_token_step hashToken buf now' e ty db tok db')
  then show ?case
    by (auto simp: CreatePasswordResetToken_def Let_def intro!: inv_rest [of db] split: option.splits if_splits)
next
  case (reset_step hash hashToken now' tok p owner db db')
  then show ?case by (rule inv_reset [rotated])
next
  case (setup_step hash n p e db db')
  then show ?case by (auto simp: CreatePrimaryAdmin_def intro!: inv_rest [of db] split: if_splits)
next
  case (admin_login_step verify now' n p db y db')
  then show ?case by (auto simp: AuthenticateAdmin_def intro!: inv_rest [of db] split: option.splits if_splits)
next
  case (admin_session_step buf now' i rm db sid db')
  then show ?case by (auto simp: CreateSession_def Let_def intro!: inv_rest [of db] split: if_splits)
next
  case (admin_logout_step db sid)
  then show ?case unfolding DeleteSession_def by (auto intro!: inv_rest [of db])
qed

lemma auth_reachable_inv: "auth_reachable db \<Longrightarrow> auth_inv db"
proof (induction rule: auth_reachable.induct)
  case no_accounts
  show ?case by (simp add: no_accounts_def auth_inv_def users_sound_def sessions_sound_def)
qed (rule auth_step_inv)

text \<open>
  C20 (accounts_unique). After any requests, log-ins and clean-ups: no two users share an id, a name or an
  address, an id is never used again, and every session belongs to a user.
\<close>

theorem accounts_unique:
  assumes "auth_reachable db"
  shows "(\<forall>x \<in> set (user_rows db). \<forall>y \<in> set (user_rows db).
      fst x = fst y \<or> u_name (snd x) = u_name (snd y) \<or> u_email (snd x) = u_email (snd y) \<longrightarrow> x = y) \<and>
    (\<forall>x \<in> set (user_rows db). fst x < next_user db) \<and>
    (\<forall>sid s. map_of (user_sessions db) sid = Some s \<longrightarrow> (\<exists>u. map_of (user_rows db) (s_owner s) = Some u))"
proof -
  have u: "users_sound (next_user db) (user_rows db)" and s: "sessions_sound (user_rows db) (user_sessions db)"
    using auth_reachable_inv [OF assms] unfolding auth_inv_def by blast+
  have "\<exists>u. map_of (user_rows db) (s_owner r) = Some u" if "map_of (user_sessions db) sid = Some r" for sid r
  proof -
    have "s_owner r \<in> fst ` set (user_rows db)" using map_of_SomeD [OF that] s unfolding sessions_sound_def by force
    then show ?thesis by (metis domD dom_map_of_conv_image_fst)
  qed
  moreover have "inj_on fst (set (user_rows db))" "inj_on (\<lambda>x. u_name (snd x)) (set (user_rows db))"
    "inj_on (\<lambda>x. u_email (snd x)) (set (user_rows db))"
    using u unfolding users_sound_def distinct_map by blast+
  ultimately show ?thesis using u unfolding users_sound_def inj_on_def by auto
qed

text \<open>The state after one registration. The sample hash leaves a password as it is.\<close>

definition alice_account :: auth_db where
  "alice_account = no_accounts\<lparr>user_rows := [(1, new_user ''alice'' ''a@x.io'' ''secret12'')], next_user := 2\<rparr>"

definition empty_orgs :: org_db where
  "empty_orgs = \<lparr>users = [], orgs = [], members = [], next_org = 1\<rparr>"

lemma alice_registers: "RegisterUser (\<lambda>p. p) ''Alice '' ''a@X.io'' ''secret12'' empty_orgs no_accounts = Inr (1, alice_account)"
  by (simp add: RegisterUser_def CheckNameAvailable_def Let_def names_of_def empty_orgs_def normal_name_def no_accounts_def
      alice_account_def new_user_def blocked_name_None UsernameBlocklist_def eval_simps)

lemma alice_reachable: "auth_reachable alice_account"
  by (rule next_account [OF no_accounts register_step [OF alice_registers]])

theorem accounts_unique_witness:
  "fst (hd (user_rows alice_account)) < next_user alice_account \<and> user_rows alice_account \<noteq> []"
proof -
  have "hd (user_rows alice_account) \<in> set (user_rows alice_account)" by (simp add: alice_account_def)
  then show ?thesis using accounts_unique [OF alice_reachable] by (force simp: alice_account_def)
qed

section \<open>From registration to log-in\<close>

lemma find_append: "List.find P (xs @ [x]) = (case List.find P xs of None \<Rightarrow> if P x then Some x else None | Some y \<Rightarrow> Some y)"
  by (induction xs) simp_all

text \<open>
  Whoever registers can log in, with the name or the address they gave, in any case and with
  spaces around it: exactly the passwords with the same Argon2id key as theirs are accepted, whatever salt was drawn. The text of
  the stored hash is read back as it was written.
\<close>

theorem registered_can_log_in:
  assumes "RegisterUser (hashPasswordArgon2id idkey salt) n e p odb db = Inr (i, db')"
    and "normal_name ident \<in> {normal_name n, normal_name e}" and "find_user (normal_name ident) db = None"
    and "\<And>p s t m th k. length (idkey p s t m th k) = k"
  shows "AuthenticateUser (verifyPasswordArgon2id idkey) now' ident q db' =
    (if idkey q salt 3 65536 4 32 = idkey p salt 3 65536 4 32
     then Inr ((i, new_user (normal_name n) (normal_name e) (hashPasswordArgon2id idkey salt p)),
       update_user i (\<lambda>u. u\<lparr>u_last_login := Some now'\<rparr>) db')
     else Inl Invalid_Credentials)"
proof -
  have "find_user (normal_name ident) db' = Some (i, new_user (normal_name n) (normal_name e) (hashPasswordArgon2id idkey salt p))"
    using RegisterUser_Inr(2) [OF assms(1)] assms(2,3) by (auto simp: find_user_def find_append new_user_def)
  then show ?thesis
    using verify_hashed [of idkey q salt p, OF assms(4)] by (simp add: AuthenticateUser_def new_user_def)
qed

theorem registered_can_log_in_witness:
  "\<exists>u db. AuthenticateUser (verifyPasswordArgon2id (\<lambda>p s t m th k. take k (p @ replicate k (CHR ''x'')))) 5 '' ALICE'' ''secret12''
     (snd (projr (RegisterUser (hashPasswordArgon2id (\<lambda>p s t m th k. take k (p @ replicate k (CHR ''x''))) ''salt'')
       ''Alice '' ''a@X.io'' ''secret12'' empty_orgs no_accounts))) = Inr ((1, u), db)"
proof -
  let ?idkey = "\<lambda>p s t m th k. take k (p @ replicate k (CHR ''x''))"
  let ?r = "RegisterUser (hashPasswordArgon2id ?idkey ''salt'') ''Alice '' ''a@X.io'' ''secret12'' empty_orgs no_accounts"
  have names: "normal_name ''Alice '' = ''alice''" "normal_name '' ALICE'' = ''alice''" by (simp_all add: normal_name_def eval_simps)
  have free: "CheckNameAvailable (names_of no_accounts empty_orgs) ''alice'' = None"
    by (simp add: CheckNameAvailable_def names_of_def empty_orgs_def no_accounts_def blocked_name_None UsernameBlocklist_def eval_simps)
  have fst: "\<exists>db'. ?r = Inr (1, db')" unfolding RegisterUser_def names using free by (simp add: Let_def no_accounts_def)
  then obtain db' where r: "?r = Inr (1, db')" by blast
  show ?thesis
    using registered_can_log_in [OF r, of "'' ALICE''" 5 "''secret12''"] unfolding r names
    by (simp add: find_user_def no_accounts_def)
qed

section \<open>Sessions last\<close>

text \<open>The requests that leave a session of a user alone, while it is not expired.\<close>

fun spares :: "string \<Rightarrow> session_row \<Rightarrow> auth_event \<Rightarrow> bool" where
  "spares sid s Keeps_Sessions = True"
| "spares sid s (Revokes sid') = (sid' \<noteq> sid)"
| "spares sid s (Revokes_All i ty except) = (ty = ''admin'' \<or> s_owner s \<noteq> i \<or> except = sid)"
| "spares sid s (Cleans_Up now') = (now' \<le> s_expires s)"
| "spares sid s (Resets owner) = (snd owner = ''admin'' \<or> s_owner s \<noteq> fst owner)"

inductive auth_run :: "(auth_event \<Rightarrow> bool) \<Rightarrow> auth_db \<Rightarrow> auth_db \<Rightarrow> bool" for P where
  run_done: "auth_run P db db"
| run_step: "auth_run P db db' \<Longrightarrow> auth_step ev db' db'' \<Longrightarrow> P ev \<Longrightarrow> auth_run P db db''"

lemma map_of_filter_keeps: "map_of xs k = Some v \<Longrightarrow> P (k, v) \<Longrightarrow> map_of (filter P xs) k = Some v"
  by (induction xs) (auto split: if_splits)

lemma CreateSession_rest:
  "CreateSession buf now' i rm db = Inr (sid, db') \<Longrightarrow> user_sessions db' = user_sessions db \<and> user_rows db' = user_rows db"
  by (auto simp: CreateSession_def Let_def split: if_splits)

lemma RegisterUser_sessions: "RegisterUser hash n e p odb db = Inr (i, db') \<Longrightarrow> user_sessions db' = user_sessions db"
  using RegisterUser_Inr(2) [of hash n e p odb db i db'] by simp

lemma step_keeps_session:
  "auth_step ev db db' \<Longrightarrow> map_of (user_sessions db) sid = Some s \<Longrightarrow> spares sid s ev \<Longrightarrow>
    map_of (user_sessions db') sid = Some s"
proof (induction rule: auth_step.induct)
  case (login_step verify now' ident p db x db')
  then show ?case by (cases x) (auto simp: AuthenticateUser_Inr)
next
  case (session_step db i buf now' rm sid' db')
  then show ?case by (auto simp: CreateUserSession_Inr)
next
  case (reset_step hash hashToken now' tok p owner db db')
  obtain ok db1 where c: "consume_reset (hashToken tok) now' db = (ok, db1)" by fastforce
  have "map_of (user_sessions db1) sid = Some s" using reset_step.prems consume_reset_rest [OF c] by simp
  then show ?case using reset_step.hyps reset_step.prems(2) unfolding ResetPassword_spend_def c
    by (auto simp: Let_def map_of_filter_keeps split: if_splits)
qed (auto simp: RegisterUser_sessions RevokeSession_def RevokeAllUserSessions_def cleanupSessions_def map_of_filter_keeps delete_conv'
      ChangePassword_def UpdateUserProfile_def SuspendUser_def ActivateUser_def CreatePasswordResetToken_def Let_def
      CreatePrimaryAdmin_def AuthenticateAdmin_def CreateSession_rest DeleteSession_def split: option.splits if_splits)


lemma CreateUserSession_rest:
  "CreateUserSession buf now' i rm db = Inr (sid, db') \<Longrightarrow> user_rows db' = user_rows db"
  by (auto simp: CreateUserSession_Inr)

lemma step_keeps_users: "auth_step ev db db' \<Longrightarrow> fst ` set (user_rows db) \<subseteq> fst ` set (user_rows db')"
proof (induction rule: auth_step.induct)
  case (register_step hash n e p odb db i db')
  then show ?case using RegisterUser_Inr(2) [OF register_step] by auto
next
  case (login_step verify now' ident p db x db')
  then show ?case by (cases x) (auto simp: AuthenticateUser_Inr)
next
  case (reset_step hash hashToken now' tok p owner db db')
  obtain ok db1 where c: "consume_reset (hashToken tok) now' db = (ok, db1)" by fastforce
  have "fst ` set (user_rows db') = fst ` set (user_rows db1)"
    using reset_step.hyps unfolding ResetPassword_spend_def c
    by (cases "snd owner = ''admin''"; clarsimp simp: Let_def split: if_splits)
  then show ?case using consume_reset_rest [OF c] by simp
qed (simp_all add: CreateUserSession_rest RevokeSession_def RevokeAllUserSessions_def cleanupSessions_def
      ChangePassword_def UpdateUserProfile_def SuspendUser_def ActivateUser_def CreatePasswordResetToken_def Let_def
      CreatePrimaryAdmin_def AuthenticateAdmin_def CreateSession_rest DeleteSession_def split: option.splits if_splits prod.splits,
      (force simp: image_iff)+)

lemma run_keeps:
  "auth_run (spares sid s) db db' \<Longrightarrow> map_of (user_sessions db) sid = Some s \<Longrightarrow> map_of (user_rows db) i \<noteq> None \<Longrightarrow>
    map_of (user_sessions db') sid = Some s \<and> map_of (user_rows db') i \<noteq> None"
proof (induction rule: auth_run.induct)
  case (run_step db db' ev db'')
  then have "map_of (user_sessions db'') sid = Some s" by (blast intro: step_keeps_session)
  moreover have "i \<in> fst ` set (user_rows db'')"
    using run_step step_keeps_users [OF run_step.hyps(2)] by (auto simp: map_of_eq_None_iff)
  ultimately show ?case by (simp add: map_of_eq_None_iff)
qed simp

text \<open>What a log-in leaves behind.\<close>

lemma find_user_row: "find_user n db = Some (i, u) \<Longrightarrow> distinct (map fst (user_rows db)) \<Longrightarrow> map_of (user_rows db) i = Some u"
  unfolding find_user_def find_Some_iff by (metis map_of_eq_Some_iff nth_mem)

lemma Login_session:
  assumes "Login verify buf now' tls ident p rm db = (Signed_In ck, db')" and "distinct (map fst (user_rows db))"
  obtains i u where "find_user (normal_name ident) db = Some (i, u)" and "verify p (u_hash u)" and "\<not> u_totp u"
    and "sc_value ck = generateSessionID buf"
    and "map_of (user_sessions db') (sc_value ck) =
      Some \<lparr>s_owner = i, s_created = now', s_expires = now' + (if rm then days_of 30 else days_of 7)\<rparr>"
    and "map_of (user_rows db') i = Some (u\<lparr>u_last_login := Some now'\<rparr>)"
proof -
  obtain i u db1 where a: "AuthenticateUser verify now' ident p db = Inr ((i, u), db1)" "\<not> u_totp u"
      and c: "CreateUserSession buf now' i rm db1 = Inr (sc_value ck, db')"
    using assms(1) by (auto simp: Login_def user_session_cookie_def split: sum.splits if_splits)
  from a(1) have u: "find_user (normal_name ident) db = Some (i, u)" "verify p (u_hash u)"
      "db1 = update_user i (\<lambda>u. u\<lparr>u_last_login := Some now'\<rparr>) db"
    unfolding AuthenticateUser_Inr by auto
  have row: "map_of (user_rows db1) i = Some (u\<lparr>u_last_login := Some now'\<rparr>)"
    using find_user_row [OF u(1) assms(2)] unfolding u(3) map_of_update_user by simp
  from c have s: "sc_value ck = generateSessionID buf" "map_of (user_sessions db') (sc_value ck) =
      Some \<lparr>s_owner = i, s_created = now', s_expires = now' + (if rm then days_of 30 else days_of 7)\<rparr>"
      "map_of (user_rows db') i = Some (u\<lparr>u_last_login := Some now'\<rparr>)"
    using row unfolding CreateUserSession_Inr by auto
  show thesis by (rule that [OF u(1,2) a(2) s])
qed



section \<open>Resets\<close>

lemma map_of_filter_key:
  "distinct (map fst xs) \<Longrightarrow> map_of (filter P xs) k = Some v \<longleftrightarrow> map_of xs k = Some v \<and> P (k, v)"
  by (simp add: map_of_eq_Some_iff distinct_map_filter)

lemma ResetPassword_user:
  assumes "ResetPassword hash hashToken now' tok p db = Inr db'"
    and "map_of (resets db) (hashToken tok) = Some row" and "pr_type row \<noteq> ''admin''"
  shows "now' < pr_expires row" and "pr_used row = None"
    and "db' = (update_user (pr_owner row) (\<lambda>u. u\<lparr>u_hash := hash p\<rparr>) db)
      \<lparr>resets := AList.update (hashToken tok) (row\<lparr>pr_used := Some now'\<rparr>) (resets db),
       user_sessions := filter (\<lambda>(sid, s). s_owner s \<noteq> pr_owner row) (user_sessions db)\<rparr>"
  using assms by (auto simp: ResetPassword_def ValidatePasswordResetToken_def ResetPassword_spend_def consume_reset_def
      update_user_def Let_def split: if_splits)

text \<open>
  C22 (reset_ends_sessions). A reset goes through only with a token that was issued, has not expired and was never
  used. It ends every session of its owner and no session of anyone else, makes the new password
  the only one that works, changes no other password, and spends the token: a second reset is
  refused, also when its token was checked before the first one went through.
\<close>

theorem reset_ends_sessions:
  assumes "auth_reachable db" and "ResetPassword hash hashToken now' tok p db = Inr db'"
    and "map_of (resets db) (hashToken tok) = Some row" and "pr_type row \<noteq> ''admin''"
  shows "now' < pr_expires row \<and> pr_used row = None \<and>
    (\<forall>t sid u. ValidateUserSession t sid db' \<noteq> Inr (pr_owner row, u)) \<and>
    (\<forall>t sid j u. j \<noteq> pr_owner row \<longrightarrow> (ValidateUserSession t sid db' = Inr (j, u) \<longleftrightarrow> ValidateUserSession t sid db = Inr (j, u))) \<and>
    (\<forall>verify q. VerifyPassword verify (pr_owner row) q db' =
      (if map_of (user_rows db) (pr_owner row) = None then Some User_Not_Found
       else if verify q (hash p) then None else Some Incorrect_Password)) \<and>
    (\<forall>verify q j. j \<noteq> pr_owner row \<longrightarrow> VerifyPassword verify j q db' = VerifyPassword verify j q db) \<and>
    (\<forall>t q. ResetPassword hash hashToken t tok q db' = Inl Reset_Invalid) \<and>
    (\<forall>t q owner. ResetPassword_spend hash hashToken t tok q owner db' = Inl Reset_Already_Used)"
proof (intro conjI allI impI)
  note r = ResetPassword_user [OF assms(2-4)]
  have d: "distinct (map fst (user_sessions db))"
    using auth_reachable_inv [OF assms(1)] unfolding auth_inv_def sessions_sound_def by blast
  note session = map_of_filter_key [OF d, of "\<lambda>(sid, s). s_owner s \<noteq> pr_owner row", simplified]
  have users: "map_of (user_rows db') j = (if j = pr_owner row then map_option (\<lambda>u. u\<lparr>u_hash := hash p\<rparr>) (map_of (user_rows db) j)
      else map_of (user_rows db) j)" for j
    unfolding r(3) by (simp add: map_of_update_user)
  have valid: "ValidateUserSession t sid x = Inr (j, u) \<longleftrightarrow> (\<exists>s. map_of (user_sessions x) sid = Some s \<and> s_owner s = j \<and>
      t < s_expires s \<and> map_of (user_rows x) j = Some u)" for t sid x j u
    by (auto simp: ValidateUserSession_def split: option.splits)
  show "now' < pr_expires row" "pr_used row = None" by (fact r)+
  show "ValidateUserSession t sid db' \<noteq> Inr (pr_owner row, u)" for t sid u
    unfolding valid by (simp add: r(3) session)
  show "ValidateUserSession t sid db' = Inr (j, u) \<longleftrightarrow> ValidateUserSession t sid db = Inr (j, u)" if "j \<noteq> pr_owner row" for t sid j u
    unfolding valid users using that by (auto simp: r(3) session)
  show "VerifyPassword verify (pr_owner row) q db' =
      (if map_of (user_rows db) (pr_owner row) = None then Some User_Not_Found
       else if verify q (hash p) then None else Some Incorrect_Password)" for verify q
    unfolding VerifyPassword_def users by (auto split: option.splits)
  show "VerifyPassword verify j q db' = VerifyPassword verify j q db" if "j \<noteq> pr_owner row" for verify q j
    unfolding VerifyPassword_def users using that by simp
  have used: "map_of (resets db') (hashToken tok) = Some (row\<lparr>pr_used := Some now'\<rparr>)" unfolding r(3) by (simp add: update_conv')
  show "ResetPassword hash hashToken t tok q db' = Inl Reset_Invalid" for t q
    unfolding ResetPassword_def ValidatePasswordResetToken_def used by simp
  show "ResetPassword_spend hash hashToken t tok q owner db' = Inl Reset_Already_Used" for t q owner
    unfolding ResetPassword_spend_def consume_reset_def used by simp
qed

text \<open>
  The mail of a forgotten password holds a token that works, behind whatever host the request named: whoever asks
  for the mail of somebody else chooses where the link sends the token.
\<close>

lemma reset_link_names_any_host:
  assumes "ForgotPassword hashToken buf now' True tls host email db = (a, Some (to, link), db')"
    and "now' \<le> t" "t < now' + days_of 1"
  obtains tok i u where "link = (if tls then ''https'' else ''http'') @ ''://'' @ host @ ''/server/auth/password/reset/'' @ tok"
    and "(i, u) \<in> set (user_rows db)" "u_email u = normal_name email"
    and "ValidatePasswordResetToken hashToken t tok db' = Inr (i, ''user'')"
proof -
  obtain tok where l: "link = (if tls then ''https'' else ''http'') @ ''://'' @ host @ ''/server/auth/password/reset/'' @ tok" "tok \<noteq> []"
      and c: "CreatePasswordResetToken hashToken buf now' email ''user'' db = Inr (tok, db')"
    using assms(1) by (auto simp: ForgotPassword_def Let_def split: sum.splits prod.splits if_splits)
  obtain i u where f: "List.find (\<lambda>x. u_email (snd x) = normal_name email) (user_rows db) = Some (i, u)"
      and db': "db' = db\<lparr>resets := (hashToken tok, \<lparr>pr_type = ''user'', pr_owner = i, pr_expires = now' + days_of 1, pr_used = None\<rparr>) # resets db\<rparr>"
    using c l(2) by (auto simp: CreatePasswordResetToken_def Let_def split: option.splits if_splits)
  have e: "(i, u) \<in> set (user_rows db)" "u_email u = normal_name email"
    using f unfolding find_Some_iff by (auto dest: nth_mem) (metis snd_conv)
  have "ValidatePasswordResetToken hashToken t tok db' = Inr (i, ''user'')"
    using assms(3) by (simp add: ValidatePasswordResetToken_def db')
  then show thesis by (rule that [OF l(1) e])
qed

section \<open>The second factor\<close>

text \<open>
  The session that waits for the code is a row like any other: its id, which the server hands out
  before the code is asked for, signs the user in when it is sent as the cookie \<open>user_session\<close>.
\<close>

lemma two_factor_bypassed:
  assumes "auth_reachable db" and "Login verify buf now' tls ident p rm db = (Two_Factor_Needed ck, db')"
    and "request_cookie (rq_cookies r) ''user_session'' = Some (sc_value ck)" and "sc_value ck \<noteq> []"
    and "t < now' + days_of 7"
  shows "\<exists>i u. UserAuthMiddleware t r db' = Some (i, u) \<and> u_totp u"
proof -
  have d: "distinct (map fst (user_rows db))"
    using auth_reachable_inv [OF assms(1)] unfolding auth_inv_def users_sound_def by blast
  obtain i u db1 where a: "AuthenticateUser verify now' ident p db = Inr ((i, u), db1)" "u_totp u"
      and c: "CreateUserSession buf now' i False db1 = Inr (sc_value ck, db')"
    using assms(2) by (auto simp: Login_def split: sum.splits if_splits)
  from a(1) have u: "find_user (normal_name ident) db = Some (i, u)"
      "db1 = update_user i (\<lambda>u. u\<lparr>u_last_login := Some now'\<rparr>) db"
    unfolding AuthenticateUser_Inr by auto
  have row: "map_of (user_rows db1) i = Some (u\<lparr>u_last_login := Some now'\<rparr>)"
    using find_user_row [OF u(1) d] unfolding u(2) map_of_update_user by simp
  show ?thesis
    using c row a(2) assms(3-5) unfolding CreateUserSession_Inr
    by (auto simp: UserAuthMiddleware_def ValidateUserSession_def)
qed


text \<open>A suspended user stays signed in: the mark is written, but no check of a session reads it.\<close>

lemma suspension_unseen:
  assumes "SuspendUser i reason db = Inr db'"
  shows "(\<exists>u. ValidateUserSession t sid db' = Inr (j, u)) \<longleftrightarrow> (\<exists>u. ValidateUserSession t sid db = Inr (j, u))"
proof -
  have "db' = update_user i (\<lambda>u. u\<lparr>u_suspended := True, u_suspend_reason := reason\<rparr>) db"
    using assms by (auto simp: SuspendUser_def split: if_splits)
  then show ?thesis by (auto simp: ValidateUserSession_def map_of_update_user split: option.splits)
qed

definition alice_request :: http_request where
  "alice_request = \<lparr>rq_method = ''GET'', rq_path = ''/users'', rq_header = (\<lambda>_. []),
     rq_cookies = ''user_session=QUJD'', rq_form = (\<lambda>_. []), rq_tls = True\<rparr>"

lemma alice_cookie: "request_cookie (rq_cookies alice_request) ''user_session'' = Some ''QUJD''"
  by (simp add: alice_request_def eval_simps)

abbreviation "alice_session \<equiv> \<lparr>s_owner = 1, s_created = 0, s_expires = days_of 7\<rparr>"

lemma alice_name: "normal_name '' ALICE'' = ''alice''"
  by (simp add: normal_name_def eval_simps)

lemma alice_found: "find_user (normal_name '' ALICE'') alice_account = Some (1, new_user ''alice'' ''a@x.io'' ''secret12'')"
  unfolding alice_name by (simp add: find_user_def alice_account_def new_user_def)

definition alice_signed_in :: auth_db where
  "alice_signed_in = (update_user 1 (\<lambda>u. u\<lparr>u_last_login := Some 0\<rparr>) alice_account)\<lparr>user_sessions := [(''QUJD'', alice_session)]\<rparr>"

lemma alice_logs_in:
  "Login (=) ''ABC'' 0 True '' ALICE'' ''secret12'' False alice_account = (Signed_In (user_session_cookie True ''QUJD'' (days_of 7)), alice_signed_in)"
proof -
  have "generateSessionID ''ABC'' = ''QUJD''" by (simp add: generateSessionID_def URL_Encode_def subst_char_def b64_digit_def eval_simps)
  then show ?thesis using alice_name
    by (simp add: Login_def AuthenticateUser_def find_user_def alice_account_def new_user_def CreateUserSession_def
        alice_signed_in_def no_accounts_def update_user_def Let_def)
qed


lemma alice_signed_in_reachable: "auth_reachable alice_signed_in"
proof -
  have "AuthenticateUser (=) 0 '' ALICE'' ''secret12'' alice_account =
      Inr ((1, new_user ''alice'' ''a@x.io'' ''secret12''), update_user 1 (\<lambda>u. u\<lparr>u_last_login := Some 0\<rparr>) alice_account)"
    unfolding AuthenticateUser_Inr using alice_found by (simp add: new_user_def)
  from next_account [OF alice_reachable login_step [OF this]]
  show ?thesis
  proof (rule next_account [OF _ session_step])
    show "map_of (user_rows (update_user 1 (\<lambda>u. u\<lparr>u_last_login := Some 0\<rparr>) alice_account)) 1 \<noteq> None"
      by (simp add: map_of_update_user alice_account_def)
    have "generateSessionID ''ABC'' = ''QUJD''" by (simp add: generateSessionID_def URL_Encode_def subst_char_def b64_digit_def eval_simps)
    then show "CreateUserSession ''ABC'' 0 1 False (update_user 1 (\<lambda>u. u\<lparr>u_last_login := Some 0\<rparr>) alice_account) = Inr (''QUJD'', alice_signed_in)"
      unfolding CreateUserSession_Inr by (simp add: alice_signed_in_def alice_account_def no_accounts_def)
  qed
qed

text \<open>A reset token for the account, and its use.\<close>

theorem reset_ends_sessions_witness:
  "\<exists>db db'. CreatePasswordResetToken (\<lambda>t. t) ''AB!'' 100 ''a@x.io'' ''user'' alice_signed_in = Inr (''QUIh'', db) \<and>
    ResetPassword (\<lambda>p. p) (\<lambda>t. t) 200 ''QUIh'' ''newsecret'' db = Inr db' \<and>
    (\<forall>t u. ValidateUserSession t ''QUJD'' db' \<noteq> Inr (1, u)) \<and>
    ResetPassword (\<lambda>p. p) (\<lambda>t. t) 300 ''QUIh'' ''third'' db' = Inl Reset_Invalid"
proof -
  let ?row = "\<lparr>pr_type = ''user'', pr_owner = 1, pr_expires = 100 + days_of 1, pr_used = None\<rparr>"
  let ?db = "alice_signed_in\<lparr>resets := [(''QUIh'', ?row)]\<rparr>"
  have "URL_Encode ''AB!'' = ''QUIh''" by (simp add: URL_Encode_def subst_char_def b64_digit_def eval_simps)
  moreover have "normal_name ''a@x.io'' = ''a@x.io''" by (simp add: normal_name_def eval_simps)
  moreover have rows: "user_rows alice_signed_in = [(1, (new_user ''alice'' ''a@x.io'' ''secret12'')\<lparr>u_last_login := Some 0\<rparr>)]"
    "resets alice_signed_in = []"
    by (simp_all add: alice_signed_in_def alice_account_def update_user_def no_accounts_def)
  ultimately have c: "CreatePasswordResetToken (\<lambda>t. t) ''AB!'' 100 ''a@x.io'' ''user'' alice_signed_in = Inr (''QUIh'', ?db)"
    by (simp add: CreatePasswordResetToken_def new_user_def Let_def)
  have r: "auth_reachable ?db" by (rule next_account [OF alice_signed_in_reachable reset_token_step [OF c]])
  obtain db' where s: "ResetPassword (\<lambda>p. p) (\<lambda>t. t) 200 ''QUIh'' ''newsecret'' ?db = Inr db'"
    by (simp add: ResetPassword_def ValidatePasswordResetToken_def ResetPassword_spend_def consume_reset_def)
  from reset_ends_sessions [OF r s, of ?row] show ?thesis using c s by auto
qed

end
