(* ===== verification/TotpSafety.thy ===== *)
theory TotpSafety
  imports TotpHandlers AuthSafety
begin

text \<open>
  What the second factor guarantees: an authenticator with the secret that was shown produces the
  codes that are accepted, for three steps of thirty seconds; a recovery key works once, in any
  spelling; a log-in with a code ends the session that waited for it.
\<close>

section \<open>Codes\<close>

lemma filter_strip_end: "(\<And>c. c \<in> set s \<Longrightarrow> \<not> P c) \<Longrightarrow> rev (dropWhile P (rev s)) = s"
  by (cases s rule: rev_cases) simp_all

lemma plain_secret:
  assumes "5 dvd length buf"
  shows "GenerateTOTPSecret buf = b32_encode buf" and "ToUpper (TrimSpace (b32_encode buf)) = b32_encode buf"
    and "TrimSpace (b32_encode buf) = b32_encode buf"
proof -
  have c: "c \<noteq> CHR ''='' \<and> \<not> go_space c \<and> \<not> is_lower c" if m: "c \<in> set (b32_encode buf)" for c
  proof -
    obtain n where "n < 32" "c = b32_digit n" using encode_chars [OF assms m] by blast
    then show ?thesis using b32_digit_not [of n] by simp
  qed
  show "GenerateTOTPSecret buf = b32_encode buf"
    unfolding GenerateTOTPSecret_def by (rule filter_strip_end) (use c in blast)
  show t: "TrimSpace (b32_encode buf) = b32_encode buf"
    unfolding TrimSpace_def using c by (intro strip_id) auto
  show "ToUpper (TrimSpace (b32_encode buf)) = b32_encode buf"
    unfolding t ToUpper_def using c by (intro map_idI) simp
qed

lemma shown_secret: "5 dvd length buf \<Longrightarrow> ToUpper (TrimSpace (GenerateTOTPSecret buf)) = GenerateTOTPSecret buf"
  using plain_secret(2) [of buf] by (simp only: plain_secret(1))

lemma length_code [simp]: "length (generateTOTPCode hmac key n) = 6"
  by (simp add: generateTOTPCode_def six_digits_def Let_def)

lemma code_accepted:
  assumes "length buf = 20" and "ToUpper (TrimSpace secret) = GenerateTOTPSecret buf"
  shows "VerifyTOTPCode hmac now' secret code' \<longleftrightarrow>
     (\<exists>n \<in> {current_step now' - 1, current_step now', current_step now' + 1}. code' = generateTOTPCode hmac buf n)"
proof -
  have five: "5 dvd length buf" using assms(1) by simp
  have "b32_decode (ToUpper (TrimSpace secret)) = Some buf"
    unfolding assms(2) plain_secret(1) [OF five] by (rule b32_decode_encode [OF five])
  then show ?thesis by (auto simp: VerifyTOTPCode_def)
qed

section \<open>The text of the recovery keys\<close>

lemma escape_plain: "(\<And>c. c \<in> set s \<Longrightarrow> c \<noteq> dquote \<and> c \<noteq> backslash \<and> 32 \<le> (code c :: nat)) \<Longrightarrow> json_quote s = dquote # s @ [dquote]"
proof -
  assume p: "\<And>c. c \<in> set s \<Longrightarrow> c \<noteq> dquote \<and> c \<noteq> backslash \<and> 32 \<le> (code c :: nat)"
  then have "concat (map json_escape s) = s"
  proof (induction s)
    case (Cons c s)
    have "c \<noteq> dquote" "c \<noteq> backslash" "32 \<le> (code c :: nat)" using Cons.prems [of c] by simp_all
    then have "json_escape c = [c]" by (simp add: json_escape_def)
    then show ?case using Cons by simp
  qed simp
  then show ?thesis by (simp add: json_quote_def)
qed

text \<open>What a hash of a password looks like.\<close>

definition hash_text :: "string \<Rightarrow> bool" where
  "hash_text h \<longleftrightarrow> h \<noteq> [] \<and> hd h = CHR ''$'' \<and> (\<forall>c \<in> set h. c \<noteq> dquote \<and> c \<noteq> backslash \<and> 32 \<le> (code c :: nat))"

lemma hash_text: "hash_text (hashPasswordArgon2id idkey salt p)"
proof -
  have raw: "c \<noteq> dquote \<and> c \<noteq> backslash \<and> 32 \<le> (code c :: nat)" if "c \<in> set (RawStd_Encode s)" for c s
    using RawStd_chars [OF that] by (auto simp: dquote_def backslash_def is_lower_def is_upper_def is_digit_def)
  have num: "c \<noteq> dquote \<and> c \<noteq> backslash \<and> 32 \<le> (code c :: nat)" if "c \<in> set (show_nat n)" for c n
    using show_nat_digits [OF that] by (auto simp: dquote_def backslash_def is_digit_def)
  have "\<forall>c \<in> set ''$argon2id$v=19$m=''. c \<noteq> dquote \<and> c \<noteq> backslash \<and> 32 \<le> (code c :: nat)"
    "\<forall>c \<in> set '',t=''. c \<noteq> dquote \<and> c \<noteq> backslash \<and> 32 \<le> (code c :: nat)"
    "\<forall>c \<in> set '',p=''. c \<noteq> dquote \<and> c \<noteq> backslash \<and> 32 \<le> (code c :: nat)"
    "\<forall>c \<in> set ''$''. c \<noteq> dquote \<and> c \<noteq> backslash \<and> 32 \<le> (code c :: nat)"
    by (simp_all add: dquote_def backslash_def)
  then show ?thesis
    unfolding hash_text_def hashPasswordArgon2id_def using raw num by (simp only: set_append ball_Un) auto
qed

definition codes_text :: "string list \<Rightarrow> string" where
  "codes_text hs = stringify (JArr (map JStr hs))"

abbreviation codes_sep :: string where
  "codes_sep \<equiv> [dquote, CHR '','', dquote]"

lemma codes_text_plain:
  assumes "\<forall>h \<in> set hs. hash_text h" and "hs \<noteq> []"
  shows "codes_text hs = ''['' @ [dquote] @ join_with codes_sep hs @ [dquote] @ '']''"
proof -
  have "map stringify (map JStr hs) = map (\<lambda>h. dquote # h @ [dquote]) hs"
    using assms(1) by (auto simp: hash_text_def intro!: escape_plain)
  then have "codes_text hs = ''['' @ join_with '','' (map (\<lambda>h. dquote # h @ [dquote]) hs) @ '']''"
    unfolding codes_text_def stringify.simps by (simp only: append.simps)
  moreover have "hs \<noteq> [] \<Longrightarrow> join_with '','' (map (\<lambda>h. dquote # h @ [dquote]) hs) = dquote # join_with codes_sep hs @ [dquote]"
    by (induction hs rule: induct_list012) simp_all
  ultimately show ?thesis using assms(2) by (simp add: codes_text_def)
qed

lemma decode_codes: "decode_strings (codes_text hs) = Some hs"
proof -
  have "those (map (json_string \<circ> JStr) hs) = Some hs" by (induction hs) simp_all
  then show ?thesis unfolding decode_strings_def codes_text_def JSON_parse_stringify by simp
qed

lemma split_text_not_Nil [simp]: "split_text sep s \<noteq> []"
  by (induction sep s rule: split_text.induct) (auto split: list.splits)

text \<open>Splitting at the separators finds the hashes.\<close>

lemma split_text_hash:
  "dquote \<notin> set h \<Longrightarrow> split_text codes_sep (h @ codes_sep @ r) = h # split_text codes_sep r"
  "dquote \<notin> set h \<Longrightarrow> split_text codes_sep (h @ [dquote]) = [h @ [dquote]]"
  by (induction h) auto

lemma split_text_join:
  "hs \<noteq> [] \<Longrightarrow> \<forall>h \<in> set hs. dquote \<notin> set h \<Longrightarrow>
    length (split_text codes_sep (join_with codes_sep hs @ [dquote])) = length hs"
proof (induction hs rule: induct_list012)
  case (2 h)
  then show ?case by (simp add: split_text_hash)
next
  case (3 h h' hs)
  then have "split_text codes_sep (join_with codes_sep (h # h' # hs) @ [dquote]) =
      h # split_text codes_sep (join_with codes_sep (h' # hs) @ [dquote])"
    unfolding join_with.simps append_assoc by (intro split_text_hash(1)) simp
  then show ?case using 3 by simp
qed simp

lemma strip_brackets: "p a \<Longrightarrow> p b \<Longrightarrow> s \<noteq> [] \<Longrightarrow> \<not> p (hd s) \<Longrightarrow> \<not> p (last s) \<Longrightarrow> strip p (a # s @ [b]) = s"
proof -
  assume p: "p a" "p b" "s \<noteq> []" "\<not> p (hd s)" "\<not> p (last s)"
  obtain x xs where "s = x # xs" using p(3) by (cases s) auto
  then have "dropWhile p (a # s @ [b]) = s @ [b]" using p(1,4) by simp
  moreover obtain y ys where "s = ys @ [y]" using p(3) by (cases s rule: rev_cases) auto
  ultimately show ?thesis using p(2,5) by (simp add: strip_def)
qed

lemma count_codes:
  assumes "\<forall>h \<in> set hs. hash_text h"
  shows "(let s = strip (\<lambda>c. c = CHR ''['' \<or> c = CHR '']'') (codes_text hs)
     in if s = [] then 0 else length (split_text codes_sep s)) = length hs"
proof (cases "hs = []")
  case True
  then show ?thesis by (simp add: codes_text_def strip_def)
next
  case False
  let ?t = "dquote # join_with codes_sep hs @ [dquote]"
  have s: "strip (\<lambda>c. c = CHR ''['' \<or> c = CHR '']'') (codes_text hs) = ?t"
    unfolding codes_text_plain [OF assms False]
    using strip_brackets [of "\<lambda>c. c = CHR ''['' \<or> c = CHR '']''" "CHR ''[''" "CHR '']''" ?t] by (simp add: dquote_def)
  obtain h hs' where h: "hs = h # hs'" using False by (cases hs) auto
  then obtain c cs where c: "h = c # cs" "c \<noteq> CHR '',''" using assms by (cases h) (auto simp: hash_text_def)
  have "\<exists>r. join_with codes_sep hs = h @ r" using h by (simp add: join_with_Cons)
  then have "\<not> prefix codes_sep ?t" using c by auto
  then have "length (split_text codes_sep ?t) = length (split_text codes_sep (join_with codes_sep hs @ [dquote]))"
    by (simp split: list.splits)
  also have "\<dots> = length hs" by (rule split_text_join) (use False assms in \<open>auto simp: hash_text_def\<close>)
  finally show ?thesis unfolding s by simp
qed


section \<open>Recovery keys\<close>

text \<open>The row of a user who has the given keys left.\<close>

definition holds_keys :: "idkey \<Rightarrow> int \<Rightarrow> string list \<Rightarrow> totp_db \<Rightarrow> bool" where
  "holds_keys idkey i ks db \<longleftrightarrow>
     (\<exists>r salts. map_of db i = Some r \<and> t_enabled r \<and> length salts = length ks \<and>
        t_codes r = codes_text (map2 (hashPasswordArgon2id idkey) salts ks))"

text \<open>What the service promises: a key that is left is spent, by its normal form; any other is refused.\<close>

fun spend_keys :: "string list \<Rightarrow> string list \<Rightarrow> bool list \<times> string list" where
  "spend_keys [] ks = ([], ks)"
| "spend_keys (a # as) ks =
     (let ok = normal_name a \<in> set ks; (oks, ks') = spend_keys as (if ok then remove1 (normal_name a) ks else ks) in (ok # oks, ks'))"

text \<open>The attempts one after another.\<close>

fun use_keys :: "idkey \<Rightarrow> int \<Rightarrow> string list \<Rightarrow> totp_db \<Rightarrow> bool list \<times> totp_db" where
  "use_keys idkey i [] db = ([], db)"
| "use_keys idkey i (a # as) db =
     (case UseRecoveryKey idkey i a db of
        Inl e \<Rightarrow> (let (oks, db') = use_keys idkey i as db in (False # oks, db'))
      | Inr db1 \<Rightarrow> (let (oks, db') = use_keys idkey i as db1 in (True # oks, db')))"

definition tells_apart :: "idkey \<Rightarrow> string set \<Rightarrow> bool" where
  "tells_apart idkey A \<longleftrightarrow> (\<forall>p s t m th k. length (idkey p s t m th k) = k) \<and>
     (\<forall>p \<in> A. \<forall>q \<in> A. \<forall>s. idkey p s 3 65536 4 32 = idkey q s 3 65536 4 32 \<longrightarrow> p = q)"

lemma takeWhile_map2:
  assumes "length xs = length ys" and "\<And>x y. y \<in> set ys \<Longrightarrow> P (f x y) \<longleftrightarrow> Q y"
  shows "length (takeWhile P (map2 f xs ys)) = length (takeWhile Q ys)"
  using assms by (induction xs ys rule: list_induct2) simp_all

lemma remove_at: "length (takeWhile (\<lambda>y. y \<noteq> k) ys) = n \<Longrightarrow> take n ys @ drop (Suc n) ys = remove1 k ys"
  by (induction ys arbitrary: n) auto

lemma takeWhile_length: "length (takeWhile (\<lambda>y. y \<noteq> k) ys) = length ys \<longleftrightarrow> k \<notin> set ys"
  by (induction ys) auto

lemma UseRecoveryKey_codes:
  assumes "map_of db i = Some r" and "t_enabled r" and "t_codes r = codes_text hs"
    and "length (takeWhile (\<lambda>h. \<not> VerifyRecoveryKey idkey (normal_name a) h) hs) = n"
  shows "UseRecoveryKey idkey i a db = (if n = length hs then Inl Key_Invalid
      else Inr (AList.update i (r\<lparr>t_codes := codes_text (take n hs @ drop (n + 1) hs)\<rparr>) db))"
proof -
  have "codes_text hs \<noteq> []" by (simp add: codes_text_def)
  then show ?thesis
    unfolding UseRecoveryKey_def Let_def codes_text_def [symmetric] using assms by (simp add: decode_codes)
qed

lemma use_one_key:
  assumes "holds_keys idkey i ks db" and "tells_apart idkey (insert (normal_name a) (set ks))"
  shows "if normal_name a \<in> set ks
    then \<exists>db'. UseRecoveryKey idkey i a db = Inr db' \<and> holds_keys idkey i (remove1 (normal_name a) ks) db'
    else UseRecoveryKey idkey i a db = Inl Key_Invalid"
proof -
  obtain r salts where r: "map_of db i = Some r" "t_enabled r" "length salts = length ks"
      "t_codes r = codes_text (map2 (hashPasswordArgon2id idkey) salts ks)" (is "_ = codes_text ?hs")
    using assms(1) unfolding holds_keys_def by blast
  let ?k = "normal_name a"
  have len: "length (idkey p s t m th k) = k" for p s t m th k using assms(2) unfolding tells_apart_def by blast
  have v: "VerifyRecoveryKey idkey ?k (hashPasswordArgon2id idkey x y) \<longleftrightarrow> ?k = y" if "y \<in> set ks" for x y
    using assms(2) that verify_hashed [of idkey ?k x y, OF len]
    unfolding VerifyRecoveryKey_def normal_again tells_apart_def by auto
  define n where "n = length (takeWhile (\<lambda>y. y \<noteq> ?k) ks)"
  have "length (takeWhile (\<lambda>h. \<not> VerifyRecoveryKey idkey ?k h) ?hs) = n"
    unfolding n_def by (rule takeWhile_map2 [OF r(3)]) (use v in auto)
  from UseRecoveryKey_codes [OF r(1,2,4) this] have use: "UseRecoveryKey idkey i a db = (if n = length ks then Inl Key_Invalid
      else Inr (AList.update i (r\<lparr>t_codes := codes_text (take n ?hs @ drop (n + 1) ?hs)\<rparr>) db))"
    using r(3) by simp
  let ?salts = "take n salts @ drop (Suc n) salts"
  let ?r = "r\<lparr>t_codes := codes_text (map2 (hashPasswordArgon2id idkey) ?salts (remove1 ?k ks))\<rparr>"
  have removed: "take n ks @ drop (Suc n) ks = remove1 ?k ks" by (rule remove_at) (simp add: n_def)
  have "take n ?hs @ drop (n + 1) ?hs = map2 (hashPasswordArgon2id idkey) ?salts (remove1 ?k ks)"
    unfolding removed [symmetric] using r(3) by (simp add: take_map drop_map take_zip drop_zip)
  then have use': "UseRecoveryKey idkey i a db = (if n = length ks then Inl Key_Invalid else Inr (AList.update i ?r db))"
    unfolding use by simp
  have "length ?salts = length (remove1 ?k ks)" unfolding removed [symmetric] using r(3) by simp
  then have "holds_keys idkey i (remove1 ?k ks) (AList.update i ?r db)"
    unfolding holds_keys_def using r(2) by (intro exI [of _ ?r] exI [of _ ?salts]) (simp add: update_conv')
  then show ?thesis unfolding use' using takeWhile_length [of ?k ks] by (simp flip: n_def)
qed

lemma tells_apart_mono: "tells_apart idkey B \<Longrightarrow> A \<subseteq> B \<Longrightarrow> tells_apart idkey A"
  unfolding tells_apart_def by (meson subsetD)

lemma holds_keys_count:
  assumes "holds_keys idkey i ks db"
  shows "GetRemainingRecoveryKeyCount i db = Inr (length ks)"
proof -
  obtain r salts where r: "map_of db i = Some r" "t_enabled r" "length salts = length ks"
      "t_codes r = codes_text (map2 (hashPasswordArgon2id idkey) salts ks)"
    using assms unfolding holds_keys_def by blast
  have "\<forall>h \<in> set (map2 (hashPasswordArgon2id idkey) salts ks). hash_text h" using hash_text by auto
  from count_codes [OF this] show ?thesis
    using r by (auto simp: GetRemainingRecoveryKeyCount_def Let_def)
qed

lemma use_all_keys:
  assumes "holds_keys idkey i ks db" and "tells_apart idkey (normal_name ` set as \<union> set ks)"
    and "use_keys idkey i as db = (oks, db')" and "spend_keys as ks = (oks', ks')"
  shows "oks = oks' \<and> holds_keys idkey i ks' db'"
  using assms
proof (induction as arbitrary: ks db oks oks' ks' db')
  case (Cons a as)
  have apart: "tells_apart idkey (insert (normal_name a) (set ks))"
    using Cons.prems(2) by (rule tells_apart_mono) auto
  let ?ks1 = "if normal_name a \<in> set ks then remove1 (normal_name a) ks else ks"
  obtain oks1 ks1 where sp: "spend_keys as ?ks1 = (oks1, ks1)" by fastforce
  have rest: "tells_apart idkey (normal_name ` set as \<union> set ?ks1)"
    using Cons.prems(2) by (rule tells_apart_mono) (use set_remove1_subset [of "normal_name a" ks] in auto)
  show ?case
  proof (cases "normal_name a \<in> set ks")
    case True
    then obtain db1 where u: "UseRecoveryKey idkey i a db = Inr db1" "holds_keys idkey i ?ks1 db1"
      using use_one_key [OF Cons.prems(1) apart] by auto
    obtain oks2 db2 where us: "use_keys idkey i as db1 = (oks2, db2)" by fastforce
    show ?thesis using Cons.IH [OF u(2) rest us sp] Cons.prems(3,4) u(1) us sp True by (simp add: Let_def)
  next
    case False
    then have u: "UseRecoveryKey idkey i a db = Inl Key_Invalid" "holds_keys idkey i ?ks1 db"
      using use_one_key [OF Cons.prems(1) apart] Cons.prems(1) by auto
    obtain oks2 db2 where us: "use_keys idkey i as db = (oks2, db2)" by fastforce
    show ?thesis using Cons.IH [OF u(2) rest us sp] Cons.prems(3,4) u(1) us sp False by (simp add: Let_def)
  qed
qed simp


lemma EnableTOTP_Inr:
  assumes "EnableTOTP s idkey bufs salts nonce i secret st = Inr (ks, st')" and "length salts = length bufs" and "bufs \<noteq> []"
  shows "ks = map recovery_key bufs" and "holds_keys idkey i ks (snd st')"
    and "fst st' = update_user i (\<lambda>u. u\<lparr>u_totp := True\<rparr>) (fst st)"
    and "\<exists>stored v codes. encryptSecret s nonce secret = Inr (stored, v) \<and>
      snd st' = AList.update i \<lparr>t_secret = stored, t_enabled = True, t_codes = codes, t_key_version = v\<rparr> (snd st)"
proof -
  let ?hs = "map2 (hashPasswordArgon2id idkey) salts (map recovery_key bufs)"
  have "\<forall>h \<in> set ?hs. hash_text h" using hash_text by auto
  moreover have "?hs \<noteq> []" using assms(2,3) by (cases salts; cases bufs) auto
  ultimately have codes: "''['' @ [dquote] @ join_with codes_sep ?hs @ [dquote] @ '']'' = codes_text ?hs"
    by (rule codes_text_plain [symmetric])
  obtain stored v where e: "encryptSecret s nonce secret = Inr (stored, v)"
    using assms(1) by (auto simp: EnableTOTP_def Let_def split: sum.splits)
  show k: "ks = map recovery_key bufs" and "fst st' = update_user i (\<lambda>u. u\<lparr>u_totp := True\<rparr>) (fst st)"
    using assms(1) by (auto simp: EnableTOTP_def e Let_def GenerateRecoveryKeys_def)
  have st: "snd st' = AList.update i \<lparr>t_secret = stored, t_enabled = True, t_codes = codes_text ?hs, t_key_version = v\<rparr> (snd st)"
    using assms(1) unfolding EnableTOTP_def GenerateRecoveryKeys_def Let_def e codes [symmetric] by auto
  then show "\<exists>stored v codes. encryptSecret s nonce secret = Inr (stored, v) \<and>
      snd st' = AList.update i \<lparr>t_secret = stored, t_enabled = True, t_codes = codes, t_key_version = v\<rparr> (snd st)"
    using e by blast
  show "holds_keys idkey i ks (snd st')"
    unfolding holds_keys_def st k using assms(2)
    by (intro exI [of _ "\<lparr>t_secret = stored, t_enabled = True, t_codes = codes_text ?hs, t_key_version = v\<rparr>"] exI [of _ salts])
      (simp add: update_conv')
qed

text \<open>
  C23 (recovery_keys_refine). The recovery keys that were shown when the second factor was switched on behave like a
  list: an attempt succeeds exactly when its normal form (any case, spaces around it) is a key that is left, and then
  that key is gone; the count that is displayed is the number of keys left. So each key works once.
  The hashes of the keys and attempts at hand are taken to differ.
\<close>

theorem recovery_keys_refine:
  assumes "EnableTOTP s idkey bufs salts nonce i secret st = Inr (ks, st')" and "length salts = length bufs" and "bufs \<noteq> []"
    and "tells_apart idkey (normal_name ` set as \<union> set ks)"
  shows "fst (use_keys idkey i as (snd st')) = fst (spend_keys as ks) \<and>
    GetRemainingRecoveryKeyCount i (snd (use_keys idkey i as (snd st'))) = Inr (length (snd (spend_keys as ks)))"
proof -
  note e = EnableTOTP_Inr(2) [OF assms(1-3)]
  obtain oks db' oks' ks' where u: "use_keys idkey i as (snd st') = (oks, db')" "spend_keys as ks = (oks', ks')" by fastforce
  from use_all_keys [OF e assms(4) u] show ?thesis using u holds_keys_count by auto
qed


theorem recovery_keys_refine_witness:
  "\<exists>st'. EnableTOTP \<lparr>gcm_of = \<lparr>seal = \<lambda>k n p. p, unseal = \<lambda>k n c. Some c\<rparr>, encryptionKey = [], encryptionKeyVersion = 1\<rparr>
      (\<lambda>p s t m th k. take k (p @ replicate k (CHR ''x''))) [''abcdef'', ''ghijkl''] [''s1'', ''s2''] ''n'' 1 ''SECRET'' (alice_account, [])
      = Inr ([''61626364-6566'', ''6768696a-6b6c''], st') \<and>
    fst (use_keys (\<lambda>p s t m th k. take k (p @ replicate k (CHR ''x''))) 1 ['' 6768696A-6B6C'', ''6768696a-6b6c''] (snd st')) = [True, False]"
proof -
  let ?idkey = "\<lambda>p s t m th k. take k (p @ replicate k (CHR ''x''))"
  let ?s = "\<lparr>gcm_of = \<lparr>seal = \<lambda>k n p. p, unseal = \<lambda>k n c. Some c\<rparr>, encryptionKey = [], encryptionKeyVersion = 1\<rparr> :: totp_service"
  let ?ks = "[''61626364-6566'', ''6768696a-6b6c'']"
  have k: "map recovery_key [''abcdef'', ''ghijkl''] = ?ks"
    by (simp add: recovery_key_def EncodeToString_def hex_nibble_def eval_simps)
  have "\<exists>st'. EnableTOTP ?s ?idkey [''abcdef'', ''ghijkl''] [''s1'', ''s2''] ''n'' 1 ''SECRET'' (alice_account, []) = Inr (?ks, st')"
    unfolding EnableTOTP_def GenerateRecoveryKeys_def k by (simp add: encryptSecret_def Let_def)
  then obtain st' where e: "EnableTOTP ?s ?idkey [''abcdef'', ''ghijkl''] [''s1'', ''s2''] ''n'' 1 ''SECRET'' (alice_account, []) = Inr (?ks, st')"
    by blast
  have n: "normal_name '' 6768696A-6B6C'' = ''6768696a-6b6c''" "normal_name ''6768696a-6b6c'' = ''6768696a-6b6c''"
    by (simp_all add: normal_name_def eval_simps)
  have "tells_apart ?idkey (normal_name ` set ['' 6768696A-6B6C'', ''6768696a-6b6c''] \<union> set ?ks)"
    unfolding tells_apart_def by (auto simp: n min_def)
  from recovery_keys_refine [OF e _ _ this] show ?thesis using e n by simp
qed

section \<open>The secret\<close>

lemma btoa_padded:
  "\<exists>k \<le> 2. btoa s = map b64_digit (b64_plain s) @ replicate k (CHR ''='') \<and> (length (b64_plain s) + k) mod 4 = 0"
proof (induction s rule: btoa.induct)
  case (1 a b c s)
  then obtain k where "k \<le> 2" "btoa s = map b64_digit (b64_plain s) @ replicate k (CHR ''='')" "(length (b64_plain s) + k) mod 4 = 0"
    by (elim exE conjE) (rule that)
  then show ?case by (intro exI [of _ k]) simp
next
  case (2 a b)
  show ?case by (rule exI [of _ 1]) simp
next
  case (3 a)
  show ?case by (rule exI [of _ 2]) (simp add: numeral_2_eq_2)
qed simp

lemma drop_padding_btoa: "drop_padding (btoa s) = map b64_digit (b64_plain s)"
proof -
  obtain k where k: "k \<le> 2" "btoa s = map b64_digit (b64_plain s) @ replicate k (CHR ''='')" "(length (b64_plain s) + k) mod 4 = 0"
    using btoa_padded [of s] by (elim exE conjE) (rule that)
  let ?t = "map b64_digit (b64_plain s)"
  have last: "last ?t \<noteq> CHR ''=''" if "?t \<noteq> []"
    using that digit_not_padding b64_plain_small [of "last (b64_plain s)" s] by (simp add: last_map)
  consider "k = 0" | "k = 1" | "k = 2" using k(1) by linarith
  then show ?thesis
  proof cases
    case 1
    then show ?thesis using k(2) last by (cases "?t = []") (simp_all add: drop_padding_def)
  next
    case 2
    then show ?thesis using k(2,3) last by (cases "?t = []") (simp_all add: drop_padding_def)
  next
    case 3
    then have "btoa s = (?t @ [CHR ''='']) @ [CHR ''='']" using k(2) by (simp add: numeral_2_eq_2)
    then show ?thesis using 3 k(3) by (simp add: drop_padding_def butlast_append)
  qed
qed

interpretation std64: codec btoa Std_Decode
proof
  fix s
  have nl: "code (b64_digit n) \<noteq> (10::nat) \<and> code (b64_digit n) \<noteq> (13::nat)" if "n < 64" for n
    using b64_digit_not(3) [OF that] by (auto simp: b64_space_def)
  obtain k where k: "btoa s = map b64_digit (b64_plain s) @ replicate k (CHR ''='')" "(length (b64_plain s) + k) mod 4 = 0"
    using btoa_padded [of s] by (elim exE conjE) (rule that)
  have "filter (\<lambda>c. code c \<noteq> (10::nat) \<and> code c \<noteq> (13::nat)) (btoa s) = btoa s"
    unfolding k(1) using nl b64_plain_small [of _ s] by (intro filter_True) auto
  moreover have "length (btoa s) mod 4 = 0" using k by simp
  moreover have "\<forall>n \<in> set ds. n < 64 \<Longrightarrow> those (map b64_value (map b64_digit ds)) = Some ds" for ds
    by (induction ds) (simp_all add: b64_value_digit)
  then have "those (map b64_value (map b64_digit (b64_plain s))) = Some (b64_plain s)" using b64_plain_small by blast
  ultimately show "Std_Decode (btoa s) = Some s"
    by (simp add: Std_Decode_def drop_padding_btoa groups_plain)
qed

text \<open>What is relied on of AES-GCM: opening what was sealed with the same key and nonce.\<close>

definition opens_sealed :: "gcm \<Rightarrow> bool" where
  "opens_sealed g \<longleftrightarrow> (\<forall>k n p. unseal g k n (seal g k n p) = Some p)"

definition service_key_sound :: "totp_service \<Rightarrow> bool" where
  "service_key_sound s \<longleftrightarrow> opens_sealed (gcm_of s) \<and> (encryptionKey s = [] \<or> encryptionKeyVersion s \<noteq> 0)"

lemma decrypt_encrypted:
  assumes "service_key_sound s" and "length nonce = 12" and "encryptSecret s nonce p = Inr (stored, v)"
  shows "decryptSecret s stored v = Inr p"
proof (cases "encryptionKey s = []")
  case True
  then show ?thesis using assms(3) by (simp add: encryptSecret_def decryptSecret_def)
next
  case False
  then have "length (encryptionKey s) = 32" "stored = btoa (nonce @ seal (gcm_of s) (encryptionKey s) nonce p)" "v = encryptionKeyVersion s"
    using assms(3) by (auto simp: encryptSecret_def EncryptGCM_def split: if_splits)
  then show ?thesis using False assms(1,2)
    by (auto simp: decryptSecret_def DecryptGCM_def std64.dec_enc service_key_sound_def opens_sealed_def)
qed


section \<open>Log-in with a code\<close>

lemma ValidateUserSession_Inr:
  "ValidateUserSession t sid db = Inr (i, u) \<longleftrightarrow>
    (\<exists>s. map_of (user_sessions db) sid = Some s \<and> s_owner s = i \<and> t < s_expires s \<and> map_of (user_rows db) i = Some u)"
  by (auto simp: ValidateUserSession_def split: option.splits)

lemma Login_pending:
  assumes "Login verify buf now' tls ident p rm db = (Two_Factor_Needed ck, db')" and "distinct (map fst (user_rows db))"
    and "find_user (normal_name ident) db = Some (i, u)"
  shows "verify p (u_hash u)" and "u_totp u" and "map_of (user_rows db') i = Some (u\<lparr>u_last_login := Some now'\<rparr>)"
    and "map_of (user_sessions db') (sc_value ck) = Some \<lparr>s_owner = i, s_created = now', s_expires = now' + days_of 7\<rparr>"
proof -
  obtain j v db1 where a: "AuthenticateUser verify now' ident p db = Inr ((j, v), db1)" "u_totp v"
      and c: "CreateUserSession buf now' j False db1 = Inr (sc_value ck, db')"
    using assms(1) by (auto simp: Login_def split: sum.splits if_splits)
  from a(1) have u: "j = i" "v = u" "verify p (u_hash u)" "db1 = update_user i (\<lambda>u. u\<lparr>u_last_login := Some now'\<rparr>) db"
    unfolding AuthenticateUser_Inr using assms(3) by auto
  have "map_of (user_rows db1) i = Some (u\<lparr>u_last_login := Some now'\<rparr>)"
    using find_user_row [OF assms(3,2)] unfolding u(4) map_of_update_user by simp
  then show "map_of (user_rows db') i = Some (u\<lparr>u_last_login := Some now'\<rparr>)"
    "map_of (user_sessions db') (sc_value ck) = Some \<lparr>s_owner = i, s_created = now', s_expires = now' + days_of 7\<rparr>"
    using c u unfolding CreateUserSession_Inr by auto
  show "verify p (u_hash u)" "u_totp u" using u(2,3) a(2) by simp_all
qed

text \<open>
  C24 (login_with_code). A user who was shown a secret and switched the second factor on logs in with the password
  and then a code. A code of an authenticator with that secret, of the current step or a neighbour, ends the
  session that waited and opens one of seven days for the same user; any other code changes nothing.
  The secret is stored sealed in between.
\<close>

theorem login_with_code:
  assumes "auth_reachable db0"
    and "EnableTOTP s idkey bufs salts nonce i (GenerateTOTPSecret key) (db0, tdb0) = Inr (ks, db, tdb)"
    and "length salts = length bufs" "bufs \<noteq> []" "length key = 20" "length nonce = 12" "service_key_sound s"
    and "find_user (normal_name ident) db = Some (i, u)"
    and "Login verify buf now' tls ident p rm db = (Two_Factor_Needed ck, db1)"
    and "rq_method r = ''POST''" "request_cookie (rq_cookies r) ''2fa_pending'' = Some (sc_value ck)" "sc_value ck \<noteq> []"
    and "length (TrimSpace (rq_form r ''code'')) = 6" "now' \<le> t" "t < now' + days_of 7"
    and "map_of (user_sessions db1) (generateSessionID buf') = None"
  shows "verify p (u_hash u) \<and>
    (if \<exists>n \<in> {current_step t - 1, current_step t, current_step t + 1}. TrimSpace (rq_form r ''code'') = generateTOTPCode hmac key n
     then \<exists>db2. Verify hmac s buf' t r (db1, tdb) =
         (Totp_Signed_In [clear_pending_cookie, user_session_cookie (rq_tls r) (generateSessionID buf') (days_of 7)], db2, tdb) \<and>
       (\<forall>t'. ValidateUserSession t' (sc_value ck) db2 = Inl Session_Invalid) \<and>
       (\<forall>t'. (\<exists>v. ValidateUserSession t' (generateSessionID buf') db2 = Inr (i, v)) \<longleftrightarrow> t' < t + days_of 7)
     else Verify hmac s buf' t r (db1, tdb) = (Totp_Refused 401 ''Invalid verification code. Please try again.'', db1, tdb))"
proof -
  note e = EnableTOTP_Inr [OF assms(2-4), simplified]
  have "auth_reachable db" unfolding e(3) by (rule next_account [OF assms(1) totp_step])
  then have d: "distinct (map fst (user_rows db))" using auth_reachable_inv unfolding auth_inv_def users_sound_def by blast
  note l = Login_pending [OF assms(9) d assms(8)]
  have valid: "ValidateUserSession t (sc_value ck) db1 = Inr (i, u\<lparr>u_last_login := Some now'\<rparr>)"
    unfolding ValidateUserSession_Inr using l(3,4) assms(15) by auto
  obtain stored v codes where c: "encryptSecret s nonce (GenerateTOTPSecret key) = Inr (stored, v)"
      "tdb = AList.update i \<lparr>t_secret = stored, t_enabled = True, t_codes = codes, t_key_version = v\<rparr> tdb0"
    using e(4) by blast
  have secret: "GetTOTPSecret s i tdb = Inr (GenerateTOTPSecret key)"
    unfolding GetTOTPSecret_def c(2) using decrypt_encrypted [OF assms(7,6) c(1)] by (simp add: update_conv')
  let ?code = "TrimSpace (rq_form r ''code'')"
  have code': "VerifyTOTPCode hmac t (GenerateTOTPSecret key) ?code \<longleftrightarrow>
      (\<exists>n \<in> {current_step t - 1, current_step t, current_step t + 1}. ?code = generateTOTPCode hmac key n)"
    using code_accepted [OF assms(5) shown_secret] assms(5) by simp
  have ne: "?code \<noteq> []" using assms(13) by auto
  let ?new = "\<lparr>s_owner = i, s_created = t, s_expires = t + days_of 7\<rparr>"
  let ?db2 = "(RevokeSession (sc_value ck) db1)\<lparr>user_sessions := (generateSessionID buf', ?new) # AList.delete (sc_value ck) (user_sessions db1)\<rparr>"
  have "sc_value ck \<noteq> generateSessionID buf'" using l(4) assms(16) by auto
  moreover from this have "CreateUserSession buf' t i False (RevokeSession (sc_value ck) db1) = Inr (generateSessionID buf', ?db2)"
    unfolding CreateUserSession_Inr RevokeSession_def using assms(16) by (simp add: delete_conv')
  moreover have "map_of (user_rows ?db2) i = Some (u\<lparr>u_last_login := Some now'\<rparr>)" using l(3) by (simp add: RevokeSession_def)
  ultimately show ?thesis
    using l(1) assms(10-13) ne valid secret code'
    by (auto simp: Verify_def Let_def ValidateUserSession_def delete_conv')
qed


text \<open>An account with the second factor, a pending log-in, and the right code.\<close>

abbreviation plain_service :: totp_service where
  "plain_service \<equiv> \<lparr>gcm_of = \<lparr>seal = \<lambda>k n p. p, unseal = \<lambda>k n c. Some c\<rparr>, encryptionKey = replicate 32 (CHR ''k''), encryptionKeyVersion = 1\<rparr>"

definition code_request :: http_request where
  "code_request = \<lparr>rq_method = ''POST'', rq_path = ''/server/auth/2fa'', rq_header = (\<lambda>_. []),
     rq_cookies = ''2fa_pending=QUJD'', rq_form = (\<lambda>_. ''464432''), rq_tls = True\<rparr>"

lemma session_ids: "generateSessionID ''ABC'' = ''QUJD''" "generateSessionID ''XYZ'' = ''WFla''"
  by (simp_all add: generateSessionID_def URL_Encode_def subst_char_def b64_digit_def eval_simps)

theorem login_with_code_witness:
  "\<exists>db1 tdb db2. Login (=) ''ABC'' 0 True '' ALICE'' ''secret12'' False (update_user 1 (\<lambda>u. u\<lparr>u_totp := True\<rparr>) alice_account) =
      (Two_Factor_Needed \<lparr>sc_name = ''2fa_pending'', sc_value = ''QUJD'', sc_path = ''/'', sc_max_age = 300,
         sc_http_only = True, sc_secure = True, sc_same_site = ''Lax''\<rparr>, db1) \<and>
    Verify (\<lambda>k m. replicate 20 (CHR ''0'')) plain_service ''XYZ'' 100 code_request (db1, tdb) =
      (Totp_Signed_In [clear_pending_cookie, user_session_cookie True ''WFla'' (days_of 7)], db2, tdb)"
proof -
  let ?idkey = "\<lambda>p s t m th k. take k (p @ replicate k (CHR ''x''))" and ?key = "''12345678901234567890''"
  let ?db = "update_user 1 (\<lambda>u. u\<lparr>u_totp := True\<rparr>) alice_account"
  let ?u = "(new_user ''alice'' ''a@x.io'' ''secret12'')\<lparr>u_totp := True\<rparr>"
  have "\<exists>ks tdb. EnableTOTP plain_service ?idkey [''abcdef''] [''s1''] (replicate 12 (CHR ''n'')) 1 (GenerateTOTPSecret ?key) (alice_account, [])
      = Inr (ks, ?db, tdb)"
    by (simp add: EnableTOTP_def encryptSecret_def EncryptGCM_def Let_def)
  then obtain ks tdb where e: "EnableTOTP plain_service ?idkey [''abcdef''] [''s1''] (replicate 12 (CHR ''n'')) 1 (GenerateTOTPSecret ?key)
      (alice_account, []) = Inr (ks, ?db, tdb)" by blast
  have db: "?db = alice_account\<lparr>user_rows := [(1, ?u)]\<rparr>" by (simp add: update_user_def alice_account_def)
  have found: "find_user (normal_name '' ALICE'') ?db = Some (1, ?u)"
    unfolding alice_name db by (simp add: find_user_def new_user_def)
  let ?ck = "\<lparr>sc_name = ''2fa_pending'', sc_value = ''QUJD'', sc_path = ''/'', sc_max_age = 300,
         sc_http_only = True, sc_secure = True, sc_same_site = ''Lax''\<rparr>"
  let ?db1 = "(update_user 1 (\<lambda>u. u\<lparr>u_last_login := Some 0\<rparr>) ?db)\<lparr>user_sessions := [(''QUJD'', alice_session)]\<rparr>"
  have "AuthenticateUser (=) 0 '' ALICE'' ''secret12'' ?db = Inr ((1, ?u), update_user 1 (\<lambda>u. u\<lparr>u_last_login := Some 0\<rparr>) ?db)"
    unfolding AuthenticateUser_Inr using found by (simp add: new_user_def)
  moreover have "CreateUserSession ''ABC'' 0 1 False (update_user 1 (\<lambda>u. u\<lparr>u_last_login := Some 0\<rparr>) ?db) = Inr (''QUJD'', ?db1)"
    unfolding CreateUserSession_Inr session_ids by (simp add: db no_accounts_def alice_account_def)
  ultimately have login: "Login (=) ''ABC'' 0 True '' ALICE'' ''secret12'' False ?db = (Two_Factor_Needed ?ck, ?db1)"
    by (simp add: Login_def)
  have cookie: "request_cookie (rq_cookies code_request) ''2fa_pending'' = Some (sc_value ?ck)"
    by (simp add: code_request_def eval_simps)
  have form: "TrimSpace (rq_form code_request ''code'') = ''464432''" by (simp add: code_request_def eval_simps)
  have code': "generateTOTPCode (\<lambda>k m. replicate 20 (CHR ''0'')) ?key n = ''464432''" for n
  proof -
    have "replicate 20 (CHR ''0'') = ''00000000000000000000''" by (simp add: numeral_eq_Suc)
    moreover have "digits 10 6 464432 = [4, 6, 4, 4, 3, 2]" by (simp add: digits_def upt_rec)
    ultimately show ?thesis by (simp add: generateTOTPCode_def six_digits_def number_def Let_def eval_simps)
  qed
  have sound: "service_key_sound plain_service" by (simp add: service_key_sound_def opens_sealed_def)
  have post: "rq_method code_request = ''POST''" "rq_tls code_request" by (simp_all add: code_request_def)
  have fresh: "map_of (user_sessions ?db1) (generateSessionID ''XYZ'') = None" by (simp add: session_ids)
  have sizes: "length [''s1''] = length [''abcdef'']" "[''abcdef''] \<noteq> []" "length ?key = 20" "length (replicate 12 (CHR ''n'')) = 12"
    "sc_value ?ck \<noteq> []" "length (TrimSpace (rq_form code_request ''code'')) = 6" "0 \<le> (100 :: int)" "100 < 0 + days_of 7"
    by (simp_all add: form)
  have "\<exists>n \<in> {current_step 100 - 1, current_step 100, current_step 100 + 1}.
      TrimSpace (rq_form code_request ''code'') = generateTOTPCode (\<lambda>k m. replicate 20 (CHR ''0'')) ?key n"
    unfolding form code' by blast
  with login_with_code [OF alice_reachable e sizes(1-4) sound found login post(1) cookie sizes(5-8) fresh, where hmac = "\<lambda>k m. replicate 20 (CHR ''0'')"]
  have "\<exists>db2. Verify (\<lambda>k m. replicate 20 (CHR ''0'')) plain_service ''XYZ'' 100 code_request (?db1, tdb) =
      (Totp_Signed_In [clear_pending_cookie, user_session_cookie (rq_tls code_request) (generateSessionID ''XYZ'') (days_of 7)], db2, tdb)"
    by (simp only: if_True simp_thms) blast
  then show ?thesis using login post(2) unfolding session_ids by auto
qed

section \<open>What the second factor does not do\<close>

text \<open>
  Switching it on asks for no password: whoever holds a session of the user, also the one that waits for a code, can
  replace the secret by one of their own.
\<close>

lemma second_factor_replaced:
  assumes "VerifyTOTPCode hmac now' (TrimSpace secret) (TrimSpace code')" and "TrimSpace secret \<noteq> []"
    and "handleTOTPVerify hmac s idkey bufs salts nonce now' i secret code' st = (Keys_Shown ks, st')"
    and "length salts = length bufs" "bufs \<noteq> []" "length nonce = 12" "service_key_sound s"
  shows "GetTOTPSecret s i (snd st') = Inr (TrimSpace secret)"
proof -
  have "EnableTOTP s idkey bufs salts nonce i (TrimSpace secret) st = Inr (ks, st')"
    using assms(1-3) by (auto simp: handleTOTPVerify_def Let_def split: sum.splits if_splits)
  from EnableTOTP_Inr(4) [OF this assms(4,5)] obtain stored v codes where
    c: "encryptSecret s nonce (TrimSpace secret) = Inr (stored, v)"
      "snd st' = AList.update i \<lparr>t_secret = stored, t_enabled = True, t_codes = codes, t_key_version = v\<rparr> (snd st)"
    by blast
  show ?thesis unfolding GetTOTPSecret_def c(2) using decrypt_encrypted [OF assms(7,6) c(1)] by (simp add: update_conv')
qed

end
