(* ===== verification/Domains.thy ===== *)
theory Domains
  imports Orgs
begin

text \<open>
  Custom domains: \<^verbatim>\<open>src/server/service/domain.go\<close> over the tables \<open>custom_domains\<close> and
  \<open>custom_domain_audit\<close> and its cache of resolved hosts: policy, limits, additions, moderation, deletion,
  the check of the TXT record and the scheduled tasks. The lookup of TXT records and the matcher of regular expressions are
  arguments. Times are nanoseconds; of the times of a row only its creation is kept. A query
  does not fail.
\<close>

section \<open>Tables and cache\<close>

record domain_row =
  dm_owner_type :: string
  dm_owner :: int
  dm_name :: string
  dm_apex :: bool
  dm_wildcard :: bool
  dm_verification :: string
  dm_token :: string
  dm_checks :: nat
  dm_ssl :: bool
  dm_ssl_status :: string
  dm_status :: string
  dm_created :: int

text \<open>Domain, action, kind of actor, actor and details.\<close>

type_synonym audit_row = "int \<times> string \<times> string \<times> int option \<times> string"

text \<open>The cache maps hosts to a row, or none, and the time until which that counts.\<close>

record domain_state =
  domain_rows :: "(int \<times> domain_row) list"
  next_domain :: int
  domain_audit :: "audit_row list"
  resolve_cache :: "(string \<times> (int \<times> domain_row) option \<times> int) list"

record domains_config =
  max_per_user :: int
  max_per_org :: int
  verification_seconds :: int
  reserved_names :: "string list"
  blocked_patterns :: "string list"

datatype domain_error =
    ErrDomainReserved
  | ErrDomainBlockedPattern
  | ErrDomainAlreadyExists
  | ErrDomainLimitReached
  | ErrDomainNotFound
  | DNS_Lookup_Failed
  | TXT_Record_Missing

abbreviation nano_second :: int where
  "nano_second \<equiv> 1000000000"

definition domainResolveCacheTTL :: int where
  "domainResolveCacheTTL = 60 * nano_second"

definition update_domain :: "int \<Rightarrow> (domain_row \<Rightarrow> domain_row) \<Rightarrow> domain_state \<Rightarrow> domain_state" where
  "update_domain i f st = st\<lparr>domain_rows := map (\<lambda>(j, d). (j, if j = i then f d else d)) (domain_rows st)\<rparr>"

text \<open>The columns that the lists and lookups read: neither the token nor the number of checks.\<close>

definition scanCustomDomain :: "domain_row \<Rightarrow> domain_row" where
  "scanCustomDomain d = d\<lparr>dm_token := [], dm_checks := 0\<rparr>"

definition logDomainAudit :: "audit_row \<Rightarrow> domain_state \<Rightarrow> domain_state" where
  "logDomainAudit a st = st\<lparr>domain_audit := a # domain_audit st\<rparr>"

definition invalidateResolveCache :: "domain_state \<Rightarrow> domain_state" where
  "invalidateResolveCache st = st\<lparr>resolve_cache := []\<rparr>"

section \<open>Adding a domain\<close>

definition TrimSuffix :: "string \<Rightarrow> string \<Rightarrow> string" where
  "TrimSuffix s t = (if HasSuffix s t then take (length s - length t) s else s)"

definition isReservedDomain :: "domains_config \<Rightarrow> string \<Rightarrow> bool" where
  "isReservedDomain cfg domain =
     (let d = ToLower (TrimSuffix domain ''.'')
      in list_ex (\<lambda>entry.
           let e = ToLower (TrimSpace entry)
           in if e = [] then False
              else if HasPrefix e ''*.'' then d = drop 2 e \<or> HasSuffix d (drop 1 e)
              else d = e) (reserved_names cfg))"

text \<open>A pattern that does not compile is skipped.\<close>

definition matchesBlockedPattern :: "(string \<Rightarrow> (string \<Rightarrow> bool) option) \<Rightarrow> domains_config \<Rightarrow> string \<Rightarrow> bool" where
  "matchesBlockedPattern compile cfg domain =
     (let d = ToLower (TrimSuffix domain ''.'')
      in list_ex (\<lambda>pat.
           let p = TrimSpace pat
           in if p = [] then False else (case compile p of None \<Rightarrow> False | Some matches \<Rightarrow> matches d)) (blocked_patterns cfg))"

definition domainLimitFor :: "domains_config \<Rightarrow> string \<Rightarrow> int" where
  "domainLimitFor cfg ownerType = (if ownerType = ''org'' then max_per_org cfg else max_per_user cfg)"

definition owned_count :: "string \<Rightarrow> int \<Rightarrow> domain_state \<Rightarrow> nat" where
  "owned_count ownerType ownerID st =
     length (filter (\<lambda>x. dm_owner_type (snd x) = ownerType \<and> dm_owner (snd x) = ownerID) (domain_rows st))"

text \<open>From twelve random bytes.\<close>

definition generateVerificationToken :: "nat list \<Rightarrow> string" where
  "generateVerificationToken buf = ''verify_'' @ EncodeToString buf"

definition new_domain :: "string \<Rightarrow> int \<Rightarrow> string \<Rightarrow> string \<Rightarrow> int \<Rightarrow> domain_row" where
  "new_domain ownerType ownerID domain token now' =
     \<lparr>dm_owner_type = ownerType, dm_owner = ownerID, dm_name = domain,
      dm_apex = (length (filter (\<lambda>c. c = CHR ''.'') domain) = 1), dm_wildcard = False,
      dm_verification = ''pending'', dm_token = token, dm_checks = 0, dm_ssl = False, dm_ssl_status = ''none'',
      dm_status = ''pending'', dm_created = now'\<rparr>"

definition AddDomain ::
    "(string \<Rightarrow> (string \<Rightarrow> bool) option) \<Rightarrow> domains_config \<Rightarrow> nat list \<Rightarrow> int \<Rightarrow> string \<Rightarrow> int \<Rightarrow> string \<Rightarrow> domain_state \<Rightarrow>
     domain_error + (int \<times> domain_row) \<times> domain_state" where
  "AddDomain compile cfg buf now' ownerType ownerID domain st =
     (if isReservedDomain cfg domain then Inl ErrDomainReserved
      else if matchesBlockedPattern compile cfg domain then Inl ErrDomainBlockedPattern
      else if list_ex (\<lambda>x. dm_name (snd x) = domain) (domain_rows st) then Inl ErrDomainAlreadyExists
      else if domainLimitFor cfg ownerType > 0 \<and> int (owned_count ownerType ownerID st) \<ge> domainLimitFor cfg ownerType
      then Inl ErrDomainLimitReached
      else
        let row = new_domain ownerType ownerID domain (generateVerificationToken buf) now'; i = next_domain st
        in Inr ((i, row),
             logDomainAudit (i, ''created'', ownerType, Some ownerID, [])
               (st\<lparr>domain_rows := domain_rows st @ [(i, row)], next_domain := i + 1\<rparr>)))"

section \<open>Lookups\<close>

text \<open>Newest first.\<close>

definition GetUserDomains :: "int \<Rightarrow> domain_state \<Rightarrow> (int \<times> domain_row) list" where
  "GetUserDomains userID st =
     map (\<lambda>(i, d). (i, scanCustomDomain d))
       (sort_key (\<lambda>x. - dm_created (snd x))
         (filter (\<lambda>x. dm_owner_type (snd x) = ''user'' \<and> dm_owner (snd x) = userID) (domain_rows st)))"

definition GetOrgDomains :: "int \<Rightarrow> domain_state \<Rightarrow> (int \<times> domain_row) list" where
  "GetOrgDomains orgID st =
     map (\<lambda>(i, d). (i, scanCustomDomain d))
       (sort_key (\<lambda>x. - dm_created (snd x))
         (filter (\<lambda>x. dm_owner_type (snd x) = ''org'' \<and> dm_owner (snd x) = orgID) (domain_rows st)))"

definition getDomainByID :: "int \<Rightarrow> domain_state \<Rightarrow> domain_error + int \<times> domain_row" where
  "getDomainByID i st =
     (case map_of (domain_rows st) i of None \<Rightarrow> Inl ErrDomainNotFound | Some d \<Rightarrow> Inr (i, scanCustomDomain d))"

text \<open>The page and the number of all rows.\<close>

definition ListAllDomains :: "int \<Rightarrow> int \<Rightarrow> domain_state \<Rightarrow> (int \<times> domain_row) list \<times> nat" where
  "ListAllDomains page0 limit0 st =
     (let page = (if page0 < 1 then 1 else page0);
          limit = (if limit0 < 1 \<or> limit0 > 250 then 250 else limit0);
          offset = (page - 1) * limit
      in (map (\<lambda>(i, d). (i, scanCustomDomain d))
            (take (nat limit) (drop (nat offset) (sort_key (\<lambda>x. - dm_created (snd x)) (domain_rows st)))),
          length (domain_rows st)))"

text \<open>The TXT record of the instructions for the owner.\<close>

definition BuildDNSInstructions :: "domain_row \<Rightarrow> string \<times> string" where
  "BuildDNSInstructions d = (''_verify.'' @ dm_name d, dm_token d)"

section \<open>Moderation and deletion\<close>

definition SuspendDomain :: "int \<Rightarrow> int option \<Rightarrow> domain_state \<Rightarrow> domain_error + domain_state" where
  "SuspendDomain i actorID st =
     (if map_of (domain_rows st) i = None then Inl ErrDomainNotFound
      else Inr (logDomainAudit (i, ''suspended'', ''admin'', actorID, [])
        (invalidateResolveCache (update_domain i (\<lambda>d. d\<lparr>dm_status := ''suspended''\<rparr>) st))))"

definition UnsuspendDomain :: "int \<Rightarrow> int option \<Rightarrow> domain_state \<Rightarrow> domain_error + domain_state" where
  "UnsuspendDomain i actorID st =
     (case getDomainByID i st of
        Inl e \<Rightarrow> Inl e
      | Inr (j, d) \<Rightarrow>
          let newStatus = (if dm_verification d = ''verified'' then ''active'' else ''pending'')
          in Inr (logDomainAudit (i, ''unsuspended'', ''admin'', actorID, ''status='' @ newStatus)
            (invalidateResolveCache (update_domain i (\<lambda>d. d\<lparr>dm_status := newStatus\<rparr>) st))))"

text \<open>A DELETE takes the rows of the audit with it.\<close>

definition delete_domains :: "((int \<times> domain_row) \<Rightarrow> bool) \<Rightarrow> domain_state \<Rightarrow> domain_state" where
  "delete_domains P st =
     st\<lparr>domain_rows := filter (\<lambda>x. \<not> P x) (domain_rows st),
        domain_audit := filter (\<lambda>a. \<not> list_ex (\<lambda>x. P x \<and> fst x = fst a) (domain_rows st)) (domain_audit st)\<rparr>"

definition AdminDeleteDomain :: "int \<Rightarrow> domain_state \<Rightarrow> domain_error + domain_state" where
  "AdminDeleteDomain i st =
     (if map_of (domain_rows st) i = None then Inl ErrDomainNotFound
      else Inr (invalidateResolveCache (delete_domains (\<lambda>x. fst x = i) st)))"

definition DeleteOwnedDomain :: "string \<Rightarrow> int \<Rightarrow> int \<Rightarrow> domain_state \<Rightarrow> domain_error + domain_state" where
  "DeleteOwnedDomain ownerType ownerID i st =
     (let P = (\<lambda>x. fst x = i \<and> dm_owner_type (snd x) = ownerType \<and> dm_owner (snd x) = ownerID)
      in if \<not> list_ex P (domain_rows st) then Inl ErrDomainNotFound
         else Inr (invalidateResolveCache (delete_domains P st)))"

section \<open>Verification\<close>

text \<open>\<open>None\<close> of the lookup is an error of it; the second component is the new state.\<close>

definition VerifyDomain :: "(string \<Rightarrow> string list option) \<Rightarrow> int \<Rightarrow> domain_state \<Rightarrow> domain_error option \<times> domain_state" where
  "VerifyDomain txt i st =
     (case map_of (domain_rows st) i of
        None \<Rightarrow> (Some ErrDomainNotFound, st)
      | Some d \<Rightarrow>
          let failed = update_domain i (\<lambda>d. d\<lparr>dm_verification := ''failed'', dm_checks := dm_checks d + 1\<rparr>) st
          in (case txt (''_verify.'' @ dm_name d) of
                None \<Rightarrow> (Some DNS_Lookup_Failed, failed)
              | Some values \<Rightarrow>
                  if \<not> list_ex (\<lambda>v. TrimSpace v = dm_token d) values then (Some TXT_Record_Missing, failed)
                  else
                    let issue = \<not> dm_wildcard d \<and> dm_ssl_status d = ''none''
                    in (None, invalidateResolveCache (logDomainAudit (i, ''verified'', dm_owner_type d, Some (dm_owner d), [])
                      (update_domain i (\<lambda>d. d\<lparr>dm_verification := ''verified'', dm_checks := dm_checks d + 1, dm_status := ''active'',
                         dm_ssl := dm_ssl d \<or> issue, dm_ssl_status := (if issue then ''pending'' else dm_ssl_status d)\<rparr>) st)))))"

definition verificationTTL :: "domains_config \<Rightarrow> int" where
  "verificationTTL cfg = (if verification_seconds cfg > 0 then verification_seconds cfg * nano_second else 24 * 3600 * nano_second)"

text \<open>The scheduled tasks: the domains are tried in the order of their ids.\<close>

definition RetryPendingVerifications ::
    "(string \<Rightarrow> string list option) \<Rightarrow> domains_config \<Rightarrow> int \<Rightarrow> domain_state \<Rightarrow> nat \<times> domain_state" where
  "RetryPendingVerifications txt cfg now' st =
     (let cutoff = now' - verificationTTL cfg;
          ids = sort (map fst (filter (\<lambda>x. dm_status (snd x) \<noteq> ''active'' \<and> dm_verification (snd x) \<noteq> ''verified'' \<and>
                  dm_created (snd x) \<ge> cutoff) (domain_rows st)))
      in (length ids, fold (\<lambda>i st. snd (VerifyDomain txt i st)) ids st))"

definition CleanupExpiredPendingVerifications :: "domains_config \<Rightarrow> int \<Rightarrow> domain_state \<Rightarrow> nat \<times> domain_state" where
  "CleanupExpiredPendingVerifications cfg now' st =
     (let cutoff = now' - verificationTTL cfg;
          P = (\<lambda>x. dm_status (snd x) \<noteq> ''active'' \<and> dm_verification (snd x) \<noteq> ''verified'' \<and> dm_created (snd x) < cutoff)
      in (length (filter P (domain_rows st)), delete_domains P st))"

end
