(* ===== verification/TimedCache.thy ===== *)
theory TimedCache
  imports Main
begin

text \<open>
  A cache whose entries count for a while: what is read after a write, and after the cache was
  emptied. A client that only writes what it has just looked up reads what a lookup would give,
  for as long as the answers of the lookup stay the same or the cache is emptied when they change.
\<close>

locale timed_cache =
  fixes get :: "int \<Rightarrow> 'k \<Rightarrow> 'c \<Rightarrow> 'v option"
    and put :: "int \<Rightarrow> 'k \<Rightarrow> 'v \<Rightarrow> 'c \<Rightarrow> 'c"
    and clear :: "'c \<Rightarrow> 'c"
    and ttl :: int
  assumes get_put: "get t k (put s k' v c) = (if k = k' then if t > s + ttl then None else Some v else get t k c)"
    and get_clear: "get t k (clear c) = None"
begin

lemma exact_put:
  assumes "\<And>t k v. get t k c = Some v \<Longrightarrow> v = f k" and "get t k (put s k' (f k') c) = Some v"
  shows "v = f k"
  using assms by (auto simp: get_put split: if_splits)

lemma exact_clear: "get t k (clear c) = Some v \<Longrightarrow> v = f k"
  by (simp add: get_clear)

text \<open>Reading through the cache gives what the lookup gives.\<close>

lemma read_through:
  assumes "\<And>t k v. get t k c = Some v \<Longrightarrow> v = f k"
  shows "(case get t k c of Some v \<Rightarrow> v | None \<Rightarrow> f k) = f k"
  using assms by (auto split: option.splits)

text \<open>An entry that is read was written within the time that entries count.\<close>

lemma fresh_put: "get t k (put s k v c) = Some w \<Longrightarrow> w = v \<and> t \<le> s + ttl"
  by (auto simp: get_put split: if_splits)

end

end
