(* ===== verification/DomainResolve.thy ===== *)
theory DomainResolve
  imports Domains TimedCache
begin

text \<open>
  The resolution of request hosts (\<^verbatim>\<open>src/server/service/domain.go\<close>, with the part of
  \<open>net.SplitHostPort\<close> it uses), and the middleware of \<^verbatim>\<open>src/server/middleware.go\<close>.
\<close>

section \<open>Hosts\<close>

text \<open>The host of a text with a port, \<open>None\<close> where \<open>SplitHostPort\<close> fails.\<close>

definition SplitHost :: "string \<Rightarrow> string option" where
  "SplitHost hp =
     (if CHR '':'' \<notin> set hp then None
      else
        let before = rev (tl (dropWhile (\<lambda>c. c \<noteq> CHR '':'') (rev hp)))
        in if hd hp = CHR ''['' then
             (let inside = takeWhile (\<lambda>c. c \<noteq> CHR '']'') hp
              in if CHR '']'' \<notin> set hp \<or> length inside + 1 \<noteq> length before then None
                 else if CHR ''['' \<in> set (tl hp) \<or> CHR '']'' \<in> set (drop (length inside + 1) hp) then None
                 else Some (tl inside))
           else if CHR '':'' \<in> set before \<or> CHR ''['' \<in> set hp \<or> CHR '']'' \<in> set hp then None
           else Some before)"

definition normalizeResolveHost :: "string \<Rightarrow> string" where
  "normalizeResolveHost host0 =
     (let host = TrimSpace host0
      in if host = [] then []
         else ToLower (TrimSuffix (case SplitHost host of Some h \<Rightarrow> h | None \<Rightarrow> host) ''.''))"

definition GetDomainByName :: "string \<Rightarrow> domain_state \<Rightarrow> domain_error + int \<times> domain_row" where
  "GetDomainByName domain st =
     (let name = normalizeResolveHost domain
      in if name = [] then Inl ErrDomainNotFound
         else (case List.find (\<lambda>x. dm_name (snd x) = name) (domain_rows st) of
                 None \<Rightarrow> Inl ErrDomainNotFound | Some (i, d) \<Rightarrow> Inr (i, scanCustomDomain d)))"

section \<open>The cache\<close>

definition resolveCacheGet :: "int \<Rightarrow> string \<Rightarrow> domain_state \<Rightarrow> (int \<times> domain_row) option option" where
  "resolveCacheGet now' host st =
     (case map_of (resolve_cache st) host of
        None \<Rightarrow> None
      | Some (d, expires) \<Rightarrow> if now' > expires then None else Some d)"

definition resolveCacheSet :: "int \<Rightarrow> string \<Rightarrow> (int \<times> domain_row) option \<Rightarrow> domain_state \<Rightarrow> domain_state" where
  "resolveCacheSet now' host d st = st\<lparr>resolve_cache := AList.update host (d, now' + domainResolveCacheTTL) (resolve_cache st)\<rparr>"

interpretation host_cache: timed_cache resolveCacheGet resolveCacheSet invalidateResolveCache domainResolveCacheTTL
  by unfold_locales (auto simp: resolveCacheGet_def resolveCacheSet_def invalidateResolveCache_def update_conv')

definition serves :: "domain_row \<Rightarrow> bool" where
  "serves d \<longleftrightarrow> dm_verification d = ''verified'' \<and> dm_status d = ''active'' \<and> \<not> dm_wildcard d"

text \<open>The query of the resolution.\<close>

definition resolve_query :: "string \<Rightarrow> (int \<times> domain_row) list \<Rightarrow> (int \<times> domain_row) option" where
  "resolve_query host rows =
     map_option (\<lambda>(i, d). (i, scanCustomDomain d)) (List.find (\<lambda>x. dm_name (snd x) = host \<and> serves (snd x)) rows)"

definition IsDomainVerifiedActive :: "string \<Rightarrow> domain_state \<Rightarrow> bool" where
  "IsDomainVerifiedActive host st \<longleftrightarrow> list_ex (\<lambda>x. dm_name (snd x) = host \<and> serves (snd x)) (domain_rows st)"

text \<open>\<open>None\<close> is \<open>ErrDomainNotFound\<close>: the main application answers.\<close>

definition Resolve :: "int \<Rightarrow> string \<Rightarrow> domain_state \<Rightarrow> (int \<times> domain_row) option \<times> domain_state" where
  "Resolve now' host0 st =
     (let host = normalizeResolveHost host0
      in if host = [] then (None, st)
         else
           (case resolveCacheGet now' host st of
              Some d \<Rightarrow> (d, st)
            | None \<Rightarrow>
                let d = resolve_query host (domain_rows st)
                in (d, resolveCacheSet now' host d st)))"

text \<open>Status of the certificate: challenge, managed by the server, may be issued.\<close>

definition SSLStatusFor :: "domain_row \<Rightarrow> domain_state \<Rightarrow> string \<times> bool \<times> bool" where
  "SSLStatusFor d st =
     ((if dm_wildcard d then ''dns-01'' else ''http-01''), \<not> dm_wildcard d,
      \<not> dm_wildcard d \<and> IsDomainVerifiedActive (dm_name d) st)"

text \<open>The domain that the next handler finds in its context: kind and id of the owner.\<close>

definition CustomDomainMiddleware :: "int \<Rightarrow> string \<Rightarrow> domain_state \<Rightarrow> (string \<times> int) option \<times> domain_state" where
  "CustomDomainMiddleware now' host st =
     (if host = [] then (None, st)
      else
        let (d, st') = Resolve now' host st
        in (map_option (\<lambda>(i, r). (dm_owner_type r, dm_owner r)) d, st'))"

end
