(* ===== verification/DomainSafety.thy ===== *)
theory DomainSafety
  imports DomainResolve
begin

text \<open>
  What custom domains guarantee over any run of requests and tasks: each name has one owner, limits
  hold, only domains whose token was found in DNS are served, and the cache of hosts shows what
  the table holds, or held within the last minute.
\<close>

section \<open>Runs\<close>

text \<open>
  A check records which name was looked up, what DNS answered, and whether it failed for a domain that was being served.
\<close>

datatype domain_event =
    Checked string "string list option" bool
  | Other_Event

definition serving :: "int \<Rightarrow> domain_state \<Rightarrow> bool" where
  "serving i st \<longleftrightarrow> (\<exists>d. map_of (domain_rows st) i = Some d \<and> serves d)"

definition checked_name :: "int \<Rightarrow> domain_state \<Rightarrow> string" where
  "checked_name i st = ''_verify.'' @ (case map_of (domain_rows st) i of Some d \<Rightarrow> dm_name d | None \<Rightarrow> [])"

inductive domain_step :: "domains_config \<Rightarrow> int \<Rightarrow> domain_event \<Rightarrow> domain_state \<Rightarrow> domain_state \<Rightarrow> bool" for cfg where
  add_step: "AddDomain compile cfg buf t ot oid n st = Inr (x, st') \<Longrightarrow> domain_step cfg t Other_Event st st'"
| verify_step: "VerifyDomain txt i st = (e, st') \<Longrightarrow>
    domain_step cfg t (Checked (checked_name i st) (txt (checked_name i st)) (e \<noteq> None \<and> serving i st)) st st'"
| suspend_step: "SuspendDomain i a st = Inr st' \<Longrightarrow> domain_step cfg t Other_Event st st'"
| unsuspend_step: "UnsuspendDomain i a st = Inr st' \<Longrightarrow> domain_step cfg t Other_Event st st'"
| admin_delete_step: "AdminDeleteDomain i st = Inr st' \<Longrightarrow> domain_step cfg t Other_Event st st'"
| delete_step: "DeleteOwnedDomain ot oid i st = Inr st' \<Longrightarrow> domain_step cfg t Other_Event st st'"
| clean_step: "CleanupExpiredPendingVerifications cfg t st = (n, st') \<Longrightarrow> domain_step cfg t Other_Event st st'"
| resolve_step: "Resolve t h st = (d, st') \<Longrightarrow> domain_step cfg t Other_Event st st'"

inductive_cases domain_stepE: "domain_step cfg t ev st st'"

definition no_domains :: domain_state where
  "no_domains = \<lparr>domain_rows = [], next_domain = 1, domain_audit = [], resolve_cache = []\<rparr>"

text \<open>A run keeps what the table held at which times, and the events, newest first.\<close>

inductive domain_run :: "domains_config \<Rightarrow> int \<Rightarrow> (int \<times> (int \<times> domain_row) list) list \<Rightarrow> domain_event list \<Rightarrow> domain_state \<Rightarrow> bool"
  for cfg where
  run_start: "domain_run cfg t [(t, [])] [] no_domains"
| run_next: "domain_run cfg t hist evs st \<Longrightarrow> t \<le> t' \<Longrightarrow> domain_step cfg t' ev st st' \<Longrightarrow>
    domain_run cfg t' ((t', domain_rows st') # (t', domain_rows st) # hist) (ev # evs) st'"

section \<open>What a step does to the table\<close>

lemma rows_of_ops [simp]:
  "domain_rows (logDomainAudit a st) = domain_rows st" "domain_rows (invalidateResolveCache st) = domain_rows st"
  "domain_rows (resolveCacheSet t h d st) = domain_rows st"
  "domain_rows (delete_domains P st) = filter (\<lambda>x. \<not> P x) (domain_rows st)"
  by (simp_all add: logDomainAudit_def invalidateResolveCache_def resolveCacheSet_def delete_domains_def)

lemma cache_of_ops [simp]:
  "resolve_cache (logDomainAudit a st) = resolve_cache st" "resolve_cache (invalidateResolveCache st) = []"
  "resolve_cache (update_domain i f st) = resolve_cache st" "resolve_cache (delete_domains P st) = resolve_cache st"
  by (simp_all add: logDomainAudit_def invalidateResolveCache_def update_domain_def delete_domains_def)

lemma next_of_ops [simp]:
  "next_domain (logDomainAudit a st) = next_domain st" "next_domain (invalidateResolveCache st) = next_domain st"
  "next_domain (resolveCacheSet t h d st) = next_domain st" "next_domain (delete_domains P st) = next_domain st"
  "next_domain (update_domain i f st) = next_domain st"
  by (simp_all add: logDomainAudit_def invalidateResolveCache_def resolveCacheSet_def delete_domains_def update_domain_def)

text \<open>Each step adds a row, updates one, removes some, or leaves the table alone.\<close>

definition keeps_identity :: "(domain_row \<Rightarrow> domain_row) \<Rightarrow> bool" where
  "keeps_identity f \<longleftrightarrow> (\<forall>d. dm_name (f d) = dm_name d \<and> dm_owner_type (f d) = dm_owner_type d \<and> dm_owner (f d) = dm_owner d \<and>
     dm_token (f d) = dm_token d)"

lemma step_table:
  assumes "domain_step cfg t ev st st'"
  obtains (added) ot oid n tok where "domain_rows st' = domain_rows st @ [(next_domain st, new_domain ot oid n tok t)]"
      "next_domain st' = next_domain st + 1" "n \<notin> (\<lambda>x. dm_name (snd x)) ` set (domain_rows st)"
      "domainLimitFor cfg ot \<le> 0 \<or> int (owned_count ot oid st) < domainLimitFor cfg ot" "resolve_cache st' = resolve_cache st"
    | (updated) i f where "domain_rows st' = domain_rows (update_domain i f st)" "next_domain st' = next_domain st" "keeps_identity f"
    | (removed) P where "domain_rows st' = filter P (domain_rows st)" "next_domain st' = next_domain st"
  using assms
proof cases
  case (add_step compile buf ot oid n x)
  then show thesis
    by (intro added [of ot oid n "generateVerificationToken buf"])
      (auto simp: AddDomain_def Let_def list_ex_iff logDomainAudit_def split: if_splits)
next
  case (verify_step look i e)
  show thesis
  proof (cases "map_of (domain_rows st) i")
    case None
    then show thesis using verify_step(2) by (intro removed [of "\<lambda>_. True"]) (auto simp: VerifyDomain_def)
  next
    case (Some d)
    consider (ok) "e = None" | (failed) "e \<noteq> None" by blast
    then show thesis
    proof cases
      case ok
      let ?issue = "\<not> dm_wildcard d \<and> dm_ssl_status d = ''none''"
      show thesis
        by (rule updated [of i "\<lambda>d'. d'\<lparr>dm_verification := ''verified'', dm_checks := dm_checks d' + 1, dm_status := ''active'',
              dm_ssl := dm_ssl d' \<or> ?issue, dm_ssl_status := (if ?issue then ''pending'' else dm_ssl_status d')\<rparr>"])
          (use verify_step(2) Some ok in \<open>auto simp: VerifyDomain_def Let_def keeps_identity_def split: option.splits if_splits\<close>)
    next
      case failed
      show thesis
        by (rule updated [of i "\<lambda>d. d\<lparr>dm_verification := ''failed'', dm_checks := dm_checks d + 1\<rparr>"])
          (use verify_step(2) Some failed in \<open>auto simp: VerifyDomain_def Let_def keeps_identity_def split: option.splits if_splits\<close>)
    qed
  qed
next
  case (suspend_step i a)
  then show thesis
    by (intro updated [of i "\<lambda>d. d\<lparr>dm_status := ''suspended''\<rparr>"]) (auto simp: SuspendDomain_def keeps_identity_def split: if_splits)
next
  case (unsuspend_step i a)
  then obtain d where "map_of (domain_rows st) i = Some d" by (auto simp: UnsuspendDomain_def getDomainByID_def split: option.splits)
  then show thesis using unsuspend_step(2)
    by (intro updated [of i "\<lambda>x. x\<lparr>dm_status := (if dm_verification d = ''verified'' then ''active'' else ''pending'')\<rparr>"])
      (auto simp: UnsuspendDomain_def getDomainByID_def scanCustomDomain_def Let_def keeps_identity_def)
next
  case (admin_delete_step i)
  then show thesis by (intro removed [of "\<lambda>x. fst x \<noteq> i"]) (auto simp: AdminDeleteDomain_def split: if_splits)
next
  case (delete_step ot oid i)
  then show thesis
    by (intro removed [of "\<lambda>x. \<not> (fst x = i \<and> dm_owner_type (snd x) = ot \<and> dm_owner (snd x) = oid)"])
      (auto simp: DeleteOwnedDomain_def Let_def split: if_splits)
next
  case (clean_step n)
  then show thesis
    by (intro removed [of "\<lambda>x. \<not> (dm_status (snd x) \<noteq> ''active'' \<and> dm_verification (snd x) \<noteq> ''verified'' \<and>
        dm_created (snd x) < t - verificationTTL cfg)"]) (auto simp: CleanupExpiredPendingVerifications_def Let_def)
next
  case (resolve_step h d)
  then show thesis
    by (intro removed [of "\<lambda>_. True"]) (auto simp: Resolve_def Let_def split: if_splits option.splits)
qed


section \<open>Names, owners and limits\<close>

definition table_sound :: "domains_config \<Rightarrow> domain_state \<Rightarrow> bool" where
  "table_sound cfg st \<longleftrightarrow> distinct (map fst (domain_rows st)) \<and> (\<forall>x \<in> set (domain_rows st). fst x < next_domain st) \<and>
     distinct (map (\<lambda>x. dm_name (snd x)) (domain_rows st)) \<and>
     (\<forall>ot oid. domainLimitFor cfg ot > 0 \<longrightarrow> int (owned_count ot oid st) \<le> domainLimitFor cfg ot)"

lemma owned_count_list:
  "owned_count ot oid st = count_list (map (\<lambda>x. (dm_owner_type (snd x), dm_owner (snd x))) (domain_rows st)) (ot, oid)"
proof -
  have "length (filter (\<lambda>x. dm_owner_type (snd x) = ot \<and> dm_owner (snd x) = oid) rows) =
      count_list (map (\<lambda>x. (dm_owner_type (snd x), dm_owner (snd x))) rows) (ot, oid)" for rows :: "(int \<times> domain_row) list"
    by (induction rows) auto
  then show ?thesis by (simp add: owned_count_def)
qed

lemma updated_same:
  assumes "keeps_identity f"
  shows "map fst (domain_rows (update_domain i f st)) = map fst (domain_rows st)"
    and "map (\<lambda>x. dm_name (snd x)) (domain_rows (update_domain i f st)) = map (\<lambda>x. dm_name (snd x)) (domain_rows st)"
    and "owned_count ot oid (update_domain i f st) = owned_count ot oid st"
proof -
  have owners: "map (\<lambda>x. (dm_owner_type (snd x), dm_owner (snd x))) (domain_rows (update_domain i f st)) =
      map (\<lambda>x. (dm_owner_type (snd x), dm_owner (snd x))) (domain_rows st)"
    using assms by (auto simp: update_domain_def keeps_identity_def)
  show "map fst (domain_rows (update_domain i f st)) = map fst (domain_rows st)"
    "map (\<lambda>x. dm_name (snd x)) (domain_rows (update_domain i f st)) = map (\<lambda>x. dm_name (snd x)) (domain_rows st)"
    using assms by (auto simp: update_domain_def keeps_identity_def)
  show "owned_count ot oid (update_domain i f st) = owned_count ot oid st" unfolding owned_count_list owners ..
qed

lemma filter_twice_le: "length (filter Q (filter P xs)) \<le> length (filter Q xs)"
  by (induction xs) auto

lemma step_sound:
  assumes "domain_step cfg t ev st st'" and "table_sound cfg st"
  shows "table_sound cfg st'"
  using assms(1)
proof (cases rule: step_table)
  case (added ot oid n tok)
  have count: "owned_count a b st' = owned_count a b st + (if a = ot \<and> b = oid then 1 else 0)" for a b
    by (auto simp: owned_count_def added(1) new_domain_def)
  have "int (owned_count a b st') \<le> domainLimitFor cfg a" if "domainLimitFor cfg a > 0" for a b
    using assms(2) added(4) that unfolding table_sound_def count by auto
  moreover have "distinct (map (\<lambda>x. dm_name (snd x)) (domain_rows st'))"
    using assms(2) added(1,3) unfolding table_sound_def by (simp add: new_domain_def)
  moreover have "distinct (map fst (domain_rows st'))" using assms(2) added(1) unfolding table_sound_def by auto
  moreover have "\<forall>x \<in> set (domain_rows st'). fst x < next_domain st'" using assms(2) added(1,2) unfolding table_sound_def by auto
  ultimately show ?thesis unfolding table_sound_def by blast
next
  case (updated i f)
  have ids: "fst ` set (domain_rows st') = fst ` set (domain_rows st)" using updated_same(1) [OF updated(3)] updated(1) by (metis set_map)
  have count: "owned_count a b st' = owned_count a b st" for a b
    using updated_same(3) [OF updated(3), of a b i st] by (simp only: owned_count_def updated(1))
  have "\<forall>k \<in> fst ` set (domain_rows st'). k < next_domain st" using assms(2) unfolding table_sound_def ids by blast
  then have "\<forall>x \<in> set (domain_rows st'). fst x < next_domain st'" unfolding updated(2) by blast
  then show ?thesis
    using assms(2) count updated_same(1,2) [OF updated(3), of i st] unfolding table_sound_def updated(1,2) by simp
next
  case (removed P)
  have le: "int (owned_count a b st') \<le> int (owned_count a b st)" for a b
    by (simp only: owned_count_def removed(1) of_nat_le_iff filter_twice_le)
  have "int (owned_count a b st') \<le> domainLimitFor cfg a" if "domainLimitFor cfg a > 0" for a b
    using assms(2) le [of a b] that unfolding table_sound_def by (meson order_trans)
  moreover have "distinct (map fst (domain_rows st'))" "distinct (map (\<lambda>x. dm_name (snd x)) (domain_rows st'))"
    using assms(2) removed(1) unfolding table_sound_def by (simp_all add: distinct_map_filter)
  moreover have "\<forall>x \<in> set (domain_rows st'). fst x < next_domain st'" using assms(2) removed unfolding table_sound_def by simp
  ultimately show ?thesis unfolding table_sound_def by blast
qed

lemma run_sound: "domain_run cfg t hist evs st \<Longrightarrow> table_sound cfg st"
proof (induction rule: domain_run.induct)
  case (run_start t)
  show ?case by (simp add: table_sound_def no_domains_def owned_count_def)
next
  case (run_next t hist evs st t' ev st')
  then show ?case by (blast intro: step_sound)
qed

text \<open>
  After any requests and tasks every name belongs to one row, no id is used twice, and no
  owner has more domains than the configuration allows.
\<close>

theorem one_owner_per_domain:
  assumes "domain_run cfg t hist evs st"
  shows "(\<forall>x \<in> set (domain_rows st). \<forall>y \<in> set (domain_rows st). fst x = fst y \<or> dm_name (snd x) = dm_name (snd y) \<longrightarrow> x = y) \<and>
    (\<forall>ot oid. domainLimitFor cfg ot > 0 \<longrightarrow> int (owned_count ot oid st) \<le> domainLimitFor cfg ot)"
proof -
  have s: "table_sound cfg st" by (rule run_sound [OF assms])
  then have "inj_on fst (set (domain_rows st))" "inj_on (\<lambda>x. dm_name (snd x)) (set (domain_rows st))"
    unfolding table_sound_def distinct_map by blast+
  then show ?thesis using s unfolding table_sound_def inj_on_def by auto
qed

section \<open>Only proved domains are served\<close>

text \<open>A verified row has had its token found under its name.\<close>

definition was_proved :: "domain_event list \<Rightarrow> domain_row \<Rightarrow> bool" where
  "was_proved evs d \<longleftrightarrow>
     (\<exists>vs lost. Checked (''_verify.'' @ dm_name d) (Some vs) lost \<in> set evs \<and> (\<exists>v \<in> set vs. TrimSpace v = dm_token d))"

definition rows_proved :: "domain_event list \<Rightarrow> (int \<times> domain_row) list \<Rightarrow> bool" where
  "rows_proved evs rows \<longleftrightarrow> (\<forall>x \<in> set rows. dm_verification (snd x) = ''verified'' \<longrightarrow> was_proved evs (snd x))"

lemma was_proved_more: "was_proved evs d \<Longrightarrow> was_proved (ev # evs) d"
  by (auto simp: was_proved_def)

lemma VerifyDomain_ok:
  assumes "VerifyDomain look i st = (None, st')"
  obtains d vs where "map_of (domain_rows st) i = Some d" "look (''_verify.'' @ dm_name d) = Some vs"
    "\<exists>v \<in> set vs. TrimSpace v = dm_token d"
proof -
  obtain d where d: "map_of (domain_rows st) i = Some d" using assms by (auto simp: VerifyDomain_def split: option.splits)
  obtain vs where v: "look (''_verify.'' @ dm_name d) = Some vs"
    using assms d by (cases "look (''_verify.'' @ dm_name d)") (simp_all add: VerifyDomain_def Let_def)
  have "\<exists>v \<in> set vs. TrimSpace v = dm_token d"
    using assms d v by (simp add: VerifyDomain_def list_ex_iff Let_def split: if_splits)
  then show thesis by (rule that [OF d v])
qed

lemma VerifyDomain_rows:
  assumes "VerifyDomain look i st = (e, st')"
  obtains "domain_rows st' = domain_rows st"
    | f where "domain_rows st' = domain_rows (update_domain i f st)" "keeps_identity f"
        "e \<noteq> None \<Longrightarrow> \<forall>d. dm_verification (f d) = ''failed''"
proof (cases "map_of (domain_rows st) i")
  case None
  then show thesis using assms by (intro that(1)) (auto simp: VerifyDomain_def)
next
  case (Some d)
  show thesis
  proof (cases "e = None")
    case True
    let ?issue = "\<not> dm_wildcard d \<and> dm_ssl_status d = ''none''"
    show thesis
      by (rule that(2) [of "\<lambda>d'. d'\<lparr>dm_verification := ''verified'', dm_checks := dm_checks d' + 1, dm_status := ''active'',
            dm_ssl := dm_ssl d' \<or> ?issue, dm_ssl_status := (if ?issue then ''pending'' else dm_ssl_status d')\<rparr>"])
        (use assms Some True in \<open>auto simp: VerifyDomain_def Let_def keeps_identity_def split: option.splits if_splits\<close>)
  next
    case False
    show thesis
      by (rule that(2) [of "\<lambda>d. d\<lparr>dm_verification := ''failed'', dm_checks := dm_checks d + 1\<rparr>"])
        (use assms Some False in \<open>auto simp: VerifyDomain_def Let_def keeps_identity_def split: option.splits if_splits\<close>)
  qed
qed

lemma verify_proved:
  assumes "VerifyDomain look i st = (e, st')" and "table_sound cfg st" and "rows_proved evs (domain_rows st)"
  shows "rows_proved (Checked (checked_name i st) (look (checked_name i st)) lost # evs) (domain_rows st')"
  using assms(1)
proof (cases rule: VerifyDomain_rows)
  case 1
  then show ?thesis using assms(3) unfolding rows_proved_def by (auto intro: was_proved_more)
next
  case (2 f)
  let ?evs = "Checked (checked_name i st) (look (checked_name i st)) lost # evs"
  have "was_proved ?evs (snd x)" if x: "x \<in> set (domain_rows st')" and v: "dm_verification (snd x) = ''verified''" for x
  proof -
    obtain y where y: "y \<in> set (domain_rows st)" "fst x = fst y" "snd x = (if fst y = i then f (snd y) else snd y)"
      using x 2(1) by (auto simp: update_domain_def)
    show ?thesis
    proof (cases "fst y = i")
      case False
      then show ?thesis using y v assms(3) unfolding rows_proved_def by (auto intro: was_proved_more)
    next
      case True
      then have "e = None" using v y(3) 2(3) by fastforce
      then obtain d vs where d: "map_of (domain_rows st) i = Some d" "look (''_verify.'' @ dm_name d) = Some vs" "\<exists>v \<in> set vs. TrimSpace v = dm_token d"
        using assms(1) VerifyDomain_ok by blast
      have "distinct (map fst (domain_rows st))" using assms(2) unfolding table_sound_def by blast
      then have "snd y = d" using y(1) True d(1) by (metis map_of_eq_Some_iff option.inject prod.collapse)
      then have "dm_name (snd x) = dm_name d" "dm_token (snd x) = dm_token d" using y(3) True 2(2) by (auto simp: keeps_identity_def)
      then show ?thesis using d unfolding was_proved_def checked_name_def by auto
    qed
  qed
  then show ?thesis unfolding rows_proved_def by blast
qed

lemma proved_update:
  assumes "rows_proved evs (domain_rows st)"
  shows "rows_proved (ev # evs) (domain_rows (update_domain i (\<lambda>d. d\<lparr>dm_status := s\<rparr>) st))"
proof -
  have old: "was_proved (ev # evs) d" if "(j, d) \<in> set (domain_rows st)" "dm_verification d = ''verified''" for j d
    using assms that was_proved_more unfolding rows_proved_def by fastforce
  have new: "was_proved (ev # evs) (d\<lparr>dm_status := s\<rparr>)" if "(j, d) \<in> set (domain_rows st)" "dm_verification d = ''verified''" for j d
    using old [OF that] by (simp add: was_proved_def)
  have "was_proved (ev # evs) (if j = i then d\<lparr>dm_status := s\<rparr> else d)"
    if "(j, d) \<in> set (domain_rows st)" "dm_verification d = ''verified''" for j d
    using old [OF that] new [OF that] by simp
  moreover have "dm_verification (if j = i then d\<lparr>dm_status := s\<rparr> else d) = dm_verification d" for j d by simp
  ultimately show ?thesis unfolding rows_proved_def update_domain_def by (clarsimp simp del: if_split) fastforce
qed

lemma step_proved:
  assumes "domain_step cfg t ev st st'" and "table_sound cfg st" and "rows_proved evs (domain_rows st)"
  shows "rows_proved (ev # evs) (domain_rows st')"
  using assms(1)
proof cases
  case (verify_step look i e)
  then show ?thesis using verify_proved assms(2,3) by blast
next
  case (unsuspend_step i a)
  then obtain s where "domain_rows st' = domain_rows (update_domain i (\<lambda>d. d\<lparr>dm_status := s\<rparr>) st)"
    by (auto simp: UnsuspendDomain_def Let_def split: sum.splits)
  then show ?thesis using proved_update [OF assms(3)] by simp
next
  case (suspend_step i a)
  then show ?thesis using proved_update [OF assms(3)] by (auto simp: SuspendDomain_def split: if_splits)
next
  case (add_step compile buf ot oid n x)
  then show ?thesis using assms(3) unfolding rows_proved_def
    by (auto simp: AddDomain_def Let_def logDomainAudit_def new_domain_def intro: was_proved_more split: if_splits)
next
  case (admin_delete_step i)
  then show ?thesis using assms(3) unfolding rows_proved_def
    by (auto simp: AdminDeleteDomain_def intro: was_proved_more split: if_splits)
next
  case (delete_step ot oid i)
  then show ?thesis using assms(3) unfolding rows_proved_def
    by (auto simp: DeleteOwnedDomain_def Let_def intro: was_proved_more split: if_splits)
next
  case (clean_step n)
  then show ?thesis using assms(3) unfolding rows_proved_def
    by (auto simp: CleanupExpiredPendingVerifications_def Let_def intro: was_proved_more)
next
  case (resolve_step h d)
  then have "domain_rows st' = domain_rows st" by (auto simp: Resolve_def Let_def split: if_splits option.splits)
  then show ?thesis using assms(3) unfolding rows_proved_def by (auto intro: was_proved_more)
qed


text \<open>Every table of the past is proved by the events, and no time of the past is later than now.\<close>

definition hist_sound :: "int \<Rightarrow> (int \<times> (int \<times> domain_row) list) list \<Rightarrow> domain_event list \<Rightarrow> bool" where
  "hist_sound t hist evs \<longleftrightarrow> (\<forall>h \<in> set hist. fst h \<le> t \<and> rows_proved evs (snd h))"

lemma rows_proved_more: "rows_proved evs rows \<Longrightarrow> rows_proved (ev # evs) rows"
  by (auto simp: rows_proved_def intro: was_proved_more)

lemma run_hist:
  "domain_run cfg t hist evs st \<Longrightarrow> hist_sound t hist evs \<and> rows_proved evs (domain_rows st)"
proof (induction rule: domain_run.induct)
  case (run_start t)
  show ?case by (simp add: hist_sound_def rows_proved_def no_domains_def)
next
  case (run_next t hist evs st t' ev st')
  then have "rows_proved (ev # evs) (domain_rows st')" using step_proved run_sound by blast
  then show ?case using run_next by (auto simp: hist_sound_def intro: rows_proved_more)
qed

section \<open>The cache of hosts\<close>

text \<open>Every entry was read from a table of the past, a minute before it expires.\<close>

definition cache_sound :: "(int \<times> (int \<times> domain_row) list) list \<Rightarrow> domain_state \<Rightarrow> bool" where
  "cache_sound hist st \<longleftrightarrow>
     (\<forall>h d e. map_of (resolve_cache st) h = Some (d, e) \<longrightarrow>
        (\<exists>rows. (e - domainResolveCacheTTL, rows) \<in> set hist \<and> d = resolve_query h rows))"

lemma cache_sound_more: "cache_sound hist st \<Longrightarrow> set hist \<subseteq> set hist' \<Longrightarrow> cache_sound hist' st"
  unfolding cache_sound_def by (meson subsetD)

lemma VerifyDomain_cache: "VerifyDomain look i st = (e, st') \<Longrightarrow> resolve_cache st' = resolve_cache st \<or> resolve_cache st' = []"
  by (auto simp: VerifyDomain_def Let_def split: option.splits if_splits)

text \<open>A step keeps the cache, empties it, or adds what it has just read.\<close>

lemma step_cache:
  assumes "domain_step cfg t ev st st'"
  shows "resolve_cache st' = resolve_cache st \<or> resolve_cache st' = [] \<or>
    (\<exists>h. st' = resolveCacheSet t h (resolve_query h (domain_rows st)) st)"
  using assms
proof cases
  case (verify_step look i e)
  then show ?thesis using VerifyDomain_cache by blast
qed (auto simp: AddDomain_def SuspendDomain_def UnsuspendDomain_def AdminDeleteDomain_def DeleteOwnedDomain_def
    CleanupExpiredPendingVerifications_def Resolve_def Let_def logDomainAudit_def split: if_splits sum.splits option.splits)

lemma run_cache: "domain_run cfg t hist evs st \<Longrightarrow> cache_sound hist st"
proof (induction rule: domain_run.induct)
  case (run_start t)
  show ?case by (simp add: cache_sound_def no_domains_def)
next
  case (run_next t hist evs st t' ev st')
  let ?hist = "(t', domain_rows st') # (t', domain_rows st) # hist"
  have more: "cache_sound ?hist st" by (rule cache_sound_more [OF run_next.IH]) auto
  consider "resolve_cache st' = resolve_cache st" | "resolve_cache st' = []" |
    h where "st' = resolveCacheSet t' h (resolve_query h (domain_rows st)) st"
    using step_cache [OF run_next.hyps(3)] by blast
  then show ?case
  proof cases
    case 3
    then show ?thesis using more unfolding cache_sound_def by (auto simp: resolveCacheSet_def update_conv')
  qed (use more in \<open>auto simp: cache_sound_def\<close>)
qed

lemma resolve_read:
  assumes "domain_run cfg t hist evs st" and "t \<le> now'" and "normalizeResolveHost h \<noteq> []"
  obtains s rows where "(s, rows) \<in> set ((now', domain_rows st) # hist)" "now' - domainResolveCacheTTL \<le> s" "s \<le> now'"
    "fst (Resolve now' h st) = resolve_query (normalizeResolveHost h) rows"
proof (cases "resolveCacheGet now' (normalizeResolveHost h) st")
  case None
  then show thesis
    by (intro that [of now' "domain_rows st"]) (simp_all add: Resolve_def Let_def assms(3) domainResolveCacheTTL_def)
next
  case (Some d)
  then obtain e where e: "map_of (resolve_cache st) (normalizeResolveHost h) = Some (d, e)" "now' \<le> e"
    by (auto simp: resolveCacheGet_def split: option.splits if_splits)
  then obtain rows where rows: "(e - domainResolveCacheTTL, rows) \<in> set hist" "d = resolve_query (normalizeResolveHost h) rows"
    using run_cache [OF assms(1)] unfolding cache_sound_def by blast
  have "e - domainResolveCacheTTL \<le> now'" using rows(1) run_hist [OF assms(1)] assms(2) unfolding hist_sound_def by force
  then show thesis using rows e(2) Some assms(3)
    by (intro that [of "e - domainResolveCacheTTL" rows]) (simp_all add: Resolve_def Let_def)
qed

text \<open>
  What a host resolves to, through the cache, is what the table gave at some moment
  of the last sixty seconds, whatever happened in between.
\<close>

theorem resolve_at_most_a_minute_old:
  assumes "domain_run cfg t hist evs st" and "t \<le> now'" and "normalizeResolveHost h \<noteq> []"
  shows "\<exists>s rows. (s, rows) \<in> set ((now', domain_rows st) # hist) \<and> now' - 60 * nano_second \<le> s \<and> s \<le> now' \<and>
    fst (Resolve now' h st) = resolve_query (normalizeResolveHost h) rows"
proof -
  obtain s rows where "(s, rows) \<in> set ((now', domain_rows st) # hist)" "now' - domainResolveCacheTTL \<le> s" "s \<le> now'"
    "fst (Resolve now' h st) = resolve_query (normalizeResolveHost h) rows"
    using resolve_read [OF assms] .
  then show ?thesis unfolding domainResolveCacheTTL_def by blast
qed

lemma resolved_row:
  assumes "domain_run cfg t hist evs st" and "t \<le> now'" and "fst (Resolve now' h st) = Some (i, d)"
  shows "dm_name d = normalizeResolveHost h \<and> serves d \<and>
    (\<exists>s rows row. (s, rows) \<in> set ((now', domain_rows st) # hist) \<and> now' - 60 * nano_second \<le> s \<and> (i, row) \<in> set rows \<and>
       d = scanCustomDomain row \<and> was_proved evs row)"
proof -
  have ne: "normalizeResolveHost h \<noteq> []" using assms(3) by (auto simp: Resolve_def)
  obtain s rows where r: "(s, rows) \<in> set ((now', domain_rows st) # hist)" "now' - domainResolveCacheTTL \<le> s"
    "fst (Resolve now' h st) = resolve_query (normalizeResolveHost h) rows"
    using resolve_read [OF assms(1,2) ne] by blast
  have "resolve_query (normalizeResolveHost h) rows = Some (i, d)" using assms(3) r(3) by simp
  then obtain row where row: "List.find (\<lambda>x. dm_name (snd x) = normalizeResolveHost h \<and> serves (snd x)) rows = Some (i, row)"
      "d = scanCustomDomain row"
    by (auto simp: resolve_query_def)
  have found: "(i, row) \<in> set rows" "dm_name row = normalizeResolveHost h" "serves row"
    using row(1) unfolding find_Some_iff by (auto dest: nth_mem) (metis snd_conv)+
  have "rows_proved evs rows" using r(1) run_hist [OF assms(1)] unfolding hist_sound_def by auto
  then have "was_proved evs row" using found(1,3) unfolding rows_proved_def serves_def by fastforce
  moreover have "dm_name d = normalizeResolveHost h" "serves d" using found(2,3) row(2) by (simp_all add: scanCustomDomain_def serves_def)
  ultimately show ?thesis using r(1,2) found(1) row(2) unfolding domainResolveCacheTTL_def by blast
qed

text \<open>
  A host resolves only to a row of its own name that was, at some moment of the last
  minute, verified, active and no wildcard; and some check has found the token of that row in the TXT record under its name.
\<close>

theorem only_proved_domains_served:
  assumes "domain_run cfg t hist evs st" and "t \<le> now'" and "fst (Resolve now' h st) = Some (i, d)"
  shows "dm_name d = normalizeResolveHost h \<and> serves d \<and>
    (\<exists>s rows row. (s, rows) \<in> set ((now', domain_rows st) # hist) \<and> now' - 60 * nano_second \<le> s \<and> (i, row) \<in> set rows \<and>
       d = scanCustomDomain row \<and> was_proved evs row)"
  by (rule resolved_row [OF assms])

section \<open>An exact cache\<close>

definition cache_exact :: "domain_state \<Rightarrow> bool" where
  "cache_exact st \<longleftrightarrow> (\<forall>t h d. resolveCacheGet t h st = Some d \<longrightarrow> d = resolve_query h (domain_rows st))"

lemma cache_exact_same:
  assumes "cache_exact st" and "resolve_cache st' = resolve_cache st" and "\<And>h. resolve_query h (domain_rows st') = resolve_query h (domain_rows st)"
  shows "cache_exact st'"
  using assms by (simp add: cache_exact_def resolveCacheGet_def)

lemma cache_exact_empty: "resolve_cache st = [] \<Longrightarrow> cache_exact st"
  by (simp add: cache_exact_def resolveCacheGet_def)

lemma cache_exact_set: "cache_exact st \<Longrightarrow> cache_exact (resolveCacheSet t h (resolve_query h (domain_rows st)) st)"
  unfolding cache_exact_def by (auto dest: host_cache.exact_put [rotated])

lemma find_map_same:
  "(\<And>x. x \<in> set xs \<Longrightarrow> P (g x) = P x \<and> (P x \<longrightarrow> g x = x)) \<Longrightarrow> List.find P (map g xs) = List.find P xs"
  by (induction xs) auto

lemma find_filter_same: "(\<And>x. P x \<Longrightarrow> Q x) \<Longrightarrow> List.find P (filter Q xs) = List.find P xs"
  by (induction xs) auto

lemma find_snoc_not: "\<not> P x \<Longrightarrow> List.find P (xs @ [x]) = List.find P xs"
  by (induction xs) auto

lemma failed_check_keeps:
  assumes "distinct (map fst (domain_rows st))" and "\<not> serving i st"
  shows "resolve_query h (domain_rows (update_domain i (\<lambda>d. d\<lparr>dm_verification := ''failed'', dm_checks := dm_checks d + 1\<rparr>) st)) =
    resolve_query h (domain_rows st)"
proof -
  have "\<not> serves d" if "(i, d) \<in> set (domain_rows st)" for d
    using assms that by (simp add: serving_def map_of_eq_Some_iff)
  moreover have "\<not> serves (d\<lparr>dm_verification := ''failed'', dm_checks := dm_checks d + 1\<rparr>)" for d by (simp add: serves_def)
  ultimately have "List.find (\<lambda>x. dm_name (snd x) = h \<and> serves (snd x))
      (map (\<lambda>(j, d). (j, if j = i then d\<lparr>dm_verification := ''failed'', dm_checks := dm_checks d + 1\<rparr> else d)) (domain_rows st)) =
    List.find (\<lambda>x. dm_name (snd x) = h \<and> serves (snd x)) (domain_rows st)"
    by (intro find_map_same) (clarsimp split: if_splits)
  then show ?thesis by (simp add: resolve_query_def update_domain_def del: One_nat_def add_Suc_right)
qed

lemma step_exact:
  assumes "domain_step cfg t ev st st'" and "table_sound cfg st" and "cache_exact st" and "\<And>n a. ev \<noteq> Checked n a True"
  shows "cache_exact st'"
  using assms(1)
proof cases
  case (add_step compile buf ot oid n x)
  then have "resolve_query h (domain_rows st') = resolve_query h (domain_rows st)" for h
    by (auto simp: AddDomain_def Let_def resolve_query_def find_snoc_not new_domain_def serves_def logDomainAudit_def split: if_splits)
  then show ?thesis
    by (rule cache_exact_same [OF assms(3), rotated]) (use add_step(2) in \<open>auto simp: AddDomain_def Let_def logDomainAudit_def split: if_splits\<close>)
next
  case (verify_step look i e)
  show ?thesis
  proof (cases "e = None \<or> map_of (domain_rows st) i = None")
    case True
    then have "resolve_cache st' = [] \<or> st' = st"
      using verify_step(2) by (auto simp: VerifyDomain_def Let_def split: option.splits if_splits)
    then show ?thesis using assms(3) cache_exact_empty by blast
  next
    case False
    then have st': "st' = update_domain i (\<lambda>d. d\<lparr>dm_verification := ''failed'', dm_checks := dm_checks d + 1\<rparr>) st"
      using verify_step(2) by (auto simp: VerifyDomain_def Let_def split: option.splits if_splits)
    have "\<not> serving i st" using assms(4) verify_step(1) False by auto
    then show ?thesis
      using failed_check_keeps assms(2) unfolding table_sound_def by (intro cache_exact_same [OF assms(3)]) (simp_all add: st')
  qed
next
  case (clean_step n)
  then have "resolve_query h (domain_rows st') = resolve_query h (domain_rows st)" for h
    by (auto simp: CleanupExpiredPendingVerifications_def Let_def resolve_query_def serves_def
        intro!: arg_cong [where f = "map_option _"] find_filter_same)
  then show ?thesis
    by (rule cache_exact_same [OF assms(3), rotated]) (use clean_step(2) in \<open>auto simp: CleanupExpiredPendingVerifications_def Let_def\<close>)
next
  case (resolve_step h d)
  then have "st' = st \<or> (\<exists>h. st' = resolveCacheSet t h (resolve_query h (domain_rows st)) st)"
    by (auto simp: Resolve_def Let_def split: if_splits option.splits)
  then show ?thesis using assms(3) cache_exact_set by blast
qed (auto simp: SuspendDomain_def UnsuspendDomain_def AdminDeleteDomain_def DeleteOwnedDomain_def Let_def
    intro!: cache_exact_empty split: if_splits sum.splits)

lemma run_exact: "domain_run cfg t hist evs st \<Longrightarrow> (\<And>n a. Checked n a True \<notin> set evs) \<Longrightarrow> cache_exact st"
proof (induction rule: domain_run.induct)
  case (run_start t)
  show ?case by (simp add: cache_exact_empty no_domains_def)
next
  case (run_next t hist evs st t' ev st')
  have "cache_exact st" using run_next.IH run_next.prems by (meson list.set_intros(2))
  moreover have "ev \<noteq> Checked n a True" for n a using run_next.prems [of n a] by auto
  ultimately show ?case using step_exact [OF run_next.hyps(3) run_sound [OF run_next.hyps(1)]] by blast
qed

lemma resolve_exact:
  assumes "domain_run cfg t hist evs st" and "\<And>n a. Checked n a True \<notin> set evs"
  shows "fst (Resolve now' h st) =
    (if normalizeResolveHost h = [] then None else resolve_query (normalizeResolveHost h) (domain_rows st))"
proof -
  let ?h = "normalizeResolveHost h"
  have "(case resolveCacheGet now' ?h st of Some d \<Rightarrow> d | None \<Rightarrow> resolve_query ?h (domain_rows st)) = resolve_query ?h (domain_rows st)"
    by (rule host_cache.read_through) (use run_exact [OF assms] in \<open>simp add: cache_exact_def\<close>)
  then show ?thesis by (auto simp: Resolve_def Let_def split: option.splits)
qed

text \<open>
  C27 (cached_resolution_exact). As long as no check fails for a domain that is being served, the cache cannot be told
  from the table: every addition, verification, suspension, deletion and clean-up shows at the next
  request, at any time.
\<close>

theorem cached_resolution_exact:
  assumes "domain_run cfg t hist evs st" and "\<And>n a. Checked n a True \<notin> set evs"
  shows "fst (Resolve now' h st) =
    (if normalizeResolveHost h = [] then None else resolve_query (normalizeResolveHost h) (domain_rows st))"
  by (rule resolve_exact [OF assms])

section \<open>What goes wrong\<close>

text \<open>
  The owner of a suspended domain makes it active again by asking for another check, as long as the TXT record is there:
  neither the handlers nor the check look at the status.
\<close>

lemma verification_lifts_suspension:
  assumes "SuspendDomain i a st = Inr st1" and "map_of (domain_rows st) i = Some d" and "\<not> dm_wildcard d"
    and "look (''_verify.'' @ dm_name d) = Some vs" and "dm_token d \<in> TrimSpace ` set vs"
  shows "\<exists>st2. VerifyDomain look i st1 = (None, st2) \<and> serving i st2"
proof -
  have upd: "map_of (map (\<lambda>(j, d). (j, if j = i then f d else d)) rows) i = map_option f (map_of rows i)"
    for f and rows :: "(int \<times> domain_row) list"
    by (induction rows) auto
  have rows: "domain_rows st1 = domain_rows (update_domain i (\<lambda>d. d\<lparr>dm_status := ''suspended''\<rparr>) st)"
    using assms(1,2) by (auto simp: SuspendDomain_def)
  have d1: "map_of (domain_rows st1) i = Some (d\<lparr>dm_status := ''suspended''\<rparr>)"
    unfolding rows by (simp add: update_domain_def upd assms(2))
  have "list_ex (\<lambda>v. TrimSpace v = dm_token d) vs" using assms(5) by (auto simp: list_ex_iff)
  then show ?thesis
    using d1 assms(3,4) by (simp add: VerifyDomain_def serving_def serves_def update_domain_def upd Let_def)
qed

text \<open>
  A request that has read the table before a suspension and writes the cache after it keeps the suspended
  domain reachable until its entry expires.
\<close>

lemma suspension_raced:
  assumes "SuspendDomain i a st = Inr st1" and "resolve_query (normalizeResolveHost h) (domain_rows st) = Some (i, d)"
    and "normalizeResolveHost h \<noteq> []" and "now' \<le> t + 60 * nano_second"
  shows "fst (Resolve now' h (resolveCacheSet t (normalizeResolveHost h) (Some (i, d)) st1)) = Some (i, d)"
  using assms(3,4) by (simp add: Resolve_def resolveCacheGet_def resolveCacheSet_def update_conv' domainResolveCacheTTL_def Let_def)

text \<open>The instructions that can be asked for later no longer name the token.\<close>

lemma instructions_lose_token: "(i, d) \<in> set (GetUserDomains user st) \<Longrightarrow> snd (BuildDNSInstructions d) = []"
  by (auto simp: GetUserDomains_def BuildDNSInstructions_def scanCustomDomain_def)

text \<open>A name is stored as it was typed, while hosts are compared in lower case.\<close>

lemma host_not_upper: "c \<in> set (normalizeResolveHost h) \<Longrightarrow> \<not> is_upper c"
  by (auto simp: normalizeResolveHost_def ToLower_def is_upper_def of_char_of Let_def split: if_splits)

lemma upper_case_never_served:
  assumes "\<exists>c \<in> set n. is_upper c" and "(i, d) \<in> set (domain_rows st)" and "dm_name d = n"
  shows "resolve_query (normalizeResolveHost h) (domain_rows st) \<noteq> Some (i, scanCustomDomain d)"
proof
  assume "resolve_query (normalizeResolveHost h) (domain_rows st) = Some (i, scanCustomDomain d)"
  then obtain e where "List.find (\<lambda>x. dm_name (snd x) = normalizeResolveHost h \<and> serves (snd x)) (domain_rows st) = Some (i, e)"
      "scanCustomDomain e = scanCustomDomain d"
    by (auto simp: resolve_query_def)
  then have "dm_name e = normalizeResolveHost h" "dm_name e = dm_name d"
    unfolding find_Some_iff by (auto simp: scanCustomDomain_def dest: arg_cong [where f = dm_name]) (metis snd_conv)
  then show False using assms(1,3) host_not_upper by auto
qed

section \<open>A sample run\<close>

definition sample_config :: domains_config where
  "sample_config = \<lparr>max_per_user = 2, max_per_org = 0, verification_seconds = 0, reserved_names = [''*.local''], blocked_patterns = []\<rparr>"

definition sample_dns :: "string \<Rightarrow> string list option" where
  "sample_dns n = (if n = ''_verify.go.io'' then Some ['' verify_0102''] else None)"

definition sample_row :: domain_row where
  "sample_row = new_domain ''user'' 7 ''go.io'' ''verify_0102'' 0"

definition sample_added :: domain_state where
  "sample_added = \<lparr>domain_rows = [(1, sample_row)], next_domain = 2, domain_audit = [(1, ''created'', ''user'', Some 7, [])], resolve_cache = []\<rparr>"

definition sample_proved :: domain_row where
  "sample_proved = sample_row\<lparr>dm_verification := ''verified'', dm_checks := 1, dm_status := ''active'', dm_ssl := True, dm_ssl_status := ''pending''\<rparr>"

definition sample_active :: domain_state where
  "sample_active = \<lparr>domain_rows = [(1, sample_proved)], next_domain = 2,
     domain_audit = [(1, ''verified'', ''user'', Some 7, []), (1, ''created'', ''user'', Some 7, [])], resolve_cache = []\<rparr>"

lemma sample_add: "AddDomain (\<lambda>p. None) sample_config [1, 2] 0 ''user'' 7 ''go.io'' no_domains = Inr ((1, sample_row), sample_added)"
  by (simp add: AddDomain_def isReservedDomain_def matchesBlockedPattern_def domainLimitFor_def sample_config_def no_domains_def
      owned_count_def sample_row_def sample_added_def generateVerificationToken_def logDomainAudit_def TrimSuffix_def
      EncodeToString_def hex_nibble_def new_domain_def Let_def eval_simps)

lemma sample_verify: "VerifyDomain sample_dns 1 sample_added = (None, sample_active)"
  by (simp add: VerifyDomain_def sample_dns_def sample_added_def sample_row_def sample_active_def sample_proved_def new_domain_def
      update_domain_def logDomainAudit_def invalidateResolveCache_def Let_def eval_simps)

lemma sample_run:
  "domain_run sample_config 10 [(10, [(1, sample_proved)]), (10, [(1, sample_row)]), (0, [(1, sample_row)]), (0, []), (0, [])]
     [Checked ''_verify.go.io'' (Some ['' verify_0102'']) False, Other_Event] sample_active"
proof -
  have 1: "domain_run sample_config 0 [(0, domain_rows sample_added), (0, domain_rows no_domains), (0, [])] [Other_Event] sample_added"
    by (rule run_next [OF run_start _ add_step [OF sample_add]]) simp
  have n: "checked_name 1 sample_added = ''_verify.go.io''"
    by (simp add: checked_name_def sample_added_def sample_row_def new_domain_def)
  have "domain_run sample_config 10
      ((10, domain_rows sample_active) # (10, domain_rows sample_added) # [(0, domain_rows sample_added), (0, domain_rows no_domains), (0, [])])
      (Checked (checked_name 1 sample_added) (sample_dns (checked_name 1 sample_added)) ((None :: domain_error option) \<noteq> None \<and> serving 1 sample_added) # [Other_Event])
      sample_active"
    by (rule run_next [OF 1 _ verify_step [OF sample_verify]]) simp
  then show ?thesis
    unfolding n by (simp add: sample_dns_def) (simp add: sample_active_def sample_added_def no_domains_def)
qed

lemma sample_host: "normalizeResolveHost ''Go.IO:443'' = ''go.io''"
  by (simp add: normalizeResolveHost_def SplitHost_def TrimSuffix_def Let_def eval_simps)

lemma sample_query: "resolve_query ''go.io'' (domain_rows sample_active) = Some (1, scanCustomDomain sample_proved)"
  by (simp add: resolve_query_def sample_active_def sample_proved_def sample_row_def new_domain_def serves_def)

theorem one_owner_per_domain_witness: "int (owned_count ''user'' 7 sample_active) \<le> 2"
  using conjunct2 [OF one_owner_per_domain [OF sample_run], rule_format, of "''user''" 7]
  by (simp add: domainLimitFor_def sample_config_def)

theorem resolve_at_most_a_minute_old_witness:
  "\<exists>s rows. (s :: int) \<le> 20 \<and> fst (Resolve 20 ''Go.IO:443'' sample_active) = resolve_query ''go.io'' rows"
  using resolve_at_most_a_minute_old [OF sample_run, of 20 "''Go.IO:443''"] unfolding sample_host by auto

theorem only_proved_domains_served_witness:
  "dm_name (scanCustomDomain sample_proved) = ''go.io'' \<and> serves (scanCustomDomain sample_proved)"
proof -
  have "fst (Resolve 20 ''Go.IO:443'' sample_active) = Some (1, scanCustomDomain sample_proved)"
    using sample_query by (simp add: Resolve_def sample_host resolveCacheGet_def) (simp add: sample_active_def Let_def)
  from only_proved_domains_served [OF sample_run _ this] show ?thesis unfolding sample_host by simp
qed

theorem cached_resolution_exact_witness:
  "fst (Resolve 20 ''Go.IO:443'' sample_active) = Some (1, scanCustomDomain sample_proved)"
  using cached_resolution_exact [OF sample_run, of 20 "''Go.IO:443''"] sample_query unfolding sample_host by simp

end
