(* ===== verification/DomainHandlers.thy ===== *)
theory DomainHandlers
  imports DomainSafety OrgOwnership LinkApi
begin

text \<open>
  The handlers of \<^verbatim>\<open>src/server/handler/domain.go\<close> for owners of domains and for administrators,
  and whose domains a request can change. A request is what a handler reads of it: the user of
  the session, the token of the Authorization header, the parts of the path, and the domain
  named by the body, \<open>None\<close> when it does not decode. Answers are statuses. Whether a user id exists is
  the argument \<open>known\<close>; the routes of administrators lie behind \<open>RequireBearerAdmin\<close>.
\<close>

record domain_request =
  dq_session :: "int option"
  dq_token :: "token option"
  dq_slug :: string
  dq_domain :: string
  dq_body :: "string option"

section \<open>Users\<close>

definition currentAPIUser :: "(int \<Rightarrow> bool) \<Rightarrow> domain_request \<Rightarrow> int option" where
  "currentAPIUser known r =
     (case dq_session r of
        Some user \<Rightarrow> Some user
      | None \<Rightarrow>
          (case dq_token r of
             None \<Rightarrow> None
           | Some rec \<Rightarrow> if EqualFold (tok_owner_type rec) ''user'' \<and> known (tok_owner_id rec) then Some (tok_owner_id rec) else None))"

definition domainIDByName :: "(int \<times> domain_row) list \<Rightarrow> string \<Rightarrow> int" where
  "domainIDByName domains name =
     (case List.find (\<lambda>x. dm_name (snd x) = name) domains of None \<Rightarrow> 0 | Some (i, d) \<Rightarrow> i)"

definition domainByName :: "(int \<times> domain_row) list \<Rightarrow> string \<Rightarrow> (int \<times> domain_row) option" where
  "domainByName domains name = List.find (\<lambda>x. dm_name (snd x) = name) domains"

definition domainStatusFromError :: "domain_error \<Rightarrow> int" where
  "domainStatusFromError e = (if e = ErrDomainNotFound then 404 else 400)"

definition APIAddUserDomain ::
    "(int \<Rightarrow> bool) \<Rightarrow> (string \<Rightarrow> (string \<Rightarrow> bool) option) \<Rightarrow> domains_config \<Rightarrow> nat list \<Rightarrow> int \<Rightarrow> domain_request \<Rightarrow> domain_state \<Rightarrow>
     int \<times> domain_state" where
  "APIAddUserDomain known compile cfg buf now' r st =
     (case currentAPIUser known r of
        None \<Rightarrow> (401, st)
      | Some user \<Rightarrow>
          (case dq_body r of
             None \<Rightarrow> (400, st)
           | Some domain \<Rightarrow>
               (case AddDomain compile cfg buf now' ''user'' user domain st of Inl e \<Rightarrow> (400, st) | Inr (d, st') \<Rightarrow> (201, st'))))"

definition APIVerifyUserDomain ::
    "(int \<Rightarrow> bool) \<Rightarrow> (string \<Rightarrow> string list option) \<Rightarrow> domain_request \<Rightarrow> domain_state \<Rightarrow> int \<times> domain_state" where
  "APIVerifyUserDomain known lookup_txt r st =
     (case currentAPIUser known r of
        None \<Rightarrow> (401, st)
      | Some user \<Rightarrow>
          let i = domainIDByName (GetUserDomains user st) (dq_domain r)
          in if i = 0 then (404, st)
             else (case VerifyDomain lookup_txt i st of (Some e, st') \<Rightarrow> (400, st') | (None, st') \<Rightarrow> (200, st')))"

definition APIDeleteUserDomain :: "(int \<Rightarrow> bool) \<Rightarrow> domain_request \<Rightarrow> domain_state \<Rightarrow> int \<times> domain_state" where
  "APIDeleteUserDomain known r st =
     (case currentAPIUser known r of
        None \<Rightarrow> (401, st)
      | Some user \<Rightarrow>
          (case domainByName (GetUserDomains user st) (dq_domain r) of
             None \<Rightarrow> (404, st)
           | Some (i, d) \<Rightarrow>
               (case DeleteOwnedDomain ''user'' user i st of Inl e \<Rightarrow> (domainStatusFromError e, st) | Inr st' \<Rightarrow> (200, st'))))"

text \<open>The instructions that can be asked for after the domain was added.\<close>

definition APIUserDomainDNS :: "(int \<Rightarrow> bool) \<Rightarrow> domain_request \<Rightarrow> domain_state \<Rightarrow> int + string \<times> string" where
  "APIUserDomainDNS known r st =
     (case currentAPIUser known r of
        None \<Rightarrow> Inl 401
      | Some user \<Rightarrow>
          (case domainByName (GetUserDomains user st) (dq_domain r) of
             None \<Rightarrow> Inl 404 | Some (i, d) \<Rightarrow> Inr (BuildDNSInstructions d)))"

text \<open>The web handlers take the same steps, for the user of the session only.\<close>

definition AddUserDomain ::
    "(string \<Rightarrow> (string \<Rightarrow> bool) option) \<Rightarrow> domains_config \<Rightarrow> nat list \<Rightarrow> int \<Rightarrow> domain_request \<Rightarrow> domain_state \<Rightarrow> int \<times> domain_state" where
  "AddUserDomain compile cfg buf now' r st = APIAddUserDomain (\<lambda>_. False) compile cfg buf now' r st"

definition VerifyUserDomain :: "(string \<Rightarrow> string list option) \<Rightarrow> domain_request \<Rightarrow> domain_state \<Rightarrow> int \<times> domain_state" where
  "VerifyUserDomain lookup_txt r st = APIVerifyUserDomain (\<lambda>_. False) lookup_txt r st"

section \<open>Organisations\<close>

text \<open>The organisation with a slug, when the user is a member, or may manage it; otherwise a status.\<close>

definition apiOrgForMember :: "org_db \<Rightarrow> int \<Rightarrow> string \<Rightarrow> bool \<Rightarrow> int + int" where
  "apiOrgForMember odb user slug requireManage =
     (case List.find (\<lambda>x. o_slug (snd x) = slug) (orgs odb) of
        None \<Rightarrow> Inl 404
      | Some (org, row) \<Rightarrow>
          let role = snd (IsMember odb org user)
          in if role = [] then Inl 403
             else if requireManage \<and> role \<noteq> ''owner'' \<and> role \<noteq> ''admin'' then Inl 403
             else Inr org)"

definition APIAddOrgDomain ::
    "(int \<Rightarrow> bool) \<Rightarrow> (string \<Rightarrow> (string \<Rightarrow> bool) option) \<Rightarrow> domains_config \<Rightarrow> nat list \<Rightarrow> int \<Rightarrow> org_db \<Rightarrow> domain_request \<Rightarrow> domain_state \<Rightarrow>
     int \<times> domain_state" where
  "APIAddOrgDomain known compile cfg buf now' odb r st =
     (case currentAPIUser known r of
        None \<Rightarrow> (401, st)
      | Some user \<Rightarrow>
          (case apiOrgForMember odb user (dq_slug r) True of
             Inl n \<Rightarrow> (n, st)
           | Inr org \<Rightarrow>
               (case dq_body r of
                  None \<Rightarrow> (400, st)
                | Some domain \<Rightarrow>
                    (case AddDomain compile cfg buf now' ''org'' org domain st of Inl e \<Rightarrow> (400, st) | Inr (d, st') \<Rightarrow> (201, st')))))"

definition APIVerifyOrgDomain ::
    "(int \<Rightarrow> bool) \<Rightarrow> (string \<Rightarrow> string list option) \<Rightarrow> org_db \<Rightarrow> domain_request \<Rightarrow> domain_state \<Rightarrow> int \<times> domain_state" where
  "APIVerifyOrgDomain known lookup_txt odb r st =
     (case currentAPIUser known r of
        None \<Rightarrow> (401, st)
      | Some user \<Rightarrow>
          (case apiOrgForMember odb user (dq_slug r) True of
             Inl n \<Rightarrow> (n, st)
           | Inr org \<Rightarrow>
               let i = domainIDByName (GetOrgDomains org st) (dq_domain r)
               in if i = 0 then (404, st)
                  else (case VerifyDomain lookup_txt i st of (Some e, st') \<Rightarrow> (400, st') | (None, st') \<Rightarrow> (200, st'))))"

definition APIDeleteOrgDomain :: "(int \<Rightarrow> bool) \<Rightarrow> org_db \<Rightarrow> domain_request \<Rightarrow> domain_state \<Rightarrow> int \<times> domain_state" where
  "APIDeleteOrgDomain known odb r st =
     (case currentAPIUser known r of
        None \<Rightarrow> (401, st)
      | Some user \<Rightarrow>
          (case apiOrgForMember odb user (dq_slug r) True of
             Inl n \<Rightarrow> (n, st)
           | Inr org \<Rightarrow>
               (case domainByName (GetOrgDomains org st) (dq_domain r) of
                  None \<Rightarrow> (404, st)
                | Some (i, d) \<Rightarrow>
                    (case DeleteOwnedDomain ''org'' org i st of Inl e \<Rightarrow> (domainStatusFromError e, st) | Inr st' \<Rightarrow> (200, st')))))"

definition AddOrgDomain ::
    "(string \<Rightarrow> (string \<Rightarrow> bool) option) \<Rightarrow> domains_config \<Rightarrow> nat list \<Rightarrow> int \<Rightarrow> org_db \<Rightarrow> domain_request \<Rightarrow> domain_state \<Rightarrow> int \<times> domain_state" where
  "AddOrgDomain compile cfg buf now' odb r st = APIAddOrgDomain (\<lambda>_. False) compile cfg buf now' odb r st"

definition VerifyOrgDomain :: "(string \<Rightarrow> string list option) \<Rightarrow> org_db \<Rightarrow> domain_request \<Rightarrow> domain_state \<Rightarrow> int \<times> domain_state" where
  "VerifyOrgDomain lookup_txt odb r st = APIVerifyOrgDomain (\<lambda>_. False) lookup_txt odb r st"

section \<open>Administrators\<close>

definition adminActorID :: "domain_request \<Rightarrow> int option" where
  "adminActorID r = map_option tok_owner_id (dq_token r)"

definition APIAdminGetDomain :: "domain_request \<Rightarrow> domain_state \<Rightarrow> int + int \<times> domain_row" where
  "APIAdminGetDomain r st = (case GetDomainByName (dq_domain r) st of Inl e \<Rightarrow> Inl (domainStatusFromError e) | Inr d \<Rightarrow> Inr d)"

definition APIAdminDeleteDomain :: "domain_request \<Rightarrow> domain_state \<Rightarrow> int \<times> domain_state" where
  "APIAdminDeleteDomain r st =
     (case GetDomainByName (dq_domain r) st of
        Inl e \<Rightarrow> (domainStatusFromError e, st)
      | Inr (i, d) \<Rightarrow> (case AdminDeleteDomain i st of Inl e \<Rightarrow> (domainStatusFromError e, st) | Inr st' \<Rightarrow> (200, st')))"

definition APIAdminSuspendDomain :: "domain_request \<Rightarrow> domain_state \<Rightarrow> int \<times> domain_state" where
  "APIAdminSuspendDomain r st =
     (case GetDomainByName (dq_domain r) st of
        Inl e \<Rightarrow> (domainStatusFromError e, st)
      | Inr (i, d) \<Rightarrow> (case SuspendDomain i (adminActorID r) st of Inl e \<Rightarrow> (domainStatusFromError e, st) | Inr st' \<Rightarrow> (200, st')))"

definition APIAdminUnsuspendDomain :: "domain_request \<Rightarrow> domain_state \<Rightarrow> int \<times> domain_state" where
  "APIAdminUnsuspendDomain r st =
     (case GetDomainByName (dq_domain r) st of
        Inl e \<Rightarrow> (domainStatusFromError e, st)
      | Inr (i, d) \<Rightarrow> (case UnsuspendDomain i (adminActorID r) st of Inl e \<Rightarrow> (domainStatusFromError e, st) | Inr st' \<Rightarrow> (200, st')))"

section \<open>Requests are steps\<close>

text \<open>What an owner can ask for, with the answer and the state after it.\<close>

inductive owner_call ::
    "domains_config \<Rightarrow> (int \<Rightarrow> bool) \<Rightarrow> int \<Rightarrow> org_db \<Rightarrow> domain_request \<Rightarrow> domain_state \<Rightarrow> int \<times> domain_state \<Rightarrow> bool"
  for cfg known t odb r st where
  "owner_call cfg known t odb r st (APIAddUserDomain known compile cfg buf t r st)"
| "owner_call cfg known t odb r st (APIVerifyUserDomain known dns r st)"
| "owner_call cfg known t odb r st (APIDeleteUserDomain known r st)"
| "owner_call cfg known t odb r st (AddUserDomain compile cfg buf t r st)"
| "owner_call cfg known t odb r st (VerifyUserDomain dns r st)"
| "owner_call cfg known t odb r st (APIAddOrgDomain known compile cfg buf t odb r st)"
| "owner_call cfg known t odb r st (APIVerifyOrgDomain known dns odb r st)"
| "owner_call cfg known t odb r st (APIDeleteOrgDomain known odb r st)"
| "owner_call cfg known t odb r st (AddOrgDomain compile cfg buf t odb r st)"
| "owner_call cfg known t odb r st (VerifyOrgDomain dns odb r st)"

text \<open>The owners a user acts for.\<close>

definition acts_for :: "org_db \<Rightarrow> int \<Rightarrow> string \<Rightarrow> int \<Rightarrow> bool" where
  "acts_for odb user ot oid \<longleftrightarrow>
     ot = ''user'' \<and> oid = user \<or> ot = ''org'' \<and> snd (IsMember odb oid user) \<in> {''owner'', ''admin''}"

text \<open>Every call of an owner does at most one of three things, to a row of an owner the user acts for.\<close>

inductive owner_effect :: "domains_config \<Rightarrow> int \<Rightarrow> (string \<Rightarrow> int \<Rightarrow> bool) \<Rightarrow> domain_state \<Rightarrow> domain_state \<Rightarrow> bool"
  for cfg t acts st where
  unchanged: "owner_effect cfg t acts st st"
| added: "acts ot oid \<Longrightarrow> AddDomain compile cfg buf t ot oid n st = Inr (x, st') \<Longrightarrow> owner_effect cfg t acts st st'"
| checked: "acts (dm_owner_type d) (dm_owner d) \<Longrightarrow> (i, d) \<in> set (domain_rows st) \<Longrightarrow> VerifyDomain dns i st = (e, st') \<Longrightarrow>
    owner_effect cfg t acts st st'"
| deleted: "acts ot oid \<Longrightarrow> DeleteOwnedDomain ot oid i st = Inr st' \<Longrightarrow> owner_effect cfg t acts st st'"

lemma find_in: "List.find P xs = Some x \<Longrightarrow> x \<in> set xs"
  by (auto simp: find_Some_iff)

lemma listed_user: "(i, e) \<in> set (GetUserDomains user st) \<Longrightarrow>
    \<exists>d. (i, d) \<in> set (domain_rows st) \<and> dm_owner_type d = ''user'' \<and> dm_owner d = user"
  by (auto simp: GetUserDomains_def)

lemma listed_org: "(i, e) \<in> set (GetOrgDomains org st) \<Longrightarrow>
    \<exists>d. (i, d) \<in> set (domain_rows st) \<and> dm_owner_type d = ''org'' \<and> dm_owner d = org"
  by (auto simp: GetOrgDomains_def)

lemma member_acts: "apiOrgForMember odb user slug True = Inr org \<Longrightarrow> acts_for odb user ''org'' org"
  by (auto simp: apiOrgForMember_def acts_for_def Let_def split: option.splits if_splits)

lemma user_acts: "acts_for odb user ''user'' user"
  by (simp add: acts_for_def)

lemma add_effect:
  assumes "acts ot oid"
  shows "owner_effect cfg t acts st (snd (case AddDomain compile cfg buf t ot oid n st of Inl e \<Rightarrow> (400 :: int, st) | Inr (d, st') \<Rightarrow> (201, st')))"
  using assms by (auto intro: unchanged added split: sum.splits)

lemma verify_effect:
  assumes "acts (dm_owner_type d) (dm_owner d)" and "(i, d) \<in> set (domain_rows st)"
  shows "owner_effect cfg t acts st (snd (case VerifyDomain dns i st of (Some e, st') \<Rightarrow> (400 :: int, st') | (None, st') \<Rightarrow> (200, st')))"
  using checked [of acts d i st dns] assms by (auto split: prod.splits option.splits)

lemma delete_effect:
  assumes "acts ot oid"
  shows "owner_effect cfg t acts st
    (snd (case DeleteOwnedDomain ot oid i st of Inl e \<Rightarrow> (domainStatusFromError e, st) | Inr st' \<Rightarrow> (200, st')))"
  using assms by (auto intro: unchanged deleted split: sum.splits)

lemma listed_id: "domainIDByName rows name \<noteq> 0 \<Longrightarrow> \<exists>e. (domainIDByName rows name, e) \<in> set rows"
  by (auto simp: domainIDByName_def dest: find_in split: option.splits)

lemma api_user_effect:
  assumes "currentAPIUser known r = Some user"
  shows "owner_effect cfg t (acts_for odb user) st (snd (APIAddUserDomain known compile cfg buf t r st))"
    and "owner_effect cfg t (acts_for odb user) st (snd (APIVerifyUserDomain known dns r st))"
    and "owner_effect cfg t (acts_for odb user) st (snd (APIDeleteUserDomain known r st))"
proof -
  show "owner_effect cfg t (acts_for odb user) st (snd (APIAddUserDomain known compile cfg buf t r st))"
    unfolding APIAddUserDomain_def assms by (auto intro: unchanged add_effect user_acts split: option.splits)
  let ?i = "domainIDByName (GetUserDomains user st) (dq_domain r)"
  have "owner_effect cfg t (acts_for odb user) st (snd (case VerifyDomain dns ?i st of (Some e, st') \<Rightarrow> (400 :: int, st') | (None, st') \<Rightarrow> (200, st')))"
    if i: "?i \<noteq> 0"
  proof -
    obtain d where "(?i, d) \<in> set (domain_rows st)" "dm_owner_type d = ''user''" "dm_owner d = user"
      using listed_id [OF i] listed_user by blast
    then show ?thesis by (intro verify_effect) (simp_all add: user_acts)
  qed
  then show "owner_effect cfg t (acts_for odb user) st (snd (APIVerifyUserDomain known dns r st))"
    unfolding APIVerifyUserDomain_def assms by (auto intro: unchanged simp: Let_def)
  show "owner_effect cfg t (acts_for odb user) st (snd (APIDeleteUserDomain known r st))"
    unfolding APIDeleteUserDomain_def assms by (auto intro: unchanged delete_effect user_acts split: option.splits)
qed

lemma api_org_effect:
  assumes "currentAPIUser known r = Some user"
  shows "owner_effect cfg t (acts_for odb user) st (snd (APIAddOrgDomain known compile cfg buf t odb r st))"
    and "owner_effect cfg t (acts_for odb user) st (snd (APIVerifyOrgDomain known dns odb r st))"
    and "owner_effect cfg t (acts_for odb user) st (snd (APIDeleteOrgDomain known odb r st))"
proof -
  show "owner_effect cfg t (acts_for odb user) st (snd (APIAddOrgDomain known compile cfg buf t odb r st))"
    unfolding APIAddOrgDomain_def assms
    by (cases "apiOrgForMember odb user (dq_slug r) True"; cases "dq_body r")
      (simp_all add: unchanged add_effect member_acts)
  have "owner_effect cfg t (acts_for odb user) st (snd (case VerifyDomain dns i st of (Some e, st') \<Rightarrow> (400 :: int, st') | (None, st') \<Rightarrow> (200, st')))"
    if org: "apiOrgForMember odb user (dq_slug r) True = Inr org" and i: "i = domainIDByName (GetOrgDomains org st) (dq_domain r)" "i \<noteq> 0" for org i
  proof -
    obtain d where "(i, d) \<in> set (domain_rows st)" "dm_owner_type d = ''org''" "dm_owner d = org"
      using listed_id [OF i(2) [unfolded i(1)]] listed_org i(1) by blast
    then show ?thesis by (intro verify_effect) (simp_all add: member_acts [OF org])
  qed
  then show "owner_effect cfg t (acts_for odb user) st (snd (APIVerifyOrgDomain known dns odb r st))"
    unfolding APIVerifyOrgDomain_def assms by (auto intro: unchanged simp: Let_def split: sum.splits)
  show "owner_effect cfg t (acts_for odb user) st (snd (APIDeleteOrgDomain known odb r st))"
    unfolding APIDeleteOrgDomain_def assms
    by (cases "apiOrgForMember odb user (dq_slug r) True")
      (auto simp: unchanged intro: delete_effect member_acts split: option.split)
qed

lemma no_user_unchanged:
  assumes "currentAPIUser known r = None" and "owner_call cfg known t odb r st ans"
  shows "ans = (401, st)"
proof -
  have "dq_session r = None" using assms(1) by (auto simp: currentAPIUser_def split: option.splits)
  then have web: "currentAPIUser (\<lambda>_. False) r = None" by (simp add: currentAPIUser_def split: option.split)
  show ?thesis
    using assms(2) by cases (use assms(1) web in \<open>simp_all add: APIAddUserDomain_def APIVerifyUserDomain_def APIDeleteUserDomain_def AddUserDomain_def
        VerifyUserDomain_def APIAddOrgDomain_def APIVerifyOrgDomain_def APIDeleteOrgDomain_def AddOrgDomain_def VerifyOrgDomain_def\<close>)
qed

lemma web_user:
  "currentAPIUser known r = Some user \<Longrightarrow> currentAPIUser (\<lambda>_. False) r = Some user \<or> currentAPIUser (\<lambda>_. False) r = None"
  by (auto simp: currentAPIUser_def split: option.splits)

lemma owner_call_effect:
  assumes "currentAPIUser known r = Some user" and "owner_call cfg known t odb r st ans"
  shows "owner_effect cfg t (acts_for odb user) st (snd ans)"
proof -
  have web: "owner_effect cfg t (acts_for odb user) st (snd (AddUserDomain compile cfg buf t r st))"
    "owner_effect cfg t (acts_for odb user) st (snd (VerifyUserDomain dns r st))"
    "owner_effect cfg t (acts_for odb user) st (snd (AddOrgDomain compile cfg buf t odb r st))"
    "owner_effect cfg t (acts_for odb user) st (snd (VerifyOrgDomain dns odb r st))" for compile buf dns
    using web_user [OF assms(1)] api_user_effect api_org_effect
    by (auto simp: AddUserDomain_def VerifyUserDomain_def AddOrgDomain_def VerifyOrgDomain_def APIAddUserDomain_def
        APIVerifyUserDomain_def APIAddOrgDomain_def APIVerifyOrgDomain_def intro: unchanged)
  show ?thesis
    using assms(2) by cases (use api_user_effect [OF assms(1)] api_org_effect [OF assms(1)] web in simp_all)
qed

text \<open>So requests are steps of the runs, and what holds of runs holds of any sequence of requests.\<close>

lemma owner_effect_step: "owner_effect cfg t acts st st' \<Longrightarrow> st' = st \<or> (\<exists>ev. domain_step cfg t ev st st')"
  by (erule owner_effect.cases) (blast intro: domain_step.add_step domain_step.verify_step domain_step.delete_step)+

lemma owner_call_step:
  assumes "owner_call cfg known t odb r st ans"
  shows "snd ans = st \<or> (\<exists>ev. domain_step cfg t ev st (snd ans))"
proof (cases "currentAPIUser known r")
  case None
  then show ?thesis using no_user_unchanged [OF _ assms] by simp
next
  case (Some user)
  then show ?thesis using owner_effect_step owner_call_effect assms by blast
qed

lemma admin_call_step:
  assumes "ans \<in> {APIAdminDeleteDomain r st, APIAdminSuspendDomain r st, APIAdminUnsuspendDomain r st}"
  shows "snd ans = st \<or> (\<exists>ev. domain_step cfg t ev st (snd ans))"
proof -
  have "domain_step cfg t Other_Event st st'"
    if "AdminDeleteDomain i st = Inr st' \<or> SuspendDomain i a st = Inr st' \<or> UnsuspendDomain i a st = Inr st'" for i a st'
    using that domain_step.admin_delete_step domain_step.suspend_step domain_step.unsuspend_step by blast
  then show ?thesis
    using assms by (auto simp: APIAdminDeleteDomain_def APIAdminSuspendDomain_def APIAdminUnsuspendDomain_def split: sum.splits) blast+
qed

text \<open>The scheduled retry is a sequence of checks.\<close>

lemma retry_runs:
  assumes "domain_run cfg t hist evs st" and "t \<le> t'"
  shows "\<exists>t'' hist' evs'. domain_run cfg t'' hist' evs' (snd (RetryPendingVerifications dns cfg t' st)) \<and> t'' \<le> t'"
proof -
  have "\<exists>t'' hist' evs'. domain_run cfg t'' hist' evs' (fold (\<lambda>i st. snd (VerifyDomain dns i st)) ids st) \<and> t'' \<le> t'" for ids
    using assms
  proof (induction ids arbitrary: st t hist evs)
    case Nil
    then show ?case by auto
  next
    case (Cons i ids)
    obtain e st1 where v: "VerifyDomain dns i st = (e, st1)" by fastforce
    show ?case using Cons.IH [OF run_next [OF Cons.prems domain_step.verify_step [OF v]] order_refl] by (simp add: v)
  qed
  then show ?thesis by (simp add: RetryPendingVerifications_def Let_def)
qed

section \<open>Whose domains a request changes\<close>

definition others :: "(string \<Rightarrow> int \<Rightarrow> bool) \<Rightarrow> domain_state \<Rightarrow> (int \<times> domain_row) list" where
  "others acts st = filter (\<lambda>x. \<not> acts (dm_owner_type (snd x)) (dm_owner (snd x))) (domain_rows st)"

lemma others_update:
  assumes "keeps_identity f" and "acts (dm_owner_type d) (dm_owner d)" and "(i, d) \<in> set (domain_rows st)" and "distinct (map fst (domain_rows st))"
  shows "others acts (update_domain i f st) = others acts st"
proof -
  have same: "filter (\<lambda>x. \<not> acts (dm_owner_type (snd x)) (dm_owner (snd x))) (map (\<lambda>(j, d). (j, if j = i then f d else d)) rows) =
      filter (\<lambda>x. \<not> acts (dm_owner_type (snd x)) (dm_owner (snd x))) rows"
    if "\<And>e. (i, e) \<in> set rows \<Longrightarrow> acts (dm_owner_type e) (dm_owner e)" for rows
    using that
  proof (induction rows)
    case (Cons x rows)
    have "dm_owner_type (f d) = dm_owner_type d" "dm_owner (f d) = dm_owner d" for d
      using assms(1) by (simp_all add: keeps_identity_def)
    then show ?case using Cons by (cases x) (auto split: if_splits)
  qed simp
  have "e = d" if "(i, e) \<in> set (domain_rows st)" for e
    using that assms(3,4) by (metis eq_key_imp_eq_value)
  then show ?thesis unfolding others_def update_domain_def using same assms(2) by auto
qed

lemma effect_others:
  assumes "owner_effect cfg t acts st st'" and "distinct (map fst (domain_rows st))"
  shows "others acts st' = others acts st"
  using assms(1)
proof cases
  case (added ot oid compile buf n x)
  then show ?thesis by (auto simp: others_def AddDomain_def Let_def logDomainAudit_def new_domain_def split: if_splits)
next
  case (checked d i dns e)
  from checked(3) show ?thesis
  proof (cases rule: VerifyDomain_rows)
    case 1
    then show ?thesis by (simp add: others_def)
  next
    case (2 f)
    have "others acts st' = others acts (update_domain i f st)" by (simp add: others_def 2(1))
    then show ?thesis using others_update [where acts = acts, OF 2(2) checked(1,2) assms(2)] by simp
  qed
next
  case (deleted ot oid i)
  then have "domain_rows st' = filter (\<lambda>x. \<not> (fst x = i \<and> dm_owner_type (snd x) = ot \<and> dm_owner (snd x) = oid)) (domain_rows st)"
    by (auto simp: DeleteOwnedDomain_def Let_def split: if_splits)
  then show ?thesis using deleted(1) by (auto simp: others_def intro!: filter_cong)
qed (simp add: others_def)


text \<open>Administrators look names up in lower case, so they never find a name that was stored with a capital letter.\<close>

lemma capital_names_escape_admin:
  assumes "is_upper c" and "c \<in> set (dm_name d)"
  shows "GetDomainByName n st \<noteq> Inr (i, scanCustomDomain d)"
proof
  assume "GetDomainByName n st = Inr (i, scanCustomDomain d)"
  then obtain j e where e: "List.find (\<lambda>x. dm_name (snd x) = normalizeResolveHost n) (domain_rows st) = Some (j, e)"
      "scanCustomDomain e = scanCustomDomain d"
    by (auto simp: GetDomainByName_def Let_def split: if_splits option.splits)
  have "dm_name d = normalizeResolveHost n"
    using e(1) arg_cong [OF e(2), of dm_name] unfolding find_Some_iff by (auto simp: scanCustomDomain_def) (metis snd_conv)
  then show False using assms host_not_upper [of c n] by simp
qed

text \<open>A stranger asks for the deletion of the domain of the sample run.\<close>

definition sample_deletion :: domain_request where
  "sample_deletion = \<lparr>dq_session = Some 8, dq_token = None, dq_slug = [], dq_domain = ''go.io'', dq_body = None\<rparr>"


end
