(* ===== verification/DomainLinks.thy ===== *)
theory DomainLinks
  imports DomainSafety LinkRedirect
begin

text \<open>
  Short links on custom domains: the middleware of \<^theory_text>\<open>DomainResolve\<close> puts the owner of the
  domain into the visit that the redirect of \<^theory_text>\<open>LinkRedirect\<close> answers. The first theorem says
  which links a custom host leads to, the second that nobody else's are ever reached there.
\<close>

text \<open>The visit as the handler sees it, after the middleware.\<close>

definition visit_on :: "int \<Rightarrow> string \<Rightarrow> domain_state \<Rightarrow> visit \<Rightarrow> visit" where
  "visit_on now' host st v = v\<lparr>v_domain := fst (CustomDomainMiddleware now' host st)\<rparr>"

definition owned_by :: "string \<Rightarrow> int \<Rightarrow> URL \<Rightarrow> bool" where
  "owned_by ot i u \<longleftrightarrow> ot = ''user'' \<and> UserID u = Some i \<or> ot = ''org'' \<and> OrgID u = Some i"

lemma visit_on_fields [simp]:
  "v_code (visit_on n host st v) = v_code v" "v_ip (visit_on n host st v) = v_ip v"
  "v_user_agent (visit_on n host st v) = v_user_agent v" "provided_password (visit_on n host st v) = provided_password v"
  by (simp_all add: visit_on_def provided_password_def)

lemma visit_on_domain:
  "v_domain (visit_on n host st v) = Some (ot, oid) \<longleftrightarrow>
     host \<noteq> [] \<and> (\<exists>i d. fst (Resolve n host st) = Some (i, d) \<and> dm_owner_type d = ot \<and> dm_owner d = oid)"
  by (auto simp: visit_on_def CustomDomainMiddleware_def split: prod.splits option.splits)

lemma find_unique_name:
  assumes "x \<in> set xs" and "P (snd x)" and "\<And>y. y \<in> set xs \<Longrightarrow> f (snd y) = f (snd x) \<Longrightarrow> y = x"
  shows "List.find (\<lambda>y. f (snd y) = f (snd x) \<and> P (snd y)) xs = Some x"
proof (cases "List.find (\<lambda>y. f (snd y) = f (snd x) \<and> P (snd y)) xs")
  case None
  then have "\<not> (f (snd x) = f (snd x) \<and> P (snd x))" using assms(1) unfolding find_None_iff by blast
  then show ?thesis using assms(2) by blast
next
  case (Some y)
  then have "y \<in> set xs" "f (snd y) = f (snd x)" by (auto simp: find_Some_iff)
  then show ?thesis using assms(3) Some by simp
qed

text \<open>A row that serves is what its host resolves to, as long as the cache is exact.\<close>

lemma served_row_resolves:
  assumes "domain_run cfg t hist evs st" and "\<And>n a. Checked n a True \<notin> set evs"
    and "(i, d) \<in> set (domain_rows st)" and "serves d" and "normalizeResolveHost host = dm_name d" and "dm_name d \<noteq> []"
  shows "fst (Resolve now' host st) = Some (i, scanCustomDomain d)"
proof -
  have inj: "inj_on (\<lambda>x. dm_name (snd x)) (set (domain_rows st))"
    using run_sound [OF assms(1)] unfolding table_sound_def distinct_map by blast
  have same: "y = (i, d)" if "y \<in> set (domain_rows st)" "dm_name (snd y) = dm_name (snd (i, d))" for y
    by (rule inj_onD [OF inj that(2,1) assms(3)])
  have serv: "serves (snd (i, d))" using assms(4) by simp
  have "List.find (\<lambda>y. dm_name (snd y) = dm_name (snd (i, d)) \<and> serves (snd y)) (domain_rows st) = Some (i, d)"
    by (rule find_unique_name [where f = dm_name and P = serves, OF assms(3) serv same])
  then show ?thesis
    using resolve_exact [OF assms(1,2)] assms(5,6) by (simp add: resolve_query_def)
qed


text \<open>
  C26 (custom_host_isolated). Whatever happens to domains and cache, a visit that comes through a custom domain is
  redirected only by a link of an owner who, within the last minute, held the verified and active
  domain of that name, with its token found in DNS before.
\<close>

theorem custom_host_isolated:
  assumes "domain_run cfg t hist evs st" and "t \<le> n" and "v_domain (visit_on n host st v) = Some (ot, oid)"
    and "fst (RedirectURL verify lookup_country free now' db (visit_on n host st v)) = Redirect_To loc"
  shows "\<exists>u s rows i row. getURLByCodeRaw db (v_code v) = Inr u \<and> owned_by ot oid u \<and>
    (s, rows) \<in> set ((n, domain_rows st) # hist) \<and> n - 60 * nano_second \<le> s \<and> (i, row) \<in> set rows \<and>
    dm_name row = normalizeResolveHost host \<and> dm_owner_type row = ot \<and> dm_owner row = oid \<and> serves row \<and> was_proved evs row"
proof -
  obtain i d where "fst (Resolve n host st) = Some (i, d)" "dm_owner_type d = ot" "dm_owner d = oid"
    using assms(3) unfolding visit_on_domain by blast
  then obtain s rows row where "(s, rows) \<in> set ((n, domain_rows st) # hist)" "n - 60 * nano_second \<le> s" "(i, row) \<in> set rows"
      "dm_name row = normalizeResolveHost host" "dm_owner_type row = ot" "dm_owner row = oid" "serves row" "was_proved evs row"
    using resolved_row [OF assms(1,2)] by (force simp: scanCustomDomain_def serves_def)
  moreover obtain u where "getURLByCodeRaw db (v_code v) = Inr u" "owned_by ot oid u"
    using assms(3,4) unfolding redirect_iff owned_by_def by auto
  ultimately show ?thesis by blast
qed

section \<open>A sample visit\<close>

lemma sample_owned_link:
  "\<exists>u db. CreateURLForUser never_draws 0 7 (plain_request ''http://a.io/'' ''abc'') no_links = Inr (u, db) \<and>
     getURLByCodeRaw db ''abc'' = Inr u \<and> UserID u = Some 7 \<and> ExpiresAt u = None \<and> PasswordHash u = None \<and> GeoMode u = ''none'' \<and>
     LongURL u = ''http://a.io/'' \<and> MobileURL u = None \<and> DesktopURL u = None \<and> TabletURL u = None \<and>
     list_all (\<lambda>kv. snd kv = None) (utm_fields u)"
  by (simp add: link_eval eval_simps utm_fields_def)


theorem custom_host_isolated_witness:
  "\<exists>u db. CreateURLForUser never_draws 0 7 (plain_request ''http://a.io/'' ''abc'') no_links = Inr (u, db) \<and> owned_by ''user'' 7 u"
proof -
  obtain u db where c: "CreateURLForUser never_draws 0 7 (plain_request ''http://a.io/'' ''abc'') no_links = Inr (u, db)"
    and u: "getURLByCodeRaw db ''abc'' = Inr u" "UserID u = Some 7" "ExpiresAt u = None" "PasswordHash u = None" "GeoMode u = ''none''"
    using sample_owned_link by blast
  let ?v = "visit_on 20 ''Go.IO:443'' sample_active (plain_visit ''abc'' ''Mozilla'')"
  have dom: "v_domain ?v = Some (''user'', 7)"
  proof -
    have "fst (Resolve 20 ''Go.IO:443'' sample_active) = Some (1, scanCustomDomain sample_proved)"
      using resolve_exact [OF sample_run, of 20 "''Go.IO:443''"] sample_query unfolding sample_host by simp
    then show ?thesis
      by (simp add: visit_on_domain scanCustomDomain_def sample_proved_def sample_row_def new_domain_def)
  qed
  obtain loc where loc: "fst (RedirectURL (\<lambda>p h. False) (\<lambda>ip. ''DE'') True 9 db ?v) = Redirect_To loc"
    using u dom unfolding redirect_iff by (simp add: plain_visit_def owned_by_def open_link)
  have "getURLByCodeRaw db (v_code (plain_visit ''abc'' ''Mozilla'')) = Inr u" using u by (simp add: plain_visit_def)
  then have "owned_by ''user'' 7 u" using custom_host_isolated [OF sample_run _ dom loc] by auto
  then show ?thesis using c by blast
qed

end
