(* ===== verification/LinkClicks.thy ===== *)
theory LinkClicks
  imports LinkRedirect LinkApi GoTime
begin

text \<open>
  Clicks on short links and what is read from them: \<open>RecordClick\<close> and the lists of
  \<^verbatim>\<open>src/server/service/url.go\<close>, the statistics of \<^verbatim>\<open>src/server/service/analytics.go\<close>, and the list
  handler of \<^verbatim>\<open>src/server/handler/url.go\<close>. The hash, the database of places and the test for a public
  address are arguments; a click is written as soon as its visit is answered. Times are seconds.
\<close>

section \<open>Dates\<close>

text \<open>The year that a day lies in: the years of the calendar begin in March.\<close>

definition year_of_day :: "int \<Rightarrow> int" where
  "year_of_day day =
     (let z = day + 719468; y = 400 * (z div 146097) + int (fst (march_year 0 (nat (z mod 146097))))
      in if fst (month_day day) \<le> 2 then y + 1 else y)"

definition pad_to :: "nat \<Rightarrow> nat \<Rightarrow> string" where
  "pad_to w n = replicate (w - length (show_nat n)) CHR ''0'' @ show_nat n"

text \<open>The layout 2006-01-02.\<close>

definition Format_date :: "int \<Rightarrow> string" where
  "Format_date day =
     (let y = year_of_day day
      in (if y < 0 then ''-'' else []) @ pad_to 4 (nat \<bar>y\<bar>) @ ''-'' @ pad_to 2 (fst (month_day day)) @ ''-'' @ pad_to 2 (snd (month_day day)))"

section \<open>Recording\<close>

record click_row =
  cl_url :: nat
  cl_ip_hash :: string
  cl_country :: string
  cl_city :: string
  cl_user_agent :: string
  cl_referrer :: string
  cl_device :: string
  cl_at :: int

definition hashIP :: "(string \<Rightarrow> string) \<Rightarrow> int \<Rightarrow> string \<Rightarrow> string" where
  "hashIP sha now' ip = sha (ip @ '':'' @ Format_date (now' div 86400))"

text \<open>The place of an address: nothing without a database, or for an address that is not public.\<close>

definition looked_up :: "(string \<Rightarrow> 'a) option \<Rightarrow> (string \<Rightarrow> bool) \<Rightarrow> 'a \<Rightarrow> string \<Rightarrow> 'a" where
  "looked_up geo public nowhere ip = (case geo of None \<Rightarrow> nowhere | Some place \<Rightarrow> if public ip then place ip else nowhere)"

definition LookupCountry :: "(string \<Rightarrow> string) option \<Rightarrow> (string \<Rightarrow> bool) \<Rightarrow> string \<Rightarrow> string" where
  "LookupCountry geo public ip = looked_up geo public [] ip"

definition device_name :: "device \<Rightarrow> string" where
  "device_name d = (case d of Mobile \<Rightarrow> ''mobile'' | Tablet \<Rightarrow> ''tablet'' | Desktop \<Rightarrow> ''desktop'')"

definition RecordClick ::
    "(string \<Rightarrow> string) \<Rightarrow> (string \<Rightarrow> string \<times> string) option \<Rightarrow> (string \<Rightarrow> bool) \<Rightarrow> int \<Rightarrow> click \<Rightarrow> click_row list \<Rightarrow> click_row list" where
  "RecordClick sha geo public now' c clicks =
     (case c of (urlID, ip, agent, referrer) \<Rightarrow>
        let (country, city) = looked_up geo public ([], []) ip
        in clicks @ [\<lparr>cl_url = urlID, cl_ip_hash = hashIP sha now' ip, cl_country = country, cl_city = city,
             cl_user_agent = agent, cl_referrer = referrer, cl_device = device_name (DetectDeviceType agent), cl_at = now'\<rparr>])"

section \<open>Statistics\<close>

record URLStats =
  StatsCode :: string
  TotalClicks :: nat
  UniqueIPs :: nat
  Last24h :: nat
  Last7d :: nat
  Last30d :: nat
  TopReferers :: "(string \<times> nat) list"
  DailyClicks :: "(string \<times> nat) list"

definition clicks_since :: "int \<Rightarrow> click_row list \<Rightarrow> click_row list" where
  "clicks_since t cs = filter (\<lambda>c. cl_at c \<ge> t) cs"

text \<open>The groups of a query with the size of each.\<close>

definition group_counts :: "('a \<Rightarrow> 'k) \<Rightarrow> 'a list \<Rightarrow> ('k \<times> nat) list" where
  "group_counts key xs = map (\<lambda>k. (k, length (filter (\<lambda>x. key x = k) xs))) (remdups (map key xs))"

definition stats_over :: "string \<Rightarrow> int \<Rightarrow> click_row list \<Rightarrow> URLStats" where
  "stats_over c now' cs =
     \<lparr>StatsCode = c, TotalClicks = length cs, UniqueIPs = length (remdups (map cl_ip_hash cs)),
      Last24h = length (clicks_since (now' - 86400) cs),
      Last7d = length (clicks_since (now' - 7 * 86400) cs),
      Last30d = length (clicks_since (now' - 30 * 86400) cs),
      TopReferers = take 10 (sort_key (\<lambda>p. - int (snd p)) (group_counts cl_referrer cs)),
      DailyClicks = map (\<lambda>(day, n). (Format_date day, n))
        (sort_key fst (group_counts (\<lambda>c. cl_at c div 86400) (clicks_since (now' - 30 * 86400) cs)))\<rparr>"

definition GetURLStats :: "string \<Rightarrow> int \<Rightarrow> link_db \<Rightarrow> click_row list \<Rightarrow> URLStats option" where
  "GetURLStats c now' db clicks =
     (case map_of (urls db) c of
        None \<Rightarrow> None
      | Some row \<Rightarrow> Some (stats_over c now' (filter (\<lambda>k. cl_url k = row_id row) clicks)))"

definition GetUserStats :: "int \<Rightarrow> int \<Rightarrow> link_db \<Rightarrow> click_row list \<Rightarrow> URLStats" where
  "GetUserStats user now' db clicks =
     stats_over [] now' (filter (\<lambda>k. list_ex (\<lambda>x. row_id (snd x) = cl_url k \<and> user_id (snd x) = Some user) (urls db)) clicks)"

section \<open>Lists\<close>

text \<open>One page of the rows that belong to the owner, newest first.\<close>

definition list_page :: "(url_row \<Rightarrow> bool) \<Rightarrow> int \<Rightarrow> int \<Rightarrow> link_db \<Rightarrow> URL list" where
  "list_page owned limit0 offset0 db =
     (let limit = (if limit0 \<le> 0 then 250 else limit0); offset = (if offset0 < 0 then 0 else offset0)
      in map scanURLRow (take (nat limit) (drop (nat offset)
           (sort_key (\<lambda>row. - created_at row) (filter owned (map snd (urls db)))))))"

definition ListByUserPage :: "int \<Rightarrow> int \<Rightarrow> int \<Rightarrow> link_db \<Rightarrow> URL list" where
  "ListByUserPage user limit offset db = list_page (\<lambda>row. user_id row = Some user) limit offset db"

definition ListByUser :: "int \<Rightarrow> int \<Rightarrow> link_db \<Rightarrow> URL list" where
  "ListByUser user limit db = ListByUserPage user limit 0 db"

definition ListByOrgPage :: "int \<Rightarrow> int \<Rightarrow> int \<Rightarrow> link_db \<Rightarrow> URL list" where
  "ListByOrgPage org limit offset db = list_page (\<lambda>row. org_id row = Some org) limit offset db"

definition CountByUser :: "int \<Rightarrow> link_db \<Rightarrow> nat" where
  "CountByUser user db = length (filter (\<lambda>x. user_id (snd x) = Some user) (urls db))"

definition CountByOrg :: "int \<Rightarrow> link_db \<Rightarrow> nat" where
  "CountByOrg org db = length (filter (\<lambda>x. org_id (snd x) = Some org) (urls db))"

text \<open>The handler, with the values of the query: links, page, limit and total. The product wraps around.\<close>

definition ListURLs :: "token option \<Rightarrow> string \<Rightarrow> string \<Rightarrow> link_db \<Rightarrow> nat + URL list \<times> int \<times> int \<times> nat" where
  "ListURLs tok page_value limit_value db =
     (case tok of
        None \<Rightarrow> Inl 401
      | Some rec \<Rightarrow>
          if \<not> (EqualFold (tok_owner_type rec) ''user'' \<or> EqualFold (tok_owner_type rec) ''org'') then Inl 401
          else
            let page = (case Atoi page_value of Some n \<Rightarrow> if n > 0 then n else 1 | None \<Rightarrow> 1);
                limit = (case Atoi limit_value of Some n \<Rightarrow> if n > 0 \<and> n \<le> 250 then n else 250 | None \<Rightarrow> 250);
                offset = wrap64 ((page - 1) * limit)
            in if EqualFold (tok_owner_type rec) ''org''
               then Inr (ListByOrgPage (tok_owner_id rec) limit offset db, page, limit, CountByOrg (tok_owner_id rec) db)
               else Inr (ListByUserPage (tok_owner_id rec) limit offset db, page, limit, CountByUser (tok_owner_id rec) db))"

section \<open>Counting\<close>

lemma group_sum:
  assumes "finite K" and "key ` set xs \<subseteq> K"
  shows "(\<Sum>k \<in> K. length (filter (\<lambda>x. key x = k) xs)) = length xs"
  using assms(2)
proof (induction xs)
  case (Cons x xs)
  have "(\<Sum>k \<in> K. length (filter (\<lambda>y. key y = k) (x # xs))) =
      (\<Sum>k \<in> K. (if key x = k then 1 else 0) + length (filter (\<lambda>y. key y = k) xs))"
    by (intro sum.cong) auto
  also have "\<dots> = 1 + length xs" using Cons assms(1) by (simp add: sum.distrib)
  finally show ?case by simp
qed simp

lemma group_counts_sum: "sum_list (map snd (group_counts key xs)) = length xs"
proof -
  have "sum_list (map snd (group_counts key xs)) = (\<Sum>k \<leftarrow> remdups (map key xs). length (filter (\<lambda>x. key x = k) xs))"
    by (simp add: group_counts_def comp_def)
  also have "\<dots> = (\<Sum>k \<in> key ` set xs. length (filter (\<lambda>x. key x = k) xs))"
    by (subst sum_list_distinct_conv_sum_set) simp_all
  also have "\<dots> = length xs" by (rule group_sum) simp_all
  finally show ?thesis .
qed

lemma sum_list_sort_key: "sum_list (map f (sort_key g xs)) = sum_list (map (f :: 'a \<Rightarrow> nat) xs)"
proof (induction xs)
  case (Cons x xs)
  have "sum_list (map f (insort_key g x ys)) = f x + sum_list (map f ys)" for ys by (induction ys) auto
  then show ?case using Cons by simp
qed simp

lemma sum_take_le: "sum_list (take n xs) \<le> sum_list (xs :: nat list)"
  by (metis append_take_drop_id le_add1 sum_list_append)

lemma clicks_since_mono: "s \<le> t \<Longrightarrow> length (clicks_since t cs) \<le> length (clicks_since s cs)"
  by (induction cs) (auto simp: clicks_since_def)

lemma stats_shape:
  "Last24h (stats_over c t cs) \<le> Last7d (stats_over c t cs)" "Last7d (stats_over c t cs) \<le> Last30d (stats_over c t cs)"
  "Last30d (stats_over c t cs) \<le> TotalClicks (stats_over c t cs)" "UniqueIPs (stats_over c t cs) \<le> TotalClicks (stats_over c t cs)"
  "sum_list (map snd (DailyClicks (stats_over c t cs))) = Last30d (stats_over c t cs)"
  "sum_list (map snd (TopReferers (stats_over c t cs))) \<le> TotalClicks (stats_over c t cs)"
  "length (TopReferers (stats_over c t cs)) \<le> 10"
proof -
  let ?s = "stats_over c t cs"
  show "Last24h ?s \<le> Last7d ?s" "Last7d ?s \<le> Last30d ?s" by (simp_all add: stats_over_def clicks_since_mono)
  show "Last30d ?s \<le> TotalClicks ?s" by (simp add: stats_over_def clicks_since_def)
  show "UniqueIPs ?s \<le> TotalClicks ?s" using length_remdups_leq [of "map cl_ip_hash cs"] by (simp add: stats_over_def)
  have "map snd (map (\<lambda>(day, n). (Format_date day, n)) ps) = map snd ps" for ps :: "(int \<times> nat) list" by auto
  then show "sum_list (map snd (DailyClicks ?s)) = Last30d ?s"
    by (simp add: stats_over_def sum_list_sort_key group_counts_sum del: map_map)
  show "sum_list (map snd (TopReferers ?s)) \<le> TotalClicks ?s"
    using sum_take_le [of 10 "map snd (sort_key (\<lambda>p. - int (snd p)) (group_counts cl_referrer cs))"]
    by (simp add: stats_over_def take_map sum_list_sort_key group_counts_sum)
  show "length (TopReferers ?s) \<le> 10" by (simp add: stats_over_def)
qed

text \<open>No referrer that is left out was seen more often than one that is listed.\<close>

lemma top_referrers:
  assumes "(r, n) \<in> set (TopReferers (stats_over c t cs))" and "q \<in> cl_referrer ` set cs" and "q \<notin> fst ` set (TopReferers (stats_over c t cs))"
  shows "length (filter (\<lambda>k. cl_referrer k = q) cs) \<le> n"
proof -
  let ?g = "sort_key (\<lambda>p. - int (snd p)) (group_counts cl_referrer cs)"
  let ?n = "length (filter (\<lambda>k. cl_referrer k = q) cs)"
  have "(q, ?n) \<in> set ?g" using assms(2) by (auto simp: group_counts_def)
  moreover have "(q, ?n) \<notin> set (take 10 ?g)" using assms(3) by (force simp: stats_over_def)
  ultimately have d: "(q, ?n) \<in> set (drop 10 ?g)" by (metis Un_iff append_take_drop_id set_append)
  have "sorted (map (\<lambda>p. - int (snd p)) (take 10 ?g @ drop 10 ?g))" by simp
  then have "- int n \<le> - int ?n"
    using assms(1) d unfolding map_append sorted_append by (fastforce simp: stats_over_def)
  then show ?thesis by simp
qed

text \<open>
  The salt of the hash is the date, so one visitor counts once for every day: here 1 and 2 March 2000.
\<close>

lemma visitor_counted_daily:
  assumes "inj sha"
  shows "UniqueIPs (stats_over c t (RecordClick sha geo public 951955200 (i, ip, a, r) (RecordClick sha geo public 951868800 (i, ip, a, r) []))) = 2"
proof -
  have "Format_date 11017 \<noteq> Format_date 11018" by (simp add: Format_date_def Let_def year_of_day_def pad_to_def eval_simps show_nat.simps)
  then have "hashIP sha 951868800 ip \<noteq> hashIP sha 951955200 ip" using assms by (simp add: hashIP_def inj_eq)
  then show ?thesis by (simp add: stats_over_def RecordClick_def Let_def split: prod.splits)
qed

section \<open>Pages\<close>

lemma pages_concat: "concat (map (\<lambda>p. take n (drop (p * n) xs)) [0..<k]) = take (k * n) xs"
  by (induction k) (simp_all add: take_add add.commute [of n])

text \<open>Pages of one size show every link of the user once, newest first.\<close>

lemma pages_cover:
  assumes "0 < n" and "CountByUser user db \<le> k * n"
  shows "concat (map (\<lambda>p. ListByUserPage user (int n) (int p * int n) db) [0..<k]) =
    map scanURLRow (sort_key (\<lambda>row. - created_at row) (filter (\<lambda>row. user_id row = Some user) (map snd (urls db))))"
proof -
  let ?xs = "map scanURLRow (sort_key (\<lambda>row. - created_at row) (filter (\<lambda>row. user_id row = Some user) (map snd (urls db))))"
  have "ListByUserPage user (int n) (int p * int n) db = take n (drop (p * n) ?xs)" for p
    using assms(1) by (simp add: ListByUserPage_def list_page_def Let_def take_map drop_map nat_mult_distrib flip: of_nat_mult)
  then have "concat (map (\<lambda>p. ListByUserPage user (int n) (int p * int n) db) [0..<k]) = take (k * n) ?xs"
    using pages_concat [of n ?xs k] by presburger
  moreover have "length ?xs \<le> k * n" using assms(2) by (simp add: CountByUser_def filter_map comp_def)
  ultimately show ?thesis by simp
qed

text \<open>A page number so large that its offset wraps around shows the first page again.\<close>

lemma huge_page_is_first:
  assumes "EqualFold (tok_owner_type rec) ''user''" and "Atoi page_value = Some 9223372036854775807" and "Atoi limit_value = None"
  shows "ListURLs (Some rec) page_value limit_value db =
    Inr (ListByUserPage (tok_owner_id rec) 250 0 db, 9223372036854775807, 250, CountByUser (tok_owner_id rec) db)"
proof -
  have "wrap64 ((9223372036854775807 - 1) * 250) = - 500" by (simp add: wrap64_def)
  moreover have "\<not> EqualFold (tok_owner_type rec) ''org''" using assms(1) by (simp add: EqualFold_def eval_simps)
  ultimately show ?thesis using assms by (simp add: ListURLs_def ListByUserPage_def list_page_def Let_def)
qed

section \<open>Clicks and redirects\<close>

text \<open>A visit at a time, with whether a worker is free, and what is stored of it.\<close>

definition answer_visit ::
    "(string \<Rightarrow> string \<Rightarrow> bool) \<Rightarrow> (string \<Rightarrow> string) \<Rightarrow> (string \<Rightarrow> string) \<Rightarrow> (string \<Rightarrow> string \<times> string) option \<Rightarrow> (string \<Rightarrow> bool) \<Rightarrow>
     link_db \<Rightarrow> int \<times> bool \<times> visit \<Rightarrow> click_row list \<Rightarrow> redirect_response \<times> click_row list" where
  "answer_visit verify lookup_country sha geo public db e clicks =
     (case e of (now', free, v) \<Rightarrow>
        let (response, c) = RedirectURL verify lookup_country free now' db v
        in (response, case c of None \<Rightarrow> clicks | Some k \<Rightarrow> RecordClick sha geo public now' k clicks))"

definition answer_visits ::
    "(string \<Rightarrow> string \<Rightarrow> bool) \<Rightarrow> (string \<Rightarrow> string) \<Rightarrow> (string \<Rightarrow> string) \<Rightarrow> (string \<Rightarrow> string \<times> string) option \<Rightarrow> (string \<Rightarrow> bool) \<Rightarrow>
     link_db \<Rightarrow> (int \<times> bool \<times> visit) list \<Rightarrow> click_row list \<Rightarrow> click_row list" where
  "answer_visits verify lookup_country sha geo public db es clicks =
     fold (\<lambda>e cs. snd (answer_visit verify lookup_country sha geo public db e cs)) es clicks"

definition counted :: "(string \<Rightarrow> string \<Rightarrow> bool) \<Rightarrow> (string \<Rightarrow> string) \<Rightarrow> link_db \<Rightarrow> string \<Rightarrow> int \<times> bool \<times> visit \<Rightarrow> bool" where
  "counted verify lookup_country db c e \<longleftrightarrow>
     (case e of (now', free, v) \<Rightarrow>
        v_code v = c \<and> free \<and> (case fst (RedirectURL verify lookup_country free now' db v) of Redirect_To _ \<Rightarrow> True | _ \<Rightarrow> False))"

lemma click_of_redirect:
  assumes "RedirectURL verify lookup_country free now' db v = (response, c)"
  shows "(\<exists>row ip a r. c = Some (row_id row, ip, a, r) \<and> map_of (urls db) (v_code v) = Some row \<and> free \<and> (\<exists>loc. response = Redirect_To loc)) \<or>
    c = None \<and> (free \<longrightarrow> (\<forall>loc. response \<noteq> Redirect_To loc))"
proof (cases "v_code v = [] \<or> (\<exists>e. find_visited now' db v = Inl e)")
  case True
  then show ?thesis using assms by (auto simp: RedirectURL_def split: if_splits sum.splits)
next
  case False
  then obtain u where u: "find_visited now' db v = Inr u" by (cases "find_visited now' db v") auto
  then obtain row where row: "map_of (urls db) (v_code v) = Some row" "ID u = row_id row"
    unfolding find_visited_Inr by (auto simp: getURLByCodeRaw_def scanURLRow_def split: option.splits)
  have "unlockURLOrPrompt verify v u \<noteq> Some (Redirect_To loc)" for loc
    by (auto simp: unlockURLOrPrompt_def split: option.splits)
  then show ?thesis using assms False u row by (auto simp: RedirectURL_def split: if_splits option.splits)
qed

lemma answer_visit_clicks:
  assumes "sound_db db" and "map_of (urls db) c = Some row"
  shows "length (filter (\<lambda>k. cl_url k = row_id row) (snd (answer_visit verify lookup_country sha geo public db e clicks))) =
    length (filter (\<lambda>k. cl_url k = row_id row) clicks) + (if counted verify lookup_country db c e then 1 else 0)"
proof -
  obtain now' free v where e: "e = (now', free, v)" by (cases e)
  obtain response k where r: "RedirectURL verify lookup_country free now' db v = (response, k)" by fastforce
  have same: "v_code v = c" if "map_of (urls db) (v_code v) = Some row'" "row_id row' = row_id row" for row'
    using sound_db_ids [OF assms(1), of "v_code v" row' c row] that assms(2) by (simp add: look_def)
  show ?thesis
    using click_of_redirect [OF r] assms(2) same
    by (auto simp: e answer_visit_def counted_def r RecordClick_def split: redirect_response.splits prod.splits)
qed



section \<open>The statistics of a user\<close>

text \<open>The total of a user is the sum of the totals of the user's links.\<close>

lemma user_total_sums:
  assumes "reachable_db db"
  shows "TotalClicks (GetUserStats user t db clicks) =
    (\<Sum>(c, row) \<in> {x \<in> set (urls db). user_id (snd x) = Some user}. TotalClicks (the (GetURLStats c t db clicks)))"
proof -
  let ?own = "{x \<in> set (urls db). user_id (snd x) = Some user}"
  have d: "distinct (map fst (urls db))" using reachable_unique [OF assms] by (simp add: unique_codes_def)
  have look: "map_of (urls db) c = Some row" if "(c, row) \<in> set (urls db)" for c row using that d by simp
  have inj: "x = y" if "x \<in> set (urls db)" "y \<in> set (urls db)" "row_id (snd x) = row_id (snd y)" for x y
    using that look sound_db_ids [OF reachable_sound [OF assms], of "fst x" "snd x" "fst y" "snd y"]
    by (metis eq_key_imp_eq_value d look_def prod.collapse)
  have "length (filter (\<lambda>k. list_ex (\<lambda>x. row_id (snd x) = cl_url k \<and> user_id (snd x) = Some user) (urls db)) clicks) =
      (\<Sum>x \<in> ?own. length (filter (\<lambda>k. cl_url k = row_id (snd x)) clicks))"
  proof (induction clicks)
    case (Cons k ks)
    have "(\<Sum>x \<in> ?own. (if cl_url k = row_id (snd x) then 1 else (0 :: nat))) = card {x \<in> ?own. cl_url k = row_id (snd x)}"
      by (simp add: sum.If_cases Int_def)
    also have "\<dots> = (if list_ex (\<lambda>x. row_id (snd x) = cl_url k \<and> user_id (snd x) = Some user) (urls db) then 1 else 0)"
    proof (cases "\<exists>x \<in> ?own. cl_url k = row_id (snd x)")
      case True
      then obtain x where x: "x \<in> ?own" "cl_url k = row_id (snd x)" by blast
      have "y = x" if "y \<in> ?own" "cl_url k = row_id (snd y)" for y
        using that x by (intro inj) simp_all
      then have "{x \<in> ?own. cl_url k = row_id (snd x)} = {x}" using x by blast
      then show ?thesis using x by (auto simp: list_ex_iff)
    next
      case False
      then have none: "{x \<in> ?own. cl_url k = row_id (snd x)} = {}" by blast
      have "\<not> list_ex (\<lambda>x. row_id (snd x) = cl_url k \<and> user_id (snd x) = Some user) (urls db)"
        using False unfolding list_ex_iff by (metis (mono_tags, lifting) mem_Collect_eq)
      then show ?thesis unfolding none by simp
    qed
    finally have one: "(\<Sum>x \<in> ?own. (if cl_url k = row_id (snd x) then 1 else (0 :: nat))) = \<dots>" .
    have "(\<Sum>x \<in> ?own. length (filter (\<lambda>k. cl_url k = row_id (snd x)) (k # ks))) =
        (\<Sum>x \<in> ?own. (if cl_url k = row_id (snd x) then 1 else 0) + length (filter (\<lambda>k. cl_url k = row_id (snd x)) ks))"
      by (intro sum.cong) auto
    then show ?case using Cons one by (simp add: sum.distrib)
  qed simp
  also have "\<dots> = (\<Sum>(c, row) \<in> ?own. TotalClicks (the (GetURLStats c t db clicks)))"
  proof (rule sum.cong)
    fix x assume "x \<in> ?own"
    then show "length (filter (\<lambda>k. cl_url k = row_id (snd x)) clicks) = (case x of (c, row) \<Rightarrow> TotalClicks (the (GetURLStats c t db clicks)))"
      using look [of "fst x" "snd x"] by (cases x) (simp add: GetURLStats_def stats_over_def)
  qed simp
  finally show ?thesis by (simp add: GetUserStats_def stats_over_def)
qed

end
