(* ===== verification/Csv.thy ===== *)
theory Csv
  imports GoStrings
begin

text \<open>
  \<open>encoding/csv\<close> of Go as \<^verbatim>\<open>src/server/service/bulk.go\<close> uses it: the writer with its defaults, and
  the reader with \<open>TrimLeadingSpace\<close>, whose \<open>ReadAll\<close> gives all records or the first error. White
  space beyond ASCII is not looked at.
\<close>

abbreviation quote :: char where
  "quote \<equiv> CHR 34"

abbreviation line_feed :: char where
  "line_feed \<equiv> CHR 10"

abbreviation carriage_return :: char where
  "carriage_return \<equiv> CHR 13"

section \<open>Writing\<close>

definition fieldNeedsQuotes :: "string \<Rightarrow> bool" where
  "fieldNeedsQuotes field \<longleftrightarrow>
     field \<noteq> [] \<and>
     (field = [CHR 92, CHR ''.''] \<or>
      list_ex (\<lambda>c. c = line_feed \<or> c = carriage_return \<or> c = quote \<or> c = CHR '','') field \<or> go_space (hd field))"

definition csv_field :: "string \<Rightarrow> string" where
  "csv_field field =
     (if \<not> fieldNeedsQuotes field then field
      else quote # concat (map (\<lambda>c. if c = quote then [quote, quote] else [c]) field) @ [quote])"

definition csv_Write :: "string list \<Rightarrow> string" where
  "csv_Write record = join_with '','' (map csv_field record) @ [line_feed]"

section \<open>Reading\<close>

datatype csv_error = ErrBareQuote | ErrQuote | ErrFieldCount

text \<open>
  The reader ends every line with a line feed, whether it was written with a carriage return or not, and
  drops a carriage return at the end of the text.
\<close>

fun unify_newlines :: "string \<Rightarrow> string" where
  "unify_newlines [] = []"
| "unify_newlines (c # s) =
     (if c = carriage_return \<and> s \<noteq> [] \<and> hd s = line_feed then unify_newlines s else c # unify_newlines s)"

definition csv_lines :: "string \<Rightarrow> string" where
  "csv_lines s =
     (let t = unify_newlines s in if t \<noteq> [] \<and> last t = carriage_return then butlast t else t)"

text \<open>The rest of a quoted field, whether another field follows, and the text after it.\<close>

fun csv_quoted :: "string \<Rightarrow> csv_error + string \<times> bool \<times> string" where
  "csv_quoted [] = Inl ErrQuote"
| "csv_quoted (c # s) =
     (if c \<noteq> quote then then_try (csv_quoted s) (\<lambda>(f, more, rest). Inr (c # f, more, rest))
      else
        (case s of
           [] \<Rightarrow> Inr ([], False, [])
         | d # s' \<Rightarrow>
             if d = quote then then_try (csv_quoted s') (\<lambda>(f, more, rest). Inr (quote # f, more, rest))
             else if d = CHR '','' then Inr ([], True, s')
             else if d = line_feed then Inr ([], False, s')
             else Inl ErrQuote))"

lemma csv_quoted_shorter: "csv_quoted s = Inr (f, more, rest) \<Longrightarrow> length rest < length s"
  by (induction s arbitrary: f more rest rule: csv_quoted.induct)
    (fastforce simp: then_try_Inr split: if_splits list.splits)+

text \<open>A record and the text after its line.\<close>

function (sequential) csv_record :: "string \<Rightarrow> csv_error + string list \<times> string" where
  "csv_record s =
     (let t = dropWhile (\<lambda>c. go_space c \<and> c \<noteq> line_feed) s
      in if t = [] \<or> hd t \<noteq> quote then
           (let field = takeWhile (\<lambda>c. c \<noteq> CHR '','' \<and> c \<noteq> line_feed) t;
                rest = dropWhile (\<lambda>c. c \<noteq> CHR '','' \<and> c \<noteq> line_feed) t
            in if quote \<in> set field then Inl ErrBareQuote
               else if rest \<noteq> [] \<and> hd rest = CHR '','' then
                 then_try (csv_record (tl rest)) (\<lambda>(fields, after). Inr (field # fields, after))
               else Inr ([field], tl rest))
         else
           (case csv_quoted (tl t) of
              Inl e \<Rightarrow> Inl e
            | Inr (field, more, rest) \<Rightarrow>
                if more then then_try (csv_record rest) (\<lambda>(fields, after). Inr (field # fields, after))
                else Inr ([field], rest)))"
  by pat_completeness auto
termination
proof (relation "measure length")
  fix s t :: string and rest field :: string
  let ?t = "dropWhile (\<lambda>c. go_space c \<and> c \<noteq> line_feed) s"
  assume r: "rest = dropWhile (\<lambda>c. c \<noteq> CHR '','' \<and> c \<noteq> line_feed) t" and t: "t = ?t" and "rest \<noteq> [] \<and> hd rest = CHR '',''"
  then have "length (tl rest) < length rest" by (cases rest) auto
  also have "\<dots> \<le> length s" unfolding r t by (meson length_dropWhile_le order_trans)
  finally show "(tl rest, s) \<in> measure length" by simp
next
  fix s t y :: string and a :: "string \<times> bool \<times> string" and field more x rest
  let ?t = "dropWhile (\<lambda>c. go_space c \<and> c \<noteq> line_feed) s"
  assume q: "csv_quoted (tl t) = Inr a" and a: "(field, x) = a" "(more, rest) = x" and t: "t = ?t"
  have "length rest < length (tl t)" using q a csv_quoted_shorter by blast
  also have "\<dots> \<le> length s" unfolding t using length_dropWhile_le [of "\<lambda>c. go_space c \<and> c \<noteq> line_feed" s] by simp
  finally show "(rest, s) \<in> measure length" by simp
qed simp

declare csv_record.simps [simp del]

text \<open>The cases of the reader, with the text after the white space and the text after the field named.\<close>

lemma csv_record_step:
  obtains t field rest where "length t \<le> length s" "length rest \<le> length t" "t = dropWhile (\<lambda>c. go_space c \<and> c \<noteq> line_feed) s"
    "csv_record s =
       (if t = [] \<or> hd t \<noteq> quote then
          if quote \<in> set field then Inl ErrBareQuote
          else if rest \<noteq> [] \<and> hd rest = CHR '','' then
            then_try (csv_record (tl rest)) (\<lambda>(fields, after). Inr (field # fields, after))
          else Inr ([field], tl rest)
        else
          (case csv_quoted (tl t) of
             Inl e \<Rightarrow> Inl e
           | Inr (field, more, rest) \<Rightarrow>
               if more then then_try (csv_record rest) (\<lambda>(fields, after). Inr (field # fields, after))
               else Inr ([field], rest)))"
proof -
  define t where "t = dropWhile (\<lambda>c. go_space c \<and> c \<noteq> line_feed) s"
  define rest where "rest = dropWhile (\<lambda>c. c \<noteq> CHR '','' \<and> c \<noteq> line_feed) t"
  have len: "length t \<le> length s" "length rest \<le> length t"
    unfolding t_def rest_def by (rule length_dropWhile_le)+
  show thesis
    by (rule that [OF len t_def]) (simp only: csv_record.simps [of s] Let_def t_def rest_def)
qed

lemma csv_record_Inr:
  assumes "csv_record s = Inr (fields, rest)"
  shows "length rest < length s \<or> s = [] \<and> rest = [] \<or> (\<exists>u fs. length u < length s \<and> csv_record u = Inr (fs, rest))"
proof (rule csv_record_step [of s])
  fix t field r
  assume len: "length t \<le> length s" "length r \<le> length t"
    and eq: "csv_record s =
       (if t = [] \<or> hd t \<noteq> quote then
          if quote \<in> set field then Inl ErrBareQuote
          else if r \<noteq> [] \<and> hd r = CHR '','' then
            then_try (csv_record (tl r)) (\<lambda>(fields, after). Inr (field # fields, after))
          else Inr ([field], tl r)
        else
          (case csv_quoted (tl t) of
             Inl e \<Rightarrow> Inl e
           | Inr (field, more, rest) \<Rightarrow>
               if more then then_try (csv_record rest) (\<lambda>(fields, after). Inr (field # fields, after))
               else Inr ([field], rest)))"
  consider (more) "r \<noteq> []" "\<exists>fs. csv_record (tl r) = Inr (fs, rest)" | (last) "rest = tl r"
    | (quoted) f m q where "csv_quoted (tl t) = Inr (f, m, q)" "q = rest \<or> (\<exists>fs. csv_record q = Inr (fs, rest))" "t \<noteq> []"
    using assms unfolding eq by (auto simp: then_try_Inr split: if_splits sum.splits)
  then show ?thesis
  proof cases
    case more
    then have "length (tl r) < length s" using len by (cases r) auto
    then show ?thesis using more by blast
  next
    case last
    then show ?thesis using len by (cases r; cases s) auto
  next
    case (quoted f m q)
    then have "length q < length s" using csv_quoted_shorter [OF quoted(1)] len by (cases t) auto
    then show ?thesis using quoted(2) by blast
  qed
qed

lemma csv_record_shorter: "csv_record s = Inr (fields, rest) \<Longrightarrow> length rest < length s \<or> s = [] \<and> rest = []"
proof (induction s arbitrary: fields rule: length_induct)
  case (1 s)
  then show ?case using csv_record_Inr [OF 1(2)] by fastforce
qed

text \<open>All records; the first one fixes the number of fields. Empty lines are skipped.\<close>

function (sequential) csv_records :: "nat option \<Rightarrow> string \<Rightarrow> csv_error + string list list" where
  "csv_records n s =
     (let t = dropWhile (\<lambda>c. c = line_feed) s
      in if t = [] then Inr []
         else
           (case csv_record t of
              Inl e \<Rightarrow> Inl e
            | Inr (fields, rest) \<Rightarrow>
                if n \<noteq> None \<and> n \<noteq> Some (length fields) then Inl ErrFieldCount
                else then_try (csv_records (Some (length fields)) rest) (\<lambda>records. Inr (fields # records))))"
  by pat_completeness auto
termination
proof (relation "measure (\<lambda>(n, s). length s)")
  fix n :: "nat option" and s t rest :: string and p fields
  assume t: "t = dropWhile (\<lambda>c. c = line_feed) s" "t \<noteq> []" "csv_record t = Inr p" "(fields, rest) = p"
  have "length rest < length t" using t(2,3,4) csv_record_shorter by blast
  also have "\<dots> \<le> length s" unfolding t(1) by (rule length_dropWhile_le)
  finally show "((Some (length fields), rest), n, s) \<in> measure (\<lambda>(n, s). length s)" by simp
qed simp

declare csv_records.simps [simp del]

definition csv_ReadAll :: "string \<Rightarrow> csv_error + string list list" where
  "csv_ReadAll s = csv_records None (csv_lines s)"

section \<open>Reading what was written\<close>

lemma csv_Write_Cons: "csv_Write (f # g # fs) = csv_field f @ CHR '','' # csv_Write (g # fs)"
  and csv_Write_single: "csv_Write [f] = csv_field f @ [line_feed]"
  by (simp_all add: csv_Write_def)

lemma plain_field:
  assumes "\<not> fieldNeedsQuotes f"
  shows "\<forall>c \<in> set f. c \<noteq> line_feed \<and> c \<noteq> carriage_return \<and> c \<noteq> quote \<and> c \<noteq> CHR '',''"
    and "f = [] \<or> \<not> go_space (hd f)"
  using assms by (auto simp: fieldNeedsQuotes_def list_ex_iff)

lemma quoted_back:
  "csv_quoted (concat (map (\<lambda>c. if c = quote then [quote, quote] else [c]) f) @ quote # CHR '','' # w) = Inr (f, True, w)"
  "csv_quoted (concat (map (\<lambda>c. if c = quote then [quote, quote] else [c]) f) @ quote # line_feed # w) = Inr (f, False, w)"
  by (induction f) auto

lemma span_plain:
  assumes "\<forall>c \<in> set f. c \<noteq> CHR '','' \<and> c \<noteq> line_feed" and "d = CHR '','' \<or> d = line_feed"
  shows "takeWhile (\<lambda>c. c \<noteq> CHR '','' \<and> c \<noteq> line_feed) (f @ d # w) = f"
    and "dropWhile (\<lambda>c. c \<noteq> CHR '','' \<and> c \<noteq> line_feed) (f @ d # w) = d # w"
  using assms by (auto simp: takeWhile_append2 dropWhile_append2)

lemma no_leading_space:
  assumes "d = CHR '','' \<or> d = line_feed"
  shows "dropWhile (\<lambda>c. go_space c \<and> c \<noteq> line_feed) (csv_field f @ d # w) = csv_field f @ d # w"
proof (cases "fieldNeedsQuotes f")
  case True
  then show ?thesis by (simp add: csv_field_def go_space_def)
next
  case False
  then show ?thesis using plain_field(2) [OF False] assms by (cases f) (auto simp: csv_field_def go_space_def)
qed

lemma read_field:
  "csv_record (csv_field f @ CHR '','' # w) = then_try (csv_record w) (\<lambda>(fields, after). Inr (f # fields, after))"
  "csv_record (csv_field f @ line_feed # w) = Inr ([f], w)"
proof -
  have "csv_record (csv_field f @ d # w) =
      (if d = line_feed then Inr ([f], w) else then_try (csv_record w) (\<lambda>(fields, after). Inr (f # fields, after)))"
    if d: "d = CHR '','' \<or> d = line_feed" for d
  proof (cases "fieldNeedsQuotes f")
    case True
    then have "csv_field f @ d # w =
        quote # concat (map (\<lambda>c. if c = quote then [quote, quote] else [c]) f) @ quote # d # w"
      by (simp add: csv_field_def)
    then show ?thesis
      using no_leading_space [OF d, of f w] d quoted_back [of f w] unfolding csv_record.simps [of "csv_field f @ d # w"] by (auto simp: Let_def)
  next
    case False
    have f: "csv_field f = f" using False by (simp add: csv_field_def)
    have p: "\<forall>c \<in> set f. c \<noteq> CHR '','' \<and> c \<noteq> line_feed" "quote \<notin> set f" using plain_field(1) [OF False] by auto
    then have "hd (f @ d # w) \<noteq> quote" using d by (cases f) auto
    then show ?thesis
      using no_leading_space [OF d, of f w] span_plain [OF p(1) d, of w] p(2) d unfolding f csv_record.simps [of "f @ d # w"]
      by (auto simp: Let_def)
  qed
  then show "csv_record (csv_field f @ CHR '','' # w) = then_try (csv_record w) (\<lambda>(fields, after). Inr (f # fields, after))"
    "csv_record (csv_field f @ line_feed # w) = Inr ([f], w)"
    by simp_all
qed

lemma read_record: "r \<noteq> [] \<Longrightarrow> csv_record (csv_Write r @ w) = Inr (r, w)"
proof (induction r)
  case (Cons f fs)
  then show ?case by (cases fs) (simp_all add: csv_Write_single csv_Write_Cons read_field)
qed simp

lemma written_not_empty:
  assumes "r \<noteq> []" and "r \<noteq> [[]]"
  shows "dropWhile (\<lambda>c. c = line_feed) (csv_Write r @ w) = csv_Write r @ w \<and> csv_Write r \<noteq> []"
proof -
  obtain f fs where r: "r = f # fs" using assms(1) by (cases r) auto
  have "csv_field f \<noteq> [] \<Longrightarrow> hd (csv_field f) \<noteq> line_feed"
    using plain_field [of f] by (cases f) (auto simp: csv_field_def)
  then show ?thesis
    using assms(2) unfolding r by (cases "csv_field f"; cases fs) (auto simp: csv_Write_single csv_Write_Cons csv_field_def split: if_splits)
qed

lemma read_records:
  assumes "\<And>r. r \<in> set rs \<Longrightarrow> r \<noteq> [] \<and> r \<noteq> [[]] \<and> length r = k" and "n = None \<or> n = Some k"
  shows "csv_records n (concat (map csv_Write rs)) = Inr rs"
  using assms
proof (induction rs arbitrary: n)
  case Nil
  then show ?case by (simp add: csv_records.simps [of n "[]"])
next
  case (Cons r rs)
  let ?w = "concat (map csv_Write rs)"
  have r: "r \<noteq> []" "r \<noteq> [[]]" "length r = k" using Cons.prems(1) [of r] by simp_all
  have "csv_records (Some (length r)) ?w = Inr rs" unfolding r(3) using Cons by simp
  then have "csv_records n (csv_Write r @ ?w) = Inr (r # rs)"
    using written_not_empty [OF r(1,2), of ?w] read_record [OF r(1), of ?w] Cons.prems(2) r(3)
    unfolding csv_records.simps [of n "csv_Write r @ ?w"] by (elim conjE disjE) (simp_all add: Let_def)
  then show ?case by simp
qed

text \<open>The newlines inside of fields are unified on the way.\<close>

lemma unify_append:
  "a = [] \<or> last a \<noteq> carriage_return \<or> b = [] \<or> hd b \<noteq> line_feed \<Longrightarrow> unify_newlines (a @ b) = unify_newlines a @ unify_newlines b"
  by (induction a) (auto split: if_splits)

lemma unify_changes: "unify_newlines f = f \<or> line_feed \<in> set f \<and> line_feed \<in> set (unify_newlines f)"
proof -
  have "line_feed \<in> set (unify_newlines s) \<longleftrightarrow> line_feed \<in> set s" for s
    by (induction s) auto
  moreover have "line_feed \<notin> set s \<Longrightarrow> unify_newlines s = s" for s
    by (induction s) (auto dest: hd_in_set)
  ultimately show ?thesis by blast
qed

lemma unify_needs: "fieldNeedsQuotes (unify_newlines f) = fieldNeedsQuotes f"
proof (cases "unify_newlines f = f")
  case False
  then have "fieldNeedsQuotes f" "fieldNeedsQuotes (unify_newlines f)"
    using unify_changes [of f] by (auto simp: fieldNeedsQuotes_def list_ex_iff)
  then show ?thesis by simp
qed simp

lemma unify_doubled:
  "unify_newlines (concat (map (\<lambda>c. if c = quote then [quote, quote] else [c]) f)) =
   concat (map (\<lambda>c. if c = quote then [quote, quote] else [c]) (unify_newlines f))"
proof (induction f)
  case (Cons c f)
  have "concat (map (\<lambda>c. if c = quote then [quote, quote] else [c]) f) \<noteq> [] \<and>
      hd (concat (map (\<lambda>c. if c = quote then [quote, quote] else [c]) f)) = line_feed \<longleftrightarrow> f \<noteq> [] \<and> hd f = line_feed"
    by (cases f) auto
  then show ?case using Cons by (auto split: if_splits)
qed simp

lemma unify_field: "unify_newlines (csv_field f) = csv_field (unify_newlines f)"
proof (cases "fieldNeedsQuotes f")
  case True
  then show ?thesis by (simp add: csv_field_def unify_needs unify_append unify_doubled)
next
  case False
  then show ?thesis by (simp add: csv_field_def unify_needs)
qed

lemma field_end: "csv_field f \<noteq> [] \<Longrightarrow> last (csv_field f) \<noteq> carriage_return"
  using plain_field(1) [of f] last_in_set [of f] by (cases "fieldNeedsQuotes f") (fastforce simp: csv_field_def)+

lemma unify_Write: "r \<noteq> [] \<Longrightarrow> unify_newlines (csv_Write r) = csv_Write (map unify_newlines r)"
proof (induction r)
  case (Cons f fs)
  have "unify_newlines (csv_field f @ d # w) = csv_field (unify_newlines f) @ unify_newlines (d # w)" for d w
    using field_end [of f] by (subst unify_append) (auto simp: unify_field)
  then show ?case using Cons by (cases fs) (simp_all add: csv_Write_single csv_Write_Cons)
qed simp

lemma unify_text: "[] \<notin> set rs \<Longrightarrow> unify_newlines (concat (map csv_Write rs)) = concat (map csv_Write (map (map unify_newlines) rs))"
proof (induction rs)
  case (Cons r rs)
  have "last (csv_Write r) = line_feed" by (simp add: csv_Write_def)
  then show ?case using Cons unify_Write [of r] by (auto simp: unify_append)
qed simp

lemma text_end: "rs \<noteq> [] \<Longrightarrow> last (concat (map csv_Write rs)) = line_feed"
  by (induction rs) (auto simp: csv_Write_def)

text \<open>
  Records of equal length that are not a single empty field come back as they were written, but for
  carriage returns before line feeds.
\<close>

lemma csv_back:
  assumes "\<And>r. r \<in> set rs \<Longrightarrow> r \<noteq> [] \<and> r \<noteq> [[]] \<and> length r = k"
  shows "csv_ReadAll (concat (map csv_Write rs)) = Inr (map (map unify_newlines) rs)"
proof -
  have e: "unify_newlines f = [] \<longleftrightarrow> f = []" for f by (induction f) auto
  have "[] \<notin> set rs" using assms by blast
  then have "csv_lines (concat (map csv_Write rs)) = concat (map csv_Write (map (map unify_newlines) rs))"
    using unify_text [of rs] text_end [of "map (map unify_newlines) rs"] by (cases rs) (simp_all add: csv_lines_def Let_def)
  moreover have "csv_records None (concat (map csv_Write (map (map unify_newlines) rs))) = Inr (map (map unify_newlines) rs)"
  proof (rule read_records [where k = k])
    fix r assume "r \<in> set (map (map unify_newlines) rs)"
    then obtain r0 where r0: "r0 \<in> set rs" "r = map unify_newlines r0" by auto
    show "r \<noteq> [] \<and> r \<noteq> [[]] \<and> length r = k"
      using assms [OF r0(1)] e unfolding r0(2) by (auto simp: map_eq_Cons_conv)
  qed simp
  ultimately show ?thesis by (simp add: csv_ReadAll_def)
qed

end
