(* ===== verification/LinkBulk.thy ===== *)
theory LinkBulk
  imports LinkClicks Csv
begin

text \<open>
  Export and import of a user's links: \<^verbatim>\<open>src/server/service/bulk.go\<close> and the handlers of
  \<^verbatim>\<open>src/server/handler/bulk.go\<close>. Rows come back as they were written, but an exported file is no import:
  every row of it is rejected.
\<close>

definition bulkMaxBytes :: nat where
  "bulkMaxBytes = 5 * 1024 * 1024"

definition bulkMaxRows :: nat where
  "bulkMaxRows = 10000"

record BulkRow =
  br_url :: string
  br_custom_code :: string
  br_title :: string

record exportRow =
  ex_short_code :: string
  ex_destination_url :: string
  ex_title :: string
  ex_clicks :: nat
  ex_created_at :: string
  ex_expires_at :: string

datatype bulk_error =
    Unauthenticated
  | Bad_Form
  | Missing_File
  | Too_Large
  | Too_Many_Rows
  | Bad_CSV csv_error
  | Bad_JSON
  | Bad_Format

section \<open>Export\<close>

definition Format_RFC3339 :: "int \<Rightarrow> string" where
  "Format_RFC3339 t =
     Format_date (t div 86400) @ ''T'' @ pad_to 2 (nat (t div 3600 mod 24)) @ '':'' @ pad_to 2 (nat (t div 60 mod 60)) @
     '':'' @ pad_to 2 (nat (t mod 60)) @ ''Z''"

definition fetchExportRows :: "int \<Rightarrow> link_db \<Rightarrow> click_row list \<Rightarrow> exportRow list" where
  "fetchExportRows user db clicks =
     map (\<lambda>row. \<lparr>ex_short_code = short_code row, ex_destination_url = long_url row, ex_title = derefStr (title row),
            ex_clicks = length (filter (\<lambda>c. cl_url c = row_id row) clicks), ex_created_at = Format_RFC3339 (created_at row),
            ex_expires_at = (case expires_at row of Some t \<Rightarrow> Format_RFC3339 t | None \<Rightarrow> [])\<rparr>)
       (sort_key (\<lambda>row. - created_at row) (filter (\<lambda>row. user_id row = Some user) (map snd (urls db))))"

definition export_header :: "string list" where
  "export_header = [''short_code'', ''destination_url'', ''title'', ''clicks'', ''created_at'', ''expires_at'']"

definition export_record :: "exportRow \<Rightarrow> string list" where
  "export_record r =
     [ex_short_code r, ex_destination_url r, ex_title r, show_nat (ex_clicks r), ex_created_at r, ex_expires_at r]"

definition ExportCSV :: "int \<Rightarrow> link_db \<Rightarrow> click_row list \<Rightarrow> string" where
  "ExportCSV user db clicks =
     concat (map csv_Write (export_header # map export_record (fetchExportRows user db clicks)))"

text \<open>The value that is marshalled; a slice without elements is null.\<close>

definition ExportJSON :: "int \<Rightarrow> link_db \<Rightarrow> click_row list \<Rightarrow> json" where
  "ExportJSON user db clicks =
     (let rows = fetchExportRows user db clicks
      in if rows = [] then JNull
         else JArr (map (\<lambda>r. JObj [(''short_code'', JStr (ex_short_code r)), (''destination_url'', JStr (ex_destination_url r)),
                (''title'', JStr (ex_title r)), (''clicks'', JNum (int (ex_clicks r))),
                (''created_at'', JStr (ex_created_at r)), (''expires_at'', JStr (ex_expires_at r))]) rows))"

section \<open>Import\<close>

text \<open>The random numbers of a row are found by the number of rows after it.\<close>

fun importRows ::
    "(nat \<Rightarrow> nat \<Rightarrow> nat \<Rightarrow> nat option) \<Rightarrow> int \<Rightarrow> int \<Rightarrow> BulkRow list \<Rightarrow> link_db \<Rightarrow> nat \<times> (string \<times> url_error) list \<times> link_db" where
  "importRows draws now' user [] db = (0, [], db)"
| "importRows draws now' user (row # rows) db =
     (if TrimSpace (br_url row) = [] then importRows draws now' user rows db
      else
        (case CreateURLForUser (draws (length rows)) now' user
                (empty_request\<lparr>cr_long_url := br_url row, cr_custom_code := br_custom_code row, cr_title := str_opt (br_title row)\<rparr>) db of
           Inl e \<Rightarrow> (case importRows draws now' user rows db of (n, errors, db') \<Rightarrow> (n, (br_url row, e) # errors, db'))
         | Inr (u, db1) \<Rightarrow> (case importRows draws now' user rows db1 of (n, errors, db') \<Rightarrow> (Suc n, errors, db'))))"

definition csv_header_names :: "string list" where
  "csv_header_names = [''url'', ''destination_url'', ''long_url'']"

definition strip_header :: "string list list \<Rightarrow> string list list" where
  "strip_header records =
     (case records of [] \<Rightarrow> [] | r # rs \<Rightarrow> if ToLower (hd r) \<in> set csv_header_names then rs else records)"

definition bulk_row :: "string list \<Rightarrow> BulkRow" where
  "bulk_row cells =
     \<lparr>br_url = TrimSpace (hd cells), br_custom_code = (if length cells > 1 then TrimSpace (cells ! 1) else []),
      br_title = (if length cells > 2 then TrimSpace (cells ! 2) else [])\<rparr>"

definition ImportCSV ::
    "(nat \<Rightarrow> nat \<Rightarrow> nat \<Rightarrow> nat option) \<Rightarrow> int \<Rightarrow> int \<Rightarrow> string \<Rightarrow> link_db \<Rightarrow>
     bulk_error + nat \<times> (string \<times> url_error) list \<times> link_db" where
  "ImportCSV draws now' user csvData db =
     (if length csvData > bulkMaxBytes then Inl Too_Large
      else
        (case csv_ReadAll csvData of
           Inl e \<Rightarrow> Inl (Bad_CSV e)
         | Inr all \<Rightarrow>
             let records = strip_header all
             in if length records > bulkMaxRows then Inl Too_Many_Rows
                else Inr (importRows draws now' user
                  (filter (\<lambda>row. br_url row \<noteq> []) (map bulk_row (filter (\<lambda>r. r \<noteq> []) records))) db)))"

definition bulk_field :: "string \<times> json \<Rightarrow> BulkRow \<Rightarrow> BulkRow option" where
  "bulk_field kv r =
     (let k = ToLower (fst kv); v = snd kv
      in if k = ''url'' then map_option (\<lambda>s. r\<lparr>br_url := s\<rparr>) (json_string v (br_url r))
         else if k = ''custom_code'' then map_option (\<lambda>s. r\<lparr>br_custom_code := s\<rparr>) (json_string v (br_custom_code r))
         else if k = ''title'' then map_option (\<lambda>s. r\<lparr>br_title := s\<rparr>) (json_string v (br_title r))
         else Some r)"

definition bulk_element :: "json \<Rightarrow> BulkRow option" where
  "bulk_element v = decode_body bulk_field \<lparr>br_url = [], br_custom_code = [], br_title = []\<rparr> (Some v)"

text \<open>\<open>json.Unmarshal\<close> into the slice of rows; texts with fractions or exponents are outside of the model.\<close>

definition bulk_rows :: "string \<Rightarrow> BulkRow list option" where
  "bulk_rows s =
     (case JSON_parse s of
        JSON_Value (JArr vs) \<Rightarrow> those (map bulk_element vs)
      | JSON_Value JNull \<Rightarrow> Some []
      | _ \<Rightarrow> None)"

definition ImportJSON ::
    "(nat \<Rightarrow> nat \<Rightarrow> nat \<Rightarrow> nat option) \<Rightarrow> int \<Rightarrow> int \<Rightarrow> string \<Rightarrow> link_db \<Rightarrow>
     bulk_error + nat \<times> (string \<times> url_error) list \<times> link_db" where
  "ImportJSON draws now' user jsonData db =
     (if length jsonData > bulkMaxBytes then Inl Too_Large
      else
        (case bulk_rows jsonData of
           None \<Rightarrow> Inl Bad_JSON
         | Some rows \<Rightarrow> if length rows > bulkMaxRows then Inl Too_Many_Rows else Inr (importRows draws now' user rows db)))"

section \<open>Handlers\<close>

text \<open>The answer to an export: a file with its type, or an error.\<close>

datatype export_answer = Export_Error nat bulk_error | Export_CSV string | Export_JSON json

definition Export :: "int option \<Rightarrow> string \<Rightarrow> link_db \<Rightarrow> click_row list \<Rightarrow> export_answer" where
  "Export user format0 db clicks =
     (case user of
        None \<Rightarrow> Export_Error 401 Unauthenticated
      | Some i \<Rightarrow>
          let format = (if format0 = [] then ''json'' else format0)
          in if format = ''csv'' then Export_CSV (ExportCSV i db clicks)
             else if format = ''json'' then Export_JSON (ExportJSON i db clicks)
             else Export_Error 400 Bad_Format)"

text \<open>
  What the import reads of a request: the form, \<open>None\<close> when it does not parse, with name and content
  of the file if there is one.
\<close>

record import_request =
  im_user :: "int option"
  im_content_type :: string
  im_form :: "(string \<times> string) option option"
  im_body :: string
  im_format :: string

text \<open>A form is answered by a redirect to the page, with the error or the two numbers; \<open>True\<close> marks a form.\<close>

datatype import_answer = Import_Failed bool nat bulk_error | Import_Done bool nat "(string \<times> url_error) list"

definition import_data :: "import_request \<Rightarrow> nat \<times> bulk_error + string \<times> string" where
  "import_data r =
     (if take 19 (im_content_type r) = ''multipart/form-data'' then
        (case im_form r of
           None \<Rightarrow> Inl (400, Bad_Form)
         | Some None \<Rightarrow> Inl (400, Missing_File)
         | Some (Some (name, content)) \<Rightarrow>
             if length content > bulkMaxBytes then Inl (413, Too_Large)
             else Inr (content, if length name \<ge> 5 \<and> drop (length name - 4) name = ''.csv'' then ''csv'' else ''json''))
      else if length (im_body r) > bulkMaxBytes then Inl (413, Too_Large)
      else Inr (im_body r, if im_content_type r = ''text/csv'' \<or> im_content_type r = ''application/csv'' then ''csv'' else ''json''))"

definition Import ::
    "(nat \<Rightarrow> nat \<Rightarrow> nat \<Rightarrow> nat option) \<Rightarrow> int \<Rightarrow> import_request \<Rightarrow> link_db \<Rightarrow> import_answer \<times> link_db" where
  "Import draws now' r db =
     (let isForm = (take 19 (im_content_type r) = ''multipart/form-data'')
      in case im_user r of
           None \<Rightarrow> (Import_Failed False 401 Unauthenticated, db)
         | Some user \<Rightarrow>
             (case import_data r of
                Inl (status, e) \<Rightarrow> (Import_Failed isForm status e, db)
              | Inr (rawData, format0) \<Rightarrow>
                  let format = (if im_format r = ''csv'' \<or> im_format r = ''json'' then im_format r else format0)
                  in (case (if format = ''csv'' then ImportCSV draws now' user rawData db else ImportJSON draws now' user rawData db) of
                        Inl e \<Rightarrow> (Import_Failed isForm 400 e, db)
                      | Inr (n, errors, db') \<Rightarrow> (Import_Done isForm n errors, db'))))"

section \<open>What an import does\<close>

definition wanted_rows :: "BulkRow list \<Rightarrow> nat" where
  "wanted_rows rows = length (filter (\<lambda>row. TrimSpace (br_url row) \<noteq> []) rows)"

lemma import_row_adds:
  assumes "CreateURLForUser draw now' user req db = Inr (u, db')"
  shows "length (urls db') = Suc (length (urls db))" and "look db c = Some row \<Longrightarrow> look db' c = Some row"
proof -
  obtain chosen opts where i: "insert_row (new_row now' req chosen (Some user) None None opts) db = Some db'"
    using assms unfolding CreateURLForUser_Inr by blast
  have new: "map_of (urls db) (short_code (new_row now' req chosen (Some user) None None opts)) = None"
    using i by (auto simp: insert_row_def codeExists_def split: if_splits)
  have "length (AList.update k v xs) = Suc (length xs)" if "map_of xs k = None" for k v and xs :: "(string \<times> url_row) list"
    using that by (induction xs) (auto split: if_splits)
  then show "length (urls db') = Suc (length (urls db))" using i new by (auto simp: insert_row_def split: if_splits)
  show "look db' c = Some row" if "look db c = Some row" using insert_row_Some(1,2) [OF i] that by auto
qed

text \<open>
  Every row with an address is either imported or reported, as many links are added as are imported, no link
  that was there changes, and the links stay sound.
\<close>

theorem import_only_adds:
  assumes "reachable_db db" and "\<And>k. draws_in_range (draws k)" and "importRows draws now' user rows db = (n, errors, db')"
  shows "n + length errors = length (filter (\<lambda>row. TrimSpace (br_url row) \<noteq> []) rows) \<and> length (urls db') = length (urls db) + n \<and>
    reachable_db db' \<and> (\<forall>c row. getURLByCodeRaw db c = Inr row \<longrightarrow> getURLByCodeRaw db' c = Inr row)"
proof -
  have "n + length errors = wanted_rows rows \<and> length (urls db') = length (urls db) + n \<and>
      reachable_db db' \<and> (\<forall>c row. look db c = Some row \<longrightarrow> look db' c = Some row)"
    using assms(1,3)
  proof (induction rows arbitrary: db n errors db')
    case Nil
    then show ?case by (simp add: wanted_rows_def)
  next
    case (Cons row rows)
    show ?case
    proof (cases "TrimSpace (br_url row) = []")
      case True
      then show ?thesis using Cons by (simp add: wanted_rows_def)
    next
      case False
      let ?create = "CreateURLForUser (draws (length rows)) now' user
          (empty_request\<lparr>cr_long_url := br_url row, cr_custom_code := br_custom_code row, cr_title := str_opt (br_title row)\<rparr>) db"
      show ?thesis
      proof (cases ?create)
        case (Inl e)
        obtain m errs d where r: "importRows draws now' user rows db = (m, errs, d)" by (cases "importRows draws now' user rows db")
        then show ?thesis using Cons.IH [OF Cons.prems(1) r] Cons.prems(2) False Inl by (auto simp: wanted_rows_def)
      next
        case (Inr p)
        obtain u db1 where p: "p = (u, db1)" by (cases p)
        obtain m errs d where r: "importRows draws now' user rows db1 = (m, errs, d)" by (cases "importRows draws now' user rows db1")
        have "reachable_db db1" by (rule next_db [OF Cons.prems(1) create_user_step [OF assms(2) Inr [unfolded p]]])
        from Cons.IH [OF this r] show ?thesis
          using Cons.prems(2) False Inr p r import_row_adds [OF Inr [unfolded p]] by (auto simp: wanted_rows_def)
      qed
    qed
  qed
  then show ?thesis unfolding wanted_rows_def getURLByCodeRaw_look by (auto split: option.splits)
qed

section \<open>An export is no import\<close>

lemma export_length: "length (fetchExportRows user db clicks) = CountByUser user db"
  by (simp add: fetchExportRows_def CountByUser_def filter_map comp_def)

text \<open>
  An exported file is read back as the header and one record for each link of the user, but for carriage
  returns before line feeds in titles and addresses.
\<close>

lemma exported_back:
  "csv_ReadAll (ExportCSV user db clicks) =
   Inr (export_header # map (\<lambda>r. map unify_newlines (export_record r)) (fetchExportRows user db clicks))"
proof -
  have "map unify_newlines export_header = export_header" by (simp add: export_header_def)
  moreover have "csv_ReadAll (ExportCSV user db clicks) =
      Inr (map (map unify_newlines) (export_header # map export_record (fetchExportRows user db clicks)))"
    unfolding ExportCSV_def
    by (rule csv_back [where k = 6]) (auto simp: export_header_def export_record_def)
  ultimately show ?thesis by simp
qed

text \<open>A text without a colon is no address.\<close>

lemma no_scheme_invalid:
  assumes "CHR '':'' \<notin> set s"
  shows "validateDestinationURL s \<noteq> None"
proof
  assume "validateDestinationURL s = None"
  then have "web_address s" by (rule valid_destination_is_web)
  then have "CHR '':'' \<in> set (ToLower s)" by (auto simp: web_address_def prefix_def)
  then obtain c where "c \<in> set s" "(if is_upper c then char_of (code c + 32) else c) = CHR '':''"
    by (auto simp: ToLower_def)
  then show False using assms by (auto simp: is_upper_def char_of_eq split: if_splits)
qed

lemma import_rejects:
  assumes "\<And>row. row \<in> set rows \<Longrightarrow> CHR '':'' \<notin> set (br_url row)"
  shows "importRows draws now' user rows db =
    (0, map (\<lambda>row. (br_url row, ErrInvalidURL)) (filter (\<lambda>row. TrimSpace (br_url row) \<noteq> []) rows), db)"
  using assms
proof (induction rows)
  case (Cons row rows)
  have "validateDestinationURL (br_url row) \<noteq> None" using Cons.prems by (intro no_scheme_invalid) simp
  then show ?case using Cons by (simp add: CreateURLForUser_def)
qed simp

lemma code_text:
  assumes "reachable_db db" and "r \<in> set (fetchExportRows user db clicks)"
  shows "CHR '':'' \<notin> set (ex_short_code r)" and "unify_newlines (ex_short_code r) = ex_short_code r"
    and "TrimSpace (ex_short_code r) = ex_short_code r" and "ex_short_code r \<noteq> []"
proof -
  obtain c row where row: "(c, row) \<in> set (urls db)" "ex_short_code r = short_code row"
    using assms(2) by (auto simp: fetchExportRows_def)
  have "look db c = Some row" using row(1) reachable_unique [OF assms(1)] by (simp add: look_def unique_codes_def)
  then have v: "validateCustomCode (ex_short_code r) = None"
    using sound_dbD(1) [OF reachable_sound [OF assms(1)]] row(2) by (auto simp: sound_row_def)
  then have plain: "\<forall>c \<in> set (ex_short_code r). is_lower c \<or> is_upper c \<or> is_digit c" and "3 \<le> length (ex_short_code r)"
    by (auto simp: validateCustomCode_def list_all_iff split: if_splits)
  then show "ex_short_code r \<noteq> []" by auto
  have no: "\<forall>c \<in> set (ex_short_code r). c \<noteq> CHR '':'' \<and> c \<noteq> line_feed \<and> \<not> go_space c"
    using plain by (auto simp: is_lower_def is_upper_def is_digit_def go_space_def)
  then show "CHR '':'' \<notin> set (ex_short_code r)" by blast
  show "unify_newlines (ex_short_code r) = ex_short_code r" using unify_changes [of "ex_short_code r"] no by blast
  show "TrimSpace (ex_short_code r) = ex_short_code r"
    unfolding TrimSpace_def by (rule strip_none) (use no in blast)
qed

text \<open>
  C5 (export_cannot_be_imported). An exported CSV file cannot be imported again, by whomever and wherever: the header is taken for a link and
  the first column, the short code, for the address, so nothing is created and every line is reported
  as invalid, unless the file is too large already.
\<close>

theorem export_cannot_be_imported:
  assumes "reachable_db db"
  shows "case ImportCSV draws now' user' (ExportCSV user db clicks) other of
      Inl e \<Rightarrow> e = Too_Large \<or> e = Too_Many_Rows
    | Inr (n, errors, after) \<Rightarrow> n = 0 \<and> after = other \<and>
        errors = (''short_code'', ErrInvalidURL) # map (\<lambda>r. (ex_short_code r, ErrInvalidURL)) (fetchExportRows user db clicks)"
proof -
  let ?rows = "fetchExportRows user db clicks"
  let ?recs = "export_header # map (\<lambda>r. map unify_newlines (export_record r)) ?rows"
  have strip: "strip_header ?recs = ?recs"
    by (simp add: strip_header_def export_header_def csv_header_names_def eval_simps)
  have head: "br_url (bulk_row export_header) = ''short_code''"
    by (simp add: bulk_row_def export_header_def eval_simps)
  have trim: "TrimSpace ''short_code'' = ''short_code''" by (simp add: eval_simps)
  have url: "br_url (bulk_row (map unify_newlines (export_record r))) = ex_short_code r" if "r \<in> set ?rows" for r
    using code_text [OF assms that] by (simp add: bulk_row_def export_record_def)
  let ?in = "filter (\<lambda>row. br_url row \<noteq> []) (map bulk_row (filter (\<lambda>r. r \<noteq> []) ?recs))"
  have recs: "filter (\<lambda>r. r \<noteq> []) ?recs = ?recs"
    by (auto simp: export_header_def export_record_def filter_id_conv)
  have kept: "?in = bulk_row export_header # map (\<lambda>r. bulk_row (map unify_newlines (export_record r))) ?rows"
    unfolding recs using head url code_text(4) [OF assms] by (auto simp: filter_id_conv)
  have "importRows draws now' user' ?in other =
      (0, map (\<lambda>row. (br_url row, ErrInvalidURL)) (filter (\<lambda>row. TrimSpace (br_url row) \<noteq> []) ?in), other)"
    unfolding kept by (rule import_rejects) (use head url code_text(1) [OF assms] in auto)
  moreover have "filter (\<lambda>row. TrimSpace (br_url row) \<noteq> []) ?in = ?in"
    unfolding kept using head url code_text(3,4) [OF assms] trim by (auto simp: filter_id_conv)
  moreover have "map (\<lambda>row. (br_url row, ErrInvalidURL)) ?in =
      (''short_code'', ErrInvalidURL) # map (\<lambda>r. (ex_short_code r, ErrInvalidURL)) ?rows"
    unfolding kept using head url by auto
  ultimately show ?thesis
    by (simp add: ImportCSV_def exported_back strip Let_def del: filter.simps list.map)
qed

text \<open>The JSON form fares no better: no member has a name that the import knows, so each row is skipped in silence.\<close>

lemma those_map: "those (map (\<lambda>x. Some (f x)) xs) = Some (map f xs)"
  by (induction xs) auto

lemma import_blank: "(\<And>row. row \<in> set rows \<Longrightarrow> br_url row = []) \<Longrightarrow> importRows draws now' user rows db = (0, [], db)"
  by (induction rows) (auto simp: TrimSpace_def strip_def)

lemma exported_json_skipped:
  assumes "JSON_parse s = JSON_Value (ExportJSON user db clicks)" and "length s \<le> bulkMaxBytes" and "CountByUser user db \<le> bulkMaxRows"
  shows "ImportJSON draws now' user' s other = Inr (0, [], other)"
proof -
  let ?rows = "fetchExportRows user db clicks"
  let ?blank = "\<lambda>r. \<lparr>br_url = [], br_custom_code = [], br_title = ex_title r\<rparr>"
  define obj where "obj r = JObj [(''short_code'', JStr (ex_short_code r)), (''destination_url'', JStr (ex_destination_url r)),
      (''title'', JStr (ex_title r)), (''clicks'', JNum (int (ex_clicks r))),
      (''created_at'', JStr (ex_created_at r)), (''expires_at'', JStr (ex_expires_at r))]" for r :: exportRow
  have "bulk_element (obj r) = Some (?blank r)" for r
    by (simp add: obj_def bulk_element_def decode_body_def bulk_field_def Let_def ToLower_def is_upper_def)
  then have "those (map bulk_element (map obj ?rows)) = Some (map ?blank ?rows)"
    by (simp add: comp_def those_map)
  moreover have "ExportJSON user db clicks = (if ?rows = [] then JNull else JArr (map obj ?rows))"
    by (simp add: ExportJSON_def obj_def [abs_def])
  ultimately have "bulk_rows s = Some (map ?blank ?rows)"
    using assms(1) by (simp add: bulk_rows_def split: if_splits)
  moreover have "importRows draws now' user' (map ?blank ?rows) other = (0, [], other)"
    by (rule import_blank) auto
  ultimately show ?thesis using assms(2,3) by (simp add: ImportJSON_def export_length)
qed

section \<open>A sample\<close>

lemma sample_export:
  "\<exists>u db. CreateURLForUser never_draws 0 7 (plain_request ''http://a.io/'' ''abc'') no_links = Inr (u, db) \<and>
     map ex_short_code (fetchExportRows 7 db []) = [''abc'']"
  by (simp add: link_eval eval_simps fetchExportRows_def)

theorem export_cannot_be_imported_witness:
  "\<exists>u db. CreateURLForUser never_draws 0 7 (plain_request ''http://a.io/'' ''abc'') no_links = Inr (u, db) \<and>
     (case ImportCSV (\<lambda>k. never_draws) 0 7 (ExportCSV 7 db []) db of
        Inl e \<Rightarrow> e = Too_Large \<or> e = Too_Many_Rows
      | Inr (n, errors, after) \<Rightarrow> n = 0 \<and> after = db \<and> map fst errors = [''short_code'', ''abc''])"
proof -
  obtain u db where c: "CreateURLForUser never_draws 0 7 (plain_request ''http://a.io/'' ''abc'') no_links = Inr (u, db)"
    and m: "map ex_short_code (fetchExportRows 7 db []) = [''abc'']"
    using sample_export by (elim exE conjE)
  have r: "reachable_db db" by (rule next_db [OF empty_db create_user_step [OF never_draws_in_range c]])
  have "case ImportCSV (\<lambda>k. never_draws) 0 7 (ExportCSV 7 db []) db of
        Inl e \<Rightarrow> e = Too_Large \<or> e = Too_Many_Rows
      | Inr (n, errors, after) \<Rightarrow> n = 0 \<and> after = db \<and> map fst errors = [''short_code'', ''abc'']"
    using export_cannot_be_imported [OF r, where draws = "\<lambda>k. never_draws" and now' = 0 and user' = 7 and user = 7 and clicks = "[]" and other = db] m
    by (auto split: sum.splits simp: comp_def)
  then show ?thesis using c by blast
qed

theorem import_only_adds_witness:
  "\<exists>n errors db'. importRows (\<lambda>k. never_draws) 0 7
     [\<lparr>br_url = ''http://a.io/'', br_custom_code = ''abc'', br_title = []\<rparr>, \<lparr>br_url = ''a.io'', br_custom_code = [], br_title = []\<rparr>] no_links =
       (n, errors, db') \<and> n + length errors = 2 \<and> length (urls db') = n \<and> reachable_db db'"
proof -
  let ?rows = "[\<lparr>br_url = ''http://a.io/'', br_custom_code = ''abc'', br_title = []\<rparr>, \<lparr>br_url = ''a.io'', br_custom_code = [], br_title = []\<rparr>]"
  obtain n errors db' where r: "importRows (\<lambda>k. never_draws) 0 7 ?rows no_links = (n, errors, db')"
    by (cases "importRows (\<lambda>k. never_draws) 0 7 ?rows no_links")
  have t: "TrimSpace ''http://a.io/'' \<noteq> []" "TrimSpace ''a.io'' \<noteq> []" by (simp_all add: eval_simps)
  show ?thesis
    using import_only_adds [OF empty_db never_draws_in_range r] r t by (auto simp del: importRows.simps)
qed

end
