(* ===== verification/ClusterTokens.thy ===== *)
theory ClusterTokens
  imports Tokens "HOL-Library.AList"
begin

text \<open>
  The tokens with which a node joins a cluster: \<^verbatim>\<open>src/server/service/cluster.go\<close> over the table
  \<open>srv_cluster_join_tokens\<close>. Only the hash of a token is stored; a token is redeemed by a check of its row
  and an update that takes effect only while the row is unused, so that several nodes that present the same
  token at once are told apart. Times are nanoseconds; hash, random bytes and the ids of rows are arguments.
\<close>

record join_row =
  jt_hash :: string
  jt_prefix :: string
  jt_label :: string
  jt_created_by :: string
  jt_created :: int
  jt_expires :: int
  jt_used :: "int option"
  jt_used_by :: string
  jt_lockout :: "int option"

type_synonym join_db = "(string \<times> join_row) list"

datatype join_error =
    Join_Not_Stored
  | Invalid_Join_Token
  | Join_Locked_Out
  | Join_Already_Used
  | Join_Expired
  | Join_Not_Found

definition joinTokenPrefix :: string where
  "joinTokenPrefix = ''node_''"

definition joinTokenTTL :: int where
  "joinTokenTTL = 15 * 60 * 1000000000"

definition joinTokenLockout :: int where
  "joinTokenLockout = 90 * 24 * 3600 * 1000000000"

section \<open>Operations\<close>

text \<open>The INSERT fails when the id or the hash is taken.\<close>

definition GenerateJoinToken ::
    "(string \<Rightarrow> string) \<Rightarrow> nat list \<Rightarrow> string \<Rightarrow> int \<Rightarrow> string \<Rightarrow> string \<Rightarrow> join_db \<Rightarrow> join_error + string \<times> join_db" where
  "GenerateJoinToken hash buf i now' label createdBy db =
     (let plaintext = joinTokenPrefix @ generateTokenRandom buf
      in if list_ex (\<lambda>x. fst x = i \<or> jt_hash (snd x) = hash plaintext) db then Inl Join_Not_Stored
         else Inr (plaintext,
           db @ [(i, \<lparr>jt_hash = hash plaintext, jt_prefix = (if length plaintext > 8 then take 8 plaintext else plaintext),
             jt_label = label, jt_created_by = createdBy, jt_created = now', jt_expires = now' + joinTokenTTL,
             jt_used = None, jt_used_by = [], jt_lockout = None\<rparr>)]))"

text \<open>The checks of the row that was read.\<close>

definition check_join :: "int \<Rightarrow> string \<Rightarrow> join_db \<Rightarrow> join_error option" where
  "check_join now' wantHash db =
     (case List.find (\<lambda>x. jt_hash (snd x) = wantHash) db of
        None \<Rightarrow> Some Invalid_Join_Token
      | Some (i, r) \<Rightarrow>
          if (case jt_lockout r of Some t \<Rightarrow> now' < t | None \<Rightarrow> False) then Some Join_Locked_Out
          else if jt_used r \<noteq> None then Some Join_Already_Used
          else if now' > jt_expires r then Some Join_Expired
          else None)"

text \<open>The UPDATE and the number of rows it affected.\<close>

definition mark_joined :: "int \<Rightarrow> string \<Rightarrow> string \<Rightarrow> join_db \<Rightarrow> nat \<times> join_db" where
  "mark_joined now' usedBy wantHash db =
     (length (filter (\<lambda>x. jt_hash (snd x) = wantHash \<and> jt_used (snd x) = None) db),
      map (\<lambda>(i, r). (i, if jt_hash r = wantHash \<and> jt_used r = None
         then r\<lparr>jt_used := Some now', jt_used_by := usedBy, jt_lockout := Some (now' + joinTokenLockout)\<rparr> else r)) db)"

definition ValidateAndConsume :: "(string \<Rightarrow> string) \<Rightarrow> int \<Rightarrow> string \<Rightarrow> string \<Rightarrow> join_db \<Rightarrow> join_error + join_db" where
  "ValidateAndConsume hash now' plaintext usedBy db =
     (case check_join now' (hash plaintext) db of
        Some e \<Rightarrow> Inl e
      | None \<Rightarrow>
          (case mark_joined now' usedBy (hash plaintext) db of
             (0, _) \<Rightarrow> Inl Join_Already_Used
           | (Suc n, db') \<Rightarrow> Inr db'))"

definition Join_Status :: "int \<Rightarrow> join_row \<Rightarrow> string" where
  "Join_Status now' r = (if jt_used r \<noteq> None then ''used'' else if now' > jt_expires r then ''expired'' else ''pending'')"

text \<open>What is listed shows neither token nor hash.\<close>

definition ListJoinTokens :: "int \<Rightarrow> join_db \<Rightarrow> (string \<times> join_row) list" where
  "ListJoinTokens limit0 db =
     (let limit = (if limit0 \<le> 0 \<or> limit0 > 200 then 50 else limit0)
      in map (\<lambda>(i, r). (i, r\<lparr>jt_hash := []\<rparr>)) (take (nat limit) (sort_key (\<lambda>x. - jt_created (snd x)) db)))"

definition RevokeJoinToken :: "string \<Rightarrow> join_db \<Rightarrow> join_error + join_db" where
  "RevokeJoinToken i db =
     (if list_ex (\<lambda>x. fst x = i \<and> jt_used (snd x) = None) db
      then Inr (filter (\<lambda>x. \<not> (fst x = i \<and> jt_used (snd x) = None)) db)
      else Inl Join_Not_Found)"

section \<open>Nodes that join at the same time\<close>

text \<open>
  The table, the checks that passed and wait for their update by node (with time and hash), and the hashes
  redeemed with the time of the check, latest first.
\<close>

record join_state =
  jn_db :: join_db
  jn_waiting :: "string \<Rightarrow> (int \<times> string) option"
  jn_joined :: "(string \<times> int) list"

inductive join_step :: "(string \<Rightarrow> string) \<Rightarrow> join_state \<Rightarrow> join_state \<Rightarrow> bool" for hash where
  generated: "GenerateJoinToken hash buf i now' label by' (jn_db s) = Inr (t, db') \<Longrightarrow> join_step hash s (s\<lparr>jn_db := db'\<rparr>)"
| presented: "check_join now' (hash t) (jn_db s) = None \<Longrightarrow>
    join_step hash s (s\<lparr>jn_waiting := (jn_waiting s)(node \<mapsto> (now', hash t))\<rparr>)"
| admitted: "jn_waiting s node = Some (now', h) \<Longrightarrow> mark_joined now' node h (jn_db s) = (Suc n, db') \<Longrightarrow>
    join_step hash s (s\<lparr>jn_db := db', jn_waiting := (jn_waiting s)(node := None), jn_joined := (h, now') # jn_joined s\<rparr>)"
| turned_away: "jn_waiting s node = Some (now', h) \<Longrightarrow> mark_joined now' node h (jn_db s) = (0, db') \<Longrightarrow>
    join_step hash s (s\<lparr>jn_waiting := (jn_waiting s)(node := None)\<rparr>)"
| revoked: "RevokeJoinToken i (jn_db s) = Inr db' \<Longrightarrow> join_step hash s (s\<lparr>jn_db := db'\<rparr>)"

inductive_cases join_stepE: "join_step hash s s'"

definition no_nodes :: join_state where
  "no_nodes = \<lparr>jn_db = [], jn_waiting = (\<lambda>_. None), jn_joined = []\<rparr>"

inductive join_reachable :: "(string \<Rightarrow> string) \<Rightarrow> join_state \<Rightarrow> bool" for hash where
  join_start: "join_reachable hash no_nodes"
| join_next: "join_reachable hash s \<Longrightarrow> join_step hash s s' \<Longrightarrow> join_reachable hash s'"

text \<open>What is redeemed stays in the table as used, locked out for the ninety days after its use.\<close>

definition join_inv :: "join_state \<Rightarrow> bool" where
  "join_inv s \<longleftrightarrow> distinct (map (\<lambda>x. jt_hash (snd x)) (jn_db s)) \<and> distinct (map fst (jn_joined s)) \<and>
     (\<forall>(h, t) \<in> set (jn_joined s). \<exists>x \<in> set (jn_db s). jt_hash (snd x) = h \<and> jt_used (snd x) = Some t \<and>
        jt_lockout (snd x) = Some (t + joinTokenLockout))"

lemma mark_joined_Suc:
  assumes "mark_joined now' node h db = (Suc n, db')"
  shows "\<exists>x \<in> set db. jt_hash (snd x) = h \<and> jt_used (snd x) = None"
    and "map (\<lambda>x. jt_hash (snd x)) db' = map (\<lambda>x. jt_hash (snd x)) db"
    and "x \<in> set db \<Longrightarrow> jt_hash (snd x) \<noteq> h \<or> jt_used (snd x) \<noteq> None \<Longrightarrow> x \<in> set db'"
    and "\<exists>x \<in> set db'. jt_hash (snd x) = h \<and> jt_used (snd x) = Some now' \<and> jt_lockout (snd x) = Some (now' + joinTokenLockout)"
proof -
  have ne: "filter (\<lambda>x. jt_hash (snd x) = h \<and> jt_used (snd x) = None) db \<noteq> []" using assms by (auto simp: mark_joined_def)
  then show "\<exists>x \<in> set db. jt_hash (snd x) = h \<and> jt_used (snd x) = None" by (auto simp: filter_empty_conv)
  have db': "db' = map (\<lambda>(i, r). (i, if jt_hash r = h \<and> jt_used r = None
         then r\<lparr>jt_used := Some now', jt_used_by := node, jt_lockout := Some (now' + joinTokenLockout)\<rparr> else r)) db"
    using assms by (simp add: mark_joined_def)
  show "map (\<lambda>x. jt_hash (snd x)) db' = map (\<lambda>x. jt_hash (snd x)) db" unfolding db' by auto
  show "x \<in> set db'" if "x \<in> set db" "jt_hash (snd x) \<noteq> h \<or> jt_used (snd x) \<noteq> None"
  proof -
    obtain j r where x: "x = (j, r)" by fastforce
    show ?thesis using that unfolding db' x by force
  qed
  show "\<exists>x \<in> set db'. jt_hash (snd x) = h \<and> jt_used (snd x) = Some now' \<and> jt_lockout (snd x) = Some (now' + joinTokenLockout)"
    using ne unfolding db' by (force simp: filter_empty_conv)
qed

lemma join_inv_step:
  assumes "join_step hash s s'" and "join_inv s"
  shows "join_inv s'"
  using assms(1)
proof cases
  case (generated buf i now' label by' t db')
  then obtain row where "db' = jn_db s @ [(i, row)]" "\<forall>x \<in> set (jn_db s). jt_hash (snd x) \<noteq> jt_hash row"
    by (auto simp: GenerateJoinToken_def Let_def list_ex_iff split: if_splits)
  then show ?thesis using assms(2) generated(1) by (fastforce simp: join_inv_def)
next
  case (admitted node now' h n db')
  note m = mark_joined_Suc [OF admitted(3)]
  have unused: "jt_used (snd x) = None" if "x \<in> set (jn_db s)" "jt_hash (snd x) = h" for x
    using m(1) that assms(2) unfolding join_inv_def distinct_map inj_on_def by metis
  have "h \<notin> fst ` set (jn_joined s)" using assms(2) unused unfolding join_inv_def by fastforce
  moreover have "\<exists>x \<in> set db'. jt_hash (snd x) = k \<and> jt_used (snd x) = Some t \<and> jt_lockout (snd x) = Some (t + joinTokenLockout)"
    if "(k, t) \<in> set (jn_joined s)" for k t
    using that assms(2) m(3) unfolding join_inv_def by fastforce
  ultimately show ?thesis using assms(2) m(2,4) admitted(1) unfolding join_inv_def by auto
next
  case (revoked i db')
  then have "db' = filter (\<lambda>x. \<not> (fst x = i \<and> jt_used (snd x) = None)) (jn_db s)"
    by (auto simp: RevokeJoinToken_def split: if_splits)
  then show ?thesis using assms(2) revoked(1) unfolding join_inv_def by (fastforce simp: distinct_map_filter)
qed (use assms(2) in \<open>simp_all add: join_inv_def\<close>)

lemma join_reachable_inv: "join_reachable hash s \<Longrightarrow> join_inv s"
  by (induction rule: join_reachable.induct) (simp add: join_inv_def no_nodes_def, rule join_inv_step)

text \<open>
  However nodes interleave, no two of them join with the same token; and a token that was redeemed stays in
  the table as used, so that it is refused from then on, at any time.
\<close>

theorem token_joins_once:
  assumes "join_reachable hash s"
  shows "distinct (map fst (jn_joined s)) \<and>
    (\<forall>(h, t) \<in> set (jn_joined s). \<forall>now' plaintext node. hash plaintext = h \<longrightarrow>
       ValidateAndConsume hash now' plaintext node (jn_db s) = Inl (if now' < t + joinTokenLockout then Join_Locked_Out else Join_Already_Used))"
proof -
  have inv: "join_inv s" by (rule join_reachable_inv [OF assms])
  have "ValidateAndConsume hash now' plaintext node (jn_db s) = Inl (if now' < t + joinTokenLockout then Join_Locked_Out else Join_Already_Used)"
    if j: "(h, t) \<in> set (jn_joined s)" "hash plaintext = h" for h t now' plaintext node
  proof -
    obtain x where x: "x \<in> set (jn_db s)" "jt_hash (snd x) = h" "jt_used (snd x) = Some t" "jt_lockout (snd x) = Some (t + joinTokenLockout)"
      using inv j(1) unfolding join_inv_def by fastforce
    have "List.find (\<lambda>x. jt_hash (snd x) = h) (jn_db s) = Some x"
    proof (cases "List.find (\<lambda>x. jt_hash (snd x) = h) (jn_db s)")
      case None
      then have "\<not> jt_hash (snd x) = h" using x(1) unfolding find_None_iff by blast
      then show ?thesis using x(2) by blast
    next
      case (Some y)
      then have "y \<in> set (jn_db s)" "jt_hash (snd y) = h" by (auto simp: find_Some_iff)
      then show ?thesis using Some x(1,2) inv unfolding join_inv_def distinct_map inj_on_def by metis
    qed
    then show ?thesis using x j(2) by (cases x) (simp add: ValidateAndConsume_def check_join_def)
  qed
  then show ?thesis using inv unfolding join_inv_def by auto
qed

text \<open>A fresh token admits the node that presents it within fifteen minutes, and nobody afterwards.\<close>

lemma fresh_token_joins:
  assumes "GenerateJoinToken hash buf i t0 label by' db = Inr (t, db')" and "t0 \<le> now'"
  shows "(\<exists>db''. ValidateAndConsume hash now' t node db' = Inr db'') \<longleftrightarrow> now' \<le> t0 + joinTokenTTL"
proof -
  obtain row where r: "db' = db @ [(i, row)]" "\<forall>x \<in> set db. jt_hash (snd x) \<noteq> hash t" "jt_hash row = hash t" "jt_used row = None"
      "jt_lockout row = None" "jt_expires row = t0 + joinTokenTTL"
    using assms(1) by (auto simp: GenerateJoinToken_def Let_def list_ex_iff split: if_splits)
  have "List.find (\<lambda>x. jt_hash (snd x) = hash t) (xs @ [(i, row)]) = Some (i, row)" if "\<forall>x \<in> set xs. jt_hash (snd x) \<noteq> hash t" for xs
    using that r(3) by (induction xs) auto
  then have "List.find (\<lambda>x. jt_hash (snd x) = hash t) db' = Some (i, row)" using r(1,2) by simp
  moreover have "fst (mark_joined now' node (hash t) db') \<noteq> 0" using r by (simp add: mark_joined_def)
  ultimately show ?thesis
    using r by (auto simp: ValidateAndConsume_def check_join_def split: prod.splits nat.splits)
qed

lemma sample_join:
  "\<exists>s. join_reachable (\<lambda>t. t) s \<and> map fst (jn_joined s) = [''node_'']"
proof -
  let ?row = "\<lparr>jt_hash = ''node_'', jt_prefix = ''node_'', jt_label = [], jt_created_by = [], jt_created = 0, jt_expires = joinTokenTTL,
    jt_used = None, jt_used_by = [], jt_lockout = None\<rparr>"
  let ?s1 = "no_nodes\<lparr>jn_db := [(''a'', ?row)]\<rparr>"
  let ?s2 = "?s1\<lparr>jn_waiting := (jn_waiting ?s1)(''n'' \<mapsto> (5, ''node_''))\<rparr>"
  have g: "GenerateJoinToken (\<lambda>t. t) [] ''a'' 0 [] [] (jn_db no_nodes) = Inr (''node_'', [(''a'', ?row)])"
    by (simp add: GenerateJoinToken_def no_nodes_def joinTokenPrefix_def generateTokenRandom_def Let_def)
  have r1: "join_reachable (\<lambda>t. t) ?s1" by (rule join_next [OF join_start generated [OF g]])
  have c: "check_join 5 ''node_'' (jn_db ?s1) = None" by (simp add: check_join_def joinTokenTTL_def)
  have r2: "join_reachable (\<lambda>t. t) ?s2" by (rule join_next [OF r1 presented [where hash = "\<lambda>t. t" and t = "''node_''" and node = "''n''", OF c]])
  obtain n db' where m: "mark_joined 5 ''n'' ''node_'' (jn_db ?s2) = (Suc n, db')" by (simp add: mark_joined_def)
  have w: "jn_waiting ?s2 ''n'' = Some (5, ''node_'')" by simp
  define s3 where "s3 = ?s2\<lparr>jn_db := db', jn_waiting := (jn_waiting ?s2)(''n'' := None), jn_joined := (''node_'', 5) # jn_joined ?s2\<rparr>"
  have 1: "join_reachable (\<lambda>t. t) s3" unfolding s3_def by (rule join_next [OF r2 admitted [OF w m]])
  have 2: "map fst (jn_joined s3) = [''node_'']" by (simp add: s3_def no_nodes_def)
  show ?thesis by (rule exI [of _ s3], rule conjI, rule 1, rule 2)
qed

theorem token_joins_once_witness: "\<exists>s. join_reachable (\<lambda>t. t) s \<and> map fst (jn_joined s) = [''node_''] \<and> distinct (map fst (jn_joined s))"
proof -
  obtain s where s: "join_reachable (\<lambda>t. t) s" "map fst (jn_joined s) = [''node_'']" using sample_join by (elim exE conjE)
  have d: "distinct (map fst (jn_joined s))" by (rule conjunct1 [OF token_joins_once [OF s(1)]])
  show ?thesis by (rule exI [of _ s], intro conjI) (rule s d)+
qed

end
