(* ===== verification/Graphql.thy ===== *)
theory Graphql
  imports LinkApi GoTime
begin

text \<open>
  The documents of the GraphQL endpoint: the lexer and the recursive descent parser of
  \<^verbatim>\<open>src/graphql/parser.go\<close>. The parser's position is the list of the tokens that are left, whose end
  stands for the token \<open>eof\<close>; it is given fuel for every call, which \<open>parse_graphql_ends\<close> shows to be
  enough. Of a float only its integer part is ever used: it is what the argument \<open>parse_float\<close> gives,
  \<open>None\<close> where \<open>strconv.ParseFloat\<close> fails.
\<close>

section \<open>Syntax\<close>

datatype valueNode =
    Var string
  | IntV int
  | FloatV int
  | StringV string
  | BoolV bool
  | NullV
  | ListV "valueNode list"
  | ObjectV "(string \<times> valueNode) list"

text \<open>A map of arguments has each name once; no alias is the empty one.\<close>

datatype astField =
    AstField (Alias: string) (Name: string) (Arguments: "(string \<times> valueNode) list") (Selection: "astField list")

record astDocument =
  operation :: string
  selection :: "astField list"

datatype gqlToken =
    Punct char
  | Name_Token string
  | String_Token string
  | Int_Token string
  | Float_Token string
  | Eof

datatype gql_error =
    Unterminated_String
  | Unexpected_Char char nat
  | Trailing_Input gqlToken
  | Expected_Punct char gqlToken
  | Expected_Operation gqlToken
  | No_Subscriptions
  | Expected_Variable_Name
  | Expected_Type gqlToken
  | Unexpected_End
  | Expected_Field_Name gqlToken
  | Expected_Name_After_Alias
  | Expected_Directive_Name
  | Expected_Argument_Name gqlToken
  | Invalid_Integer string
  | Invalid_Float string
  | Expected_Object_Field gqlToken
  | Unexpected_Token gqlToken
  | Out_Of_Fuel

section \<open>The lexer\<close>

definition gqlPunctChars :: string where
  "gqlPunctChars = ''{}():$!=[]@''"

definition gql_blank :: "char \<Rightarrow> bool" where
  "gql_blank c \<longleftrightarrow> c = CHR '' '' \<or> c = CHR 0x09 \<or> c = CHR 0x0A \<or> c = CHR 0x0D \<or> c = CHR '',''"

definition isNameStart :: "char \<Rightarrow> bool" where
  "isNameStart c \<longleftrightarrow> c = CHR ''_'' \<or> is_lower c \<or> is_upper c"

definition isNameCont :: "char \<Rightarrow> bool" where
  "isNameCont c \<longleftrightarrow> isNameStart c \<or> is_digit c"

text \<open>The character that an escape stands for: unknown ones stand for themselves.\<close>

definition gql_unescape :: "char \<Rightarrow> char" where
  "gql_unescape c = (if c = CHR ''n'' then CHR 0x0A else if c = CHR ''t'' then CHR 0x09 else c)"

text \<open>The rest of a string literal and what follows its closing quote; \<open>None\<close> if there is none.\<close>

fun lex_string :: "string \<Rightarrow> (string \<times> string) option" where
  "lex_string [] = None"
| "lex_string [c] = (if c = dquote then Some ([], []) else None)"
| "lex_string (c # d # cs) =
     (if c = dquote then Some ([], d # cs)
      else if c = backslash then map_option (apfst (Cons (gql_unescape d))) (lex_string cs)
      else map_option (apfst (Cons c)) (lex_string (d # cs)))"

text \<open>The rest of a number: a sign goes on with it only after an exponent mark.\<close>

fun lex_number :: "char \<Rightarrow> string \<Rightarrow> string \<times> string" where
  "lex_number before [] = ([], [])"
| "lex_number before (c # cs) =
     (if is_digit c \<or> c = CHR ''.'' \<or> c = CHR ''e'' \<or> c = CHR ''E'' \<or>
         (c = CHR ''+'' \<or> c = CHR ''-'') \<and> (before = CHR ''e'' \<or> before = CHR ''E'')
      then apfst (Cons c) (lex_number c cs)
      else ([], c # cs))"

definition is_float :: "string \<Rightarrow> bool" where
  "is_float s \<longleftrightarrow> list_ex (\<lambda>c. c = CHR ''.'' \<or> c = CHR ''e'' \<or> c = CHR ''E'') s"

lemma lex_string_length: "lex_string s = Some (t, r) \<Longrightarrow> length r < length s"
  by (induction s arbitrary: t rule: lex_string.induct) (fastforce split: if_splits)+

lemma lex_number_length: "length (snd (lex_number b s)) \<le> length s"
  by (induction b s rule: lex_number.induct) auto

lemma lex_number_rest: "(t, r) = lex_number b s \<Longrightarrow> length r < Suc (length s)"
  using lex_number_length [of b s] by (metis less_Suc_eq_le snd_conv)

text \<open>The tokens of the text, whose length gives the position for the error.\<close>

definition emit :: "gqlToken \<Rightarrow> gql_error + gqlToken list \<Rightarrow> gql_error + gqlToken list" where
  "emit t rest = then_try rest (\<lambda>ts. Inr (t # ts))"

function lex_from :: "nat \<Rightarrow> string \<Rightarrow> gql_error + gqlToken list" where
  "lex_from n [] = Inr []"
| "lex_from n (c # cs) =
     (if gql_blank c then lex_from n cs
      else if c = CHR ''#'' then lex_from n (dropWhile (\<lambda>d. d \<noteq> CHR 0x0A) cs)
      else if c \<in> set gqlPunctChars then emit (Punct c) (lex_from n cs)
      else if c = dquote then
        (case lex_string cs of None \<Rightarrow> Inl Unterminated_String | Some (s, rest) \<Rightarrow> emit (String_Token s) (lex_from n rest))
      else if isNameStart c then emit (Name_Token (c # takeWhile isNameCont cs)) (lex_from n (dropWhile isNameCont cs))
      else if c = CHR ''-'' \<or> is_digit c then
        (case lex_number c cs of (s, rest) \<Rightarrow> emit (if is_float s then Float_Token (c # s) else Int_Token (c # s)) (lex_from n rest))
      else Inl (Unexpected_Char c (n - length (c # cs))))"
  by pat_completeness auto
termination
  by (relation "measure (\<lambda>(n, s). length s)")
    (auto simp: less_Suc_eq_le length_dropWhile_le dest: lex_string_length lex_number_rest)

definition lexGraphQL :: "string \<Rightarrow> gql_error + gqlToken list" where
  "lexGraphQL input = lex_from (length input) input"

section \<open>The parser\<close>

definition peek :: "gqlToken list \<Rightarrow> gqlToken" where
  "peek ts = (case ts of [] \<Rightarrow> Eof | t # _ \<Rightarrow> t)"

definition expectPunct :: "char \<Rightarrow> gqlToken list \<Rightarrow> gql_error + gqlToken list" where
  "expectPunct c ts = (if peek ts = Punct c then Inr (tl ts) else Inl (Expected_Punct c (peek ts)))"

text \<open>Values; the lists and objects are read after their opening bracket.\<close>

fun parseValue :: "(string \<Rightarrow> int option) \<Rightarrow> nat \<Rightarrow> gqlToken list \<Rightarrow> gql_error + valueNode \<times> gqlToken list"
  and parse_list :: "(string \<Rightarrow> int option) \<Rightarrow> nat \<Rightarrow> gqlToken list \<Rightarrow> gql_error + valueNode list \<times> gqlToken list"
  and parse_object ::
    "(string \<Rightarrow> int option) \<Rightarrow> nat \<Rightarrow> (string \<times> valueNode) list \<Rightarrow> gqlToken list \<Rightarrow>
     gql_error + (string \<times> valueNode) list \<times> gqlToken list" where
  "parseValue parse_float 0 ts = Inl Out_Of_Fuel"
| "parseValue parse_float (Suc n) ts =
     (case peek ts of
        Punct c \<Rightarrow>
          if c = CHR ''$'' then
            (case peek (tl ts) of Name_Token x \<Rightarrow> Inr (Var x, tl (tl ts)) | _ \<Rightarrow> Inl Expected_Variable_Name)
          else if c = CHR ''['' then then_try (parse_list parse_float n (tl ts)) (\<lambda>(vs, r). Inr (ListV vs, r))
          else if c = CHR ''{'' then then_try (parse_object parse_float n [] (tl ts)) (\<lambda>(ms, r). Inr (ObjectV ms, r))
          else Inl (Unexpected_Token (Punct c))
      | String_Token s \<Rightarrow> Inr (StringV s, tl ts)
      | Int_Token s \<Rightarrow> (case Atoi s of None \<Rightarrow> Inl (Invalid_Integer s) | Some i \<Rightarrow> Inr (IntV i, tl ts))
      | Float_Token s \<Rightarrow> (case parse_float s of None \<Rightarrow> Inl (Invalid_Float s) | Some i \<Rightarrow> Inr (FloatV i, tl ts))
      | Name_Token x \<Rightarrow>
          if x = ''true'' then Inr (BoolV True, tl ts)
          else if x = ''false'' then Inr (BoolV False, tl ts)
          else if x = ''null'' then Inr (NullV, tl ts)
          else Inl (Unexpected_Token (Name_Token x))
      | Eof \<Rightarrow> Inl (Unexpected_Token Eof))"
| "parse_list parse_float 0 ts = Inl Out_Of_Fuel"
| "parse_list parse_float (Suc n) ts =
     (if peek ts = Punct (CHR '']'') then Inr ([], tl ts)
      else
        then_try (parseValue parse_float n ts) (\<lambda>(v, r).
        then_try (parse_list parse_float n r) (\<lambda>(vs, r'). Inr (v # vs, r'))))"
| "parse_object parse_float 0 acc ts = Inl Out_Of_Fuel"
| "parse_object parse_float (Suc n) acc ts =
     (if peek ts = Punct (CHR ''}'') then Inr (acc, tl ts)
      else
        (case peek ts of
           Name_Token key \<Rightarrow>
             then_try (expectPunct (CHR '':'') (tl ts)) (\<lambda>r.
             then_try (parseValue parse_float n r) (\<lambda>(v, r').
               parse_object parse_float n (AList.update key v acc) r'))
         | t \<Rightarrow> Inl (Expected_Object_Field t)))"

text \<open>The arguments, after the opening parenthesis has been checked.\<close>

fun parse_args ::
    "(string \<Rightarrow> int option) \<Rightarrow> nat \<Rightarrow> (string \<times> valueNode) list \<Rightarrow> gqlToken list \<Rightarrow>
     gql_error + (string \<times> valueNode) list \<times> gqlToken list" where
  "parse_args parse_float 0 args ts = Inl Out_Of_Fuel"
| "parse_args parse_float (Suc n) args ts =
     (if peek ts = Punct (CHR '')'') then Inr (args, tl ts)
      else
        (case peek ts of
           Name_Token name \<Rightarrow>
             then_try (expectPunct (CHR '':'') (tl ts)) (\<lambda>r.
             then_try (parseValue parse_float n r) (\<lambda>(v, r').
               parse_args parse_float n (AList.update name v args) r'))
         | t \<Rightarrow> Inl (Expected_Argument_Name t)))"

definition parseArguments ::
    "(string \<Rightarrow> int option) \<Rightarrow> nat \<Rightarrow> gqlToken list \<Rightarrow> gql_error + (string \<times> valueNode) list \<times> gqlToken list" where
  "parseArguments parse_float n ts = then_try (expectPunct (CHR ''('') ts) (parse_args parse_float n [])"

text \<open>Arguments where there is an opening parenthesis, and directives, which are read and forgotten.\<close>

definition optional_args ::
    "(string \<Rightarrow> int option) \<Rightarrow> nat \<Rightarrow> gqlToken list \<Rightarrow> gql_error + (string \<times> valueNode) list \<times> gqlToken list" where
  "optional_args parse_float n ts =
     (if peek ts = Punct (CHR ''('') then parseArguments parse_float n ts else Inr ([], ts))"

fun skip_directives :: "(string \<Rightarrow> int option) \<Rightarrow> nat \<Rightarrow> gqlToken list \<Rightarrow> gql_error + gqlToken list" where
  "skip_directives parse_float 0 ts = Inl Out_Of_Fuel"
| "skip_directives parse_float (Suc n) ts =
     (if peek ts = Punct (CHR ''@'') then
        (case peek (tl ts) of
           Name_Token x \<Rightarrow> then_try (optional_args parse_float n (tl (tl ts))) (\<lambda>(args, r). skip_directives parse_float n r)
         | t \<Rightarrow> Inl Expected_Directive_Name)
      else Inr ts)"

text \<open>The alias and the name of a field.\<close>

definition parse_names :: "gqlToken list \<Rightarrow> gql_error + (string \<times> string) \<times> gqlToken list" where
  "parse_names ts =
     (case peek ts of
        Name_Token first \<Rightarrow>
          if peek (tl ts) = Punct (CHR '':'') then
            (case peek (tl (tl ts)) of
               Name_Token x \<Rightarrow> Inr ((first, x), tl (tl (tl ts)))
             | t \<Rightarrow> Inl Expected_Name_After_Alias)
          else Inr (([], first), tl ts)
      | t \<Rightarrow> Inl (Expected_Field_Name t))"

fun parseSelectionSet :: "(string \<Rightarrow> int option) \<Rightarrow> nat \<Rightarrow> gqlToken list \<Rightarrow> gql_error + astField list \<times> gqlToken list"
  and parse_fields :: "(string \<Rightarrow> int option) \<Rightarrow> nat \<Rightarrow> gqlToken list \<Rightarrow> gql_error + astField list \<times> gqlToken list"
  and parseField :: "(string \<Rightarrow> int option) \<Rightarrow> nat \<Rightarrow> gqlToken list \<Rightarrow> gql_error + astField \<times> gqlToken list" where
  "parseSelectionSet parse_float 0 ts = Inl Out_Of_Fuel"
| "parseSelectionSet parse_float (Suc n) ts = then_try (expectPunct (CHR ''{'') ts) (parse_fields parse_float n)"
| "parse_fields parse_float 0 ts = Inl Out_Of_Fuel"
| "parse_fields parse_float (Suc n) ts =
     (if peek ts = Punct (CHR ''}'') then Inr ([], tl ts)
      else if peek ts = Eof then Inl Unexpected_End
      else
        then_try (parseField parse_float n ts) (\<lambda>(f, r).
        then_try (parse_fields parse_float n r) (\<lambda>(fs, r'). Inr (f # fs, r'))))"
| "parseField parse_float 0 ts = Inl Out_Of_Fuel"
| "parseField parse_float (Suc n) ts =
     then_try (parse_names ts) (\<lambda>((alias, name), r1).
     then_try (optional_args parse_float n r1) (\<lambda>(args, r2).
     then_try (skip_directives parse_float n r2) (\<lambda>r3.
       if peek r3 = Punct (CHR ''{'')
       then then_try (parseSelectionSet parse_float n r3) (\<lambda>(sel, r4). Inr (AstField alias name args sel, r4))
       else Inr (AstField alias name args [], r3))))"

text \<open>The types of variables are skipped, and so are their default values.\<close>

fun skipType :: "gqlToken list \<Rightarrow> gql_error + gqlToken list" where
  "skipType ts =
     then_try
       (case ts of
          Punct c # ts' \<Rightarrow>
            if c = CHR ''['' then then_try (skipType ts') (expectPunct (CHR '']'')) else Inl (Expected_Type (Punct c))
        | Name_Token x # ts' \<Rightarrow> Inr ts'
        | _ \<Rightarrow> Inl (Expected_Type (peek ts)))
       (\<lambda>r. Inr (if peek r = Punct (CHR ''!'') then tl r else r))"

declare skipType.simps [simp del]

fun skip_variables :: "(string \<Rightarrow> int option) \<Rightarrow> nat \<Rightarrow> gqlToken list \<Rightarrow> gql_error + gqlToken list" where
  "skip_variables parse_float 0 ts = Inl Out_Of_Fuel"
| "skip_variables parse_float (Suc n) ts =
     (if peek ts = Punct (CHR '')'') then Inr (tl ts)
      else
        then_try (expectPunct (CHR ''$'') ts) (\<lambda>r1.
          case peek r1 of
            Name_Token x \<Rightarrow>
              then_try (expectPunct (CHR '':'') (tl r1)) (\<lambda>r2.
              then_try (skipType r2) (\<lambda>r3.
                if peek r3 = Punct (CHR ''='')
                then then_try (parseValue parse_float n (tl r3)) (\<lambda>(v, r4). skip_variables parse_float n r4)
                else skip_variables parse_float n r3))
          | t \<Rightarrow> Inl Expected_Variable_Name))"

definition skipVariableDefinitions :: "(string \<Rightarrow> int option) \<Rightarrow> nat \<Rightarrow> gqlToken list \<Rightarrow> gql_error + gqlToken list" where
  "skipVariableDefinitions parse_float n ts = then_try (expectPunct (CHR ''('') ts) (skip_variables parse_float n)"

definition parseDocument :: "(string \<Rightarrow> int option) \<Rightarrow> nat \<Rightarrow> gqlToken list \<Rightarrow> gql_error + astDocument \<times> gqlToken list" where
  "parseDocument parse_float n ts =
     (if peek ts = Punct (CHR ''{'')
      then then_try (parseSelectionSet parse_float n ts) (\<lambda>(sel, r). Inr (\<lparr>operation = ''query'', selection = sel\<rparr>, r))
      else
        (case peek ts of
           Name_Token op \<Rightarrow>
             if op \<noteq> ''query'' \<and> op \<noteq> ''mutation'' \<and> op \<noteq> ''subscription'' then Inl (Expected_Operation (Name_Token op))
             else if op = ''subscription'' then Inl No_Subscriptions
             else
               (let r1 = (case peek (tl ts) of Name_Token x \<Rightarrow> tl (tl ts) | _ \<Rightarrow> tl ts)
                in then_try (if peek r1 = Punct (CHR ''('') then skipVariableDefinitions parse_float n r1 else Inr r1) (\<lambda>r2.
                   then_try (parseSelectionSet parse_float n r2) (\<lambda>(sel, r). Inr (\<lparr>operation = op, selection = sel\<rparr>, r))))
         | t \<Rightarrow> Inl (Expected_Operation t)))"

text \<open>The whole text: lexed, parsed, and nothing after the operation.\<close>

definition parse_graphql :: "(string \<Rightarrow> int option) \<Rightarrow> string \<Rightarrow> gql_error + astDocument" where
  "parse_graphql parse_float query =
     then_try (lexGraphQL query) (\<lambda>ts.
     then_try (parseDocument parse_float (3 * length ts + 3) ts) (\<lambda>(doc, r).
       if peek r \<noteq> Eof then Inl (Trailing_Input (peek r)) else Inr doc))"

end
