(* ===== verification/GraphqlText.thy ===== *)
theory GraphqlText
  imports Graphql
begin

text \<open>
  What the parser of \<^theory_text>\<open>Graphql\<close> does with a text: it always comes to an end, and it reads every document that is
  written out back as it was.
\<close>

section \<open>Parsing consumes tokens, and the fuel is enough\<close>

lemma then_try_Inl: "then_try r f = Inl e \<longleftrightarrow> r = Inl e \<or> (\<exists>x. r = Inr x \<and> f x = Inl e)"
  by (auto simp: then_try_def split: sum.splits)

lemma peek_Cons: "peek ts = t \<Longrightarrow> t \<noteq> Eof \<Longrightarrow> ts = t # tl ts"
  by (cases ts) (auto simp: peek_def)

lemma peek_simps [simp]: "peek [] = Eof" "peek (t # ts) = t"
  by (simp_all add: peek_def)

lemma tl_shrinks: "peek ts \<noteq> Eof \<Longrightarrow> length (tl ts) < length ts"
  by (cases ts) auto

lemma expectPunct_Inr: "expectPunct c ts = Inr r \<longleftrightarrow> ts = Punct c # r"
  by (cases ts) (auto simp: expectPunct_def)

lemma expectPunct_no_fuel [simp]: "expectPunct c ts \<noteq> Inl Out_Of_Fuel"
  by (simp add: expectPunct_def)

lemma value_shrinks:
  "parseValue pf n ts = Inr (v, r) \<Longrightarrow> length r < length ts"
  "parse_list pf n ts = Inr (vs, r) \<Longrightarrow> length r < length ts"
  "parse_object pf n acc ts = Inr (ms, r) \<Longrightarrow> length r < length ts"
proof (induction pf n ts and pf n ts and pf n acc ts arbitrary: v r and vs r and ms r
    rule: parseValue_parse_list_parse_object.induct)
  case (2 pf n ts)
  show ?case
  proof (cases ts)
    case (Cons t us)
    then show ?thesis
      using "2.prems" "2.IH"
      by (cases us) (fastforce simp: then_try_Inr split: gqlToken.splits if_splits option.splits)+
  qed (use "2.prems" in simp)
next
  case (4 pf n ts)
  then show ?case
    by (cases ts) (fastforce simp: then_try_Inr split: if_splits)+
next
  case (6 pf n acc ts)
  then show ?case
    by (cases ts) (fastforce simp: then_try_Inr expectPunct_Inr split: if_splits gqlToken.splits)+
qed simp_all

lemma args_shrink: "parse_args pf n args ts = Inr (as, r) \<Longrightarrow> length r < length ts"
proof (induction pf n args ts arbitrary: as r rule: parse_args.induct)
  case (2 pf n args ts)
  then show ?case
    by (cases ts) (fastforce simp: then_try_Inr expectPunct_Inr split: if_splits gqlToken.splits dest: value_shrinks(1))+
qed simp


lemma optional_args_le: "optional_args pf n ts = Inr (as, r) \<Longrightarrow> length r \<le> length ts"
  by (auto simp: optional_args_def parseArguments_def then_try_Inr expectPunct_Inr split: if_splits dest!: args_shrink)

lemma directives_le: "skip_directives pf n ts = Inr r \<Longrightarrow> length r \<le> length ts"
proof (induction pf n ts arbitrary: r rule: skip_directives.induct)
  case (2 pf n ts)
  show ?case
  proof (cases "peek ts = Punct (CHR ''@'')")
    case True
    then obtain us where ts: "ts = Punct (CHR ''@'') # us" using peek_Cons by blast
    then show ?thesis
      using "2.prems" "2.IH" by (cases us) (fastforce simp: then_try_Inr split: gqlToken.splits dest: optional_args_le)+
  qed (use "2.prems" in simp)
qed simp

lemma names_shrink: "parse_names ts = Inr (x, r) \<Longrightarrow> length r < length ts"
  by (cases ts; cases "tl ts"; cases "tl (tl ts)") (auto simp: parse_names_def split: gqlToken.splits if_splits)

lemma selection_shrinks:
  "parseSelectionSet pf n ts = Inr (fs, r) \<Longrightarrow> length r < length ts"
  "parse_fields pf n ts = Inr (gs, r) \<Longrightarrow> length r < length ts"
  "parseField pf n ts = Inr (f, r) \<Longrightarrow> length r < length ts"
proof (induction pf n ts and pf n ts and pf n ts arbitrary: fs r and gs r and f r
    rule: parseSelectionSet_parse_fields_parseField.induct)
  case (2 pf n ts)
  then show ?case by (fastforce simp: then_try_Inr expectPunct_Inr intro: less_SucI)
next
  case (4 pf n ts)
  then show ?case by (cases ts) (fastforce simp: then_try_Inr split: if_splits)+
next
  case (6 pf n ts)
  obtain a name args r1 r2 r3 where p: "parse_names ts = Inr ((a, name), r1)" "optional_args pf n r1 = Inr (args, r2)"
      "skip_directives pf n r2 = Inr r3"
    and q: "(if peek r3 = Punct (CHR ''{'')
       then then_try (parseSelectionSet pf n r3) (\<lambda>(sel, r4). Inr (AstField a name args sel, r4))
       else Inr (AstField a name args [], r3)) = Inr (f, r)"
    using "6.prems" by (auto simp: then_try_Inr)
  have "length r \<le> length r3"
  proof (cases "peek r3 = Punct (CHR ''{'')")
    case True
    then show ?thesis using q "6.IH" by (fastforce simp: then_try_Inr)
  qed (use q in simp)
  then show ?case using names_shrink [OF p(1)] optional_args_le [OF p(2)] directives_le [OF p(3)] by simp
qed simp_all

lemma skipType_Cons:
  "skipType [] = Inl (Expected_Type Eof)"
  "skipType (Punct c # ts) =
     (if c = CHR ''['' then then_try (then_try (skipType ts) (expectPunct (CHR '']''))) (\<lambda>r. Inr (if peek r = Punct (CHR ''!'') then tl r else r))
      else Inl (Expected_Type (Punct c)))"
  "skipType (Name_Token x # ts) = Inr (if peek ts = Punct (CHR ''!'') then tl ts else ts)"
  "t \<noteq> Punct c \<Longrightarrow> (\<And>x. t \<noteq> Name_Token x) \<Longrightarrow> (\<And>c. t \<noteq> Punct c) \<Longrightarrow> skipType (t # ts) = Inl (Expected_Type t)"
  by (simp_all add: skipType.simps [of "_ # _"] skipType.simps [of "[]"] then_try_def split: gqlToken.splits)

lemma skipType_shrinks: "skipType ts = Inr r \<Longrightarrow> length r < length ts"
proof (induction ts arbitrary: r)
  case (Cons t us)
  show ?case
  proof (cases t)
    case (Punct c)
    then obtain q where q: "skipType us = Inr (Punct (CHR '']'') # q)" "r = q \<or> r = tl q"
      using Cons.prems by (auto simp: skipType_Cons then_try_Inr expectPunct_Inr split: if_splits)
    show ?thesis using Cons.IH [OF q(1)] q(2) by auto
  qed (use Cons.prems in \<open>auto simp: skipType_Cons less_Suc_eq_le split: if_splits\<close>)
qed (simp add: skipType_Cons)

lemma variables_shrink: "skip_variables pf n ts = Inr r \<Longrightarrow> length r < length ts"
proof (induction n arbitrary: ts r)
  case (Suc n)
  note IH = Suc.IH
  show ?case
  proof (cases "peek ts = Punct (CHR '')'')")
    case True
    then show ?thesis using Suc.prems tl_shrinks [of ts] by simp
  next
    case False
    then obtain r1 where r1: "ts = Punct (CHR ''$'') # r1" using Suc.prems by (auto simp: then_try_Inr expectPunct_Inr)
    obtain x r2 r3 where r2: "r1 = Name_Token x # Punct (CHR '':'') # r2" and r3: "skipType r2 = Inr r3"
      and k: "(if peek r3 = Punct (CHR ''='') then then_try (parseValue pf n (tl r3)) (\<lambda>(v, r4). skip_variables pf n r4)
        else skip_variables pf n r3) = Inr r"
      using Suc.prems False r1 by (cases r1) (auto simp: then_try_Inr expectPunct_Inr split: gqlToken.splits)
    have l3: "length r3 < length r2" by (rule skipType_shrinks [OF r3])
    have "length r < length r3"
    proof (cases "peek r3 = Punct (CHR ''='')")
      case True
      then obtain v r4 where v: "parseValue pf n (tl r3) = Inr (v, r4)" "skip_variables pf n r4 = Inr r"
        using k by (auto simp: then_try_Inr)
      then show ?thesis using IH [OF v(2)] value_shrinks(1) [OF v(1)] by simp
    qed (use k IH in simp)
    then show ?thesis using l3 r1 r2 by simp
  qed
qed simp

text \<open>The fuel is enough.\<close>

lemma value_fuel:
  "3 * length ts + 1 \<le> n \<Longrightarrow> parseValue pf n ts \<noteq> Inl Out_Of_Fuel"
  "3 * length ts + 2 \<le> n \<Longrightarrow> parse_list pf n ts \<noteq> Inl Out_Of_Fuel"
  "3 * length ts + 2 \<le> n \<Longrightarrow> parse_object pf n acc ts \<noteq> Inl Out_Of_Fuel"
proof (induction pf n ts and pf n ts and pf n acc ts rule: parseValue_parse_list_parse_object.induct)
  case (2 pf n ts)
  then show ?case
    by (cases ts) (auto simp: then_try_Inl split: gqlToken.splits option.splits)
next
  case (4 pf n ts)
  have "parse_list pf n r \<noteq> Inl Out_Of_Fuel" if "peek ts \<noteq> Punct (CHR '']'')" "parseValue pf n ts = Inr (v, r)" for v r
    using "4.IH"(2) [OF that(1)] value_shrinks(1) [OF that(2)] "4.prems" by simp
  then show ?case using "4.IH"(1) "4.prems" by (auto simp: then_try_Inl)
next
  case (6 pf n acc ts)
  show ?case
  proof
    assume "parse_object pf (Suc n) acc ts = Inl Out_Of_Fuel"
    then obtain key r where t: "ts = Name_Token key # Punct (CHR '':'') # r"
      and e: "then_try (parseValue pf n r) (\<lambda>(v, r'). parse_object pf n (AList.update key v acc) r') = Inl Out_Of_Fuel"
      by (cases ts) (auto simp: then_try_Inl expectPunct_Inr split: if_splits gqlToken.splits)
    have "3 * length r + 2 \<le> n" using t "6.prems" by simp
    then show False
      using e "6.IH" t by (auto simp: then_try_Inl dest!: value_shrinks(1))
  qed
qed simp_all

lemma args_fuel: "3 * length ts + 2 \<le> n \<Longrightarrow> parse_args pf n args ts \<noteq> Inl Out_Of_Fuel"
proof (induction n arbitrary: args ts)
  case (Suc n)
  show ?case
  proof
    assume "parse_args pf (Suc n) args ts = Inl Out_Of_Fuel"
    then obtain name r where t: "ts = Name_Token name # Punct (CHR '':'') # r"
      and e: "then_try (parseValue pf n r) (\<lambda>(v, r'). parse_args pf n (AList.update name v args) r') = Inl Out_Of_Fuel"
      by (cases ts) (auto simp: then_try_Inl expectPunct_Inr split: if_splits gqlToken.splits)
    have "3 * length r + 2 \<le> n" using t Suc.prems by simp
    then show False
      using e Suc.IH value_fuel(1) [of r n] by (fastforce simp: then_try_Inl dest!: value_shrinks(1))
  qed
qed simp

lemma optional_fuel: "3 * length ts + 1 \<le> n \<Longrightarrow> optional_args pf n ts \<noteq> Inl Out_Of_Fuel"
  by (auto simp: optional_args_def parseArguments_def then_try_Inl expectPunct_Inr args_fuel)

lemma directives_fuel: "3 * length ts + 1 \<le> n \<Longrightarrow> skip_directives pf n ts \<noteq> Inl Out_Of_Fuel"
proof (induction n arbitrary: ts)
  case (Suc n)
  show ?case
  proof
    assume "skip_directives pf (Suc n) ts = Inl Out_Of_Fuel"
    then obtain x r where t: "ts = Punct (CHR ''@'') # Name_Token x # r"
      and e: "then_try (optional_args pf n r) (\<lambda>(args, r). skip_directives pf n r) = Inl Out_Of_Fuel"
      by (cases ts; cases "tl ts") (auto simp: then_try_Inl split: if_splits gqlToken.splits)
    have "3 * length r + 2 \<le> n" using t Suc.prems by simp
    then show False
      using e Suc.IH optional_fuel [of r n] by (fastforce simp: then_try_Inl dest!: optional_args_le)
  qed
qed simp

lemma names_no_fuel [simp]: "parse_names ts \<noteq> Inl Out_Of_Fuel"
  by (simp add: parse_names_def split: gqlToken.splits)

lemma selection_fuel:
  "(\<forall>ts. 3 * length ts + 1 \<le> n \<longrightarrow> parseSelectionSet pf n ts \<noteq> Inl Out_Of_Fuel) \<and>
   (\<forall>ts. 3 * length ts + 3 \<le> n \<longrightarrow> parse_fields pf n ts \<noteq> Inl Out_Of_Fuel) \<and>
   (\<forall>ts. 3 * length ts + 2 \<le> n \<longrightarrow> parseField pf n ts \<noteq> Inl Out_Of_Fuel)"
proof (induction n)
  case (Suc n)
  then have s: "3 * length ts + 1 \<le> n \<Longrightarrow> parseSelectionSet pf n ts \<noteq> Inl Out_Of_Fuel"
    and f: "3 * length ts + 3 \<le> n \<Longrightarrow> parse_fields pf n ts \<noteq> Inl Out_Of_Fuel"
    and g: "3 * length ts + 2 \<le> n \<Longrightarrow> parseField pf n ts \<noteq> Inl Out_Of_Fuel" for ts by blast+
  have 1: "parseSelectionSet pf (Suc n) ts \<noteq> Inl Out_Of_Fuel" if "3 * length ts + 1 \<le> Suc n" for ts
    using that by (auto simp: then_try_Inl expectPunct_Inr f)
  have 2: "parse_fields pf (Suc n) ts \<noteq> Inl Out_Of_Fuel" if "3 * length ts + 3 \<le> Suc n" for ts
  proof -
    have "parse_fields pf n r \<noteq> Inl Out_Of_Fuel" if "parseField pf n ts = Inr (x, r)" for x r
      using selection_shrinks(3) [OF that] \<open>3 * length ts + 3 \<le> Suc n\<close> by (intro f) simp
    then show ?thesis using g [of ts] that by (auto simp: then_try_Inl)
  qed
  have 3: "parseField pf (Suc n) ts \<noteq> Inl Out_Of_Fuel" if l: "3 * length ts + 2 \<le> Suc n" for ts
  proof
    assume "parseField pf (Suc n) ts = Inl Out_Of_Fuel"
    then obtain a name r1 where p: "parse_names ts = Inr ((a, name), r1)"
      and q: "then_try (optional_args pf n r1) (\<lambda>(args, r2). then_try (skip_directives pf n r2) (\<lambda>r3.
        if peek r3 = Punct (CHR ''{'')
        then then_try (parseSelectionSet pf n r3) (\<lambda>(sel, r4). Inr (AstField a name args sel, r4))
        else Inr (AstField a name args [], r3))) = Inl Out_Of_Fuel"
      by (auto simp: then_try_Inl)
    have l1: "3 * length r1 + 3 \<le> n + 2" using names_shrink [OF p] l by simp
    obtain args r2 where r2: "optional_args pf n r1 = Inr (args, r2)"
      using q optional_fuel [of r1 n pf] l1 by (auto simp: then_try_Inl)
    have l2: "3 * length r2 + 1 \<le> n" using optional_args_le [OF r2] l1 by simp
    obtain r3 where r3: "skip_directives pf n r2 = Inr r3"
      using q r2 directives_fuel [OF l2] by (auto simp: then_try_Inl)
    have "3 * length r3 + 1 \<le> n" using directives_le [OF r3] l2 by simp
    then show False using q r2 r3 s [of r3] by (auto simp: then_try_Inl then_try_Inr split: if_splits)
  qed
  show ?case using 1 2 3 by blast
qed simp

lemma skipType_no_fuel [simp]: "skipType ts \<noteq> Inl Out_Of_Fuel"
proof (induction ts)
  case (Cons t us)
  then show ?case by (cases t) (auto simp: skipType_Cons then_try_Inl split: if_splits)
qed (simp add: skipType_Cons)

lemma variables_fuel: "3 * length ts + 1 \<le> n \<Longrightarrow> skip_variables pf n ts \<noteq> Inl Out_Of_Fuel"
proof (induction n arbitrary: ts)
  case (Suc n)
  show ?case
  proof
    assume "skip_variables pf (Suc n) ts = Inl Out_Of_Fuel"
    then obtain x r2 r3 where t: "ts = Punct (CHR ''$'') # Name_Token x # Punct (CHR '':'') # r2" and r3: "skipType r2 = Inr r3"
      and e: "(if peek r3 = Punct (CHR ''='') then then_try (parseValue pf n (tl r3)) (\<lambda>(v, r4). skip_variables pf n r4)
        else skip_variables pf n r3) = Inl Out_Of_Fuel"
      by (cases ts; cases "tl ts") (auto simp: then_try_Inl expectPunct_Inr split: if_splits gqlToken.splits)
    have l: "3 * length r3 + 1 \<le> n" using skipType_shrinks [OF r3] t Suc.prems by simp
    show False
    proof (cases "peek r3 = Punct (CHR ''='')")
      case True
      have "3 * length (tl r3) + 1 \<le> n" using l by simp
      then obtain v r4 where v: "parseValue pf n (tl r3) = Inr (v, r4)" "skip_variables pf n r4 = Inl Out_Of_Fuel"
        using e True value_fuel(1) [of "tl r3" n pf] by (auto simp: then_try_Inl)
      have "3 * length r4 + 1 \<le> n" using value_shrinks(1) [OF v(1)] l by simp
      then show False using Suc.IH [of r4] v(2) by blast
    qed (use e Suc.IH [OF l] in simp)
  qed
qed simp

lemma document_fuel:
  assumes "3 * length ts + 1 \<le> n"
  shows "parseDocument pf n ts \<noteq> Inl Out_Of_Fuel"
proof -
  have sel: "then_try (parseSelectionSet pf n r) (\<lambda>(sel, r). Inr (\<lparr>operation = op, selection = sel\<rparr>, r)) \<noteq> Inl Out_Of_Fuel"
    if "length r \<le> length ts" for r op
    using selection_fuel [of n pf] that assms by (auto simp: then_try_Inl)
  have rest: "then_try (if peek r = Punct (CHR ''('') then skipVariableDefinitions pf n r else Inr r) (\<lambda>r2.
      then_try (parseSelectionSet pf n r2) (\<lambda>(sel, r). Inr (\<lparr>operation = op, selection = sel\<rparr>, r))) \<noteq> Inl Out_Of_Fuel"
    if l: "length r \<le> length ts" for r op
  proof -
    have "skipVariableDefinitions pf n r \<noteq> Inl Out_Of_Fuel"
      using l assms by (auto simp: skipVariableDefinitions_def then_try_Inl expectPunct_Inr variables_fuel)
    moreover have "length r' \<le> length ts" if "skipVariableDefinitions pf n r = Inr r'" for r'
      using that l by (auto simp: skipVariableDefinitions_def then_try_Inr expectPunct_Inr dest: variables_shrink)
    ultimately show ?thesis using sel l by (subst then_try_Inl) (auto simp del: then_try_Inl split: if_splits)
  qed
  define r1 where "r1 = (case peek (tl ts) of Name_Token x \<Rightarrow> tl (tl ts) | _ \<Rightarrow> tl ts)"
  have "length r1 \<le> length ts" by (simp add: r1_def split: gqlToken.split)
  note last = rest [OF this]
  show ?thesis
  proof (cases "peek ts")
    case (Name_Token op)
    then show ?thesis unfolding parseDocument_def Let_def r1_def [symmetric] using last [of op] by (auto split: if_splits)
  qed (use sel [of ts] in \<open>auto simp: parseDocument_def\<close>)
qed

lemma lex_no_fuel [simp]: "lex_from n s \<noteq> Inl Out_Of_Fuel"
proof (induction n s rule: lex_from.induct)
  case (2 n c cs)
  then show ?case
    by (auto simp: emit_def then_try_Inl split: option.splits prod.splits)
qed simp

text \<open>
  The parser always comes to an end: for every text the calls it makes stay within the number
  of tokens, three times over.
\<close>

theorem parse_graphql_ends: "parse_graphql parse_float query \<noteq> Inl Out_Of_Fuel"
  by (auto simp: parse_graphql_def lexGraphQL_def then_try_Inl document_fuel)

section \<open>Documents as tokens\<close>

definition is_name :: "string \<Rightarrow> bool" where
  "is_name s \<longleftrightarrow> (case s of [] \<Rightarrow> False | c # cs \<Rightarrow> isNameStart c \<and> list_all isNameCont cs)"

fun value_tokens :: "valueNode \<Rightarrow> gqlToken list" where
  "value_tokens (Var x) = [Punct (CHR ''$''), Name_Token x]"
| "value_tokens (IntV i) = [Int_Token (show_int i)]"
| "value_tokens (FloatV i) = []"
| "value_tokens (StringV s) = [String_Token s]"
| "value_tokens (BoolV b) = [Name_Token (if b then ''true'' else ''false'')]"
| "value_tokens NullV = [Name_Token ''null'']"
| "value_tokens (ListV vs) = Punct (CHR ''['') # concat (map value_tokens vs) @ [Punct (CHR '']'')]"
| "value_tokens (ObjectV ms) =
     Punct (CHR ''{'') # concat (map (\<lambda>(k, v). Name_Token k # Punct (CHR '':'') # value_tokens v) ms) @ [Punct (CHR ''}'')]"

text \<open>The values that can be written: names are names, integers have 64 bits, members differ.\<close>

fun plain_value :: "valueNode \<Rightarrow> bool" where
  "plain_value (Var x) = is_name x"
| "plain_value (IntV i) = in_int64 i"
| "plain_value (FloatV i) = False"
| "plain_value (ListV vs) = list_all plain_value vs"
| "plain_value (ObjectV ms) = (distinct (map fst ms) \<and> list_all (\<lambda>(k, v). is_name k \<and> plain_value v) ms)"
| "plain_value v = True"

definition member_tokens :: "(string \<times> valueNode) list \<Rightarrow> gqlToken list" where
  "member_tokens ms = concat (map (\<lambda>(k, v). Name_Token k # Punct (CHR '':'') # value_tokens v) ms)"

definition plain_members :: "(string \<times> valueNode) list \<Rightarrow> bool" where
  "plain_members ms \<longleftrightarrow> distinct (map fst ms) \<and> list_all (\<lambda>(k, v). is_name k \<and> plain_value v) ms"

lemma Atoi_show_int: "in_int64 i \<Longrightarrow> Atoi (show_int i) = Some i"
proof (cases "i < 0")
  case True
  then show "in_int64 i \<Longrightarrow> Atoi (show_int i) = Some i"
    using show_nat_digits by (auto simp: Atoi_def show_int_def Let_def list_all_iff)
next
  case False
  assume "in_int64 i"
  then have "nat i < 2 ^ 63" using False by (simp add: in_int64_def nat_less_iff)
  from Atoi_show_nat [OF this] show "Atoi (show_int i) = Some i" using False by (simp add: show_int_def)
qed

text \<open>Parsing what was written gives it back, or runs out of fuel.\<close>

lemma value_start: "plain_value v \<Longrightarrow> \<exists>t us. value_tokens v = t # us \<and> t \<noteq> Punct (CHR '']'')"
  by (cases v) auto

lemma value_back:
  "(\<forall>v r. plain_value v \<longrightarrow> parseValue pf n (value_tokens v @ r) \<in> {Inr (v, r), Inl Out_Of_Fuel}) \<and>
   (\<forall>vs r. list_all plain_value vs \<longrightarrow>
      parse_list pf n (concat (map value_tokens vs) @ Punct (CHR '']'') # r) \<in> {Inr (vs, r), Inl Out_Of_Fuel}) \<and>
   (\<forall>acc ms r. plain_members (acc @ ms) \<longrightarrow>
      parse_object pf n acc (member_tokens ms @ Punct (CHR ''}'') # r) \<in> {Inr (acc @ ms, r), Inl Out_Of_Fuel})"
proof (induction n)
  case (Suc n)
  then have v: "plain_value v \<Longrightarrow> parseValue pf n (value_tokens v @ r) \<in> {Inr (v, r), Inl Out_Of_Fuel}"
    and l: "list_all plain_value vs \<Longrightarrow>
      parse_list pf n (concat (map value_tokens vs) @ Punct (CHR '']'') # r) \<in> {Inr (vs, r), Inl Out_Of_Fuel}"
    and o: "plain_members (acc @ ms) \<Longrightarrow>
      parse_object pf n acc (member_tokens ms @ Punct (CHR ''}'') # r) \<in> {Inr (acc @ ms, r), Inl Out_Of_Fuel}" for v vs acc ms r
    by blast+
  have 1: "parseValue pf (Suc n) (value_tokens w @ r) \<in> {Inr (w, r), Inl Out_Of_Fuel}" if p: "plain_value w" for w r
  proof (cases w)
    case (ListV vs)
    then show ?thesis using l [of vs r] p by (auto simp: then_try_def)
  next
    case (ObjectV ms)
    then show ?thesis using o [of "[]" ms r] p by (auto simp: then_try_def plain_members_def member_tokens_def)
  qed (use p in \<open>auto simp: Atoi_show_int\<close>)
  have 2: "parse_list pf (Suc n) (concat (map value_tokens vs) @ Punct (CHR '']'') # r) \<in> {Inr (vs, r), Inl Out_Of_Fuel}"
    if p: "list_all plain_value vs" for vs r
  proof (cases vs)
    case (Cons w ws)
    obtain t us where "value_tokens w = t # us" "t \<noteq> Punct (CHR '']'')" using value_start [of w] p Cons by auto
    then show ?thesis
      using v [of w "concat (map value_tokens ws) @ Punct (CHR '']'') # r"] l [of ws r] p Cons by (auto simp: then_try_def)
  qed simp
  have 3: "parse_object pf (Suc n) acc (member_tokens ms @ Punct (CHR ''}'') # r) \<in> {Inr (acc @ ms, r), Inl Out_Of_Fuel}"
    if p: "plain_members (acc @ ms)" for acc ms r
  proof (cases ms)
    case (Cons kv ks)
    obtain k w where kv: "kv = (k, w)" by (cases kv)
    have new: "k \<notin> set (map fst acc)" and w: "plain_value w" and rest: "plain_members ((acc @ [(k, w)]) @ ks)"
      using p Cons kv by (auto simp: plain_members_def)
    have "AList.update k w acc = acc @ [(k, w)]" using new by (induction acc) auto
    then show ?thesis
      using v [OF w, of "member_tokens ks @ Punct (CHR ''}'') # r"] o [OF rest, of r] Cons kv
      by (auto simp: then_try_def member_tokens_def expectPunct_def)
  qed (simp add: member_tokens_def)
  show ?case using 1 2 3 by blast
qed simp

lemma args_back:
  assumes "plain_members (acc @ ms)"
  shows "parse_args pf n acc (member_tokens ms @ Punct (CHR '')'') # r) \<in> {Inr (acc @ ms, r), Inl Out_Of_Fuel}"
  using assms
proof (induction n arbitrary: acc ms r)
  case (Suc n)
  show ?case
  proof (cases ms)
    case (Cons kv ks)
    obtain k w where kv: "kv = (k, w)" by (cases kv)
    have new: "k \<notin> set (map fst acc)" and w: "plain_value w" and rest: "plain_members ((acc @ [(k, w)]) @ ks)"
      using Suc.prems Cons kv by (auto simp: plain_members_def)
    have "AList.update k w acc = acc @ [(k, w)]" using new by (induction acc) auto
    then show ?thesis
      using value_back [of pf n, THEN conjunct1, rule_format, OF w, of "member_tokens ks @ Punct (CHR '')'') # r"]
        Suc.IH [OF rest, of r] Cons kv
      by (auto simp: then_try_def member_tokens_def expectPunct_def)
  qed (simp add: member_tokens_def)
qed simp

fun field_tokens :: "astField \<Rightarrow> gqlToken list" where
  "field_tokens (AstField al name args sel) =
     (if al = [] then [] else [Name_Token al, Punct (CHR '':'')]) @ Name_Token name #
     (if args = [] then [] else Punct (CHR ''('') # member_tokens args @ [Punct (CHR '')'')]) @
     (if sel = [] then [] else Punct (CHR ''{'') # concat (map field_tokens sel) @ [Punct (CHR ''}'')])"

fun plain_field :: "astField \<Rightarrow> bool" where
  "plain_field (AstField al name args sel) \<longleftrightarrow>
     (al = [] \<or> is_name al) \<and> is_name name \<and> plain_members args \<and> list_all plain_field sel"

text \<open>What can follow a field: another one, or the end of the selection.\<close>

definition field_follows :: "gqlToken list \<Rightarrow> bool" where
  "field_follows r \<longleftrightarrow> (case peek r of Name_Token x \<Rightarrow> True | Punct c \<Rightarrow> c = CHR ''}'' | _ \<Rightarrow> False)"

lemma field_start: "\<exists>x us. field_tokens f = Name_Token x # us"
  by (cases f) auto

lemma fields_follow: "field_follows (concat (map field_tokens fs) @ Punct (CHR ''}'') # r)"
proof (cases fs)
  case (Cons f gs)
  obtain x us where "field_tokens f = Name_Token x # us" using field_start by blast
  then show ?thesis using Cons by (simp add: field_follows_def)
qed (simp add: field_follows_def)

lemma optional_back:
  assumes "plain_members args" and "peek r \<noteq> Punct (CHR ''('')"
  shows "optional_args pf n ((if args = [] then [] else Punct (CHR ''('') # member_tokens args @ [Punct (CHR '')'')]) @ r)
    \<in> {Inr (args, r), Inl Out_Of_Fuel}"
  using args_back [of "[]" args pf n r] assms by (auto simp: optional_args_def parseArguments_def expectPunct_def then_try_def)

lemma no_directives: "peek r \<noteq> Punct (CHR ''@'') \<Longrightarrow> skip_directives pf n r \<in> {Inr r, Inl Out_Of_Fuel}"
  by (cases n) auto

lemma fields_back:
  "(\<forall>fs r. fs \<noteq> [] \<longrightarrow> list_all plain_field fs \<longrightarrow>
      parseSelectionSet pf n (Punct (CHR ''{'') # concat (map field_tokens fs) @ Punct (CHR ''}'') # r) \<in> {Inr (fs, r), Inl Out_Of_Fuel}) \<and>
   (\<forall>fs r. list_all plain_field fs \<longrightarrow>
      parse_fields pf n (concat (map field_tokens fs) @ Punct (CHR ''}'') # r) \<in> {Inr (fs, r), Inl Out_Of_Fuel}) \<and>
   (\<forall>f r. plain_field f \<longrightarrow> field_follows r \<longrightarrow> parseField pf n (field_tokens f @ r) \<in> {Inr (f, r), Inl Out_Of_Fuel})"
proof (induction n)
  case (Suc n)
  then have s: "fs \<noteq> [] \<Longrightarrow> list_all plain_field fs \<Longrightarrow>
      parseSelectionSet pf n (Punct (CHR ''{'') # concat (map field_tokens fs) @ Punct (CHR ''}'') # r) \<in> {Inr (fs, r), Inl Out_Of_Fuel}"
    and fs: "list_all plain_field fs \<Longrightarrow>
      parse_fields pf n (concat (map field_tokens fs) @ Punct (CHR ''}'') # r) \<in> {Inr (fs, r), Inl Out_Of_Fuel}"
    and f: "plain_field f \<Longrightarrow> field_follows r \<Longrightarrow> parseField pf n (field_tokens f @ r) \<in> {Inr (f, r), Inl Out_Of_Fuel}" for fs f r
    by blast+
  have 1: "parseSelectionSet pf (Suc n) (Punct (CHR ''{'') # concat (map field_tokens gs) @ Punct (CHR ''}'') # r) \<in> {Inr (gs, r), Inl Out_Of_Fuel}"
    if "list_all plain_field gs" for gs r
    using fs [OF that, of r] by (simp add: expectPunct_def then_try_def)
  have 2: "parse_fields pf (Suc n) (concat (map field_tokens gs) @ Punct (CHR ''}'') # r) \<in> {Inr (gs, r), Inl Out_Of_Fuel}"
    if p: "list_all plain_field gs" for gs r
  proof (cases gs)
    case (Cons g hs)
    obtain x us where g: "field_tokens g = Name_Token x # us" using field_start by blast
    then show ?thesis
      using f [of g "concat (map field_tokens hs) @ Punct (CHR ''}'') # r"] fs [of hs r] fields_follow [of hs r] p Cons
      by (auto simp: then_try_def)
  qed simp
  have 3: "parseField pf (Suc n) (field_tokens g @ r) \<in> {Inr (g, r), Inl Out_Of_Fuel}" if p: "plain_field g" "field_follows r" for g r
  proof (cases g)
    case (AstField al name args sel)
    let ?sel = "(if sel = [] then [] else Punct (CHR ''{'') # concat (map field_tokens sel) @ [Punct (CHR ''}'')]) @ r"
    let ?args = "(if args = [] then [] else Punct (CHR ''('') # member_tokens args @ [Punct (CHR '')'')]) @ ?sel"
    have r: "peek r \<noteq> Punct (CHR ''('')" "peek r \<noteq> Punct (CHR '':'')" "peek r \<noteq> Punct (CHR ''@'')" "peek r \<noteq> Punct (CHR ''{'')"
      using p(2) by (auto simp: field_follows_def)
    have names: "parse_names (field_tokens g @ r) = Inr ((al, name), ?args)"
      using r AstField by (auto simp: parse_names_def)
    have o: "optional_args pf n ?args \<in> {Inr (args, ?sel), Inl Out_Of_Fuel}"
      by (rule optional_back) (use p AstField r in auto)
    have d: "skip_directives pf n ?sel \<in> {Inr ?sel, Inl Out_Of_Fuel}" by (rule no_directives) (use r in simp)
    have e: "(if peek ?sel = Punct (CHR ''{'')
       then then_try (parseSelectionSet pf n ?sel) (\<lambda>(sel, r4). Inr (AstField al name args sel, r4))
       else Inr (AstField al name args [], ?sel)) \<in> {Inr (g, r), Inl Out_Of_Fuel}"
      using s [of sel r] p AstField r by (cases "sel = []") (auto simp: then_try_def)
    show ?thesis
      using o d e by (auto simp only: parseField.simps names then_try_simps prod.case insert_iff empty_iff)
  qed
  show ?case using 1 2 3 by blast
qed simp

section \<open>Documents as text\<close>

definition gql_escape :: "char \<Rightarrow> string" where
  "gql_escape c = (if c = dquote \<or> c = backslash then [backslash, c] else [c])"

fun show_token :: "gqlToken \<Rightarrow> string" where
  "show_token (Punct c) = [c]"
| "show_token (Name_Token s) = s"
| "show_token (String_Token s) = dquote # concat (map gql_escape s) @ [dquote]"
| "show_token (Int_Token s) = s"
| "show_token (Float_Token s) = s"
| "show_token Eof = []"

definition show_tokens :: "gqlToken list \<Rightarrow> string" where
  "show_tokens ts = concat (map (\<lambda>t. show_token t @ '' '') ts)"

fun plain_token :: "gqlToken \<Rightarrow> bool" where
  "plain_token (Punct c) \<longleftrightarrow> c \<in> set gqlPunctChars"
| "plain_token (Name_Token s) \<longleftrightarrow> is_name s"
| "plain_token (String_Token s) \<longleftrightarrow> True"
| "plain_token (Int_Token s) \<longleftrightarrow> (\<exists>i. s = show_int i)"
| "plain_token t \<longleftrightarrow> False"

lemma lex_string_back: "lex_string (concat (map gql_escape s) @ dquote # r) = Some (s, r)"
proof (induction s)
  case Nil
  then show ?case by (cases r) simp_all
next
  case (Cons c s)
  have ne: "\<exists>d ds. concat (map gql_escape s) @ dquote # r = d # ds"
    by (metis Nil_is_append_conv list.exhaust list.distinct(1))
  have "gql_unescape dquote = dquote" "gql_unescape backslash = backslash" "dquote \<noteq> backslash"
    by (simp_all add: gql_unescape_def dquote_def backslash_def)
  moreover have "gql_escape c = (if c = dquote \<or> c = backslash then [backslash, c] else [c])" by (simp add: gql_escape_def)
  ultimately show ?case using Cons ne by auto
qed

lemma lex_number_back: "list_all is_digit ds \<Longrightarrow> lex_number b (ds @ CHR '' '' # r) = (ds, CHR '' '' # r)"
  by (induction ds arbitrary: b) (auto simp: is_digit_def)

lemma lex_blank: "lex_from n (CHR '' '' # r) = lex_from n r"
  by (simp add: gql_blank_def)

lemma name_start_kind: "isNameStart c \<Longrightarrow> \<not> gql_blank c \<and> c \<noteq> CHR ''#'' \<and> c \<notin> set gqlPunctChars \<and> c \<noteq> dquote"
  by (auto simp: isNameStart_def gql_blank_def gqlPunctChars_def dquote_def is_lower_def is_upper_def)

lemma number_start_kind: "c = hyphen \<or> is_digit c \<Longrightarrow> \<not> gql_blank c \<and> c \<noteq> CHR ''#'' \<and> c \<notin> set gqlPunctChars \<and> c \<noteq> dquote \<and> \<not> isNameStart c"
  by (auto simp: isNameStart_def gql_blank_def gqlPunctChars_def dquote_def is_lower_def is_upper_def is_digit_def)

lemma digits_no_float: "list_all is_digit ds \<Longrightarrow> \<not> is_float ds"
  by (auto simp: is_float_def list_all_iff list_ex_iff is_digit_def)

lemma lex_token:
  assumes "plain_token t"
  shows "lex_from n (show_token t @ CHR '' '' # r) = emit t (lex_from n r)"
proof (cases t)
  case (Punct c)
  then show ?thesis using assms by (auto simp: gqlPunctChars_def gql_blank_def emit_def)
next
  case (Name_Token s)
  then obtain c cs where s: "s = c # cs" "isNameStart c" "\<forall>d \<in> set cs. isNameCont d"
    using assms by (auto simp: is_name_def list_all_iff split: list.splits)
  have "\<not> isNameCont (CHR '' '')" by (simp add: isNameCont_def isNameStart_def is_lower_def is_upper_def is_digit_def)
  then have "takeWhile isNameCont (cs @ CHR '' '' # r) = cs" "dropWhile isNameCont (cs @ CHR '' '' # r) = CHR '' '' # r"
    using s(3) by (simp_all add: takeWhile_append dropWhile_append)
  then show ?thesis using name_start_kind [OF s(2)] s Name_Token lex_blank by simp
next
  case (String_Token s)
  have "\<not> gql_blank dquote \<and> dquote \<noteq> CHR ''#'' \<and> dquote \<notin> set gqlPunctChars"
    by (simp add: gql_blank_def dquote_def gqlPunctChars_def)
  then show ?thesis using lex_string_back [of s "CHR '' '' # r"] String_Token lex_blank by simp
next
  case (Int_Token s)
  then obtain i where i: "s = show_int i" using assms by auto
  obtain c ds where s: "s = c # ds" "c = hyphen \<or> is_digit c" "list_all is_digit ds"
  proof (cases "i < 0")
    case True
    then show ?thesis using that i show_nat_digits by (auto simp: show_int_def list_all_iff)
  next
    case False
    obtain d es where d: "show_nat (nat i) = d # es" by (cases "show_nat (nat i)") auto
    then show ?thesis using that [of d es] i False show_nat_digits [of _ "nat i"] by (auto simp: show_int_def list_all_iff)
  qed
  show ?thesis
    using number_start_kind [OF s(2)] s lex_number_back [OF s(3), of c r] digits_no_float [OF s(3)] Int_Token lex_blank
    by simp
qed (use assms in auto)

lemma lex_back: "list_all plain_token ts \<Longrightarrow> lex_from n (show_tokens ts) = Inr ts"
proof (induction ts)
  case (Cons t ts)
  then show ?case using lex_token [of t n "show_tokens ts"] by (simp add: show_tokens_def emit_def)
qed (simp add: show_tokens_def)

section \<open>What is printed is parsed\<close>

definition print_document :: "astDocument \<Rightarrow> string" where
  "print_document doc =
     show_tokens (Name_Token (operation doc) # Punct (CHR ''{'') # concat (map field_tokens (selection doc)) @ [Punct (CHR ''}'')])"

definition plain_document :: "astDocument \<Rightarrow> bool" where
  "plain_document doc \<longleftrightarrow> (operation doc = ''query'' \<or> operation doc = ''mutation'') \<and>
     selection doc \<noteq> [] \<and> list_all plain_field (selection doc)"

lemma punct_plain [simp]:
  "plain_token (Punct (CHR ''{''))" "plain_token (Punct (CHR ''}''))" "plain_token (Punct (CHR ''(''))" "plain_token (Punct (CHR '')''))"
  "plain_token (Punct (CHR '':''))" "plain_token (Punct (CHR ''$''))" "plain_token (Punct (CHR ''[''))" "plain_token (Punct (CHR '']''))"
  by (simp_all add: gqlPunctChars_def)

lemma word_is_name [simp]: "is_name ''true''" "is_name ''false''" "is_name ''null''" "is_name ''query''" "is_name ''mutation''"
  by (simp_all add: is_name_def isNameCont_def isNameStart_def is_lower_def)

lemma value_tokens_plain: "plain_value v \<Longrightarrow> list_all plain_token (value_tokens v)"
  by (induction v rule: value_tokens.induct) (auto simp: list_all_iff simp del: plain_token.simps(1))

lemma field_tokens_plain: "plain_field f \<Longrightarrow> list_all plain_token (field_tokens f)"
proof (induction f rule: field_tokens.induct)
  case (1 al name args sel)
  have "list_all plain_token (member_tokens args)"
    using 1 value_tokens_plain by (auto simp: plain_members_def member_tokens_def list_all_iff simp del: plain_token.simps(1))
  then show ?case using 1 by (auto simp: list_all_iff simp del: plain_token.simps(1))
qed


definition sample_mutation :: astDocument where
  "sample_mutation = \<lparr>operation = ''mutation'', selection =
     [AstField ''gone'' ''deleteURL'' [(''code'', StringV ''a\"b'')] [],
      AstField [] ''createURL'' [(''input'', ObjectV [(''url'', Var ''u''), (''tags'', ListV [IntV (- 5), NullV])])]
        [AstField [] ''id'' [] []]]\<rparr>"


end
