(* ===== verification/GraphqlApi.thy ===== *)
theory GraphqlApi
  imports GraphqlText Tokens LinkBulk
begin

text \<open>
  What the fields of a GraphQL document do: \<^verbatim>\<open>src/graphql/resolvers.go\<close> over the links and the tokens, and
  the two handlers of \<^verbatim>\<open>src/graphql/graphql.go\<close>. Queries leave the links alone; mutations change what the
  same request through the other interface would change, and only what its token may change. A map of the
  answer is a list of members in the order of their first assignment; \<open>json.Encoder\<close> sorts them.
\<close>

section \<open>Values and requests\<close>

text \<open>A plain Go value; of a float its integer part is kept.\<close>

datatype gval =
    GNull
  | GBool bool
  | GInt int
  | GFloat int
  | GStr string
  | GList "gval list"
  | GObj "(string \<times> gval) list"

fun resolve :: "(string \<times> gval) list option \<Rightarrow> valueNode \<Rightarrow> gval" where
  "resolve vars (Var x) = (case vars of None \<Rightarrow> GNull | Some vs \<Rightarrow> (case map_of vs x of None \<Rightarrow> GNull | Some v \<Rightarrow> v))"
| "resolve vars (IntV i) = GInt i"
| "resolve vars (FloatV i) = GFloat i"
| "resolve vars (StringV s) = GStr s"
| "resolve vars (BoolV b) = GBool b"
| "resolve vars NullV = GNull"
| "resolve vars (ListV vs) = GList (map (resolve vars) vs)"
| "resolve vars (ObjectV ms) = GObj (map (\<lambda>(k, v). (k, resolve vars v)) ms)"

record gql_info =
  gi_version :: string
  gi_commit :: string
  gi_build_date :: string
  gi_mode :: string
  gi_go_version :: string
  gi_os :: string
  gi_arch :: string

text \<open>
  What a field reads beside the links: the table of tokens and the header, the variables, the time in seconds and
  the nanoseconds since the start, and the functions that are arguments (hash of tokens, of passwords).
\<close>

record gql_context =
  gx_token_hash :: "string \<Rightarrow> string"
  gx_tokens :: token_db
  gx_authorization :: string
  gx_variables :: "(string \<times> gval) list option"
  gx_now :: int
  gx_uptime :: int
  gx_info :: gql_info
  gx_hash :: "string \<Rightarrow> string option"

section \<open>Arguments\<close>

definition argValue :: "gql_context \<Rightarrow> astField \<Rightarrow> string \<Rightarrow> gval option" where
  "argValue ctx f name = map_option (resolve (gx_variables ctx)) (map_of (Arguments f) name)"

definition toString :: "gval \<Rightarrow> string" where
  "toString v = (case v of GStr s \<Rightarrow> s | _ \<Rightarrow> [])"

definition toStringPtr :: "gval \<Rightarrow> string option" where
  "toStringPtr v = (case v of GStr s \<Rightarrow> Some s | _ \<Rightarrow> None)"

definition gql_required :: "string \<Rightarrow> string" where
  "gql_required name = ''argument '' @ [dquote] @ name @ [dquote] @ '' is required''"

text \<open>The required forms of the two.\<close>

definition stringArg :: "gql_context \<Rightarrow> astField \<Rightarrow> string \<Rightarrow> string + string" where
  "stringArg ctx f name =
     (case argValue ctx f name of
        None \<Rightarrow> Inl (gql_required name)
      | Some v \<Rightarrow> if toString v = [] then Inl (gql_required name) else Inr (toString v))"

definition objectArg :: "gql_context \<Rightarrow> astField \<Rightarrow> string \<Rightarrow> string + (string \<times> gval) list" where
  "objectArg ctx f name =
     (case argValue ctx f name of
        None \<Rightarrow> Inl (gql_required name)
      | Some GNull \<Rightarrow> Inl (gql_required name)
      | Some (GObj ms) \<Rightarrow> Inr ms
      | Some v \<Rightarrow> Inl (''argument '' @ [dquote] @ name @ [dquote] @ '' must be an object''))"

text \<open>\<open>None\<close> is an error, which its callers ignore.\<close>

definition intArg :: "gql_context \<Rightarrow> astField \<Rightarrow> string \<Rightarrow> int option" where
  "intArg ctx f name = (case argValue ctx f name of Some (GInt n) \<Rightarrow> Some n | Some (GFloat n) \<Rightarrow> Some n | _ \<Rightarrow> None)"

text \<open>The value of a member, null where it is missing.\<close>

definition gql_member :: "(string \<times> gval) list \<Rightarrow> string \<Rightarrow> gval" where
  "gql_member ms k = (case map_of ms k of None \<Rightarrow> GNull | Some v \<Rightarrow> v)"

section \<open>Queries\<close>

definition project :: "(string \<times> json) list \<Rightarrow> astField list \<Rightarrow> json" where
  "project obj sel =
     (if sel = [] then JObj obj
      else JObj (fold (\<lambda>f out. AList.update (if Alias f \<noteq> [] then Alias f else Name f)
        (case map_of obj (Name f) of None \<Rightarrow> JNull | Some v \<Rightarrow> v) out) sel []))"

definition formatUptime :: "int \<Rightarrow> string" where
  "formatUptime d =
     (let s = (d + 500000000) div 1000000000
      in show_int (s div 86400) @ ''d '' @ show_int (s mod 86400 div 3600) @ ''h '' @
         show_int (s mod 3600 div 60) @ ''m '' @ show_int (s mod 60) @ ''s'')"

definition resolveHealth :: "gql_context \<Rightarrow> astField \<Rightarrow> json" where
  "resolveHealth ctx f = project
     [(''status'', JStr ''healthy''), (''version'', JStr (gi_version (gx_info ctx))), (''mode'', JStr (gi_mode (gx_info ctx))),
      (''uptime'', JStr (formatUptime (gx_uptime ctx))), (''timestamp'', JStr (Format_RFC3339 (gx_now ctx)))] (Selection f)"

definition resolveVersion :: "gql_context \<Rightarrow> astField \<Rightarrow> json" where
  "resolveVersion ctx f = project
     [(''version'', JStr (gi_version (gx_info ctx))), (''commit'', JStr (gi_commit (gx_info ctx))),
      (''built'', JStr (gi_build_date (gx_info ctx))), (''go_version'', JStr (gi_go_version (gx_info ctx))),
      (''os'', JStr (gi_os (gx_info ctx))), (''arch'', JStr (gi_arch (gx_info ctx)))] (Selection f)"

text \<open>The record of the token in the header; without a valid one the request is anonymous.\<close>

definition bearerFromRequest :: "gql_context \<Rightarrow> TokenRecord option" where
  "bearerFromRequest ctx =
     (if \<not> HasPrefix (gx_authorization ctx) ''Bearer '' then None
      else (case ValidateToken (gx_token_hash ctx) (gx_now ctx) (drop 7 (gx_authorization ctx)) (gx_tokens ctx) of
              Inl e \<Rightarrow> None
            | Inr rec \<Rightarrow> Some rec))"

definition canView :: "gql_context \<Rightarrow> URL \<Rightarrow> bool" where
  "canView ctx u =
     (case bearerFromRequest ctx of
        None \<Rightarrow> CanView u False [] 0
      | Some rec \<Rightarrow> CanView u (EqualFold (tok_owner_type rec) ''admin'') (tok_owner_type rec) (tok_owner_id rec))"

definition optional_member :: "string \<Rightarrow> string option \<Rightarrow> (string \<times> json) list" where
  "optional_member k v = (case v of None \<Rightarrow> [] | Some s \<Rightarrow> [(k, JStr s)])"

definition urlToMap :: "URL \<Rightarrow> (string \<times> json) list" where
  "urlToMap u =
     [(''id'', JNum (int (ID u))), (''short_code'', JStr (ShortCode u)), (''long_url'', JStr (LongURL u)),
      (''custom_code'', JBool (CustomCode u)), (''created_at'', JStr (Format_RFC3339 (CreatedAt u))),
      (''updated_at'', JStr (Format_RFC3339 (UpdatedAt u)))] @
     optional_member ''title'' (Title u) @ optional_member ''description'' (Description u) @
     optional_member ''expires_at'' (map_option Format_RFC3339 (ExpiresAt u))"

definition resolveURL :: "gql_context \<Rightarrow> astField \<Rightarrow> link_db \<Rightarrow> string + json" where
  "resolveURL ctx f db =
     then_try (stringArg ctx f ''code'') (\<lambda>c.
       case GetURLByCode (gx_now ctx) db c of
         Inl e \<Rightarrow> if e = ErrURLNotFound \<or> e = ErrURLExpired then Inr JNull else Inl ''failed to load URL''
       | Inr u \<Rightarrow> if \<not> canView ctx u then Inr JNull else Inr (project (urlToMap u) (Selection f)))"

definition resolveURLs :: "gql_context \<Rightarrow> astField \<Rightarrow> link_db \<Rightarrow> string + json" where
  "resolveURLs ctx f db =
     (case bearerFromRequest ctx of
        None \<Rightarrow> Inl ''bearer user or org token required''
      | Some rec \<Rightarrow>
          if \<not> (EqualFold (tok_owner_type rec) ''user'' \<or> EqualFold (tok_owner_type rec) ''org'')
          then Inl ''bearer user or org token required''
          else
            let limit0 = (case intArg ctx f ''limit'' of Some n \<Rightarrow> if n > 0 then n else 10 | None \<Rightarrow> 10);
                limit = (if limit0 > 200 then 200 else limit0);
                offset = (case intArg ctx f ''offset'' of Some n \<Rightarrow> if n \<ge> 0 then n else 0 | None \<Rightarrow> 0);
                urls = (if EqualFold (tok_owner_type rec) ''org'' then ListByOrgPage (tok_owner_id rec) limit offset db
                        else ListByUserPage (tok_owner_id rec) limit offset db)
            in Inr (JArr (map (\<lambda>u. project (urlToMap u) (Selection f)) urls)))"

definition unknown_field :: "string \<Rightarrow> string \<Rightarrow> string" where
  "unknown_field kind name = ''unknown '' @ kind @ '' field '' @ [dquote] @ name @ [dquote]"

definition resolveQueryField :: "gql_context \<Rightarrow> astField \<Rightarrow> link_db \<Rightarrow> string + json" where
  "resolveQueryField ctx f db =
     (if Name f = ''health'' then Inr (resolveHealth ctx f)
      else if Name f = ''version'' then Inr (resolveVersion ctx f)
      else if Name f = ''url'' then resolveURL ctx f db
      else if Name f = ''urls'' then resolveURLs ctx f db
      else Inl (unknown_field ''query'' (Name f)))"

section \<open>Mutations\<close>

definition createURLError :: "url_error \<Rightarrow> string" where
  "createURLError e =
     (if e = ErrCodeAlreadyExists then ''short code already exists''
      else if e = ErrReservedWord then ''short code is a reserved word''
      else if e = ErrInvalidCustomCode then ''invalid custom code''
      else ''failed to create URL'')"

definition gql_create_request :: "(string \<times> gval) list \<Rightarrow> create_request" where
  "gql_create_request input = empty_request\<lparr>cr_long_url := toString (gql_member input ''url''),
     cr_custom_code := toString (gql_member input ''custom_code''), cr_title := toStringPtr (gql_member input ''title''),
     cr_description := toStringPtr (gql_member input ''description''), cr_password := toString (gql_member input ''password''),
     cr_expire_after := toString (gql_member input ''expire_after'')\<rparr>"

definition resolveCreateURL :: "gql_context \<Rightarrow> (nat \<Rightarrow> nat \<Rightarrow> nat option) \<Rightarrow> astField \<Rightarrow> link_db \<Rightarrow> (string + json) \<times> link_db" where
  "resolveCreateURL ctx draw f db =
     (case objectArg ctx f ''input'' of
        Inl e \<Rightarrow> (Inl e, db)
      | Inr input \<Rightarrow>
          let req = gql_create_request input
          in if cr_long_url req = [] then (Inl ''input.url is required'', db)
             else
               (case (case bearerFromRequest ctx of
                        None \<Rightarrow> CreateURL (gx_hash ctx) draw (gx_now ctx) req db
                      | Some rec \<Rightarrow>
                          if EqualFold (tok_owner_type rec) ''user'' then CreateURLForUser draw (gx_now ctx) (tok_owner_id rec) req db
                          else if EqualFold (tok_owner_type rec) ''org'' then CreateURLForOrg draw (gx_now ctx) (tok_owner_id rec) req db
                          else CreateURL (gx_hash ctx) draw (gx_now ctx) req db) of
                  Inl e \<Rightarrow> (Inl (createURLError e), db)
                | Inr (u, db') \<Rightarrow> (Inr (project (urlToMap u) (Selection f)), db')))"

text \<open>\<open>None\<close> lets the change go on.\<close>

definition checkOwnership :: "gql_context \<Rightarrow> link_db \<Rightarrow> string \<Rightarrow> string option" where
  "checkOwnership ctx db c =
     (case bearerFromRequest ctx of
        None \<Rightarrow> Some ''bearer token required''
      | Some rec \<Rightarrow>
          if EqualFold (tok_owner_type rec) ''admin'' then None
          else
            (case getURLByCodeRaw db c of
               Inl e \<Rightarrow> if e = ErrURLNotFound then Some ''URL not found'' else Some ''failed to load URL''
             | Inr u \<Rightarrow>
                 if EqualFold (tok_owner_type rec) ''org''
                 then (if OrgID u \<noteq> Some (tok_owner_id rec) then Some ''URL not found'' else None)
                 else (if UserID u \<noteq> Some (tok_owner_id rec) then Some ''URL not found'' else None)))"

definition gql_update_request :: "(string \<times> gval) list \<Rightarrow> update_request" where
  "gql_update_request input = no_update\<lparr>ur_long_url := toStringPtr (gql_member input ''url''),
     ur_title := toStringPtr (gql_member input ''title''), ur_description := toStringPtr (gql_member input ''description''),
     ur_password := toStringPtr (gql_member input ''password'')\<rparr>"

definition resolveUpdateURL :: "gql_context \<Rightarrow> astField \<Rightarrow> link_db \<Rightarrow> (string + json) \<times> link_db" where
  "resolveUpdateURL ctx f db =
     (case stringArg ctx f ''code'' of
        Inl e \<Rightarrow> (Inl e, db)
      | Inr c \<Rightarrow>
          (case checkOwnership ctx db c of
             Some e \<Rightarrow> (Inl e, db)
           | None \<Rightarrow>
               (case objectArg ctx f ''input'' of
                  Inl e \<Rightarrow> (Inl e, db)
                | Inr input \<Rightarrow>
                    (case UpdateURL (gx_hash ctx) (gx_now ctx) c (gql_update_request input) db of
                       Inl e \<Rightarrow> (Inl (if e = ErrURLNotFound then ''URL not found'' else ''failed to update URL''), db)
                     | Inr (u, db') \<Rightarrow> (Inr (project (urlToMap u) (Selection f)), db')))))"

definition resolveDeleteURL :: "gql_context \<Rightarrow> astField \<Rightarrow> link_db \<Rightarrow> (string + json) \<times> link_db" where
  "resolveDeleteURL ctx f db =
     (case stringArg ctx f ''code'' of
        Inl e \<Rightarrow> (Inl e, db)
      | Inr c \<Rightarrow>
          (case checkOwnership ctx db c of
             Some e \<Rightarrow> (Inl e, db)
           | None \<Rightarrow>
               (case DeleteURL c db of
                  Inl e \<Rightarrow> (Inl (if e = ErrURLNotFound then ''URL not found'' else ''failed to delete URL''), db)
                | Inr db' \<Rightarrow> (Inr (JBool True), db'))))"

definition resolveMutationField ::
    "gql_context \<Rightarrow> (nat \<Rightarrow> nat \<Rightarrow> nat option) \<Rightarrow> astField \<Rightarrow> link_db \<Rightarrow> (string + json) \<times> link_db" where
  "resolveMutationField ctx draw f db =
     (if Name f = ''createURL'' then resolveCreateURL ctx draw f db
      else if Name f = ''updateURL'' then resolveUpdateURL ctx f db
      else if Name f = ''deleteURL'' then resolveDeleteURL ctx f db
      else (Inl (unknown_field ''mutation'' (Name f)), db))"

section \<open>Documents\<close>

text \<open>
  The fields of the selection in turn, with the data by key and the errors with theirs. The random numbers of a
  field are found by the number of fields after it.
\<close>

fun resolve_fields ::
    "gql_context \<Rightarrow> (nat \<Rightarrow> nat \<Rightarrow> nat \<Rightarrow> nat option) \<Rightarrow> string \<Rightarrow> astField list \<Rightarrow>
     (string \<times> json) list \<times> (string \<times> string) list \<times> link_db \<Rightarrow> (string \<times> json) list \<times> (string \<times> string) list \<times> link_db" where
  "resolve_fields ctx draws op [] s = s"
| "resolve_fields ctx draws op (f # fs) (data, errs, db) =
     (let key = (if Alias f \<noteq> [] then Alias f else Name f);
          (val, db') = (if op = ''mutation'' then resolveMutationField ctx (draws (length fs)) f db
                        else (resolveQueryField ctx f db, db))
      in resolve_fields ctx draws op fs
           (case val of
              Inl e \<Rightarrow> (AList.update key JNull data, errs @ [(key, e)], db')
            | Inr v \<Rightarrow> (AList.update key v data, errs, db')))"

text \<open>The envelope of the answer: null with one error, or the data with the errors, if any, by path.\<close>

datatype gql_answer =
    Gql_Invalid gql_error
  | Gql_No_Fields
  | Gql_Data "(string \<times> json) list" "(string \<times> string) list"

definition Execute ::
    "(string \<Rightarrow> int option) \<Rightarrow> gql_context \<Rightarrow> (nat \<Rightarrow> nat \<Rightarrow> nat \<Rightarrow> nat option) \<Rightarrow> string \<Rightarrow> link_db \<Rightarrow> gql_answer \<times> link_db" where
  "Execute parse_float ctx draws query db =
     (case parse_graphql parse_float query of
        Inl e \<Rightarrow> (Gql_Invalid e, db)
      | Inr doc \<Rightarrow>
          if selection doc = [] then (Gql_No_Fields, db)
          else
            (case resolve_fields ctx draws (operation doc) (selection doc) ([], [], db) of
               (data, errs, db') \<Rightarrow> (Gql_Data data errs, db')))"

section \<open>Handlers\<close>

text \<open>The body of a request: numbers of the variables become floats, of two members with one key the last counts.\<close>

fun json_gval :: "(string \<Rightarrow> int option) \<Rightarrow> json \<Rightarrow> gval option" where
  "json_gval parse_float JNull = Some GNull"
| "json_gval parse_float (JBool b) = Some (GBool b)"
| "json_gval parse_float (JNum n) = map_option GFloat (parse_float (show_int n))"
| "json_gval parse_float (JStr s) = Some (GStr s)"
| "json_gval parse_float (JArr vs) = map_option GList (those (map (json_gval parse_float) vs))"
| "json_gval parse_float (JObj ms) =
     map_option (\<lambda>kvs. GObj (fold (\<lambda>(k, v). AList.update k v) kvs []))
       (those (map (\<lambda>(k, v). map_option (Pair k) (json_gval parse_float v)) ms))"

record gql_body =
  gb_query :: string
  gb_variables :: "(string \<times> gval) list option"

definition gql_body_field :: "(string \<Rightarrow> int option) \<Rightarrow> string \<times> json \<Rightarrow> gql_body \<Rightarrow> gql_body option" where
  "gql_body_field parse_float kv r =
     (let k = ToLower (fst kv)
      in if k = ''query'' then map_option (\<lambda>s. r\<lparr>gb_query := s\<rparr>) (json_string (snd kv) (gb_query r))
         else if k = ''variables'' then
           (case snd kv of
              JNull \<Rightarrow> Some (r\<lparr>gb_variables := None\<rparr>)
            | JObj ms \<Rightarrow>
                map_option (\<lambda>kvs. r\<lparr>gb_variables := Some (fold (\<lambda>(k, v). AList.update k v) kvs
                    (case gb_variables r of None \<Rightarrow> [] | Some old \<Rightarrow> old))\<rparr>)
                  (those (map (\<lambda>(k, v). map_option (Pair k) (json_gval parse_float v)) ms))
            | _ \<Rightarrow> None)
         else Some r)"

text \<open>\<open>None\<close> is the status 400 for a body that cannot be read.\<close>

definition QueryHandler ::
    "(string \<Rightarrow> int option) \<Rightarrow> gql_context \<Rightarrow> (nat \<Rightarrow> nat \<Rightarrow> nat \<Rightarrow> nat option) \<Rightarrow> json option \<Rightarrow> link_db \<Rightarrow>
     gql_answer option \<times> link_db" where
  "QueryHandler parse_float ctx draws body db =
     (case decode_body (gql_body_field parse_float) \<lparr>gb_query = [], gb_variables = None\<rparr> body of
        None \<Rightarrow> (None, db)
      | Some r \<Rightarrow> apfst Some (Execute parse_float (ctx\<lparr>gx_variables := gb_variables r\<rparr>) draws (gb_query r) db))"

text \<open>The console: the result that its page shows, if any. The form is \<open>None\<close> when \<open>ParseForm\<close> fails.\<close>

definition Console_Handler ::
    "(string \<Rightarrow> int option) \<Rightarrow> gql_context \<Rightarrow> (nat \<Rightarrow> nat \<Rightarrow> nat \<Rightarrow> nat option) \<Rightarrow> bool \<Rightarrow> (string \<times> string) list option \<Rightarrow>
     link_db \<Rightarrow> gql_answer option \<times> link_db" where
  "Console_Handler parse_float ctx draws post form db =
     (let query = (if post then (case form of None \<Rightarrow> [] | Some f \<Rightarrow> form_value f ''query'') else [])
      in if query = [] then (None, db)
         else apfst Some (Execute parse_float (ctx\<lparr>gx_variables := None\<rparr>) draws query db))"

end
