(* ===== verification/GraphqlSafety.thy ===== *)
theory GraphqlSafety
  imports GraphqlApi
begin

text \<open>
  The mutations of \<^theory_text>\<open>GraphqlApi\<close> against the links: no document changes a link that its token does not own,
  and each mutation does what the request of the other interface does.
\<close>

section \<open>Only what the token owns\<close>

definition gql_token :: "gql_context \<Rightarrow> token option" where
  "gql_token ctx = map_option token.truncate (bearerFromRequest ctx)"

lemma checkOwnership_iff: "checkOwnership ctx db c = None \<longleftrightarrow> token_owns (gql_token ctx) (look db c)"
  by (auto simp: checkOwnership_def token_owns_def gql_token_def getURLByCodeRaw_look scanURLRow_def token.truncate_def
      split: option.splits)

lemma created_for:
  "(case bearerFromRequest ctx of
      None \<Rightarrow> CreateURL hash draw now' req db
    | Some rec \<Rightarrow>
        if EqualFold (tok_owner_type rec) ''user'' then CreateURLForUser draw now' (tok_owner_id rec) req db
        else if EqualFold (tok_owner_type rec) ''org'' then CreateURLForOrg draw now' (tok_owner_id rec) req db
        else CreateURL hash draw now' req db) = create_for hash draw now' (gql_token ctx) req db"
  by (simp add: create_for_def gql_token_def token.truncate_def split: option.split)

lemma create_for_step:
  assumes "create_for hash draw now' tok req db = Inr (u, db')" and "draws_in_range draw"
  shows "link_step db db'" and "look db d = Some row \<Longrightarrow> look db' d = Some row"
proof -
  show "link_step db db'"
    using assms by (auto simp: create_for_def split: option.splits if_splits
        intro: create_step create_user_step create_org_step)
  obtain r where "insert_row r db = Some db'"
    using assms(1) by (auto simp: create_for_def CreateURL_Inr CreateURLForUser_Inr CreateURLForOrg_Inr split: option.splits if_splits)
  then show "look db d = Some row \<Longrightarrow> look db' d = Some row" using insert_row_Some(1,2) by fastforce
qed

text \<open>One field: it leaves the links alone, creates one, or changes one that its token may change.\<close>

lemma create_field_step:
  assumes "resolveCreateURL ctx draw f db = (v, db')" and "draws_in_range draw"
  shows "db' = db \<or> link_step db db'" and "look db d = Some row \<Longrightarrow> look db' d = Some row"
proof -
  have "db' = db \<or> (\<exists>u req. create_for (gx_hash ctx) draw (gx_now ctx) (gql_token ctx) req db = Inr (u, db'))"
  proof (cases "objectArg ctx f ''input''")
    case (Inr input)
    define req where "req = gql_create_request input"
    define res where "res = create_for (gx_hash ctx) draw (gx_now ctx) (gql_token ctx) req db"
    have r: "resolveCreateURL ctx draw f db =
        (if cr_long_url req = [] then (Inl ''input.url is required'', db)
         else case res of Inl e \<Rightarrow> (Inl (createURLError e), db) | Inr (u, d) \<Rightarrow> (Inr (project (urlToMap u) (Selection f)), d))"
      unfolding resolveCreateURL_def Inr sum.case Let_def created_for res_def req_def ..
    show ?thesis
    proof (cases "cr_long_url req = [] \<or> (\<exists>e. res = Inl e)")
      case True
      then show ?thesis using assms(1) r by (auto split: if_splits)
    next
      case False
      then obtain u d where "res = Inr (u, d)" by (cases res) auto
      then have "create_for (gx_hash ctx) draw (gx_now ctx) (gql_token ctx) req db = Inr (u, db')"
        using assms(1) r False by (simp add: res_def)
      then show ?thesis by blast
    qed
  qed (use assms(1) in \<open>simp add: resolveCreateURL_def\<close>)
  then consider "db' = db" | u req where "create_for (gx_hash ctx) draw (gx_now ctx) (gql_token ctx) req db = Inr (u, db')" by blast
  then have "(db' = db \<or> link_step db db') \<and> (look db d = Some row \<longrightarrow> look db' d = Some row)"
  proof cases
    case 2
    show ?thesis using create_for_step [OF 2 assms(2)] by blast
  qed simp
  then show "db' = db \<or> link_step db db'" and "look db d = Some row \<Longrightarrow> look db' d = Some row" by blast+
qed

lemma update_cases:
  assumes "resolveUpdateURL ctx f db = (v, db')" and "db' \<noteq> db"
  obtains c u req where "checkOwnership ctx db c = None" and "UpdateURL (gx_hash ctx) (gx_now ctx) c req db = Inr (u, db')"
proof -
  obtain c where c: "stringArg ctx f ''code'' = Inr c" "checkOwnership ctx db c = None"
    using assms by (auto simp: resolveUpdateURL_def split: sum.splits option.splits)
  obtain input where i: "objectArg ctx f ''input'' = Inr input"
    using assms c by (cases "objectArg ctx f ''input''") (simp_all add: resolveUpdateURL_def)
  have "UpdateURL (gx_hash ctx) (gx_now ctx) c (gql_update_request input) db \<noteq> Inl e" for e
    using assms c i by (auto simp: resolveUpdateURL_def)
  then obtain u d where u: "UpdateURL (gx_hash ctx) (gx_now ctx) c (gql_update_request input) db = Inr (u, d)"
    by (cases "UpdateURL (gx_hash ctx) (gx_now ctx) c (gql_update_request input) db") auto
  then have "d = db'" using assms(1) c i by (simp add: resolveUpdateURL_def)
  then show ?thesis using that c(2) u by blast
qed

lemma delete_cases:
  assumes "resolveDeleteURL ctx f db = (v, db')" and "db' \<noteq> db"
  obtains c where "checkOwnership ctx db c = None" and "DeleteURL c db = Inr db'"
proof -
  obtain c where c: "stringArg ctx f ''code'' = Inr c" "checkOwnership ctx db c = None"
    using assms by (auto simp: resolveDeleteURL_def split: sum.splits option.splits)
  then show ?thesis using that assms by (cases "DeleteURL c db") (auto simp: resolveDeleteURL_def)
qed

lemma change_field_step:
  assumes "resolveUpdateURL ctx f db = (v, db') \<or> resolveDeleteURL ctx f db = (v, db')"
  shows "db' = db \<or> link_step db db'"
    and "\<not> token_owns (gql_token ctx) (look db d) \<Longrightarrow> look db' d = look db d"
proof -
  have "db' = db \<or> link_step db db' \<and> (\<not> token_owns (gql_token ctx) (look db d) \<longrightarrow> look db' d = look db d)"
  proof (cases "db' = db")
    case ne: False
    from assms have "link_step db db' \<and> (\<not> token_owns (gql_token ctx) (look db d) \<longrightarrow> look db' d = look db d)"
    proof
      assume "resolveUpdateURL ctx f db = (v, db')"
      then obtain c u req where u: "checkOwnership ctx db c = None" "UpdateURL (gx_hash ctx) (gx_now ctx) c req db = Inr (u, db')"
        using ne by (rule update_cases)
      have "look db' d = look db d" if "\<not> token_owns (gql_token ctx) (look db d)"
        using UpdateURL_frame [OF u(2), of d] u(1) that checkOwnership_iff [of ctx db c] by metis
      then show ?thesis using update_step [OF u(2)] by blast
    next
      assume "resolveDeleteURL ctx f db = (v, db')"
      then obtain c where u: "checkOwnership ctx db c = None" "DeleteURL c db = Inr db'" using ne by (rule delete_cases)
      have "look db' d = look db d" if "\<not> token_owns (gql_token ctx) (look db d)"
        using DeleteURL_frame [OF u(2), of d] u(1) that checkOwnership_iff [of ctx db c] by metis
      then show ?thesis using link_step.delete_step [OF u(2)] by blast
    qed
    then show ?thesis by blast
  qed simp
  then show "db' = db \<or> link_step db db'" and "\<not> token_owns (gql_token ctx) (look db d) \<Longrightarrow> look db' d = look db d" by auto
qed

lemma field_step:
  assumes "resolveMutationField ctx draw f db = (v, db')" and "draws_in_range draw"
  shows "db' = db \<or> link_step db db'"
    and "\<lbrakk>look db d = Some row; \<not> token_owns (gql_token ctx) (Some row)\<rbrakk> \<Longrightarrow> look db' d = Some row"
proof -
  consider "resolveCreateURL ctx draw f db = (v, db')" | "resolveUpdateURL ctx f db = (v, db') \<or> resolveDeleteURL ctx f db = (v, db')"
    | "db' = db"
    using assms(1) unfolding resolveMutationField_def by (simp split: if_splits)
  then have "(db' = db \<or> link_step db db') \<and> (look db d = Some row \<longrightarrow> \<not> token_owns (gql_token ctx) (Some row) \<longrightarrow> look db' d = Some row)"
  proof cases
    case 1
    show ?thesis using create_field_step [OF 1 assms(2)] by blast
  next
    case 2
    show ?thesis using change_field_step(1) [OF 2] change_field_step(2) [OF 2, of d] by metis
  qed simp
  then show "db' = db \<or> link_step db db'"
    and "\<lbrakk>look db d = Some row; \<not> token_owns (gql_token ctx) (Some row)\<rbrakk> \<Longrightarrow> look db' d = Some row" by blast+
qed

lemma fields_step:
  assumes "resolve_fields ctx draws op fs (data, errs, db) = (data', errs', db')" and "\<And>k. draws_in_range (draws k)"
  shows "reachable_db db \<Longrightarrow> reachable_db db'"
    and "\<lbrakk>look db d = Some row; \<not> token_owns (gql_token ctx) (Some row)\<rbrakk> \<Longrightarrow> look db' d = Some row"
    and "op \<noteq> ''mutation'' \<Longrightarrow> db' = db"
proof -
  have "(reachable_db db \<longrightarrow> reachable_db db') \<and>
      (look db d = Some row \<and> \<not> token_owns (gql_token ctx) (Some row) \<longrightarrow> look db' d = Some row) \<and>
      (op \<noteq> ''mutation'' \<longrightarrow> db' = db)"
    using assms(1)
  proof (induction fs arbitrary: data errs db)
    case (Cons f fs)
    obtain v db1 where s: "(if op = ''mutation'' then resolveMutationField ctx (draws (length fs)) f db
        else (resolveQueryField ctx f db, db)) = (v, db1)" by fastforce
    obtain data1 errs1 where r: "resolve_fields ctx draws op fs (data1, errs1, db1) = (data', errs', db')"
      using Cons.prems s by (cases v) (auto simp: Let_def split: prod.splits)
    have "db1 = db \<or> link_step db db1"
      "look db d = Some row \<Longrightarrow> \<not> token_owns (gql_token ctx) (Some row) \<Longrightarrow> look db1 d = Some row"
      "op \<noteq> ''mutation'' \<Longrightarrow> db1 = db"
      using s field_step [OF _ assms(2), of ctx "length fs" f db v db1] by (auto split: if_splits)
    then show ?case using Cons.IH [OF r] next_db by auto
  qed simp
  then show "reachable_db db \<Longrightarrow> reachable_db db'"
    and "\<lbrakk>look db d = Some row; \<not> token_owns (gql_token ctx) (Some row)\<rbrakk> \<Longrightarrow> look db' d = Some row"
    and "op \<noteq> ''mutation'' \<Longrightarrow> db' = db" by auto
qed

text \<open>
  C6 (graphql_changes_only_owned). Whatever document is sent, with whatever variables, a link that the token of the request does not own stays
  exactly as it was, whoever the request claims to be, and the links stay sound.
\<close>

theorem graphql_changes_only_owned:
  assumes "\<And>k. draws_in_range (draws k)" and "reachable_db db"
    and "getURLByCodeRaw db c = Inr u" and "\<not> token_owns (gql_token ctx) (look db c)"
  shows "getURLByCodeRaw (snd (Execute parse_float ctx draws query db)) c = Inr u \<and>
    reachable_db (snd (Execute parse_float ctx draws query db))"
proof (cases "parse_graphql parse_float query")
  case (Inr doc)
  obtain data errs db' where r: "resolve_fields ctx draws (operation doc) (selection doc) ([], [], db) = (data, errs, db')"
    using prod_cases3 by blast
  obtain row where row: "look db c = Some row" using assms(3) by (auto simp: getURLByCodeRaw_look split: option.splits)
  note step = fields_step [OF r assms(1)]
  have "look db' c = look db c" using step(2) [OF row] assms(4) row by simp
  then show ?thesis using step(1) [OF assms(2)] assms(2,3) Inr r by (simp add: Execute_def getURLByCodeRaw_look)
qed (use assms in \<open>simp add: Execute_def\<close>)


section \<open>The same changes as the other interface\<close>

text \<open>The members of an input that are texts or null, and the JSON object with the same members.\<close>

definition text_literal :: "valueNode \<Rightarrow> bool" where
  "text_literal v \<longleftrightarrow> (case v of StringV s \<Rightarrow> True | NullV \<Rightarrow> True | _ \<Rightarrow> False)"

definition text_json :: "valueNode \<Rightarrow> json" where
  "text_json v = (case v of StringV s \<Rightarrow> JStr s | _ \<Rightarrow> JNull)"

definition text_input :: "string list \<Rightarrow> (string \<times> valueNode) list \<Rightarrow> bool" where
  "text_input ks ms \<longleftrightarrow> distinct (map fst ms) \<and> list_all (\<lambda>(k, v). k \<in> set ks \<and> text_literal v) ms"

definition json_input :: "(string \<times> valueNode) list \<Rightarrow> json" where
  "json_input ms = JObj (map (\<lambda>(k, v). (k, text_json v)) ms)"

definition update_keys :: "string list" where
  "update_keys = [''url'', ''title'', ''description'', ''password'']"

definition create_keys :: "string list" where
  "create_keys = [''url'', ''custom_code'', ''title'', ''description'', ''password'', ''expire_after'']"

definition text_of :: "(string \<times> valueNode) list \<Rightarrow> string \<Rightarrow> string option" where
  "text_of ms k = (case map_of ms k of Some (StringV s) \<Rightarrow> Some s | _ \<Rightarrow> None)"

text \<open>A member that is there counts, else the old value does; null clears a pointer and leaves a text.\<close>

definition or_old :: "(string \<times> valueNode) list \<Rightarrow> string \<Rightarrow> string option \<Rightarrow> string option" where
  "or_old ms k old = (case map_of ms k of None \<Rightarrow> old | Some v \<Rightarrow> text_of ms k)"

definition text_or :: "(string \<times> valueNode) list \<Rightarrow> string \<Rightarrow> string \<Rightarrow> string" where
  "text_or ms k old = (case text_of ms k of None \<Rightarrow> old | Some s \<Rightarrow> s)"

lemma map_of_fresh: "k \<notin> fst ` set ms \<Longrightarrow> map_of ms k = None"
  by (simp add: map_of_eq_None_iff)

lemma low_keys: "ToLower ''url'' = ''url''" "ToLower ''title'' = ''title''" "ToLower ''description'' = ''description''"
  "ToLower ''password'' = ''password''" "ToLower ''custom_code'' = ''custom_code''" "ToLower ''expire_after'' = ''expire_after''"
  by (simp_all add: ToLower_def is_upper_def)

lemma update_field_key:
  "update_field pt (''url'', v) r = map_option (\<lambda>s. r\<lparr>ur_long_url := s\<rparr>) (json_pointer v)"
  "update_field pt (''title'', v) r = map_option (\<lambda>s. r\<lparr>ur_title := s\<rparr>) (json_pointer v)"
  "update_field pt (''description'', v) r = map_option (\<lambda>s. r\<lparr>ur_description := s\<rparr>) (json_pointer v)"
  "update_field pt (''password'', v) r = map_option (\<lambda>s. r\<lparr>ur_password := s\<rparr>) (json_pointer v)"
  unfolding update_field_def Let_def fst_conv snd_conv low_keys by simp_all

lemma create_field_key:
  "create_field pt (''url'', v) r = map_option (\<lambda>s. r\<lparr>cr_long_url := s\<rparr>) (json_string v (cr_long_url r))"
  "create_field pt (''custom_code'', v) r = map_option (\<lambda>s. r\<lparr>cr_custom_code := s\<rparr>) (json_string v (cr_custom_code r))"
  "create_field pt (''title'', v) r = map_option (\<lambda>s. r\<lparr>cr_title := s\<rparr>) (json_pointer v)"
  "create_field pt (''description'', v) r = map_option (\<lambda>s. r\<lparr>cr_description := s\<rparr>) (json_pointer v)"
  "create_field pt (''password'', v) r = map_option (\<lambda>s. r\<lparr>cr_password := s\<rparr>) (json_string v (cr_password r))"
  "create_field pt (''expire_after'', v) r = map_option (\<lambda>s. r\<lparr>cr_expire_after := s\<rparr>) (json_string v (cr_expire_after r))"
  unfolding create_field_def Let_def fst_conv snd_conv low_keys by simp_all

definition literal_text :: "valueNode \<Rightarrow> string option" where
  "literal_text v = (case v of StringV s \<Rightarrow> Some s | _ \<Rightarrow> None)"

lemma text_json_read:
  assumes "text_literal v"
  shows "json_pointer (text_json v) = Some (literal_text v)"
    and "json_string (text_json v) old = Some (case literal_text v of None \<Rightarrow> old | Some s \<Rightarrow> s)"
  using assms by (cases v; simp add: text_literal_def text_json_def literal_text_def)+

lemma or_old_Cons: "or_old ((k, v) # ms) k' old = (if k' = k then literal_text v else or_old ms k' old)"
  by (auto simp: or_old_def text_of_def literal_text_def split: option.split)

lemma text_or_Cons:
  "text_or ((k, v) # ms) k' old = (if k' = k then (case literal_text v of None \<Rightarrow> old | Some s \<Rightarrow> s) else text_or ms k' old)"
  by (simp add: text_or_def text_of_def literal_text_def)

lemma or_old_fresh: "map_of ms k = None \<Longrightarrow> or_old ms k old = old" "map_of ms k = None \<Longrightarrow> text_or ms k t = t"
  by (simp_all add: or_old_def text_or_def text_of_def)

lemma update_decoded:
  assumes "text_input update_keys ms"
  shows "decode_members (update_field pt) (map (\<lambda>(k, v). (k, text_json v)) ms) r =
    Some (r\<lparr>ur_long_url := or_old ms ''url'' (ur_long_url r), ur_title := or_old ms ''title'' (ur_title r),
      ur_description := or_old ms ''description'' (ur_description r), ur_password := or_old ms ''password'' (ur_password r)\<rparr>)"
  using assms
proof (induction ms arbitrary: r)
  case (Cons kv ms)
  obtain k v where kv: "kv = (k, v)" by (cases kv)
  have new: "map_of ms k = None" and t: "text_literal v" and rest: "text_input update_keys ms"
    using Cons.prems kv by (auto simp: text_input_def map_of_fresh)
  consider "k = ''url''" | "k = ''title''" | "k = ''description''" | "k = ''password''"
    using Cons.prems kv by (auto simp: text_input_def update_keys_def)
  then show ?case
    using new by cases (simp_all add: kv Cons.IH [OF rest] update_field_key text_json_read [OF t] or_old_Cons or_old_fresh)
qed (simp add: or_old_def)

lemma create_decoded:
  assumes "text_input create_keys ms"
  shows "decode_members (create_field pt) (map (\<lambda>(k, v). (k, text_json v)) ms) r =
    Some (r\<lparr>cr_long_url := text_or ms ''url'' (cr_long_url r), cr_custom_code := text_or ms ''custom_code'' (cr_custom_code r),
      cr_title := or_old ms ''title'' (cr_title r), cr_description := or_old ms ''description'' (cr_description r),
      cr_password := text_or ms ''password'' (cr_password r), cr_expire_after := text_or ms ''expire_after'' (cr_expire_after r)\<rparr>)"
  using assms
proof (induction ms arbitrary: r)
  case (Cons kv ms)
  obtain k v where kv: "kv = (k, v)" by (cases kv)
  have new: "map_of ms k = None" and t: "text_literal v" and rest: "text_input create_keys ms"
    using Cons.prems kv by (auto simp: text_input_def map_of_fresh)
  have "k \<in> set create_keys" using Cons.prems kv by (simp add: text_input_def)
  then have "k = ''url'' \<or> k = ''custom_code'' \<or> k = ''title'' \<or> k = ''description'' \<or> k = ''password'' \<or> k = ''expire_after''"
    unfolding create_keys_def list.set insert_iff empty_iff by (simp only: simp_thms)
  then show ?case
    using new
    by (elim disjE) (simp_all add: kv Cons.IH [OF rest] create_field_key text_json_read [OF t] or_old_Cons text_or_Cons or_old_fresh)
qed (simp add: or_old_def text_or_def text_of_def)

lemma input_member:
  assumes "text_input ks ms"
  shows "toStringPtr (gql_member (map (\<lambda>(k, v). (k, resolve vars v)) ms) k) = text_of ms k"
    and "toString (gql_member (map (\<lambda>(k, v). (k, resolve vars v)) ms) k) = text_or ms k []"
proof -
  have m: "map_of (map (\<lambda>(k, v). (k, resolve vars v)) ms) k = map_option (resolve vars) (map_of ms k)"
    by (induction ms) auto
  have t: "map_of ms k = Some v \<Longrightarrow> text_literal v" for v
    using assms map_of_SomeD by (fastforce simp: text_input_def list_all_iff)
  show "toStringPtr (gql_member (map (\<lambda>(k, v). (k, resolve vars v)) ms) k) = text_of ms k"
    unfolding gql_member_def m text_of_def toStringPtr_def using t
    by (auto simp: text_literal_def split: option.splits valueNode.splits)
  show "toString (gql_member (map (\<lambda>(k, v). (k, resolve vars v)) ms) k) = text_or ms k []"
    unfolding gql_member_def m text_or_def text_of_def toString_def using t
    by (auto simp: text_literal_def split: option.splits valueNode.splits)
qed

lemma same_update_request:
  assumes "text_input update_keys ms"
  shows "decode_body (update_field pt) no_update (Some (json_input ms)) =
    Some (gql_update_request (map (\<lambda>(k, v). (k, resolve vars v)) ms))"
  using update_decoded [OF assms, of pt no_update]
  by (simp add: decode_body_def json_input_def gql_update_request_def input_member [OF assms])
    (simp add: no_update_def or_old_def text_of_def split: option.split)

lemma same_create_request:
  assumes "text_input create_keys ms"
  shows "decode_body (create_field pt) empty_request (Some (json_input ms)) =
    Some (gql_create_request (map (\<lambda>(k, v). (k, resolve vars v)) ms))"
  using create_decoded [OF assms, of pt empty_request]
  by (simp add: decode_body_def json_input_def gql_create_request_def input_member [OF assms])
    (simp add: empty_request_def or_old_def text_of_def split: option.split)

text \<open>Both leave the same links behind, and both refuse or neither does.\<close>

definition same_outcome :: "(string + json) \<times> link_db \<Rightarrow> api_response \<times> link_db \<Rightarrow> bool" where
  "same_outcome a b \<longleftrightarrow> snd a = snd b \<and> ((\<exists>e. fst a = Inl e) \<longleftrightarrow> (\<exists>status m. fst b = Api_Error status m))"

lemma same_check: "checkOwnership ctx db c = None \<longleftrightarrow> checkURLOwnership (gql_token ctx) db c = None"
  using checkOwnership_iff checkURLOwnership_iff by blast

lemma refused_is_error: "checkURLOwnership tok db c = Some r \<Longrightarrow> \<exists>status m. r = Api_Error status m"
  by (auto simp: checkURLOwnership_def split: option.splits sum.splits if_splits)

lemma code_argument:
  "stringArg ctx (AstField al name ((''code'', StringV c) # args) sel) ''code'' = (if c = [] then Inl (gql_required ''code'') else Inr c)"
  by (simp add: stringArg_def argValue_def toString_def)

lemma input_argument:
  "objectArg ctx (AstField al name [(''code'', v), (''input'', ObjectV ms)] sel) ''input'' = Inr (map (\<lambda>(k, v). (k, resolve (gx_variables ctx) v)) ms)"
  "objectArg ctx (AstField al name [(''input'', ObjectV ms)] sel) ''input'' = Inr (map (\<lambda>(k, v). (k, resolve (gx_variables ctx) v)) ms)"
  by (simp_all add: objectArg_def argValue_def)

lemma same_delete:
  "same_outcome (resolveDeleteURL ctx (AstField al name [(''code'', StringV c)] sel) db) (DeleteURL_handler (gql_token ctx) c db)"
proof (cases "c = [] \<or> checkURLOwnership (gql_token ctx) db c \<noteq> None")
  case True
  then show ?thesis
    using same_check [of ctx db c] refused_is_error
    by (auto simp: same_outcome_def resolveDeleteURL_def DeleteURL_handler_def code_argument)
next
  case False
  then show ?thesis
    using same_check [of ctx db c]
    by (cases "DeleteURL c db") (simp_all add: same_outcome_def resolveDeleteURL_def DeleteURL_handler_def code_argument)
qed

lemma same_update:
  assumes "text_input update_keys ms"
  shows "same_outcome (resolveUpdateURL ctx (AstField al name [(''code'', StringV c), (''input'', ObjectV ms)] sel) db)
    (UpdateURL_handler (gx_hash ctx) pt (gx_now ctx) (gql_token ctx) (Some (json_input ms)) c db)"
proof (cases "c = [] \<or> checkURLOwnership (gql_token ctx) db c \<noteq> None")
  case True
  then show ?thesis
    using same_check [of ctx db c] refused_is_error
    by (auto simp: same_outcome_def resolveUpdateURL_def UpdateURL_handler_def code_argument)
next
  case False
  let ?req = "gql_update_request (map (\<lambda>(k, v). (k, resolve (gx_variables ctx) v)) ms)"
  have "checkOwnership ctx db c = None" using False same_check by blast
  then show ?thesis
    using False same_update_request [OF assms, of pt "gx_variables ctx"]
    by (cases "UpdateURL (gx_hash ctx) (gx_now ctx) c ?req db")
      (auto simp: same_outcome_def resolveUpdateURL_def UpdateURL_handler_def code_argument input_argument)
qed

lemma same_create:
  assumes "text_input create_keys ms"
  shows "same_outcome (resolveCreateURL ctx draw (AstField al name [(''input'', ObjectV ms)] sel) db)
    (CreateURL_handler (gx_hash ctx) draw pt (gx_now ctx)
       \<lparr>cc_content_type = ''application/json'', cc_form = None, cc_body = Some (json_input ms), cc_token = gql_token ctx\<rparr> db)"
proof -
  define req where "req = gql_create_request (map (\<lambda>(k, v). (k, resolve (gx_variables ctx) v)) ms)"
  define res where "res = create_for (gx_hash ctx) draw (gx_now ctx) (gql_token ctx) req db"
  have g: "resolveCreateURL ctx draw (AstField al name [(''input'', ObjectV ms)] sel) db =
      (if cr_long_url req = [] then (Inl ''input.url is required'', db)
       else case res of Inl e \<Rightarrow> (Inl (createURLError e), db) | Inr (u, d) \<Rightarrow> (Inr (project (urlToMap u) sel), d))"
    unfolding resolveCreateURL_def input_argument sum.case Let_def created_for res_def req_def astField.sel ..
  have f: "\<not> form_content ''application/json''" by (simp add: form_content_def)
  have r: "CreateURL_handler (gx_hash ctx) draw pt (gx_now ctx)
       \<lparr>cc_content_type = ''application/json'', cc_form = None, cc_body = Some (json_input ms), cc_token = gql_token ctx\<rparr> db =
      (case res of Inl e \<Rightarrow> (create_error e, db) | Inr (u, d) \<Rightarrow> (Api_Link 201 u, d))"
    unfolding CreateURL_handler_def create_call.simps if_not_P [OF f] same_create_request [OF assms, of pt "gx_variables ctx"]
      option.case sum.case res_def req_def ..
  have none: "cr_long_url req = [] \<Longrightarrow> res = Inl ErrInvalidURL" unfolding res_def by (rule rejected_without_url)
  have err: "\<exists>status m. create_error e = Api_Error status m" for e by (simp add: create_error_def)
  show ?thesis
    unfolding g r using none err by (cases res) (auto simp: same_outcome_def)
qed


section \<open>Samples\<close>

definition sample_info :: gql_info where
  "sample_info = \<lparr>gi_version = ''1'', gi_commit = [], gi_build_date = [], gi_mode = ''production'', gi_go_version = [], gi_os = [], gi_arch = []\<rparr>"

text \<open>A request with the token of user 8.\<close>

definition sample_context :: gql_context where
  "sample_context = \<lparr>gx_token_hash = (\<lambda>s. s),
     gx_tokens = \<lparr>token_rows = [(1, \<lparr>owner_type = ''user'', owner_id = 8, token_name = ''n'', token_hash = ''usr_k'',
       token_prefix = ''usr_k'', scope = ''global'', expires_at_time = None, created_time = 0, last_used_at = None\<rparr>)],
       next_token = 2, api_tokens = []\<rparr>,
     gx_authorization = ''Bearer usr_k'', gx_variables = None, gx_now = 5, gx_uptime = 0, gx_info = sample_info, gx_hash = Some\<rparr>"

lemma sample_token: "gql_token sample_context = Some \<lparr>tok_owner_type = ''user'', tok_owner_id = 8\<rparr>"
  by (simp add: gql_token_def bearerFromRequest_def sample_context_def HasPrefix_def ValidateToken_def find_token_def
      row_record_def token.truncate_def)

definition delete_abc :: astDocument where
  "delete_abc = \<lparr>operation = ''mutation'', selection = [AstField [] ''deleteURL'' [(''code'', StringV ''abc'')] []]\<rparr>"

theorem graphql_changes_only_owned_witness:
  "\<exists>u db w. CreateURLForUser never_draws 0 7 (plain_request ''http://a.io/'' ''abc'') no_links = Inr (u, db) \<and>
     getURLByCodeRaw db ''abc'' = Inr w \<and>
     getURLByCodeRaw (snd (Execute (\<lambda>s. None) sample_context (\<lambda>k. never_draws) (print_document delete_abc) db)) ''abc'' = Inr w"
proof -
  obtain u db where c: "CreateURLForUser never_draws 0 7 (plain_request ''http://a.io/'' ''abc'') no_links = Inr (u, db)"
    and l: "map_option user_id (look db ''abc'') = Some (Some 7)"
    using sample_owner by blast
  obtain w where w: "getURLByCodeRaw db ''abc'' = Inr w" using l by (auto simp: getURLByCodeRaw_look)
  have r: "reachable_db db" by (rule next_db [OF empty_db create_user_step [OF never_draws_in_range c]])
  have "\<not> token_owns (gql_token sample_context) (look db ''abc'')"
    using l by (auto simp: sample_token token_owns_def EqualFold_def ToLower_def is_upper_def)
  from graphql_changes_only_owned [of "\<lambda>k. never_draws", OF never_draws_in_range r w this] show ?thesis using c w by blast
qed


section \<open>What the parser forgets\<close>

text \<open>
  Directives are read and forgotten, so that a field to be skipped is executed, mutations too; and so
  are default values, which leaves a variable that is not sent null.
\<close>

lemma skipped_is_executed:
  "parse_graphql (\<lambda>s. None) ''mutation { deleteURL(code: \"abc\") @skip(if: true) }'' = Inr delete_abc"
  by code_simp

lemma default_is_dropped:
  "parse_graphql (\<lambda>s. None) ''query ($n: Int = 5) { urls(limit: $n) }'' =
     Inr \<lparr>operation = ''query'', selection = [AstField [] ''urls'' [(''limit'', Var ''n'')] []]\<rparr>"
  by code_simp

end
