(* ===== verification/Spec2Isabelle.thy ===== *)
theory Spec2Isabelle
  imports LinkRedirect LinkApi Theme CsrfRoundTrip CopyButtons ConfirmDialog FlashDismiss PwaInstall OrgSlug CreateForm
    RecoveryKeys Passkeys Consent ServiceWorker LimiterLog CronParse CronNext SchedulerRuns SchedulerLock TokenLife InviteUse PathRedirects TotpSafety DomainHandlers DomainLinks
    LinkBulk ClusterTokens GraphqlSafety
begin

text \<open>
  Caslink is a link shortener: a Go server (\<^verbatim>\<open>src/server\<close>, \<^verbatim>\<open>src/scheduler\<close>) that renders pages over
  SQLite tables, and in the browser a page script (\<^verbatim>\<open>src/server/tmpl/static/js/app.js\<close>) and a service
  worker (\<^verbatim>\<open>sw.js\<close> beside it). A request passes the middlewares (normalised and checked path, rate
  limit, custom domain of the host, CSRF token, session or bearer token), a handler calls the
  services, and the services change the tables; pages carry the CSRF token that the script sends back; the
  scheduler runs tasks over the same tables from every node. This development models both scripts and
  those parts of the server in which the decisions are taken.

  How the model reads. A table is a record field holding rows under their ids or keys, an
  operation is a function from the state to an error or an answer and the new state, an
  error is a value of a datatype named after the Go errors, a browser object is a record, a timer is an entry of a
  queue. Integers are \<open>int\<close> or \<open>nat\<close> where nothing wraps and wrap around explicitly in \<^theory_text>\<open>GoTime\<close>,
  \<^theory_text>\<open>Cron\<close> and the timers; bytes of Base64 are words. Times are seconds, nanoseconds or milliseconds and
  arguments of the operations, as are random bytes and draws. Names are those of the sources.

  \<^bold>\<open>Shared theories.\<close> \<^theory_text>\<open>Prelude\<close> (collections \<open>eval_simps\<close> for evaluating closed terms and
  \<open>text_simps\<close> for text), \<^theory_text>\<open>JSStrings\<close> and \<^theory_text>\<open>GoStrings\<close> (string functions of the two standard libraries),
  \<^theory_text>\<open>JSON\<close>, \<^theory_text>\<open>Base64\<close>, \<^theory_text>\<open>Base32\<close>, \<^theory_text>\<open>FormEncoding\<close>, \<^theory_text>\<open>GoURL\<close>, \<^theory_text>\<open>GoURLHost\<close>, \<^theory_text>\<open>GoTime\<close> (what the sources use of JSON,
  encodings, \<open>net/url\<close>, \<open>strconv\<close> and \<open>time\<close>, with round trips where the clients need them),
  \<^theory_text>\<open>CookieJar\<close> and \<^theory_text>\<open>CookieHeader\<close> (cookies from \<open>Set-Cookie\<close> to the header the server reads).

  \<^bold>\<open>Interfaces.\<close> Locales state what one part promises another, and each is interpreted on the model:
  \<open>codec\<close> and \<open>codec_chain\<close> (decoding undoes encoding: Base64, base64url, JSON, URL components,
  query escapes), \<open>key_store\<close> (the last write is read: tables, cookie jar, local storage),
  \<open>timer_client\<close> and \<open>one_shot_client\<close> (actions of a component leave less work on the queue, so the
  time can pass: flash messages, copy buttons, create form, recovery keys, passkeys),
  \<open>double_submit\<close> (script and server read the token that was issued last), \<open>slug_source\<close> and
  \<open>trimmed_slug_source\<close> (what slugs look like: the form's and the server's), \<open>guarded_change\<close> (a call
  changes only what its caller owns: the API and the web pages), \<open>lease\<close> (a lock that expires: task locks),
  \<open>timed_cache\<close> (entries count for a while: the cache of hosts).

  \<^bold>\<open>The page script, \<^verbatim>\<open>app.js\<close>.\<close> \<^theory_text>\<open>Theme\<close> (applyTheme, cycleTheme and the buttons: document, cookie,
  storage and button agree), \<^theory_text>\<open>CsrfClient\<close> (getCSRFToken, the patched fetch), \<^theory_text>\<open>EventLoop\<close> (timers),
  \<^theory_text>\<open>CopyButtons\<close>, \<^theory_text>\<open>FlashDismiss\<close>, \<^theory_text>\<open>ConfirmDialog\<close> (the confirm-before-submit forms, refined to "the forms that
  were confirmed, in order"), \<^theory_text>\<open>PwaInstall\<close>, \<^theory_text>\<open>OrgSlug\<close> (the slug of the form against the server's),
  \<^theory_text>\<open>CreateForm\<close>, \<^theory_text>\<open>RecoveryKeys\<close>, \<^theory_text>\<open>Passkeys\<close> (the registration chain, to success or to an error with the
  button enabled), \<^theory_text>\<open>Consent\<close> (banner and handler). \<^theory_text>\<open>ServiceWorker\<close> is \<^verbatim>\<open>sw.js\<close>: install, activate, fetch.

  \<^bold>\<open>Requests.\<close> \<^theory_text>\<open>CsrfServer\<close> and \<^theory_text>\<open>CsrfRoundTrip\<close> (the middleware, alone and with the script),
  \<^theory_text>\<open>PathMiddleware\<close>, \<^theory_text>\<open>PathSafety\<close>, \<^theory_text>\<open>PathRedirects\<close> (URL normalisation and path checks of
  \<^verbatim>\<open>middleware.go\<close>: accepted paths are clean, redirects end), \<^theory_text>\<open>RateLimit\<close> and \<^theory_text>\<open>LimiterLog\<close> (client
  addresses, buckets; equivalence with a log that forgets nothing).

  \<^bold>\<open>Links.\<close> \<^theory_text>\<open>Links\<close>, \<^theory_text>\<open>LinkCodes\<close>, \<^theory_text>\<open>LinkStore\<close> (\<^verbatim>\<open>service/url.go\<close>: creation, lookup, update, deletion, expiry; every
  stored link stays sound), \<^theory_text>\<open>LinkTarget\<close> and \<^theory_text>\<open>LinkRedirect\<close> (exactly which visits are redirected, and
  where), \<^theory_text>\<open>LinkApi\<close> (the handlers of \<^verbatim>\<open>handler/url.go\<close>: only owners change links),
  \<^theory_text>\<open>LinkClicks\<close> (clicks, lists, and the statistics of \<^verbatim>\<open>service/analytics.go\<close>: totals count exactly the redirects),
  \<^theory_text>\<open>Csv\<close> and \<^theory_text>\<open>LinkBulk\<close> (\<^verbatim>\<open>service/bulk.go\<close>: imports only add links; an export is read back, but
  cannot be imported), \<^theory_text>\<open>Graphql\<close> (lexer and parser of \<^verbatim>\<open>src/graphql\<close>), \<^theory_text>\<open>GraphqlText\<close> (the parser ends, and reads
  back what is printed), \<^theory_text>\<open>GraphqlApi\<close> and \<^theory_text>\<open>GraphqlSafety\<close> (resolvers and handlers: a document changes only the
  links of its token, and each mutation does what the other interface does).

  \<^bold>\<open>Organisations, tokens, invites.\<close> \<^theory_text>\<open>Validate\<close>, \<^theory_text>\<open>Orgs\<close>, \<^theory_text>\<open>OrgOwnership\<close> (\<^verbatim>\<open>service/org.go\<close>: one owner),
  \<^theory_text>\<open>Tokens\<close> and \<^theory_text>\<open>TokenLife\<close> (\<^verbatim>\<open>service/token.go\<close>: a token works until it expires or is revoked),
  \<^theory_text>\<open>Invites\<close> and \<^theory_text>\<open>InviteUse\<close> (\<^verbatim>\<open>service/invite.go\<close>: no interleaving uses an invite too often),
  \<^theory_text>\<open>ClusterTokens\<close> (\<^verbatim>\<open>service/cluster.go\<close>: a token for joining the cluster is redeemed once).

  \<^bold>\<open>Accounts.\<close> \<^theory_text>\<open>PasswordHash\<close>, \<^theory_text>\<open>Auth\<close>, \<^theory_text>\<open>AuthHandlers\<close>, \<^theory_text>\<open>AuthSafety\<close> (\<^verbatim>\<open>service/auth.go\<close> and the handlers of log-in,
  registration and password: unique accounts, how long a log-in lasts, what a reset ends), \<^theory_text>\<open>Totp\<close>,
  \<^theory_text>\<open>TotpHandlers\<close>, \<^theory_text>\<open>TotpSafety\<close> (\<^verbatim>\<open>service/totp.go\<close>: recovery keys refine a list of keys, the second step of a log-in).

  \<^bold>\<open>Custom domains.\<close> \<^theory_text>\<open>Domains\<close>, \<^theory_text>\<open>TimedCache\<close>, \<^theory_text>\<open>DomainResolve\<close> (\<^verbatim>\<open>service/domain.go\<close> and the middleware), \<^theory_text>\<open>DomainSafety\<close>
  (runs of all operations: names have one owner, the cache shows the table of the last minute, only
  proved domains are served), \<^theory_text>\<open>DomainHandlers\<close> (owners change their own domains; requests are steps of the runs),
  \<^theory_text>\<open>DomainLinks\<close> (with the redirect: a custom host leads to its owner's links and no others).

  \<^bold>\<open>Scheduler.\<close> \<^theory_text>\<open>Cron\<close>, \<^theory_text>\<open>CronParse\<close>, \<^theory_text>\<open>CronNext\<close> (\<^verbatim>\<open>cronexpr.go\<close>: what is parsed, and that the next time is the first
  match), \<^theory_text>\<open>Scheduler\<close>, \<^theory_text>\<open>SchedulerRuns\<close>, \<^theory_text>\<open>SchedulerLock\<close> (\<^verbatim>\<open>scheduler.go\<close>, \<^verbatim>\<open>admin.go\<close>: rows and memory agree,
  one node runs a global task).

  \<^bold>\<open>Bounds and fuel.\<close> \<open>JSON_parse\<close> takes twice the length of the text plus one, which \<open>JSON_parse_fuel\<close>
  shows to be enough: more changes nothing. \<open>parse_graphql\<close> takes three times the number of tokens plus three, and
  \<open>parse_graphql_ends\<close> shows that it is never used up. \<open>run_until\<close> takes the weight of the queue, and \<open>timer_client\<close>
  proves that it then ends. \<open>set_bits\<close> has its own termination proof over wrapping steps. The search of \<open>cron_Next\<close>
  looks at 366 days and a minute, as the code does; a code is drawn at most ten times, as in the code; following
  redirects takes as many steps as the path has characters, and \<open>redirects_end\<close> shows that fewer
  requests suffice.

  \<^bold>\<open>Parameters.\<close> SHA-256, Argon2id, HMAC, AES-GCM, DNS, compiled regular expressions of the configuration, the
  lookup of countries, trusted proxies, the time zone database, the parsers of timestamps and of floats, WebAuthn in the
  browser, and the answers of the network. A theorem that needs something of them says so in a hypothesis, and
  its witness uses a concrete function.

  \<^bold>\<open>Not modelled.\<close> Failures of the database, and statements of two requests that interleave, except
  where a theory says so (invites, task locks, join tokens, a suspension raced by a resolution). A click is
  stored as its visit is answered, not later by its worker. QR codes are drawn by a third-party package. Server-side passkeys, log-in providers and the ACME client
  with its certificates are calls of third-party packages. Pages of settings, templates and mails are forms over configuration and text.
  Backups, log rotation, downloads of lists and updates work on files, processes and the network. The
  Swagger bundle is third-party code.
\<close>

section \<open>The dashboard form and the server\<close>

text \<open>
  The two sides disagree on the name of the destination: the form sends
  \<open>long_url\<close>, the server's structure calls it \<open>url\<close>. So whatever is typed into the dashboard
  form, with whatever token, the server answers that the URL is invalid and stores nothing, and
  the page shows that answer as a toast.
\<close>

theorem dashboard_create_rejected:
  "CreateURL_handler hash draw parse_time now'
     \<lparr>cc_content_type = ''application/json'', cc_form = None,
      cc_body = (case JSON_parse (create_body p) of JSON_Value j \<Rightarrow> Some j | _ \<Rightarrow> None), cc_token = tok\<rparr> db =
     (Api_Error 400 ''Invalid URL'', db) \<and>
   create_submit (Response_Text (encode_json (respondError 400 ''Invalid URL''))) l = showToast ''Invalid URL'' ''danger'' l"
proof
  let ?ms = "[(''long_url'', JStr (f_long_url p))] @
    (if f_custom_code p \<noteq> [] then [(''custom_code'', JStr (f_custom_code p))] else [])"
  have "JSON_parse (create_body p) = JSON_Value (JObj ?ms)" unfolding create_body_def by (rule JSON_parse_stringify)
  moreover have "\<exists>req. decode_members (create_field parse_time) ?ms empty_request = Some req \<and> cr_long_url req = []"
    by (simp add: create_field_def no_url_member empty_request_def)
  ultimately show "CreateURL_handler hash draw parse_time now'
     \<lparr>cc_content_type = ''application/json'', cc_form = None,
      cc_body = (case JSON_parse (create_body p) of JSON_Value j \<Rightarrow> Some j | _ \<Rightarrow> None), cc_token = tok\<rparr> db =
     (Api_Error 400 ''Invalid URL'', db)"
    by (auto simp: CreateURL_handler_def form_content_def decode_body_def rejected_without_url create_error_def)
  show "create_submit (Response_Text (encode_json (respondError 400 ''Invalid URL''))) l = showToast ''Invalid URL'' ''danger'' l"
    by (simp add: create_submit_def create_outcome_def JSON_parse_line create_answer_def respondError_def
        error_text_def truthy_opt_def)
qed
end
